(* ===== verification/Ledger_Prelude.thy ===== *)
theory Ledger_Prelude
  imports Main "HOL-Library.Word" "HOL-Library.Char_ord" "HOL-Library.List_Lexorder" "HOL-Library.AList" "HOL-Library.Multiset"
begin

text \<open>
  What every component of the model shares: the result type of code that may raise,
  loops that stop at the first exception, dictionaries that accumulate integers, and
  Python's decimal rendering and reading of natural numbers.

  \<^item> Code that may raise returns \<open>'e + 'a\<close>: \<open>Inl\<close> holds the exception, \<open>Inr\<close> the value.
  \<^item> A \<open>for\<close> loop whose body may raise is \<open>foldE\<close>; a comprehension that may raise is \<open>mapE\<close>.
  \<^item> A \<open>dict[K, int]\<close> or \<open>defaultdict(int)\<close> is an association list in insertion order.
  \<^item> A \<open>UUID\<close> is a 128-bit word, compared as the integer \<open>UUID.int\<close>.
  \<^item> A timezone-aware \<open>datetime\<close> is the instant it denotes, in microseconds.
  \<^item> A \<open>str\<close> is a list of characters; the patterns of the code are all ASCII.
\<close>

type_synonym uuid = "128 word"
type_synonym instant = int

named_theorems result_simps "equations that decide when a raising computation returns"
named_theorems counter_simps "equations for integer-valued dictionaries"
named_theorems decimal_simps "equations for decimal strings"

section \<open>Computations that may raise\<close>

definition rbind :: "'e + 'a \<Rightarrow> ('a \<Rightarrow> 'e + 'b) \<Rightarrow> 'e + 'b" where
  "rbind r f = (case r of Inl e \<Rightarrow> Inl e | Inr a \<Rightarrow> f a)"

lemma rbind_Inl [simp]: "rbind (Inl e) f = Inl e"
  by (simp add: rbind_def)

lemma rbind_Inr [simp]: "rbind (Inr a) f = f a"
  by (simp add: rbind_def)

lemma rbind_eq_Inr [result_simps]:
  "rbind r f = Inr b \<longleftrightarrow> (\<exists>a. r = Inr a \<and> f a = Inr b)"
  by (cases r) simp_all

lemma rbind_eq_Inl [result_simps]:
  "rbind r f = Inl e \<longleftrightarrow> r = Inl e \<or> (\<exists>a. r = Inr a \<and> f a = Inl e)"
  by (cases r) simp_all

lemma if_raise_eq_Inr [result_simps]:
  "(if c then Inl e else r) = Inr b \<longleftrightarrow> \<not> c \<and> r = Inr b"
  by simp

lemma rbind_cong [fundef_cong]:
  "r = r' \<Longrightarrow> (\<And>a. r' = Inr a \<Longrightarrow> f a = g a) \<Longrightarrow> rbind r f = rbind r' g"
  by (cases r') simp_all

lemma rbind_assoc: "rbind (rbind r f) g = rbind r (\<lambda>a. rbind (f a) g)"
  by (cases r) simp_all

primrec foldE :: "('s \<Rightarrow> 'a \<Rightarrow> 'e + 's) \<Rightarrow> 's \<Rightarrow> 'a list \<Rightarrow> 'e + 's" where
  "foldE f s [] = Inr s"
| "foldE f s (x # xs) = rbind (f s x) (\<lambda>s'. foldE f s' xs)"

primrec mapE :: "('a \<Rightarrow> 'e + 'b) \<Rightarrow> 'a list \<Rightarrow> 'e + 'b list" where
  "mapE f [] = Inr []"
| "mapE f (x # xs) = rbind (f x) (\<lambda>y. rbind (mapE f xs) (\<lambda>ys. Inr (y # ys)))"

text \<open>A loop that only checks: the first failing element decides the exception.\<close>

primrec checkE :: "('a \<Rightarrow> 'e + unit) \<Rightarrow> 'a list \<Rightarrow> 'e + unit" where
  "checkE f [] = Inr ()"
| "checkE f (x # xs) = rbind (f x) (\<lambda>_. checkE f xs)"

lemma foldE_append: "foldE f s (xs @ ys) = rbind (foldE f s xs) (\<lambda>s'. foldE f s' ys)"
  by (induction xs arbitrary: s) (simp_all add: rbind_assoc)

lemma foldE_snoc: "foldE f s (xs @ [x]) = rbind (foldE f s xs) (\<lambda>s'. f s' x)"
  by (cases "foldE f s xs") (simp_all add: foldE_append rbind_def split: sum.splits)

lemma mapE_Inr_iff [result_simps]:
  "mapE f xs = Inr ys \<longleftrightarrow> list_all2 (\<lambda>x y. f x = Inr y) xs ys"
proof (induction xs arbitrary: ys)
  case Nil
  then show ?case by auto
next
  case (Cons x xs)
  then show ?case by (cases ys) (auto simp: result_simps)
qed

lemma mapE_pure: "mapE (\<lambda>x. Inr (f x)) xs = Inr (map f xs)"
  by (induction xs) simp_all

lemma mapE_append:
  "mapE f (xs @ ys) = rbind (mapE f xs) (\<lambda>us. rbind (mapE f ys) (\<lambda>vs. Inr (us @ vs)))"
  by (induction xs) (simp_all add: rbind_def split: sum.splits)

lemma mapE_length: "mapE f xs = Inr ys \<Longrightarrow> length ys = length xs"
  by (simp add: mapE_Inr_iff list_all2_lengthD)

lemma checkE_Inr_iff [result_simps]: "checkE f xs = Inr u \<longleftrightarrow> (\<forall>x\<in>set xs. f x = Inr ())"
  by (induction xs) (auto simp: result_simps)

text \<open>Which element raised, and that every element before it did not.\<close>

lemma foldE_Inl_D:
  "foldE f s xs = Inl e \<Longrightarrow> \<exists>ys x zs t. xs = ys @ x # zs \<and> foldE f s ys = Inr t \<and> f t x = Inl e"
proof (induction xs arbitrary: s)
  case Nil
  then show ?case by simp
next
  case (Cons x xs)
  show ?case
  proof (cases "f s x")
    case (Inl d)
    with Cons.prems show ?thesis by (intro exI [of _ "[]"]) auto
  next
    case (Inr t)
    with Cons.prems obtain ys y zs u where "xs = ys @ y # zs" "foldE f t ys = Inr u" "f u y = Inl e"
      using Cons.IH [of t] by auto
    with Inr have "x # xs = (x # ys) @ y # zs" "foldE f s (x # ys) = Inr u" "f u y = Inl e"
      by simp_all
    then show ?thesis by blast
  qed
qed

lemma checkE_Inl_D: "checkE f xs = Inl e \<Longrightarrow> \<exists>x\<in>set xs. f x = Inl e"
  by (induction xs) (auto simp: result_simps)

lemma mapE_Inl_D: "mapE f xs = Inl e \<Longrightarrow> \<exists>x\<in>set xs. f x = Inl e"
  by (induction xs) (auto simp: result_simps)

text \<open>A loop body that keeps an invariant, once and for all: the clients interpret it.\<close>

locale checked_loop =
  fixes step :: "'s \<Rightarrow> 'a \<Rightarrow> 'e + 's"
    and item_ok :: "'a \<Rightarrow> bool"
    and inv :: "'s \<Rightarrow> bool"
  assumes step_keeps: "inv s \<Longrightarrow> item_ok x \<Longrightarrow> step s x = Inr s' \<Longrightarrow> inv s'"
begin

lemma loop_keeps:
  "inv s \<Longrightarrow> \<forall>x\<in>set xs. item_ok x \<Longrightarrow> foldE step s xs = Inr s' \<Longrightarrow> inv s'"
proof (induction xs arbitrary: s)
  case Nil
  then show ?case by simp
next
  case (Cons x xs)
  from Cons.prems(3) obtain t where t: "step s x = Inr t" and rest: "foldE step t xs = Inr s'"
    by (auto simp: result_simps)
  from Cons.prems(1,2) t have "inv t" by (auto intro: step_keeps)
  with Cons.prems(2) rest show ?case by (auto intro: Cons.IH)
qed

end

section \<open>Dictionaries of integers\<close>

text \<open>
  \<open>cget d k\<close> is \<open>d.get(k, 0)\<close> and \<open>cadd k n d\<close> is \<open>d[k] = d.get(k, 0) + n\<close>, which is also
  \<open>d[k] += n\<close> on a \<open>defaultdict(int)\<close>; a new key goes to the end, as in a Python dict.
\<close>

type_synonym 'k counter = "('k \<times> int) list"

definition cget :: "'k counter \<Rightarrow> 'k \<Rightarrow> int" where
  "cget d k = (case map_of d k of None \<Rightarrow> 0 | Some n \<Rightarrow> n)"

definition cadd :: "'k \<Rightarrow> int \<Rightarrow> 'k counter \<Rightarrow> 'k counter" where
  "cadd k n d = AList.update k (cget d k + n) d"

abbreviation ckeys :: "'k counter \<Rightarrow> 'k set" where
  "ckeys d \<equiv> fst ` set d"

lemma cget_Nil [simp]: "cget [] k = 0"
  by (simp add: cget_def)

lemma cget_cadd [counter_simps]: "cget (cadd k n d) k' = cget d k' + (if k' = k then n else 0)"
  by (simp add: cget_def cadd_def update_conv')

lemma ckeys_cadd [counter_simps]: "ckeys (cadd k n d) = insert k (ckeys d)"
  by (simp add: cadd_def dom_update)

lemma distinct_cadd [counter_simps]: "distinct (map fst d) \<Longrightarrow> distinct (map fst (cadd k n d))"
  by (simp add: cadd_def distinct_update)

lemma cget_notin: "k \<notin> ckeys d \<Longrightarrow> cget d k = 0"
  by (metis cget_def map_of_eq_None_iff option.simps(4))

lemma cget_mem: "distinct (map fst d) \<Longrightarrow> (k, n) \<in> set d \<Longrightarrow> cget d k = n"
  by (simp add: cget_def)

lemma mem_cget: "distinct (map fst d) \<Longrightarrow> (k, n) \<in> set d \<longleftrightarrow> k \<in> ckeys d \<and> cget d k = n"
  by (auto simp: cget_mem intro: rev_image_eqI)

lemma list_ex_values:
  "distinct (map fst d) \<Longrightarrow> list_ex (\<lambda>(_, n). P n) d \<longleftrightarrow> (\<exists>k\<in>ckeys d. P (cget d k))"
proof -
  assume d: "distinct (map fst d)"
  have "list_ex (\<lambda>(_, n). P n) d \<longleftrightarrow> (\<exists>k n. (k, n) \<in> set d \<and> P n)"
    by (auto simp: list_ex_iff)
  also have "\<dots> \<longleftrightarrow> (\<exists>k n. (k \<in> ckeys d \<and> cget d k = n) \<and> P n)"
    unfolding mem_cget [OF d] ..
  finally show ?thesis by blast
qed

text \<open>The loop \<open>for x in xs: d[key(x)] += val(x)\<close> and its closed form.\<close>

definition ctally :: "('a \<Rightarrow> 'k) \<Rightarrow> ('a \<Rightarrow> int) \<Rightarrow> 'a list \<Rightarrow> 'k counter \<Rightarrow> 'k counter" where
  "ctally key val xs d = fold (\<lambda>x. cadd (key x) (val x)) xs d"

definition total_for :: "('a \<Rightarrow> 'k) \<Rightarrow> ('a \<Rightarrow> int) \<Rightarrow> 'k \<Rightarrow> 'a list \<Rightarrow> int" where
  "total_for key val k xs = sum_list (map val (filter (\<lambda>x. key x = k) xs))"

lemma total_for_simps [simp]:
  "total_for key val k [] = 0"
  "total_for key val k (x # xs) = (if key x = k then val x else 0) + total_for key val k xs"
  "total_for key val k (xs @ ys) = total_for key val k xs + total_for key val k ys"
  by (simp_all add: total_for_def)

lemma ctally_simps [simp]:
  "ctally key val [] d = d"
  "ctally key val (x # xs) d = ctally key val xs (cadd (key x) (val x) d)"
  "ctally key val (xs @ ys) d = ctally key val ys (ctally key val xs d)"
  by (simp_all add: ctally_def)

lemma cget_ctally [counter_simps]:
  "cget (ctally key val xs d) k = cget d k + total_for key val k xs"
  by (induction xs arbitrary: d) (simp_all add: counter_simps)

lemma ckeys_ctally [counter_simps]: "ckeys (ctally key val xs d) = ckeys d \<union> key ` set xs"
  by (induction xs arbitrary: d) (auto simp: counter_simps simp del: image_insert)

lemma distinct_ctally [counter_simps]:
  "distinct (map fst d) \<Longrightarrow> distinct (map fst (ctally key val xs d))"
  by (induction xs arbitrary: d) (simp_all add: counter_simps)

lemma total_for_notin: "k \<notin> key ` set xs \<Longrightarrow> total_for key val k xs = 0"
  by (induction xs) auto

lemma total_for_mset: "mset xs = mset ys \<Longrightarrow> total_for key val k xs = total_for key val k ys"
proof -
  assume "mset xs = mset ys"
  then have "mset (map val (filter (\<lambda>x. key x = k) xs)) = mset (map val (filter (\<lambda>x. key x = k) ys))"
    by simp
  then have "sum_mset (mset (map val (filter (\<lambda>x. key x = k) xs)))
      = sum_mset (mset (map val (filter (\<lambda>x. key x = k) ys)))" by (rule arg_cong)
  then show ?thesis by (simp only: sum_mset_sum_list total_for_def)
qed

section \<open>Decimal strings\<close>

definition is_digit :: "char \<Rightarrow> bool" where
  "is_digit c \<longleftrightarrow> 48 \<le> (of_char c :: nat) \<and> (of_char c :: nat) \<le> 57"

definition digit_val :: "char \<Rightarrow> nat" where
  "digit_val c = of_char c - 48"

definition digit_chr :: "nat \<Rightarrow> char" where
  "digit_chr d = char_of (48 + d)"

text \<open>\<open>int(s)\<close> on a string of digits and \<open>str(n)\<close> on a natural number.\<close>

definition str_nat :: "string \<Rightarrow> nat" where
  "str_nat s = foldl (\<lambda>a c. 10 * a + digit_val c) 0 s"

fun nat_str :: "nat \<Rightarrow> string" where
  "nat_str n = (if n < 10 then [digit_chr n] else nat_str (n div 10) @ [digit_chr (n mod 10)])"

declare nat_str.simps [simp del]

lemma of_digit_chr: "d < 10 \<Longrightarrow> of_char (digit_chr d) = 48 + d"
  by (simp add: digit_chr_def)

lemma digit_val_chr [decimal_simps]: "d < 10 \<Longrightarrow> digit_val (digit_chr d) = d"
  by (simp add: digit_val_def of_digit_chr)

lemma is_digit_chr [decimal_simps]: "d < 10 \<Longrightarrow> is_digit (digit_chr d)"
  by (simp add: is_digit_def of_digit_chr)

lemma digit_chr_val [decimal_simps]: "is_digit c \<Longrightarrow> digit_chr (digit_val c) = c"
  by (simp add: is_digit_def digit_val_def digit_chr_def)

lemma digit_val_bound [decimal_simps]: "is_digit c \<Longrightarrow> digit_val c < 10"
  by (auto simp: is_digit_def digit_val_def)

lemma digit_chr_0 [simp]: "digit_chr 0 = CHR ''0''"
proof -
  have "char_of (of_char (CHR ''0'') :: nat) = CHR ''0''" by (rule char_of_char)
  then show ?thesis by (simp add: digit_chr_def)
qed

lemma is_digit_literals [simp]:
  "is_digit CHR ''0''" "\<not> is_digit CHR ''.''" "digit_val CHR ''0'' = 0"
  by (simp_all add: is_digit_def digit_val_def)

lemma digit_val_0_iff [decimal_simps]: "is_digit c \<Longrightarrow> digit_val c = 0 \<longleftrightarrow> c = CHR ''0''"
  by (metis digit_chr_val digit_chr_0 is_digit_literals(3))

lemma str_nat_Nil [simp]: "str_nat [] = 0"
  by (simp add: str_nat_def)

lemma str_nat_snoc [simp]: "str_nat (s @ [c]) = 10 * str_nat s + digit_val c"
  by (simp add: str_nat_def)

lemma str_nat_append: "str_nat (s @ t) = str_nat s * 10 ^ length t + str_nat t"
  by (induction t rule: rev_induct)
     (simp_all add: algebra_simps flip: append_assoc)

lemma str_nat_Cons: "str_nat (c # t) = digit_val c * 10 ^ length t + str_nat t"
  using str_nat_append [of "[c]" t] by (simp add: str_nat_def)

lemma str_nat_zeros [simp]: "str_nat (replicate n CHR ''0'') = 0"
  by (induction n) (simp_all add: str_nat_Cons)

lemma str_nat_bound: "list_all is_digit s \<Longrightarrow> str_nat s < 10 ^ length s"
proof (induction s rule: rev_induct)
  case Nil
  then show ?case by simp
next
  case (snoc c s)
  then have "str_nat s < 10 ^ length s" "digit_val c < 10" by (simp_all add: decimal_simps)
  then show ?case by simp
qed

lemma nat_str_digits: "list_all is_digit (nat_str n)"
  by (induction n rule: nat_str.induct) (subst nat_str.simps, simp add: decimal_simps)

lemma nat_str_nonempty [simp]: "nat_str n \<noteq> []"
  by (subst nat_str.simps) simp

lemma str_nat_nat_str [simp]: "str_nat (nat_str n) = n"
proof (induction n rule: nat_str.induct)
  case (1 n)
  show ?case
  proof (cases "n < 10")
    case True
    then show ?thesis by (subst nat_str.simps) (simp add: str_nat_def digit_val_chr)
  next
    case False
    with "1.IH" have "str_nat (nat_str (n div 10)) = n div 10" by simp
    with False show ?thesis by (subst nat_str.simps) (simp add: digit_val_chr)
  qed
qed

lemma hd_nat_str: "0 < n \<Longrightarrow> hd (nat_str n) \<noteq> CHR ''0''"
proof (induction n rule: nat_str.induct)
  case (1 n)
  show ?case
  proof (cases "n < 10")
    case True
    with "1.prems" have "digit_chr n \<noteq> CHR ''0''"
      by (metis digit_val_chr is_digit_literals(3) less_numeral_extra(3))
    with True show ?thesis by (subst nat_str.simps) simp
  next
    case False
    with "1.IH" have "hd (nat_str (n div 10)) \<noteq> CHR ''0''" by simp
    with False show ?thesis by (subst nat_str.simps) simp
  qed
qed

lemma nat_str_str_nat:
  "list_all is_digit s \<Longrightarrow> s \<noteq> [] \<Longrightarrow> hd s \<noteq> CHR ''0'' \<Longrightarrow> nat_str (str_nat s) = s"
proof (induction s rule: rev_induct)
  case Nil
  then show ?case by simp
next
  case (snoc c s)
  then have c: "is_digit c" and s: "list_all is_digit s" by simp_all
  show ?case
  proof (cases s)
    case Nil
    with c show ?thesis
      by (subst nat_str.simps) (simp add: str_nat_def decimal_simps)
  next
    case (Cons d s')
    with snoc s have IH: "nat_str (str_nat s) = s" and hd: "hd s \<noteq> CHR ''0''" by simp_all
    from Cons s hd have "is_digit d" "d \<noteq> CHR ''0''" by simp_all
    then have "0 < digit_val d" by (metis digit_val_0_iff gr0I)
    then have "0 < str_nat s" using Cons by (simp add: str_nat_Cons)
    moreover have "digit_val c < 10" using c by (simp add: decimal_simps)
    ultimately show ?thesis using IH c
      by (subst nat_str.simps) (simp add: decimal_simps)
  qed
qed

lemma length_nat_str_le: "0 < k \<Longrightarrow> length (nat_str n) \<le> k \<longleftrightarrow> n < 10 ^ k"
proof (induction k arbitrary: n)
  case 0
  then show ?case by simp
next
  case (Suc k)
  show ?case
  proof (cases "n < 10")
    case True
    have "(10::nat) \<le> 10 ^ Suc k" by simp
    with True have "n < 10 ^ Suc k" by linarith
    with True show ?thesis by (subst nat_str.simps) simp
  next
    case False
    show ?thesis
    proof (cases "k = 0")
      case True
      with False show ?thesis by (subst nat_str.simps) simp
    next
      case k: False
      have "n < 10 * 10 ^ k \<longleftrightarrow> n div 10 < 10 ^ k" by (simp add: div_less_iff_less_mult mult.commute)
      with False k Suc.IH [of "n div 10"] show ?thesis by (subst nat_str.simps) simp
    qed
  qed
qed

lemma no_dot_in_digits: "list_all is_digit s \<Longrightarrow> CHR ''.'' \<notin> set s"
  by (induction s) auto

text \<open>\<open>s.lstrip("0")\<close>, \<open>s.rstrip("0")\<close>, \<open>s.ljust(n, "0")\<close> and \<open>s.zfill(n)\<close>.\<close>

definition lstrip0 :: "string \<Rightarrow> string" where
  "lstrip0 s = dropWhile (\<lambda>c. c = CHR ''0'') s"

definition rstrip0 :: "string \<Rightarrow> string" where
  "rstrip0 s = rev (dropWhile (\<lambda>c. c = CHR ''0'') (rev s))"

definition ljust0 :: "nat \<Rightarrow> string \<Rightarrow> string" where
  "ljust0 n s = s @ replicate (n - length s) CHR ''0''"

definition zfill :: "nat \<Rightarrow> string \<Rightarrow> string" where
  "zfill n s = replicate (n - length s) CHR ''0'' @ s"

lemma lstrip0_split: "\<exists>n. s = replicate n CHR ''0'' @ lstrip0 s"
proof (induction s)
  case Nil
  then show ?case by (simp add: lstrip0_def)
next
  case (Cons c s)
  then obtain n where n: "s = replicate n CHR ''0'' @ lstrip0 s" by blast
  show ?case
  proof (cases "c = CHR ''0''")
    case True
    with n have "c # s = replicate (Suc n) CHR ''0'' @ lstrip0 (c # s)" by (simp add: lstrip0_def)
    then show ?thesis by blast
  next
    case False
    then have "c # s = replicate 0 CHR ''0'' @ lstrip0 (c # s)" by (simp add: lstrip0_def)
    then show ?thesis by blast
  qed
qed

lemma str_nat_lstrip0 [simp]: "str_nat (lstrip0 s) = str_nat s"
proof -
  obtain n where "s = replicate n CHR ''0'' @ lstrip0 s" using lstrip0_split by blast
  then have "str_nat s = str_nat (replicate n CHR ''0'' @ lstrip0 s)" by simp
  also have "\<dots> = str_nat (lstrip0 s)" by (simp add: str_nat_append)
  finally show ?thesis by simp
qed

lemma lstrip0_digits: "list_all is_digit s \<Longrightarrow> list_all is_digit (lstrip0 s)"
  by (auto simp: lstrip0_def list_all_iff dest: set_dropWhileD)

lemma hd_lstrip0: "lstrip0 s \<noteq> [] \<Longrightarrow> hd (lstrip0 s) \<noteq> CHR ''0''"
  unfolding lstrip0_def by (rule hd_dropWhile)

lemma lstrip0_zeros_append:
  "hd s \<noteq> CHR ''0'' \<Longrightarrow> lstrip0 (replicate n CHR ''0'' @ s) = s"
  by (induction n) (cases s, simp_all add: lstrip0_def)

lemma lstrip0_canonical: "list_all is_digit s \<Longrightarrow> lstrip0 s \<noteq> [] \<Longrightarrow> nat_str (str_nat s) = lstrip0 s"
  using nat_str_str_nat [of "lstrip0 s"] by (simp add: lstrip0_digits hd_lstrip0)

lemma lstrip0_empty_iff: "list_all is_digit s \<Longrightarrow> lstrip0 s = [] \<longleftrightarrow> str_nat s = 0"
proof
  assume "lstrip0 s = []"
  then show "str_nat s = 0" using str_nat_lstrip0 [of s] by simp
next
  assume d: "list_all is_digit s" and z: "str_nat s = 0"
  show "lstrip0 s = []"
  proof (rule ccontr)
    assume ne: "lstrip0 s \<noteq> []"
    with d z have "lstrip0 s = nat_str 0" by (simp flip: lstrip0_canonical)
    then have "hd (lstrip0 s) = CHR ''0''" by (simp add: nat_str.simps)
    with ne show False using hd_lstrip0 by blast
  qed
qed

lemma rstrip0_restore: "ljust0 (length s) (rstrip0 s) = s"
proof -
  obtain n where n: "rev s = replicate n CHR ''0'' @ lstrip0 (rev s)" using lstrip0_split by blast
  have r: "rstrip0 s = rev (lstrip0 (rev s))" by (simp add: rstrip0_def lstrip0_def)
  from n have "rev (rev s) = rev (replicate n CHR ''0'' @ lstrip0 (rev s))" by simp
  then have s: "s = rstrip0 s @ replicate n CHR ''0''" by (simp add: r)
  then have "length s = length (rstrip0 s) + n" by (metis length_append length_replicate)
  then have "replicate (length s - length (rstrip0 s)) CHR ''0'' = replicate n CHR ''0''" by simp
  with s show ?thesis by (simp add: ljust0_def)
qed

lemma rstrip0_digits: "list_all is_digit s \<Longrightarrow> list_all is_digit (rstrip0 s)"
  by (auto simp: rstrip0_def list_all_iff dest: set_dropWhileD)

lemma rstrip0_length: "length (rstrip0 s) \<le> length s"
  by (metis length_dropWhile_le length_rev rstrip0_def)

text \<open>\<open>str(n)\<close> on an integer.\<close>

definition int_str :: "int \<Rightarrow> string" where
  "int_str n = (if n < 0 then CHR ''-'' # nat_str (nat (- n)) else nat_str (nat n))"

lemma nat_str_inj: "nat_str m = nat_str n \<Longrightarrow> m = n"
  using str_nat_nat_str by metis

lemma int_str_inj: "int_str m = int_str n \<Longrightarrow> m = n"
proof -
  have h: "hd (nat_str k) \<noteq> CHR ''-''" for k
  proof -
    have "nat_str k \<noteq> []" "list_all is_digit (nat_str k)"
      by (simp_all add: nat_str_digits)
    then have "is_digit (hd (nat_str k))" by (cases "nat_str k") simp_all
    then show ?thesis by (auto simp: is_digit_def)
  qed
  then have d: "CHR ''-'' # s \<noteq> nat_str k" for s k by (metis list.sel(1))
  assume "int_str m = int_str n"
  then show "m = n" using d d [symmetric]
    by (auto simp: int_str_def dest!: nat_str_inj split: if_splits)
qed

lemma int_str_not_Nil [simp]: "int_str n \<noteq> []"
  by (simp add: int_str_def)

section \<open>Hexadecimal and UUID text\<close>

definition hex_chr :: "nat \<Rightarrow> char" where
  "hex_chr n = (if n < 10 then char_of (48 + n) else char_of (87 + n))"

primrec hex_fixed :: "nat \<Rightarrow> nat \<Rightarrow> string" where
  "hex_fixed 0 n = []"
| "hex_fixed (Suc w) n = hex_fixed w (n div 16) @ [hex_chr (n mod 16)]"

text \<open>\<open>str(uuid)\<close>: 32 lower-case hexadecimal digits in groups of 8, 4, 4, 4 and 12.\<close>

definition uuid_str :: "uuid \<Rightarrow> string" where
  "uuid_str u =
     (let h = hex_fixed 32 (unat u)
      in take 8 h @ ''-'' @ take 4 (drop 8 h) @ ''-'' @ take 4 (drop 12 h) @ ''-''
         @ take 4 (drop 16 h) @ ''-'' @ drop 20 h)"

lemma length_hex_fixed [simp]: "length (hex_fixed w n) = w"
  by (induction w arbitrary: n) simp_all

lemma hex_chr_inj: "m < 16 \<Longrightarrow> n < 16 \<Longrightarrow> hex_chr m = hex_chr n \<Longrightarrow> m = n"
proof -
  have c: "of_char (hex_chr k) = (if k < 10 then 48 + k else 87 + k)" if "k < 16" for k :: nat
    using that by (simp add: hex_chr_def)
  assume "m < 16" "n < 16" "hex_chr m = hex_chr n"
  then have "(if m < 10 then 48 + m else 87 + m) = (if n < 10 then 48 + n else 87 + n)"
    using c [of m] c [of n] by simp
  with \<open>m < 16\<close> \<open>n < 16\<close> show "m = n" by (auto split: if_splits)
qed

lemma hex_fixed_inj: "m < 16 ^ w \<Longrightarrow> n < 16 ^ w \<Longrightarrow> hex_fixed w m = hex_fixed w n \<Longrightarrow> m = n"
proof (induction w arbitrary: m n)
  case 0
  then show ?case by simp
next
  case (Suc w)
  from Suc.prems(3) have "hex_fixed w (m div 16) = hex_fixed w (n div 16)"
    and "hex_chr (m mod 16) = hex_chr (n mod 16)" by simp_all
  moreover have "m div 16 < 16 ^ w" "n div 16 < 16 ^ w"
    using Suc.prems(1,2) by (simp_all add: div_less_iff_less_mult mult.commute)
  ultimately have "m div 16 = n div 16" "m mod 16 = n mod 16"
    using Suc.IH hex_chr_inj by (blast, simp add: hex_chr_inj)
  then show ?case by (metis div_mult_mod_eq)
qed

lemma uuid_str_inj: "uuid_str u = uuid_str v \<Longrightarrow> u = v"
proof -
  assume eq: "uuid_str u = uuid_str v"
  have parts: "h = take 8 h @ take 4 (drop 8 h) @ take 4 (drop 12 h) @ take 4 (drop 16 h) @ drop 20 h"
    for h :: string
  proof -
    have "drop 8 h = take 4 (drop 8 h) @ drop 12 h" using append_take_drop_id [of 4 "drop 8 h"] by simp
    moreover have "drop 12 h = take 4 (drop 12 h) @ drop 16 h"
      using append_take_drop_id [of 4 "drop 12 h"] by simp
    moreover have "drop 16 h = take 4 (drop 16 h) @ drop 20 h"
      using append_take_drop_id [of 4 "drop 16 h"] by simp
    ultimately show ?thesis by (metis append_take_drop_id)
  qed
  have "hex_fixed 32 (unat u) = hex_fixed 32 (unat v)"
    using eq parts [of "hex_fixed 32 (unat u)"] parts [of "hex_fixed 32 (unat v)"]
    by (simp add: uuid_str_def Let_def)
  moreover have "unat w < 16 ^ 32" for w :: uuid
  proof -
    have "unat w < 2 ^ LENGTH(128)" by (rule unsigned_less)
    then show ?thesis by simp
  qed
  ultimately have "unat u = unat v" by (blast intro: hex_fixed_inj)
  then show "u = v" by (rule word_unat_eq_iff [THEN iffD2])
qed

end
