(* ===== verification/Canonical_JSON.thy ===== *)
theory Canonical_JSON
  imports Ledger_Prelude
begin

text \<open>
  The canonical JSON of \<open>serialization/canonical_json.py\<close>: the proof that a value is plain JSON
  (\<open>_prove_json_value\<close>), the compact rendering with sorted keys that \<open>json.dumps\<close> makes of it,
  and its UTF-8 bytes. A Python \<open>str\<close> is here a list of code points, a \<open>dict\<close> an association list
  in insertion order; a value with a cycle, a float or a key that is not a string is not in the type.
\<close>

section \<open>Values\<close>

type_synonym code_points = "nat list"
type_synonym byte = "8 word"

datatype json =
    JNull
  | JBool bool
  | JInt int
  | JStr code_points
  | JList "json list"
  | JObj "(code_points \<times> json) list"

datatype json_error = JsonValueError

definition code_points :: "string \<Rightarrow> code_points" where
  "code_points s = map of_char s"

definition jstr :: "string \<Rightarrow> json" where
  "jstr s = JStr (code_points s)"

definition CANONICAL_INTEGER_ABS_LIMIT :: int where
  "CANONICAL_INTEGER_ABS_LIMIT = 10 ^ 512"

definition validate_text :: "code_points \<Rightarrow> json_error + unit" where
  "validate_text value =
     (if list_ex (\<lambda>c. 0xd800 \<le> c \<and> c \<le> 0xdfff) value then Inl JsonValueError else Inr ())"

fun prove_json_value :: "json \<Rightarrow> json_error + unit"
  and prove_members :: "(code_points \<times> json) list \<Rightarrow> json_error + unit"
  and prove_items :: "json list \<Rightarrow> json_error + unit" where
  "prove_json_value JNull = Inr ()"
| "prove_json_value (JBool _) = Inr ()"
| "prove_json_value (JInt value) =
     (if value \<le> - CANONICAL_INTEGER_ABS_LIMIT \<or> CANONICAL_INTEGER_ABS_LIMIT \<le> value
      then Inl JsonValueError else Inr ())"
| "prove_json_value (JStr value) = validate_text value"
| "prove_json_value (JList items) = prove_items items"
| "prove_json_value (JObj members) = prove_members members"
| "prove_members [] = Inr ()"
| "prove_members ((key, item) # members) =
     rbind (validate_text key) (\<lambda>_. rbind (prove_json_value item) (\<lambda>_. prove_members members))"
| "prove_items [] = Inr ()"
| "prove_items (item # items) = rbind (prove_json_value item) (\<lambda>_. prove_items items)"

section \<open>Rendering\<close>

text \<open>\<open>json.dumps\<close> with \<open>ensure_ascii=False\<close> escapes the quote, the backslash and the controls.\<close>

definition escape_char :: "nat \<Rightarrow> code_points" where
  "escape_char c =
     (if c = 0x22 then [0x5c, 0x22]
      else if c = 0x5c then [0x5c, 0x5c]
      else if c = 0x0a then [0x5c, 0x6e]
      else if c = 0x0d then [0x5c, 0x72]
      else if c = 0x09 then [0x5c, 0x74]
      else if c = 0x0c then [0x5c, 0x66]
      else if c = 0x08 then [0x5c, 0x62]
      else if c < 0x20 then [0x5c, 0x75] @ code_points (hex_fixed 4 c)
      else [c])"

definition quote :: "code_points \<Rightarrow> code_points" where
  "quote s = [0x22] @ concat (map escape_char s) @ [0x22]"

fun join :: "code_points \<Rightarrow> code_points list \<Rightarrow> code_points" where
  "join separator [] = []"
| "join separator [x] = x"
| "join separator (x # xs) = x @ separator @ join separator xs"

fun dumps :: "json \<Rightarrow> code_points" where
  "dumps JNull = code_points ''null''"
| "dumps (JBool True) = code_points ''true''"
| "dumps (JBool False) = code_points ''false''"
| "dumps (JInt n) = code_points (int_str n)"
| "dumps (JStr s) = quote s"
| "dumps (JList items) = [0x5b] @ join [0x2c] (map dumps items) @ [0x5d]"
| "dumps (JObj members) =
     [0x7b] @ join [0x2c] (map (\<lambda>(key, text). quote key @ [0x3a] @ text)
       (sort_key fst (map (\<lambda>(key, item). (key, dumps item)) members))) @ [0x7d]"

text \<open>\<open>str.encode("utf-8")\<close> on code points that are not surrogates.\<close>

definition utf8_units :: "nat \<Rightarrow> nat list" where
  "utf8_units c =
     (if c < 0x80 then [c]
      else if c < 0x800 then [0xc0 + c div 64, 0x80 + c mod 64]
      else if c < 0x10000 then [0xe0 + c div 4096, 0x80 + c div 64 mod 64, 0x80 + c mod 64]
      else [0xf0 + c div 262144, 0x80 + c div 4096 mod 64, 0x80 + c div 64 mod 64, 0x80 + c mod 64])"

definition utf8 :: "code_points \<Rightarrow> byte list" where
  "utf8 s = map word_of_nat (concat (map utf8_units s))"

definition canonical_json_bytes :: "json \<Rightarrow> json_error + byte list" where
  "canonical_json_bytes value = rbind (prove_json_value value) (\<lambda>_. Inr (utf8 (dumps value)))"

section \<open>Python values\<close>

text \<open>
  Every code point of a Python string is at most \<open>0x10ffff\<close> and the keys of a \<open>dict\<close> differ.
  Two dictionaries are equal when they hold the same items, in whatever order they were inserted:
  \<open>normal\<close> sorts the members of every object, so equal values have the same normal form.
\<close>

definition text_ok :: "code_points \<Rightarrow> bool" where
  "text_ok s \<longleftrightarrow> list_all (\<lambda>c. c \<le> 0x10ffff) s"

fun json_ok :: "json \<Rightarrow> bool" where
  "json_ok (JStr s) = text_ok s"
| "json_ok (JList items) = list_all json_ok items"
| "json_ok (JObj members) =
     (distinct (map fst members) \<and> list_all (\<lambda>(key, item). text_ok key \<and> json_ok item) members)"
| "json_ok _ = True"

fun normal :: "json \<Rightarrow> json" where
  "normal (JList items) = JList (map normal items)"
| "normal (JObj members) = JObj (sort_key fst (map (\<lambda>(key, item). (key, normal item)) members))"
| "normal v = v"

text \<open>The rendering of a value whose objects are already sorted.\<close>

fun emit :: "json \<Rightarrow> code_points" where
  "emit (JList items) = [0x5b] @ join [0x2c] (map emit items) @ [0x5d]"
| "emit (JObj members) =
     [0x7b] @ join [0x2c] (map (\<lambda>(key, item). quote key @ [0x3a] @ emit item) members) @ [0x7d]"
| "emit v = dumps v"

section \<open>Rendering is emitting the normal form\<close>

lemma insort_key_map: "insort_key f (g x) (map g xs) = map g (insort_key (\<lambda>x. f (g x)) x xs)"
  by (induction xs) simp_all

lemma sort_key_map: "sort_key f (map g xs) = map g (sort_key (\<lambda>x. f (g x)) xs)"
  by (induction xs) (simp_all add: insort_key_map)

abbreviation on_item :: "('a \<Rightarrow> 'b) \<Rightarrow> 'k \<times> 'a \<Rightarrow> 'k \<times> 'b" where
  "on_item f \<equiv> (\<lambda>(key, item). (key, f item))"

lemma fst_on_item: "(\<lambda>x. fst (on_item f x)) = fst"
  by auto

lemma sort_on_item: "sort_key fst (map (on_item f) xs) = map (on_item f) (sort_key fst xs)"
  by (simp add: sort_key_map fst_on_item)

lemma dumps_normal: "dumps v = emit (normal v)"
proof (induction v rule: dumps.induct)
  case (6 items)
  then show ?case by (simp cong: map_cong)
next
  case (7 members)
  have eq: "map (on_item dumps) members = map (on_item emit) (map (on_item normal) members)"
    using 7 by auto
  have "sort_key fst (map (on_item dumps) members)
      = map (on_item emit) (sort_key fst (map (on_item normal) members))"
    unfolding eq sort_on_item ..
  then have "map (\<lambda>(key, text). quote key @ [0x3a] @ text) (sort_key fst (map (on_item dumps) members))
      = map (\<lambda>(key, item). quote key @ [0x3a] @ emit item) (sort_key fst (map (on_item normal) members))"
    by (simp add: split_def comp_def)
  then show ?case by simp
qed simp_all

section \<open>Emitting can be read back\<close>

text \<open>Strings: an escaped character determines the character and where it ends.\<close>

lemma code_points_append [simp]: "code_points (s @ t) = code_points s @ code_points t"
  by (simp add: code_points_def)

lemma length_code_points [simp]: "length (code_points s) = length s"
  by (simp add: code_points_def)

lemma code_points_inj: "code_points s = code_points t \<longleftrightarrow> s = t"
  unfolding code_points_def by (rule inj_map_eq_map) (auto intro: injI)

lemma hex4_inj: "c < 0x20 \<Longrightarrow> d < 0x20 \<Longrightarrow> hex_fixed 4 c = hex_fixed 4 d \<longleftrightarrow> c = d"
  using hex_fixed_inj [of c 4 d] by auto

definition short_escape :: "nat \<Rightarrow> nat" where
  "short_escape x =
     (if x = 0x6e then 0x0a else if x = 0x72 then 0x0d else if x = 0x74 then 0x09
      else if x = 0x66 then 0x0c else if x = 0x62 then 0x08 else x)"

lemma escape_char_cases:
  obtains (short) x where "escape_char c = [0x5c, x]" "x \<noteq> 0x75" "short_escape x = c"
  | (hex) "escape_char c = [0x5c, 0x75] @ code_points (hex_fixed 4 c)" "c < 0x20"
  | (plain) "escape_char c = [c]" "c \<noteq> 0x5c"
proof -
  let ?S = "{0x22, 0x5c, 0x0a, 0x0d, 0x09, 0x0c, 0x08} :: nat set"
  show thesis
  proof (cases "c \<in> ?S")
    case True
    then have "\<exists>x. escape_char c = [0x5c, x] \<and> x \<noteq> 0x75 \<and> short_escape x = c"
      by (auto simp: escape_char_def short_escape_def)
    then show thesis using short by blast
  next
    case False
    then have "escape_char c = (if c < 0x20 then [0x5c, 0x75] @ code_points (hex_fixed 4 c) else [c])"
      by (simp add: escape_char_def)
    then show thesis using hex plain False by (cases "c < 0x20") auto
  qed
qed

lemma escape_char_inj: "escape_char c @ r = escape_char d @ t \<Longrightarrow> c = d \<and> r = t"
  by (cases c rule: escape_char_cases; cases d rule: escape_char_cases)
    (auto simp: code_points_inj hex4_inj)

lemma escape_char_head: "escape_char c \<noteq> [] \<and> hd (escape_char c @ r) \<noteq> 0x22"
  by (simp add: escape_char_def)

lemma escaped_inj:
  "concat (map escape_char s) @ 0x22 # r = concat (map escape_char t) @ 0x22 # u \<Longrightarrow> s = t \<and> r = u"
proof (induction s arbitrary: t)
  case Nil
  show ?case
  proof (cases t)
    case (Cons d t')
    have "hd (escape_char d @ concat (map escape_char t') @ 0x22 # u) = 0x22"
      using Nil Cons by (metis append.assoc append_Nil concat.simps list.map list.sel(1))
    with escape_char_head show ?thesis by blast
  qed (use Nil in simp)
next
  case (Cons c s)
  show ?case
  proof (cases t)
    case Nil
    have "hd (escape_char c @ concat (map escape_char s) @ 0x22 # r) = 0x22"
      using Nil Cons.prems by simp
    with escape_char_head show ?thesis by blast
  next
    case (Cons d t')
    then have "escape_char c @ concat (map escape_char s) @ 0x22 # r
        = escape_char d @ concat (map escape_char t') @ 0x22 # u" using Cons.prems by simp
    from escape_char_inj [OF this] Cons.IH [of t'] Cons show ?thesis by simp
  qed
qed

lemma quote_inj: "quote s @ r = quote t @ u \<Longrightarrow> s = t \<and> r = u"
proof -
  assume "quote s @ r = quote t @ u"
  then have "concat (map escape_char s) @ 0x22 # r = concat (map escape_char t) @ 0x22 # u"
    by (simp add: quote_def)
  then show ?thesis by (rule escaped_inj)
qed

text \<open>A list of elements between separators: each element says where it ends.\<close>

definition stop :: "code_points \<Rightarrow> bool" where
  "stop r \<longleftrightarrow> r = [] \<or> hd r \<in> {0, 0x2c, 0x5d, 0x7d}"

definition readable :: "('a \<Rightarrow> code_points) \<Rightarrow> 'a \<Rightarrow> bool" where
  "readable f x \<longleftrightarrow> (\<forall>y r s. f x @ r = f y @ s \<longrightarrow> stop r \<longrightarrow> stop s \<longrightarrow> x = y \<and> r = s)"

lemma readableD: "readable f x \<Longrightarrow> f x @ r = f y @ s \<Longrightarrow> stop r \<Longrightarrow> stop s \<Longrightarrow> x = y \<and> r = s"
  unfolding readable_def by simp

definition starts :: "('a \<Rightarrow> code_points) \<Rightarrow> bool" where
  "starts f \<longleftrightarrow> (\<forall>x. f x \<noteq> [] \<and> hd (f x) \<notin> {0x2c, 0x5d, 0x7d})"

lemma stop_Cons [simp]: "stop (c # r) \<longleftrightarrow> c \<in> {0, 0x2c, 0x5d, 0x7d}"
  by (simp add: stop_def)

lemma join_Cons: "join sep (x # xs) = x @ concat (map (\<lambda>y. sep @ y) xs)"
proof (induction xs arbitrary: x)
  case (Cons y ys)
  then show ?case by simp
qed simp

lemma separated_stop:
  "e \<in> {0x5d, 0x7d} \<Longrightarrow> stop (concat (map (\<lambda>y. [0x2c] @ f y) xs) @ e # r)"
  by (cases xs) auto

lemma separated_inj:
  assumes e: "e \<in> {0x5d, 0x7d}"
  shows "\<lbrakk>\<forall>x\<in>set xs. readable f x;
    concat (map (\<lambda>y. [0x2c] @ f y) xs) @ e # r = concat (map (\<lambda>y. [0x2c] @ f y) ys) @ e # s\<rbrakk>
    \<Longrightarrow> xs = ys \<and> r = s"
proof (induction xs arbitrary: ys)
  case Nil
  then show ?case using e by (cases ys) auto
next
  case (Cons x xs)
  show ?case
  proof (cases ys)
    case Nil
    then show ?thesis using Cons.prems e by auto
  next
    case (Cons y zs)
    with Cons.prems(2) have "f x @ concat (map (\<lambda>y. [0x2c] @ f y) xs) @ e # r
        = f y @ concat (map (\<lambda>y. [0x2c] @ f y) zs) @ e # s" by simp
    from readableD [where f = f and x = x and y = y, OF _ this separated_stop [OF e] separated_stop [OF e]]
      Cons.prems(1)
    have "x = y"
      "concat (map (\<lambda>y. [0x2c] @ f y) xs) @ e # r = concat (map (\<lambda>y. [0x2c] @ f y) zs) @ e # s" by simp_all
    with Cons.IH [of zs] Cons.prems(1) Cons show ?thesis by simp
  qed
qed

lemma joined_inj:
  assumes e: "e \<in> {0x5d, 0x7d}" and xs: "\<forall>x\<in>set xs. readable f x" and f: "starts f"
    and eq: "join [0x2c] (map f xs) @ e # r = join [0x2c] (map f ys) @ e # s"
  shows "xs = ys \<and> r = s"
proof (cases xs; cases ys)
  assume "xs = []" "ys = []"
  then show ?thesis using eq by simp
next
  fix y zs assume "xs = []" "ys = y # zs"
  then have "e # r = f y @ concat (map (\<lambda>y. [0x2c] @ f y) zs) @ e # s"
    using eq by (simp add: join_Cons map_map comp_def)
  then have "hd (f y) = e" using f unfolding starts_def by (metis hd_append2 list.sel(1))
  then show ?thesis using f e unfolding starts_def by auto
next
  fix x us assume "xs = x # us" "ys = []"
  then have "f x @ concat (map (\<lambda>y. [0x2c] @ f y) us) @ e # r = e # s"
    using eq by (simp add: join_Cons map_map comp_def)
  then have "hd (f x) = e" using f unfolding starts_def by (metis hd_append2 list.sel(1))
  then show ?thesis using f e unfolding starts_def by auto
next
  fix x us y zs assume c: "xs = x # us" "ys = y # zs"
  with eq have "f x @ concat (map (\<lambda>y. [0x2c] @ f y) us) @ e # r
      = f y @ concat (map (\<lambda>y. [0x2c] @ f y) zs) @ e # s" by (simp add: join_Cons map_map comp_def)
  from readableD [where f = f and x = x and y = y, OF _ this separated_stop [OF e] separated_stop [OF e]] xs c(1)
  have "x = y"
    "concat (map (\<lambda>y. [0x2c] @ f y) us) @ e # r = concat (map (\<lambda>y. [0x2c] @ f y) zs) @ e # s" by simp_all
  with separated_inj [OF e, of us f] xs c show ?thesis by simp
qed

text \<open>A value starts with a character of its kind; a number ends where the digits end.\<close>

definition first_chars :: "json \<Rightarrow> nat set" where
  "first_chars v = (case v of JNull \<Rightarrow> {0x6e} | JBool b \<Rightarrow> (if b then {0x74} else {0x66})
     | JInt _ \<Rightarrow> insert 0x2d {0x30..0x39} | JStr _ \<Rightarrow> {0x22} | JList _ \<Rightarrow> {0x5b} | JObj _ \<Rightarrow> {0x7b})"

lemma int_points: "set (code_points (int_str n)) \<subseteq> insert 0x2d {0x30..0x39}"
proof -
  have "of_char ` set (nat_str k) \<subseteq> {0x30..0x39 :: nat}" for k
    using nat_str_digits [of k] by (auto simp: list_all_iff is_digit_def)
  then have "of_char ` set (nat_str (nat n)) \<subseteq> {0x30..0x39 :: nat}"
    "of_char ` set (nat_str (nat (- n))) \<subseteq> {0x30..0x39 :: nat}" by blast+
  then show ?thesis by (auto simp: int_str_def code_points_def)
qed

lemma emit_head: "emit v \<noteq> [] \<and> hd (emit v) \<in> first_chars v"
proof (cases v)
  case (JInt n)
  have "code_points (int_str n) \<noteq> []" by (simp add: code_points_def)
  then have "hd (code_points (int_str n)) \<in> insert 0x2d {0x30..0x39}"
    using int_points [of n] hd_in_set by blast
  with \<open>code_points (int_str n) \<noteq> []\<close> show ?thesis by (simp add: JInt first_chars_def)
next
  case (JBool b)
  then show ?thesis by (cases b) (simp_all add: first_chars_def code_points_def)
qed (simp_all add: first_chars_def code_points_def quote_def)

lemma int_points_inj:
  assumes "code_points (int_str m) @ r = code_points (int_str n) @ s" "stop r" "stop s"
  shows "m = n \<and> r = s"
proof -
  let ?P = "\<lambda>c. c \<in> insert 0x2d {0x30..0x39 :: nat}"
  have t: "takeWhile ?P (code_points (int_str k) @ q) = code_points (int_str k)" if "stop q" for k q
  proof -
    have "takeWhile ?P q = []" using that by (cases q) auto
    then show ?thesis using int_points [of k] by (subst takeWhile_append2) auto
  qed
  have "code_points (int_str m) = code_points (int_str n)" using t [of r m] t [of s n] assms by metis
  with assms(1) show ?thesis by (simp add: code_points_inj int_str_inj)
qed

lemma emit_readable: "readable emit v"
proof (induction v)
  case (JList xs)
  have "starts emit" unfolding starts_def
  proof
    fix w
    show "emit w \<noteq> [] \<and> hd (emit w) \<notin> {0x2c, 0x5d, 0x7d}"
      using emit_head [of w] by (cases w) (auto simp: first_chars_def split: if_splits)
  qed
  show ?case unfolding readable_def
  proof (intro allI impI)
    fix w r s assume eq: "emit (JList xs) @ r = emit w @ s" and st: "stop r" "stop s"
    have "hd (emit w) = 0x5b" using eq emit_head [of w] by (metis append_Cons append_Nil emit.simps(1) hd_append2 list.sel(1))
    with emit_head [of w] obtain ys where w: "w = JList ys"
      by (cases w) (auto simp: first_chars_def split: if_splits)
    from eq have "join [0x2c] (map emit xs) @ 0x5d # r = join [0x2c] (map emit ys) @ 0x5d # s" by (simp add: w)
    from joined_inj [OF _ _ \<open>starts emit\<close> this] JList show "JList xs = w \<and> r = s" by (simp add: w)
  qed
next
  case (JObj ms)
  let ?f = "\<lambda>(key, item). quote key @ [0x3a] @ emit item"
  have "starts ?f" by (auto simp: starts_def quote_def)
  have mem: "readable ?f x" if "x \<in> set ms" for x
  proof -
    obtain k v where x: "x = (k, v)" by (cases x)
    with that JObj have v: "readable emit v" by (metis prod_set_simps(2) singletonI)
    show ?thesis unfolding readable_def x
    proof (intro allI impI)
      fix y r s assume eq: "?f (k, v) @ r = ?f y @ s" and st: "stop r" "stop s"
      obtain l w where y: "y = (l, w)" by (cases y)
      from eq have "quote k @ 0x3a # emit v @ r = quote l @ 0x3a # emit w @ s" by (simp add: y)
      then have "k = l" "emit v @ r = emit w @ s" using quote_inj by blast+
      with readableD [OF v _ st] show "(k, v) = y \<and> r = s" by (simp add: y)
    qed
  qed
  show ?case unfolding readable_def
  proof (intro allI impI)
    fix w r s assume eq: "emit (JObj ms) @ r = emit w @ s" and st: "stop r" "stop s"
    have "hd (emit w) = 0x7b" using eq emit_head [of w] by (metis append_Cons append_Nil emit.simps(2) hd_append2 list.sel(1))
    with emit_head [of w] obtain ys where w: "w = JObj ys"
      by (cases w) (auto simp: first_chars_def split: if_splits)
    from eq have "join [0x2c] (map ?f ms) @ 0x7d # r = join [0x2c] (map ?f ys) @ 0x7d # s" by (simp add: w)
    from joined_inj [OF _ _ \<open>starts ?f\<close> this] mem show "JObj ms = w \<and> r = s" by (simp add: w)
  qed
next
  case (JStr t)
  show ?case unfolding readable_def
  proof (intro allI impI)
    fix w r s assume eq: "emit (JStr t) @ r = emit w @ s"
    have "hd (emit w) = 0x22" using eq emit_head [of w] by (metis append_Cons append_Nil dumps.simps(5) emit.simps(6) hd_append2 list.sel(1) quote_def)
    with emit_head [of w] obtain u where w: "w = JStr u"
      by (cases w) (auto simp: first_chars_def split: if_splits)
    from eq quote_inj [of t r u s] show "JStr t = w \<and> r = s" by (simp add: w)
  qed
next
  case (JInt n)
  show ?case unfolding readable_def
  proof (intro allI impI)
    fix w r s assume eq: "emit (JInt n) @ r = emit w @ s" and st: "stop r" "stop s"
    have "hd (emit w) = hd (emit (JInt n))" using eq emit_head by (metis hd_append2)
    with emit_head [of w] emit_head [of "JInt n"] obtain m where w: "w = JInt m"
      by (cases w) (auto simp: first_chars_def split: if_splits)
    from eq int_points_inj [OF _ st, of n m] show "JInt n = w \<and> r = s" by (simp add: w)
  qed
next
  case JNull
  show ?case unfolding readable_def
  proof (intro allI impI)
    fix w r s assume eq: "emit JNull @ r = emit w @ s"
    have "hd (emit w) = hd (emit JNull)" using eq emit_head by (metis hd_append2)
    with emit_head [of w] emit_head [of JNull] have w: "w = JNull"
      by (cases w) (auto simp: first_chars_def split: if_splits)
    from eq show "JNull = w \<and> r = s" by (simp add: w)
  qed
next
  case (JBool b)
  show ?case unfolding readable_def
  proof (intro allI impI)
    fix w r s assume eq: "emit (JBool b) @ r = emit w @ s"
    have "hd (emit w) = hd (emit (JBool b))" using eq emit_head by (metis hd_append2)
    with emit_head [of w] emit_head [of "JBool b"] have w: "w = JBool b"
      by (cases w) (auto simp: first_chars_def split: if_splits)
    from eq show "JBool b = w \<and> r = s" by (simp add: w)
  qed
qed

lemma emit_inj: "emit v = emit w \<Longrightarrow> v = w"
  using readableD [OF emit_readable [of v], of "[]" w "[]"] by (simp add: stop_def)

section \<open>UTF-8 can be read back\<close>

lemma utf8_units_inj:
  assumes "utf8_units c @ r = utf8_units d @ s" shows "c = d \<and> r = s"
proof -
  have split64: "n = 64 * (n div 64) + n mod 64" for n :: nat by simp
  have d1: "n div 64 div 64 = n div 4096" "n div 4096 div 64 = n div 262144" for n :: nat
    by (simp_all add: div_mult2_eq [symmetric])
  have two: "n = 64 * (n div 64) + n mod 64"
    and three: "n = 64 * (64 * (n div 4096) + n div 64 mod 64) + n mod 64"
    and four: "n = 64 * (64 * (64 * (n div 262144) + n div 4096 mod 64) + n div 64 mod 64) + n mod 64" for n :: nat
    using split64 [of n] split64 [of "n div 64"] split64 [of "n div 4096"] d1 [of n] by simp_all
  have b: "n < 0x800 \<Longrightarrow> n div 64 < 0x20" "n < 0x10000 \<Longrightarrow> n div 4096 < 0x10" for n :: nat
    by (simp_all add: less_mult_imp_div_less)
  show ?thesis using assms b [of c] b [of d]
    unfolding utf8_units_def
    by (auto split: if_splits) (metis two, metis three, metis four)
qed

lemma concat_units_inj: "concat (map utf8_units s) = concat (map utf8_units t) \<Longrightarrow> s = t"
proof (induction s arbitrary: t)
  case Nil
  then show ?case by (cases t) (auto simp: utf8_units_def split: if_splits)
next
  case (Cons c s)
  show ?case
  proof (cases t)
    case Nil
    then show ?thesis using Cons.prems by (auto simp: utf8_units_def split: if_splits)
  next
    case (Cons d t')
    with Cons.prems have "utf8_units c @ concat (map utf8_units s) = utf8_units d @ concat (map utf8_units t')"
      by simp
    from utf8_units_inj [OF this] Cons.IH [of t'] Cons show ?thesis by simp
  qed
qed

lemma utf8_units_bytes: "c \<le> 0x10ffff \<Longrightarrow> \<forall>x\<in>set (utf8_units c). x < 256"
proof -
  assume c: "c \<le> 0x10ffff"
  have m: "0x80 + n mod 64 < 256" for n :: nat
  proof -
    have "n mod 64 < 64" by simp
    then show ?thesis by simp
  qed
  have "c < 0x800 \<Longrightarrow> 0xc0 + c div 64 < 256" "c < 0x10000 \<Longrightarrow> 0xe0 + c div 4096 < 256" "0xf0 + c div 262144 < 256"
  proof -
    have "c < 0x800 \<Longrightarrow> c div 64 < 0x20" "c < 0x10000 \<Longrightarrow> c div 4096 < 0x10" "c div 262144 < 5"
      using c by (simp_all add: div_less_iff_less_mult)
    then show "c < 0x800 \<Longrightarrow> 0xc0 + c div 64 < 256" "c < 0x10000 \<Longrightarrow> 0xe0 + c div 4096 < 256"
      "0xf0 + c div 262144 < 256" by simp_all
  qed
  then show ?thesis using m [of c] m [of "c div 64"] m [of "c div 4096"] by (simp add: utf8_units_def)
qed

lemma word_of_nat_map_inj:
  assumes "map (word_of_nat :: nat \<Rightarrow> byte) xs = map word_of_nat ys"
    "\<forall>x\<in>set xs. x < 256" "\<forall>y\<in>set ys. y < 256"
  shows "xs = ys"
proof -
  have "map (unat \<circ> (word_of_nat :: nat \<Rightarrow> byte)) zs = zs" if "\<forall>z\<in>set zs. z < 256" for zs
    by (rule map_idI) (use that in \<open>simp add: unat_of_nat\<close>)
  from this [OF assms(2)] this [OF assms(3)] arg_cong [OF assms(1), of "map unat"] show ?thesis
    by (simp add: map_map)
qed

lemma utf8_inj:
  assumes eq: "utf8 s = utf8 t" and "text_ok s" "text_ok t" shows "s = t"
proof -
  have b: "\<forall>x\<in>set (concat (map utf8_units u)). x < 256" if "text_ok u" for u
    using utf8_units_bytes that by (auto simp: text_ok_def list_all_iff)
  show ?thesis
    by (rule concat_units_inj, rule word_of_nat_map_inj [OF eq [unfolded utf8_def] b [OF assms(2)] b [OF assms(3)]])
qed

text \<open>The rendering of a Python value is a Python string.\<close>

lemma text_ok_append [simp]: "text_ok (s @ t) \<longleftrightarrow> text_ok s \<and> text_ok t"
  and text_ok_Cons [simp]: "text_ok (c # s) \<longleftrightarrow> c \<le> 0x10ffff \<and> text_ok s"
  and text_ok_Nil [simp]: "text_ok []"
  by (simp_all add: text_ok_def)

lemma text_ok_code_points [simp]: "text_ok (code_points s)"
proof -
  have "of_char c \<le> (0x10ffff :: nat)" for c :: char
  proof -
    have "of_char c < (256 :: nat)" by simp
    then show ?thesis by linarith
  qed
  then show ?thesis by (simp add: text_ok_def code_points_def list_all_iff)
qed

lemma text_ok_concat: "text_ok (concat xs) \<longleftrightarrow> list_all text_ok xs"
  by (induction xs) simp_all

lemma text_ok_escape: "c \<le> 0x10ffff \<Longrightarrow> text_ok (escape_char c)"
  by (simp add: escape_char_def)

lemma text_ok_quote: "text_ok s \<Longrightarrow> text_ok (quote s)"
proof -
  assume "text_ok s"
  then have "list_all text_ok (map escape_char s)"
    using text_ok_escape unfolding list.pred_map by (auto simp: text_ok_def list_all_iff)
  then show ?thesis by (simp add: quote_def text_ok_concat)
qed

lemma text_ok_join: "text_ok sep \<Longrightarrow> list_all text_ok xs \<Longrightarrow> text_ok (join sep xs)"
  by (induction sep xs rule: join.induct) simp_all

lemma text_ok_dumps: "json_ok v \<Longrightarrow> text_ok (dumps v)"
proof (induction v rule: dumps.induct)
  case (6 items)
  then show ?case by (simp add: list_all_iff text_ok_join)
next
  case (7 members)
  have m: "text_ok (fst x) \<and> text_ok (dumps (snd x))" if "x \<in> set members" for x
  proof (cases x)
    case (Pair k v)
    with 7(2) that have "text_ok k" "json_ok v" by (auto simp: list_all_iff)
    with 7(1) [OF that Pair [symmetric]] Pair show ?thesis by simp
  qed
  have "list_all text_ok (map (\<lambda>(key, text). quote key @ [0x3a] @ text)
      (sort_key fst (map (on_item dumps) members)))" unfolding list_all_iff
  proof
    fix y assume "y \<in> set (map (\<lambda>(key, text). quote key @ [0x3a] @ text)
      (sort_key fst (map (on_item dumps) members)))"
    then obtain x where "x \<in> set members" "y = quote (fst x) @ [0x3a] @ dumps (snd x)" by auto
    with m [of x] show "text_ok y" by (simp add: text_ok_quote)
  qed
  then show ?case by (simp add: text_ok_join)
qed (simp_all add: text_ok_quote)

section \<open>Which values are refused\<close>

fun json_values :: "json \<Rightarrow> json list" where
  "json_values (JList items) = JList items # concat (map json_values items)"
| "json_values (JObj members) = JObj members # concat (map (\<lambda>(key, item). JStr key # json_values item) members)"
| "json_values v = [v]"

definition scalar_ok :: "json \<Rightarrow> bool" where
  "scalar_ok v = (case v of JStr s \<Rightarrow> \<not> list_ex (\<lambda>c. 0xd800 \<le> c \<and> c \<le> 0xdfff) s
     | JInt n \<Rightarrow> \<bar>n\<bar> < CANONICAL_INTEGER_ABS_LIMIT | _ \<Rightarrow> True)"

lemma validate_text_Inr [result_simps]: "validate_text s = Inr u \<longleftrightarrow> scalar_ok (JStr s)"
  by (simp add: validate_text_def scalar_ok_def)

lemma prove_iff:
  "prove_json_value v = Inr () \<longleftrightarrow> list_all scalar_ok (json_values v)"
  "prove_members ms = Inr () \<longleftrightarrow> list_all (\<lambda>(key, item). scalar_ok (JStr key) \<and> list_all scalar_ok (json_values item)) ms"
  "prove_items vs = Inr () \<longleftrightarrow> list_all (\<lambda>v. list_all scalar_ok (json_values v)) vs"
proof (induction v and ms and vs rule: prove_json_value_prove_members_prove_items.induct)
  case (6 members)
  then show ?case by (simp add: list_all_iff scalar_ok_def [of "JObj _"] split_def)
next
  case (5 items)
  then show ?case by (simp add: list_all_iff scalar_ok_def [of "JList _"])
qed (auto simp: result_simps scalar_ok_def [of "JInt _"] scalar_ok_def [of JNull] scalar_ok_def [of "JBool _"])

section \<open>Properties\<close>

text \<open>
  Property C27: the canonical encoding is exact. It refuses a value exactly when somewhere in it
  there is a string with a surrogate or an integer of more than 512 digits; and two Python values
  have the same canonical bytes exactly when they are equal, whatever the insertion order of the
  members of their dictionaries.
\<close>

theorem canonical_bytes_exact:
  assumes "json_ok v" "json_ok w"
  shows "(canonical_json_bytes v = Inl JsonValueError \<longleftrightarrow> \<not> list_all scalar_ok (json_values v))
    \<and> (list_all scalar_ok (json_values v) \<longrightarrow> list_all scalar_ok (json_values w) \<longrightarrow>
        (canonical_json_bytes v = canonical_json_bytes w \<longleftrightarrow> normal v = normal w))"
proof (intro conjI impI)
  show "canonical_json_bytes v = Inl JsonValueError \<longleftrightarrow> \<not> list_all scalar_ok (json_values v)"
    unfolding canonical_json_bytes_def prove_iff(1) [symmetric]
    by (cases "prove_json_value v") (simp_all, metis (full_types) json_error.exhaust)
next
  assume ok: "list_all scalar_ok (json_values v)" "list_all scalar_ok (json_values w)"
  then have "canonical_json_bytes v = Inr (utf8 (emit (normal v)))" "canonical_json_bytes w = Inr (utf8 (emit (normal w)))"
    by (simp_all add: canonical_json_bytes_def prove_iff(1) [symmetric] dumps_normal)
  moreover have "utf8 (emit (normal v)) = utf8 (emit (normal w)) \<longleftrightarrow> normal v = normal w"
  proof
    assume "utf8 (emit (normal v)) = utf8 (emit (normal w))"
    then have "utf8 (dumps v) = utf8 (dumps w)" by (simp only: dumps_normal)
    from utf8_inj [OF this text_ok_dumps [OF assms(1)] text_ok_dumps [OF assms(2)]]
    show "normal v = normal w" by (intro emit_inj) (simp only: dumps_normal)
  qed simp
  ultimately show "canonical_json_bytes v = canonical_json_bytes w \<longleftrightarrow> normal v = normal w" by simp
qed

text \<open>\<open>normal\<close> only reorders: two normal forms agree exactly on the same members.\<close>

lemma normal_reordered:
  assumes "distinct (map fst ms)" "mset ms = mset ns"
  shows "normal (JObj ms) = normal (JObj ns)"
proof -
  let ?f = "on_item normal"
  have sets: "set ms = set ns" "distinct (map fst ns)"
    using assms by (metis mset_eq_setD, metis mset_eq_imp_distinct_iff mset_map)
  have keys: "map fst (map ?f xs) = map fst xs" for xs by (simp add: split_def)
  have dist: "distinct (map fst (sort_key fst (map ?f xs)))" if "distinct (map fst xs)" for xs
  proof -
    have "mset (map fst (sort_key fst (map ?f xs))) = mset (map fst xs)"
      by (metis keys mset_map mset_sort)
    with that show ?thesis by (metis mset_eq_imp_distinct_iff)
  qed
  have "inj_on fst (set (map ?f ms))" using assms(1) keys by (metis distinct_map)
  then have "sort_key fst (map ?f ms) = sort_key fst (map ?f ns)"
    by (intro map_sorted_distinct_set_unique [where f = fst] dist assms(1) sets(2)) (simp_all add: sets(1))
  then show ?thesis by simp
qed

text \<open>The property at two insertion orders of one dictionary, and at a surrogate.\<close>

theorem canonical_bytes_exact_witness:
  "canonical_json_bytes (JObj [([98], JInt 1), ([97], JNull)]) = canonical_json_bytes (JObj [([97], JNull), ([98], JInt 1)])
   \<and> canonical_json_bytes (JStr [0xd800]) = Inl JsonValueError"
proof -
  let ?v = "JObj [([98], JInt 1), ([97], JNull)]" and ?w = "JObj [([97], JNull), ([98], JInt 1)]"
  have "json_ok ?v" "json_ok ?w" "json_ok (JStr [0xd800])" by (simp_all add: text_ok_def)
  moreover have "normal ?v = normal ?w" by (simp add: less_eq_list_code)
  moreover have "list_all scalar_ok (json_values ?v)" "list_all scalar_ok (json_values ?w)"
    "\<not> list_all scalar_ok (json_values (JStr [0xd800]))"
    by (simp_all add: scalar_ok_def CANONICAL_INTEGER_ABS_LIMIT_def)
  ultimately show ?thesis
    using canonical_bytes_exact [of ?v ?w] canonical_bytes_exact [of "JStr [0xd800]" "JStr [0xd800]"] by blast
qed

end
