(* ===== verification/Relational.thy ===== *)
theory Relational
  imports Canonical_JSON
begin

text \<open>
  The part of a PostgreSQL table that the models of \<open>infrastructure/db/models\<close> and the triggers
  of \<open>alembic/versions\<close> rest on. A table is the list of its rows in insertion order. A statement
  that inserts rows handles them one after the other: column widths, \<open>before\<close> triggers, check
  constraints and unique constraints are decided on the row and the rows already there, and the
  foreign keys of all rows at the end of the statement. A statement that fails changes nothing.
\<close>

section \<open>Errors\<close>

text \<open>What the driver reports: the SQLSTATE, and whether the connection was invalidated.\<close>

datatype db_error = DBAPIError (sqlstate: string) (connection_invalidated: bool)

abbreviation UniqueViolation :: db_error where "UniqueViolation \<equiv> DBAPIError ''23505'' False"
abbreviation ForeignKeyViolation :: db_error where "ForeignKeyViolation \<equiv> DBAPIError ''23503'' False"
abbreviation CheckViolation :: db_error where "CheckViolation \<equiv> DBAPIError ''23514'' False"
abbreviation StringTooLong :: db_error where "StringTooLong \<equiv> DBAPIError ''22001'' False"
abbreviation NumericOutOfRange :: db_error where "NumericOutOfRange \<equiv> DBAPIError ''22003'' False"

text \<open>The first requirement that fails decides the error.\<close>

primrec checks :: "(bool \<times> 'e) list \<Rightarrow> 'e + unit" where
  "checks [] = Inr ()"
| "checks (c # cs) = (if fst c then checks cs else Inl (snd c))"

lemma checks_Inr_iff [result_simps]: "checks cs = Inr u \<longleftrightarrow> (\<forall>c\<in>set cs. fst c)"
  by (induction cs) auto

lemma checks_Inl_D: "checks cs = Inl e \<Longrightarrow> e \<in> snd ` set cs"
  by (induction cs) (auto split: if_splits)

declare checks.simps(2) [simp del]

lemma checks_decided [simp]: "checks ((True, e) # cs) = checks cs" "checks ((False, e) # cs) = Inl e"
  by (simp_all add: checks.simps(2))

section \<open>Column types\<close>

definition bigint :: "int \<Rightarrow> bool" where "bigint n \<longleftrightarrow> - (2 ^ 63) \<le> n \<and> n < 2 ^ 63"
definition integer4 :: "int \<Rightarrow> bool" where "integer4 n \<longleftrightarrow> - (2 ^ 31) \<le> n \<and> n < 2 ^ 31"
definition smallint :: "int \<Rightarrow> bool" where "smallint n \<longleftrightarrow> - (2 ^ 15) \<le> n \<and> n < 2 ^ 15"

definition numeric_digits :: "nat \<Rightarrow> int \<Rightarrow> bool" where
  "numeric_digits precision n \<longleftrightarrow> \<bar>n\<bar> < 10 ^ precision"

definition varchar :: "nat \<Rightarrow> string \<Rightarrow> bool" where
  "varchar n s \<longleftrightarrow> length s \<le> n"

text \<open>A nullable column holds no value or one of its type.\<close>

definition nullable :: "('a \<Rightarrow> bool) \<Rightarrow> 'a option \<Rightarrow> bool" where
  "nullable ok x = (case x of None \<Rightarrow> True | Some y \<Rightarrow> ok y)"

lemma nullable_simps [simp]: "nullable ok None" "nullable ok (Some y) \<longleftrightarrow> ok y"
  by (simp_all add: nullable_def)

text \<open>\<open>btrim(s) <> ''\<close>: some character is not a blank.\<close>

definition nonblank :: "string \<Rightarrow> bool" where
  "nonblank s \<longleftrightarrow> list_ex (\<lambda>c. c \<noteq> CHR '' '') s"

definition octet_length :: "byte list \<Rightarrow> nat" where
  "octet_length b = length b"

section \<open>Statements\<close>

definition insert_rows ::
    "('db \<Rightarrow> 'r \<Rightarrow> 'e + unit) \<Rightarrow> ('r \<Rightarrow> 'db \<Rightarrow> 'db) \<Rightarrow> ('db \<Rightarrow> 'r \<Rightarrow> 'e + unit) \<Rightarrow> 'r list \<Rightarrow> 'db \<Rightarrow> 'e + 'db" where
  "insert_rows admit add refers rows db =
     rbind (foldE (\<lambda>d r. rbind (admit d r) (\<lambda>_. Inr (add r d))) db rows) (\<lambda>d.
     rbind (checkE (refers d) rows) (\<lambda>_. Inr d))"

lemma insert_loop_Inr:
  "foldE (\<lambda>d r. rbind (admit d r) (\<lambda>_. Inr (add r d))) db rows = Inr db' \<longleftrightarrow>
     db' = fold add rows db
     \<and> (\<forall>before r after. rows = before @ r # after \<longrightarrow> admit (fold add before db) r = Inr ())"
proof (induction rows arbitrary: db)
  case Nil
  then show ?case by auto
next
  case (Cons r rows)
  have "(\<forall>before x after. r # rows = before @ x # after \<longrightarrow> admit (fold add before db) x = Inr ())
      \<longleftrightarrow> admit db r = Inr ()
        \<and> (\<forall>before x after. rows = before @ x # after \<longrightarrow> admit (fold add before (add r db)) x = Inr ())"
  proof (intro iffI conjI allI impI)
    assume all: "\<forall>before x after. r # rows = before @ x # after \<longrightarrow> admit (fold add before db) x = Inr ()"
    from all [rule_format, of "[]" r rows] show "admit db r = Inr ()" by simp
    fix before x after assume "rows = before @ x # after"
    with all [rule_format, of "r # before" x after]
    show "admit (fold add before (add r db)) x = Inr ()" by simp
  next
    fix before x after
    assume hyp: "admit db r = Inr ()
        \<and> (\<forall>before x after. rows = before @ x # after \<longrightarrow> admit (fold add before (add r db)) x = Inr ())"
      and eq: "r # rows = before @ x # after"
    show "admit (fold add before db) x = Inr ()"
    proof (cases before)
      case Nil
      with hyp eq show ?thesis by simp
    next
      case (Cons y ys)
      with hyp eq show ?thesis by simp
    qed
  qed
  with Cons.IH [of "add r db"] show ?case by (cases "admit db r") auto
qed

lemma insert_rows_Inr:
  "insert_rows admit add refers rows db = Inr db' \<longleftrightarrow>
     db' = fold add rows db
     \<and> (\<forall>before r after. rows = before @ r # after \<longrightarrow> admit (fold add before db) r = Inr ())
     \<and> (\<forall>r\<in>set rows. refers db' r = Inr ())"
  unfolding insert_rows_def rbind_eq_Inr insert_loop_Inr checkE_Inr_iff by auto

lemma insert_rows_Nil [simp]: "insert_rows admit add refers [] db = Inr db"
  by (simp add: insert_rows_def)

text \<open>
  What every table promises: an admitted row keeps to the row constraints, no two rows share a key,
  and inserting appends. The tables of the ledger interpret it.
\<close>

locale keyed_table =
  fixes tab :: "'db \<Rightarrow> 'r list"
    and admit :: "'db \<Rightarrow> 'r \<Rightarrow> 'e + unit"
    and add :: "'r \<Rightarrow> 'db \<Rightarrow> 'db"
    and refers :: "'db \<Rightarrow> 'r \<Rightarrow> 'e + unit"
    and key :: "'r \<Rightarrow> 'k"
    and row_ok :: "'r \<Rightarrow> bool"
  assumes tab_add: "tab (add r db) = tab db @ [r]"
    and admit_fresh: "admit db r = Inr () \<Longrightarrow> key r \<notin> key ` set (tab db)"
    and admit_ok: "admit db r = Inr () \<Longrightarrow> row_ok r"
begin

lemma tab_fold: "tab (fold add rows db) = tab db @ rows"
  by (induction rows arbitrary: db) (simp_all add: tab_add)

lemma insert_appends: "insert_rows admit add refers rows db = Inr db' \<Longrightarrow> tab db' = tab db @ rows"
  by (simp add: insert_rows_Inr tab_fold)

lemma insert_rows_ok: "insert_rows admit add refers rows db = Inr db' \<Longrightarrow> r \<in> set rows \<Longrightarrow> row_ok r"
  using admit_ok by (fastforce simp: insert_rows_Inr in_set_conv_decomp)

lemma loop_keys_distinct:
  "foldE (\<lambda>d r. rbind (admit d r) (\<lambda>_. Inr (add r d))) db rows = Inr db' \<Longrightarrow>
     distinct (map key (tab db)) \<Longrightarrow> distinct (map key (tab db'))"
proof (induction rows arbitrary: db)
  case Nil
  then show ?case by simp
next
  case (Cons r rows)
  then have r: "admit db r = Inr ()"
    and rest: "foldE (\<lambda>d r. rbind (admit d r) (\<lambda>_. Inr (add r d))) (add r db) rows = Inr db'"
    by (auto simp: rbind_eq_Inr)
  have "distinct (map key (tab (add r db)))"
    using Cons.prems(2) admit_fresh [OF r] by (simp add: tab_add)
  with Cons.IH [OF rest] show ?case .
qed

lemma insert_keys_distinct:
  "insert_rows admit add refers rows db = Inr db' \<Longrightarrow> distinct (map key (tab db)) \<Longrightarrow> distinct (map key (tab db'))"
  unfolding insert_rows_def rbind_eq_Inr using loop_keys_distinct by auto

lemma insert_keys_fresh:
  "insert_rows admit add refers rows db = Inr db' \<Longrightarrow> r \<in> set rows \<Longrightarrow> key r \<notin> key ` set (tab db)"
proof -
  assume ins: "insert_rows admit add refers rows db = Inr db'" and "r \<in> set rows"
  then obtain us vs where "rows = us @ r # vs" by (meson split_list)
  with ins have "admit (fold add us db) r = Inr ()" by (simp add: insert_rows_Inr)
  from admit_fresh [OF this] show ?thesis by (auto simp: tab_fold)
qed

lemma insert_refers: "insert_rows admit add refers rows db = Inr db' \<Longrightarrow> r \<in> set rows \<Longrightarrow> refers db' r = Inr ()"
  unfolding insert_rows_Inr by blast

end

end
