(* ===== verification/Money.thy ===== *)
theory Money
  imports Ledger_Prelude
begin

text \<open>
  Exact money, \<open>domain/money/scaled_units.py\<close> and \<open>domain/money/asset_policy.py\<close>: an amount is
  a positive integer of at most 38 digits together with the number of decimal places it is
  scaled by. The section holds the parser of plain-decimal strings, the renderer, the
  input-scale policy of an asset, and the theorems that the two directions agree. The checks
  \<open>type(x) is int\<close> and \<open>isinstance(raw, str)\<close> are the HOL types of the arguments.
\<close>

section \<open>Scaled units\<close>

definition MAX_UNIT_DIGITS :: nat where
  "MAX_UNIT_DIGITS = 38"

definition MAX_UNITS_EXCLUSIVE :: int where
  "MAX_UNITS_EXCLUSIVE = 10 ^ MAX_UNIT_DIGITS"

definition MAX_SCALE :: int where
  "MAX_SCALE = 30"

text \<open>The subclasses of \<open>MoneyError\<close>; the second carries \<open>max_input_scale\<close>.\<close>

datatype money_error =
    InvalidAmountFormat
  | AmountScaleExceeded int
  | AmountOutOfRange
  | InvalidScale

text \<open>\<open>AMOUNT_PATTERN.fullmatch\<close>: digits, or digits, a dot and digits.\<close>

definition partition_dot :: "string \<Rightarrow> string \<times> string" where
  "partition_dot raw = (takeWhile (\<lambda>c. c \<noteq> CHR ''.'') raw, drop 1 (dropWhile (\<lambda>c. c \<noteq> CHR ''.'') raw))"

definition AMOUNT_PATTERN :: "string \<Rightarrow> bool" where
  "AMOUNT_PATTERN raw \<longleftrightarrow>
     (case partition_dot raw of (whole, fraction) \<Rightarrow>
        whole \<noteq> [] \<and> list_all is_digit whole \<and> list_all is_digit fraction
        \<and> (CHR ''.'' \<in> set raw \<longrightarrow> fraction \<noteq> []))"

definition validate_scale :: "int \<Rightarrow> money_error + int" where
  "validate_scale scale = (if \<not> (0 \<le> scale \<and> scale \<le> MAX_SCALE) then Inl InvalidScale else Inr scale)"

record scaled_units =
  su_units :: int
  su_scale :: int

text \<open>The constructor with its \<open>__post_init__\<close>.\<close>

definition ScaledUnits :: "int \<Rightarrow> int \<Rightarrow> money_error + scaled_units" where
  "ScaledUnits u s =
     rbind (validate_scale s) (\<lambda>_.
       if u \<le> 0 \<or> MAX_UNITS_EXCLUSIVE \<le> u then Inl AmountOutOfRange
       else Inr \<lparr>su_units = u, su_scale = s\<rparr>)"

definition parse :: "string \<Rightarrow> int \<Rightarrow> int \<Rightarrow> money_error + scaled_units" where
  "parse raw scale max_input_scale =
     rbind (validate_scale scale) (\<lambda>checked_scale.
     rbind (validate_scale max_input_scale) (\<lambda>checked_input_scale.
       if checked_scale < checked_input_scale then Inl InvalidScale
       else if \<not> AMOUNT_PATTERN raw then Inl InvalidAmountFormat
       else case partition_dot raw of (whole, fraction) \<Rightarrow>
         if checked_input_scale < int (length fraction)
         then Inl (AmountScaleExceeded checked_input_scale)
         else let digits = whole @ ljust0 (nat checked_scale) fraction;
                  significant_digits = lstrip0 digits
              in if significant_digits = [] \<or> MAX_UNIT_DIGITS < length significant_digits
                 then Inl AmountOutOfRange
                 else ScaledUnits (int (str_nat significant_digits)) checked_scale))"

definition decode :: "scaled_units \<Rightarrow> string" where
  "decode self =
     (if su_scale self = 0 then nat_str (nat (su_units self))
      else let digits = zfill (nat (su_scale self) + 1) (nat_str (nat (su_units self)));
               cut = length digits - nat (su_scale self);
               whole = take cut digits;
               fraction = rstrip0 (drop cut digits)
           in if fraction = [] then whole else whole @ CHR ''.'' # fraction)"

section \<open>Asset policies\<close>

record asset_policy =
  input_scale :: int
  ledger_scale :: int

definition AssetPolicy :: "int \<Rightarrow> int \<Rightarrow> money_error + asset_policy" where
  "AssetPolicy i l =
     rbind (validate_scale i) (\<lambda>checked_input_scale.
     rbind (validate_scale l) (\<lambda>checked_ledger_scale.
       if checked_ledger_scale < checked_input_scale then Inl InvalidScale
       else Inr \<lparr>input_scale = i, ledger_scale = l\<rparr>))"

definition parse_online :: "asset_policy \<Rightarrow> string \<Rightarrow> money_error + scaled_units" where
  "parse_online self raw = parse raw (ledger_scale self) (input_scale self)"

definition USDT_POLICY :: "money_error + asset_policy" where
  "USDT_POLICY = AssetPolicy 6 8"

section \<open>What a value of the type satisfies\<close>

definition units_ok :: "int \<Rightarrow> bool" where
  "units_ok u \<longleftrightarrow> 0 < u \<and> u < MAX_UNITS_EXCLUSIVE"

definition scale_ok :: "int \<Rightarrow> bool" where
  "scale_ok s \<longleftrightarrow> 0 \<le> s \<and> s \<le> MAX_SCALE"

definition scaled_units_ok :: "scaled_units \<Rightarrow> bool" where
  "scaled_units_ok m \<longleftrightarrow> units_ok (su_units m) \<and> scale_ok (su_scale m)"

text \<open>The exact value, in units of \<open>10 ^ - scale\<close>, that a plain-decimal string denotes.\<close>

definition literal_units :: "string \<Rightarrow> nat \<Rightarrow> nat" where
  "literal_units raw s =
     (case partition_dot raw of (whole, fraction) \<Rightarrow>
        str_nat whole * 10 ^ s + str_nat fraction * 10 ^ (s - length fraction))"

lemma validate_scale_iff [result_simps]: "validate_scale s = Inr s' \<longleftrightarrow> scale_ok s \<and> s' = s"
  by (auto simp: validate_scale_def scale_ok_def)

lemma validate_scale_ok [simp]: "scale_ok s \<Longrightarrow> validate_scale s = Inr s"
  by (simp add: validate_scale_iff)

lemma ScaledUnits_iff [result_simps]:
  "ScaledUnits u s = Inr m \<longleftrightarrow> units_ok u \<and> scale_ok s \<and> m = \<lparr>su_units = u, su_scale = s\<rparr>"
  by (auto simp: ScaledUnits_def units_ok_def result_simps)

lemma partition_digits [simp]:
  "list_all is_digit w \<Longrightarrow> partition_dot w = (w, [])"
proof -
  assume "list_all is_digit w"
  then have "\<And>c. c \<in> set w \<Longrightarrow> c \<noteq> CHR ''.''" using no_dot_in_digits by metis
  then have "takeWhile (\<lambda>c. c \<noteq> CHR ''.'') w = w" "dropWhile (\<lambda>c. c \<noteq> CHR ''.'') w = []"
    by (simp_all add: takeWhile_eq_all_conv dropWhile_eq_Nil_conv)
  then show ?thesis unfolding partition_dot_def by (simp only: drop_Nil)
qed

lemma partition_dotted [simp]:
  "list_all is_digit w \<Longrightarrow> partition_dot (w @ CHR ''.'' # f) = (w, f)"
proof -
  assume "list_all is_digit w"
  then have "\<And>c. c \<in> set w \<Longrightarrow> c \<noteq> CHR ''.''" using no_dot_in_digits by metis
  then show ?thesis by (simp add: partition_dot_def takeWhile_append2 dropWhile_append2)
qed

lemma str_nat_ljust0: "str_nat (ljust0 n f) = str_nat f * 10 ^ (n - length f)"
  by (simp add: ljust0_def str_nat_append)

lemma ljust0_digits: "list_all is_digit f \<Longrightarrow> list_all is_digit (ljust0 n f)"
  by (auto simp: ljust0_def list_all_iff)

lemma length_ljust0: "length f \<le> n \<Longrightarrow> length (ljust0 n f) = n"
  by (simp add: ljust0_def)

lemma significant_digits_bound:
  "list_all is_digit d \<Longrightarrow> lstrip0 d \<noteq> [] \<Longrightarrow>
     length (lstrip0 d) \<le> MAX_UNIT_DIGITS \<longleftrightarrow> int (str_nat d) < MAX_UNITS_EXCLUSIVE"
proof -
  assume d: "list_all is_digit d" "lstrip0 d \<noteq> []"
  have "length (lstrip0 d) \<le> 38 \<longleftrightarrow> length (nat_str (str_nat d)) \<le> 38"
    using lstrip0_canonical [OF d] by simp
  also have "\<dots> \<longleftrightarrow> str_nat d < 10 ^ 38" by (rule length_nat_str_le) simp
  also have "\<dots> \<longleftrightarrow> int (str_nat d) < int (10 ^ 38)" by (simp only: of_nat_less_iff)
  finally show ?thesis by (simp add: MAX_UNIT_DIGITS_def MAX_UNITS_EXCLUSIVE_def)
qed

text \<open>
  The abstract contract of the parser: it says nothing of padding, stripping or digit
  counting, only of the number the literal denotes.
\<close>

definition parse_reference :: "string \<Rightarrow> int \<Rightarrow> int \<Rightarrow> money_error + scaled_units" where
  "parse_reference raw s i =
     (if \<not> scale_ok s \<or> \<not> scale_ok i \<or> s < i then Inl InvalidScale
      else if \<not> AMOUNT_PATTERN raw then Inl InvalidAmountFormat
      else if i < int (length (snd (partition_dot raw))) then Inl (AmountScaleExceeded i)
      else if \<not> units_ok (int (literal_units raw (nat s))) then Inl AmountOutOfRange
      else Inr \<lparr>su_units = int (literal_units raw (nat s)), su_scale = s\<rparr>)"

lemma validate_scale_bad [simp]: "\<not> scale_ok s \<Longrightarrow> validate_scale s = Inl InvalidScale"
  by (auto simp: validate_scale_def scale_ok_def)

lemma parse_refines_reference: "parse raw s i = parse_reference raw s i"
proof -
  obtain w f where wf: "partition_dot raw = (w, f)" by fastforce
  show ?thesis
  proof (cases "scale_ok s \<and> scale_ok i \<and> i \<le> s \<and> AMOUNT_PATTERN raw \<and> int (length f) \<le> i")
    case False
    then show ?thesis
      by (cases "scale_ok s"; cases "scale_ok i") (auto simp: parse_def parse_reference_def wf)
  next
    case True
    let ?d = "w @ ljust0 (nat s) f"
    from True wf have dig: "list_all is_digit w" "list_all is_digit f"
      by (simp_all add: AMOUNT_PATTERN_def)
    then have d: "list_all is_digit ?d" by (simp add: ljust0_digits)
    have len: "length f \<le> nat s" using True by linarith
    have val: "str_nat ?d = literal_units raw (nat s)"
      by (simp add: literal_units_def wf str_nat_append str_nat_ljust0 length_ljust0 len)
    have "lstrip0 ?d \<noteq> [] \<longleftrightarrow> 0 < str_nat ?d" using lstrip0_empty_iff [OF d] by simp
    then have ok: "lstrip0 ?d = [] \<or> MAX_UNIT_DIGITS < length (lstrip0 ?d) \<longleftrightarrow> \<not> units_ok (int (str_nat ?d))"
      using significant_digits_bound [OF d] by (auto simp: units_ok_def)
    have "parse raw s i =
        (if lstrip0 ?d = [] \<or> MAX_UNIT_DIGITS < length (lstrip0 ?d) then Inl AmountOutOfRange
         else ScaledUnits (int (str_nat (lstrip0 ?d))) s)"
      using True by (simp add: parse_def wf Let_def)
    also have "\<dots> = parse_reference raw s i"
      using True val ok by (simp add: parse_reference_def wf ScaledUnits_iff)
    finally show ?thesis .
  qed
qed

lemma parse_Inr_iff:
  "parse raw s i = Inr m \<longleftrightarrow>
     scale_ok s \<and> scale_ok i \<and> i \<le> s \<and> AMOUNT_PATTERN raw
     \<and> int (length (snd (partition_dot raw))) \<le> i
     \<and> units_ok (int (literal_units raw (nat s)))
     \<and> m = \<lparr>su_units = int (literal_units raw (nat s)), su_scale = s\<rparr>"
  by (auto simp: parse_refines_reference parse_reference_def)

lemma AMOUNT_PATTERN_digits: "list_all is_digit w \<Longrightarrow> w \<noteq> [] \<Longrightarrow> AMOUNT_PATTERN w"
  using no_dot_in_digits by (simp add: AMOUNT_PATTERN_def)

lemma AMOUNT_PATTERN_dotted:
  "list_all is_digit w \<Longrightarrow> w \<noteq> [] \<Longrightarrow> list_all is_digit f \<Longrightarrow> f \<noteq> [] \<Longrightarrow>
     AMOUNT_PATTERN (w @ CHR ''.'' # f)"
  by (simp add: AMOUNT_PATTERN_def)

text \<open>The renderer in its two shapes: an integer part, and an integer part with a fraction.\<close>

lemma decode_shape:
  assumes "scaled_units_ok m"
  obtains w f where "list_all is_digit w" "w \<noteq> []" "list_all is_digit f"
    "length f \<le> nat (su_scale m)"
    "decode m = (if f = [] then w else w @ CHR ''.'' # f)"
    "str_nat (w @ ljust0 (nat (su_scale m)) f) = nat (su_units m)"
proof -
  let ?n = "nat (su_scale m)" and ?u = "nat (su_units m)"
  show thesis
  proof (cases "su_scale m = 0")
    case True
    with that [of "nat_str ?u" "[]"] show ?thesis
      by (simp add: decode_def nat_str_digits ljust0_def)
  next
    case False
    let ?d = "zfill (?n + 1) (nat_str ?u)"
    let ?cut = "length ?d - ?n"
    let ?w = "take ?cut ?d" and ?f = "rstrip0 (drop ?cut ?d)"
    have d: "list_all is_digit ?d" 
      using nat_str_digits by (auto simp: zfill_def list_all_iff)
    have len: "?n + 1 \<le> length ?d" by (simp add: zfill_def)
    then have lw: "length (drop ?cut ?d) = ?n" by simp
    have w: "list_all is_digit ?w" "?w \<noteq> []"
      using d len by (auto simp: list_all_iff dest: in_set_takeD)
    have f: "list_all is_digit ?f"
      using d by (intro rstrip0_digits) (auto simp: list_all_iff dest: in_set_dropD)
    have lf: "length ?f \<le> ?n" using rstrip0_length lw by metis
    have restore: "ljust0 ?n ?f = drop ?cut ?d" using rstrip0_restore lw by metis
    then have "str_nat (?w @ ljust0 ?n ?f) = str_nat ?d" by simp
    also have "\<dots> = ?u" by (simp add: zfill_def str_nat_append)
    finally have "str_nat (?w @ ljust0 ?n ?f) = ?u" .
    with that [OF w f lf] False show ?thesis by (simp add: decode_def Let_def)
  qed
qed

section \<open>Properties\<close>

text \<open>
  Property C21: the parser of plain-decimal amounts is the abstract contract: on every input it
  raises the same exception or returns the value the literal denotes, exactly, at the scale
  asked for.
\<close>

theorem parse_equals_reference:
  "parse raw s i = parse_reference raw s i
   \<and> parse_online p raw = parse_reference raw (ledger_scale p) (input_scale p)"
  by (simp add: parse_refines_reference parse_online_def)

text \<open>
  Property C22: rendering an amount and parsing the text again gives the amount back: no unit
  is lost or invented on the way out and in.
\<close>

theorem decode_parse_roundtrip:
  assumes "scaled_units_ok m"
  shows "parse (decode m) (su_scale m) (su_scale m) = Inr m"
proof -
  from assms obtain w f where wf: "list_all is_digit w" "w \<noteq> []" "list_all is_digit f"
    "length f \<le> nat (su_scale m)"
    "decode m = (if f = [] then w else w @ CHR ''.'' # f)"
    "str_nat (w @ ljust0 (nat (su_scale m)) f) = nat (su_units m)"
    by (rule decode_shape)
  from wf(1-5) have p: "AMOUNT_PATTERN (decode m)" "partition_dot (decode m) = (w, f)"
    by (simp_all add: AMOUNT_PATTERN_digits AMOUNT_PATTERN_dotted)
  have val: "literal_units (decode m) (nat (su_scale m)) = nat (su_units m)"
    using wf(4,6) p(2) by (simp add: literal_units_def str_nat_append str_nat_ljust0 length_ljust0)
  have "int (length f) \<le> su_scale m" "int (nat (su_units m)) = su_units m"
    using assms wf(4) by (auto simp: scaled_units_ok_def units_ok_def scale_ok_def)
  with assms p val show ?thesis by (simp add: parse_Inr_iff scaled_units_ok_def)
qed

theorem decode_parse_roundtrip_witness:
  "parse (decode \<lparr>su_units = 1050, su_scale = 3\<rparr>) 3 3 = Inr \<lparr>su_units = 1050, su_scale = 3\<rparr>
   \<and> scaled_units_ok \<lparr>su_units = 1050, su_scale = 3\<rparr>"
proof -
  have ok: "scaled_units_ok \<lparr>su_units = 1050, su_scale = 3\<rparr>"
    by (simp add: scaled_units_ok_def units_ok_def scale_ok_def MAX_UNITS_EXCLUSIVE_def
        MAX_UNIT_DIGITS_def MAX_SCALE_def)
  show ?thesis using decode_parse_roundtrip [OF ok] ok by simp
qed

end
