(* ===== verification/Journal_Model.thy ===== *)
theory Journal_Model
  imports Money
begin

text \<open>
  The journal's data, \<open>domain/journal/models.py\<close> and \<open>domain/journal/commands.py\<close>: postings,
  account snapshots, the account catalog and its index. An enum member keeps its name with a
  letter in front where two enums share it (\<open>K_\<close> for \<open>TransactionKind\<close>, \<open>R_\<close> for
  \<open>AccountSystemRole\<close>, \<open>T_\<close> for \<open>AccountType\<close>); a record field carries the initials of its
  class. The \<open>type(x) is C\<close> checks of the code are the HOL types; every check on a value is a
  branch. Exceptions keep their class and arguments, not their message text.
\<close>

datatype posting_side = DEBIT | CREDIT

datatype transaction_kind =
    K_STANDARD | K_OPENING | K_ADJUSTMENT | K_TRANSFER | K_REFUND | K_FX
  | K_CREDIT_CARD_PAYMENT | K_INVESTMENT_CASH

datatype account_system_role =
    R_STANDARD | R_EXPENSE_CLEARING | R_INCOME_CLEARING | R_BALANCE_ADJUSTMENT | R_FX_TRADING

datatype account_type =
    T_ASSET | T_LIABILITY | T_EQUITY | T_INCOME | T_EXPENSE | T_FUND | T_SYSTEM

text \<open>The \<open>value\<close> of an enum member, as it is stored and compared in the projections.\<close>

fun posting_side_value :: "posting_side \<Rightarrow> string" where
  "posting_side_value DEBIT = ''debit''"
| "posting_side_value CREDIT = ''credit''"

fun transaction_kind_value :: "transaction_kind \<Rightarrow> string" where
  "transaction_kind_value K_STANDARD = ''standard''"
| "transaction_kind_value K_OPENING = ''opening''"
| "transaction_kind_value K_ADJUSTMENT = ''adjustment''"
| "transaction_kind_value K_TRANSFER = ''transfer''"
| "transaction_kind_value K_REFUND = ''refund''"
| "transaction_kind_value K_FX = ''fx''"
| "transaction_kind_value K_CREDIT_CARD_PAYMENT = ''credit_card_payment''"
| "transaction_kind_value K_INVESTMENT_CASH = ''investment_cash''"

fun account_type_value :: "account_type \<Rightarrow> string" where
  "account_type_value T_ASSET = ''asset''"
| "account_type_value T_LIABILITY = ''liability''"
| "account_type_value T_EQUITY = ''equity''"
| "account_type_value T_INCOME = ''income''"
| "account_type_value T_EXPENSE = ''expense''"
| "account_type_value T_FUND = ''fund''"
| "account_type_value T_SYSTEM = ''system''"

section \<open>Account subtypes\<close>

text \<open>
  The pattern \<open>[a-z][a-z0-9]*(?:_[a-z0-9]+)*\<close> as the automaton it denotes:
  \<open>subtype_run\<close> is inside a run of letters and digits, \<open>subtype_gap\<close> just after an
  underscore.
\<close>

definition is_lower :: "char \<Rightarrow> bool" where
  "is_lower c \<longleftrightarrow> 97 \<le> (of_char c :: nat) \<and> (of_char c :: nat) \<le> 122"

text \<open>
  \<open>value.upper() == value\<close> for the 256 characters of the model: lower-case letters, the micro sign and
  the sharp s change.
\<close>

definition upper_stable :: "string \<Rightarrow> bool" where
  "upper_stable value = list_all (\<lambda>c. let n = of_char c :: nat in
     \<not> (97 \<le> n \<and> n \<le> 122 \<or> n = 181 \<or> 223 \<le> n \<and> n \<noteq> 247)) value"

fun subtype_run :: "string \<Rightarrow> bool" and subtype_gap :: "string \<Rightarrow> bool" where
  "subtype_run [] = True"
| "subtype_run (c # s) =
     (if is_lower c \<or> is_digit c then subtype_run s
      else if c = CHR ''_'' then subtype_gap s else False)"
| "subtype_gap [] = False"
| "subtype_gap (c # s) = (if is_lower c \<or> is_digit c then subtype_run s else False)"

definition ACCOUNT_SUBTYPE_PATTERN :: "string \<Rightarrow> bool" where
  "ACCOUNT_SUBTYPE_PATTERN s = (case s of [] \<Rightarrow> False | c # t \<Rightarrow> is_lower c \<and> subtype_run t)"

definition is_valid_account_subtype :: "string option \<Rightarrow> bool" where
  "is_valid_account_subtype value =
     (case value of None \<Rightarrow> True | Some s \<Rightarrow> length s \<le> 64 \<and> ACCOUNT_SUBTYPE_PATTERN s)"

section \<open>Postings, commands and accounts\<close>

record posting_draft =
  pd_posting_id :: string
  pd_position :: int
  pd_account_id :: string
  pd_asset_code :: string
  pd_side :: posting_side
  pd_units :: int

record post_transaction =
  pt_transaction_id :: string
  pt_book_id :: string
  pt_kind :: transaction_kind
  pt_postings :: "posting_draft list"

record account_snapshot =
  as_account_id :: string
  as_book_id :: string
  as_asset_code :: string
  as_account_type :: account_type
  as_account_subtype :: "string option"
  as_system_role :: account_system_role
  as_status :: string

type_synonym account_catalog = "account_snapshot list"
type_synonym account_index = "((string \<times> string) \<times> account_snapshot) list"

datatype fx_reason =
    TooFewAssets
  | MissingTradingLegs "string list"
  | ZeroTradingNets "string list"
  | SameDirection "(string \<times> posting_side) list"

text \<open>The subclasses of \<open>JournalError\<close> (\<open>models.py\<close>, \<open>validators.py\<close>) with their arguments.\<close>

datatype journal_error =
    InvalidAccountCatalog
  | InvalidJournalCommand
  | TooFewPostings
  | DuplicatePostingId string
  | DuplicatePostingPosition int
  | PostingValidationError
  | InvalidPostingUnits string
  | UnknownAccount string
  | AccountClosed string
  | CrossBookAccount string string
  | PostingAssetMismatch string string string
  | UnbalancedAsset "(string \<times> int) list"
  | InvalidFxTransaction fx_reason

definition account_shape_ok :: "account_snapshot \<Rightarrow> bool" where
  "account_shape_ok a \<longleftrightarrow>
     \<not> (as_account_id a = [] \<or> as_book_id a = [] \<or> as_asset_code a = []
        \<or> \<not> is_valid_account_subtype (as_account_subtype a)
        \<or> (as_account_subtype a = Some ''credit_card'' \<and> as_account_type a \<noteq> T_LIABILITY)
        \<or> as_status a \<notin> {''active'', ''closed''})"

definition account_identity :: "account_snapshot \<Rightarrow> string \<times> string" where
  "account_identity a = (as_book_id a, as_account_id a)"

definition index_step :: "account_index \<Rightarrow> account_snapshot \<Rightarrow> journal_error + account_index" where
  "index_step indexed account =
     (if \<not> account_shape_ok account then Inl InvalidAccountCatalog
      else if map_of indexed (account_identity account) \<noteq> None then Inl InvalidAccountCatalog
      else Inr (indexed @ [(account_identity account, account)]))"

definition index_by_identity :: "account_catalog \<Rightarrow> journal_error + account_index" where
  "index_by_identity accounts = foldE index_step [] accounts"

definition resolve :: "account_catalog \<Rightarrow> string \<Rightarrow> string \<Rightarrow> journal_error + account_snapshot option" where
  "resolve catalog book_id account_id =
     (if book_id = [] then Inl InvalidAccountCatalog
      else if account_id = [] then Inl InvalidAccountCatalog
      else rbind (index_by_identity catalog) (\<lambda>indexed. Inr (map_of indexed (book_id, account_id))))"

section \<open>The index of a catalog\<close>

definition catalog_ok :: "account_catalog \<Rightarrow> bool" where
  "catalog_ok accounts \<longleftrightarrow>
     (\<forall>a\<in>set accounts. account_shape_ok a) \<and> distinct (map account_identity accounts)"

definition catalog_index :: "account_catalog \<Rightarrow> account_index" where
  "catalog_index accounts = map (\<lambda>a. (account_identity a, a)) accounts"

lemma catalog_index_keys [simp]: "map fst (catalog_index cat) = map account_identity cat"
  by (simp add: catalog_index_def)

lemma index_by_identity_from:
  "distinct (map account_identity done) \<Longrightarrow>
   foldE index_step (catalog_index done) accounts = Inr idx \<longleftrightarrow>
     (\<forall>a\<in>set accounts. account_shape_ok a) \<and> distinct (map account_identity (done @ accounts))
     \<and> idx = catalog_index (done @ accounts)"
proof (induction accounts arbitrary: "done")
  case Nil
  then show ?case by auto
next
  case (Cons a accounts)
  have new: "map_of (catalog_index done) (account_identity a) = None
      \<longleftrightarrow> account_identity a \<notin> account_identity ` set done"
    by (simp add: map_of_eq_None_iff catalog_index_def image_image)
  show ?case
  proof (cases "account_shape_ok a \<and> account_identity a \<notin> account_identity ` set done")
    case True
    with Cons.prems have d: "distinct (map account_identity (done @ [a]))" by simp
    have "index_step (catalog_index done) a = Inr (catalog_index (done @ [a]))"
      using True new by (simp add: index_step_def catalog_index_def)
    with Cons.IH [OF d] True show ?thesis by simp
  next
    case False
    with new show ?thesis by (auto simp: index_step_def)
  qed
qed

lemma index_by_identity_Inr_iff [result_simps]:
  "index_by_identity accounts = Inr idx \<longleftrightarrow> catalog_ok accounts \<and> idx = catalog_index accounts"
  using index_by_identity_from [of "[]" accounts idx]
  by (simp add: index_by_identity_def catalog_ok_def catalog_index_def)

lemma index_by_identity_ok [simp]:
  "catalog_ok accounts \<Longrightarrow> index_by_identity accounts = Inr (catalog_index accounts)"
  by (simp add: index_by_identity_Inr_iff)

lemma index_by_identity_error: "index_by_identity accounts = Inl e \<Longrightarrow> e = InvalidAccountCatalog"
proof -
  have "foldE index_step idx accounts = Inl e \<Longrightarrow> e = InvalidAccountCatalog" for idx
    by (induction accounts arbitrary: idx) (auto simp: index_step_def result_simps split: if_splits)
  then show "index_by_identity accounts = Inl e \<Longrightarrow> e = InvalidAccountCatalog"
    by (simp add: index_by_identity_def)
qed

lemma index_by_identity_bad [simp]:
  "\<not> catalog_ok accounts \<Longrightarrow> index_by_identity accounts = Inl InvalidAccountCatalog"
  by (cases "index_by_identity accounts") (auto simp: index_by_identity_Inr_iff dest: index_by_identity_error)

lemma catalog_lookup_iff:
  "catalog_ok cat \<Longrightarrow> map_of (catalog_index cat) k = Some a \<longleftrightarrow> a \<in> set cat \<and> account_identity a = k"
proof -
  assume "catalog_ok cat"
  then have "distinct (map fst (catalog_index cat))" by (simp add: catalog_ok_def)
  then show ?thesis by (auto simp: map_of_eq_Some_iff catalog_index_def)
qed

section \<open>Properties\<close>

text \<open>
  Resolving an account in a catalog finds exactly the snapshot of that Book and
  account, and a catalog with a malformed or duplicated snapshot resolves nothing: whichever
  snapshots are asked for, the catalog is refused as a whole.
\<close>

theorem resolve_exact:
  assumes "book_id \<noteq> []" and "account_id \<noteq> []"
  shows "resolve cat book_id account_id =
      (if catalog_ok cat
       then Inr (find (\<lambda>a. as_book_id a = book_id \<and> as_account_id a = account_id) cat)
       else Inl InvalidAccountCatalog)"
proof (cases "catalog_ok cat")
  case True
  have "map_of (catalog_index as) (book_id, account_id)
      = find (\<lambda>a. as_book_id a = book_id \<and> as_account_id a = account_id) as" for as
    by (induction as) (auto simp: catalog_index_def account_identity_def)
  with True assms show ?thesis by (simp add: resolve_def)
next
  case False
  with assms show ?thesis by (simp add: resolve_def)
qed

theorem resolve_exact_witness:
  "resolve [\<lparr>as_account_id = ''a'', as_book_id = ''b'', as_asset_code = ''CNY'',
     as_account_type = T_ASSET, as_account_subtype = Some ''bank_1'',
     as_system_role = R_STANDARD, as_status = ''active''\<rparr>] ''b'' ''c'' = Inr None"
  using resolve_exact [of "''b''" "''c''"]
  by (simp add: catalog_ok_def account_shape_ok_def is_valid_account_subtype_def
      ACCOUNT_SUBTYPE_PATTERN_def is_lower_def is_digit_def)

end
