(* ===== verification/Journal_Validator.thy ===== *)
theory Journal_Validator
  imports Journal_Model
begin

text \<open>
  The journal invariant, \<open>domain/journal/validators.py\<close>: \<open>JournalValidator.validate\<close> with its
  helpers, in the order of the code, and the declarative contract it decides. The loops over
  postings are \<open>checkE\<close> and \<open>foldE\<close>, so the first failing posting decides the exception; the
  dictionaries of signed totals are counters.
\<close>

section \<open>Shape checks\<close>

definition validate_command_shape :: "post_transaction \<Rightarrow> journal_error + post_transaction" where
  "validate_command_shape command =
     (if pt_transaction_id command = [] then Inl InvalidJournalCommand
      else if pt_book_id command = [] then Inl InvalidJournalCommand
      else if length (pt_postings command) < 2 then Inl TooFewPostings
      else Inr command)"

definition validate_posting_shape :: "posting_draft \<Rightarrow> journal_error + posting_draft" where
  "validate_posting_shape posting =
     (if pd_posting_id posting = [] then Inl PostingValidationError
      else if pd_position posting < 0 then Inl PostingValidationError
      else Inr posting)"

fun reject_duplicates_from ::
    "string set \<Rightarrow> int set \<Rightarrow> posting_draft list \<Rightarrow> journal_error + unit" where
  "reject_duplicates_from posting_ids positions [] = Inr ()"
| "reject_duplicates_from posting_ids positions (posting # postings) =
     (if pd_posting_id posting \<in> posting_ids then Inl (DuplicatePostingId (pd_posting_id posting))
      else if pd_position posting \<in> positions then Inl (DuplicatePostingPosition (pd_position posting))
      else reject_duplicates_from (insert (pd_posting_id posting) posting_ids)
             (insert (pd_position posting) positions) postings)"

definition reject_duplicate_posting_identity :: "posting_draft list \<Rightarrow> journal_error + unit" where
  "reject_duplicate_posting_identity postings = reject_duplicates_from {} {} postings"

text \<open>
  \<open>ScaledUnits(units=posting.units, scale=0)\<close> is called for its checks only; the code
  catches its \<open>AmountOutOfRange\<close>, the one exception it can raise at scale 0.
\<close>

definition validate_posting_values :: "posting_draft \<Rightarrow> journal_error + unit" where
  "validate_posting_values posting =
     (if pd_account_id posting = [] then Inl PostingValidationError
      else if pd_asset_code posting = [] then Inl PostingValidationError
      else case ScaledUnits (pd_units posting) 0 of
          Inl _ \<Rightarrow> Inl (InvalidPostingUnits (pd_posting_id posting))
        | Inr _ \<Rightarrow> Inr ())"

section \<open>The account and balance loop\<close>

definition signed_units :: "posting_draft \<Rightarrow> int" where
  "signed_units posting = (if pd_side posting = DEBIT then 1 else - 1) * pd_units posting"

definition resolve_posting ::
    "post_transaction \<Rightarrow> account_index \<Rightarrow> account_snapshot list \<times> string counter \<Rightarrow> posting_draft
     \<Rightarrow> journal_error + account_snapshot list \<times> string counter" where
  "resolve_posting command accounts state posting =
     (case state of (resolved, balances) \<Rightarrow>
        case map_of accounts (pt_book_id command, pd_account_id posting) of
          None \<Rightarrow>
            (if list_ex (\<lambda>((_, account_id), _). account_id = pd_account_id posting) accounts
             then Inl (CrossBookAccount (pd_account_id posting) (pt_book_id command))
             else Inl (UnknownAccount (pd_account_id posting)))
        | Some account \<Rightarrow>
            (if as_status account \<noteq> ''active'' then Inl (AccountClosed (pd_account_id posting))
             else if pd_asset_code posting \<noteq> as_asset_code account
             then Inl (PostingAssetMismatch (pd_account_id posting) (pd_asset_code posting)
                         (as_asset_code account))
             else Inr (resolved @ [account],
                       cadd (pd_asset_code posting) (signed_units posting) balances)))"

section \<open>The foreign-exchange rules\<close>

definition trading_nets_of :: "posting_draft list \<Rightarrow> account_snapshot list \<Rightarrow> string counter" where
  "trading_nets_of postings resolved =
     ctally (\<lambda>(posting, _). pd_asset_code posting) (\<lambda>(posting, _). signed_units posting)
       (filter (\<lambda>(_, account). as_system_role account = R_FX_TRADING) (zip postings resolved)) []"

definition validate_fx ::
    "posting_draft list \<Rightarrow> account_snapshot list \<Rightarrow> string counter \<Rightarrow> journal_error + unit" where
  "validate_fx postings resolved balances =
     (let exchanged_assets = map fst balances in
      if length exchanged_assets < 2 then Inl (InvalidFxTransaction TooFewAssets)
      else
        let trading_nets = trading_nets_of postings resolved;
            missing = sort (filter (\<lambda>a. a \<notin> ckeys trading_nets) exchanged_assets)
        in if missing \<noteq> [] then Inl (InvalidFxTransaction (MissingTradingLegs missing))
        else
          let zero_net = sort (filter (\<lambda>a. cget trading_nets a = 0) exchanged_assets)
          in if zero_net \<noteq> [] then Inl (InvalidFxTransaction (ZeroTradingNets zero_net))
          else if \<not> (list_ex (\<lambda>(_, n). 0 < n) trading_nets \<and> list_ex (\<lambda>(_, n). n < 0) trading_nets)
          then Inl (InvalidFxTransaction (SameDirection
                 (map (\<lambda>a. (a, if 0 < cget trading_nets a then DEBIT else CREDIT))
                    (sort exchanged_assets))))
          else Inr ())"

section \<open>The validator\<close>

definition validate :: "post_transaction \<Rightarrow> account_catalog \<Rightarrow> journal_error + unit" where
  "validate command catalog =
     rbind (validate_command_shape command) (\<lambda>checked_command.
     rbind (mapE validate_posting_shape (pt_postings checked_command)) (\<lambda>postings.
     rbind (reject_duplicate_posting_identity postings) (\<lambda>_.
     rbind (checkE validate_posting_values postings) (\<lambda>_.
     rbind (index_by_identity catalog) (\<lambda>accounts.
     rbind (foldE (resolve_posting checked_command accounts) ([], []) postings) (\<lambda>(resolved, balances).
       let imbalances = filter (\<lambda>(_, net_units). net_units \<noteq> 0) balances in
       if imbalances \<noteq> [] then Inl (UnbalancedAsset (sort_key fst imbalances))
       else if pt_kind checked_command \<in> {K_FX, K_CREDIT_CARD_PAYMENT}
       then validate_fx postings resolved balances
       else Inr ()))))))"

section \<open>The contract\<close>

text \<open>
  A posting is well formed; it resolves to an active account of the Book in the posting's
  asset; debits equal credits in every asset; a foreign-exchange transaction moves at least
  two assets through the Book's trading accounts, in both directions and none to zero.
\<close>

definition posting_ok :: "posting_draft \<Rightarrow> bool" where
  "posting_ok p \<longleftrightarrow> pd_posting_id p \<noteq> [] \<and> 0 \<le> pd_position p \<and> pd_account_id p \<noteq> []
     \<and> pd_asset_code p \<noteq> [] \<and> units_ok (pd_units p)"

definition account_of :: "account_catalog \<Rightarrow> string \<Rightarrow> posting_draft \<Rightarrow> account_snapshot option" where
  "account_of cat book p = map_of (catalog_index cat) (book, pd_account_id p)"

definition posting_resolves :: "account_catalog \<Rightarrow> string \<Rightarrow> posting_draft \<Rightarrow> bool" where
  "posting_resolves cat book p \<longleftrightarrow>
     (\<exists>a. account_of cat book p = Some a \<and> as_status a = ''active'' \<and> as_asset_code a = pd_asset_code p)"

definition net_units :: "posting_draft list \<Rightarrow> string \<Rightarrow> int" where
  "net_units ps asset = total_for pd_asset_code signed_units asset ps"

definition side_total :: "posting_side \<Rightarrow> string \<Rightarrow> posting_draft list \<Rightarrow> int" where
  "side_total s asset ps = sum_list (map pd_units (filter (\<lambda>p. pd_side p = s \<and> pd_asset_code p = asset) ps))"

definition trades :: "account_catalog \<Rightarrow> string \<Rightarrow> posting_draft \<Rightarrow> bool" where
  "trades cat book p \<longleftrightarrow>
     (case account_of cat book p of None \<Rightarrow> False | Some a \<Rightarrow> as_system_role a = R_FX_TRADING)"

definition trading_net :: "account_catalog \<Rightarrow> string \<Rightarrow> posting_draft list \<Rightarrow> string \<Rightarrow> int" where
  "trading_net cat book ps asset = net_units (filter (trades cat book) ps) asset"

definition exchange_ok :: "account_catalog \<Rightarrow> string \<Rightarrow> posting_draft list \<Rightarrow> bool" where
  "exchange_ok cat book ps \<longleftrightarrow>
     2 \<le> card (pd_asset_code ` set ps)
     \<and> (\<forall>a\<in>pd_asset_code ` set ps. trading_net cat book ps a \<noteq> 0)
     \<and> (\<exists>a\<in>pd_asset_code ` set ps. 0 < trading_net cat book ps a)
     \<and> (\<exists>a\<in>pd_asset_code ` set ps. trading_net cat book ps a < 0)"

definition journal_contract :: "post_transaction \<Rightarrow> account_catalog \<Rightarrow> bool" where
  "journal_contract command cat \<longleftrightarrow>
     pt_transaction_id command \<noteq> [] \<and> pt_book_id command \<noteq> [] \<and> 2 \<le> length (pt_postings command)
     \<and> (\<forall>p\<in>set (pt_postings command). posting_ok p)
     \<and> distinct (map pd_posting_id (pt_postings command))
     \<and> distinct (map pd_position (pt_postings command))
     \<and> catalog_ok cat
     \<and> (\<forall>p\<in>set (pt_postings command). posting_resolves cat (pt_book_id command) p)
     \<and> (\<forall>asset. net_units (pt_postings command) asset = 0)
     \<and> (pt_kind command \<in> {K_FX, K_CREDIT_CARD_PAYMENT} \<longrightarrow>
          exchange_ok cat (pt_book_id command) (pt_postings command))"

section \<open>Lemmas\<close>

lemma validate_command_shape_Inr_iff [result_simps]:
  "validate_command_shape c = Inr c' \<longleftrightarrow>
     pt_transaction_id c \<noteq> [] \<and> pt_book_id c \<noteq> [] \<and> 2 \<le> length (pt_postings c) \<and> c' = c"
  by (auto simp: validate_command_shape_def)

lemma validate_posting_shape_Inr_iff [result_simps]:
  "validate_posting_shape p = Inr p' \<longleftrightarrow> pd_posting_id p \<noteq> [] \<and> 0 \<le> pd_position p \<and> p' = p"
  by (auto simp: validate_posting_shape_def)

lemma posting_shapes_Inr_iff [result_simps]:
  "mapE validate_posting_shape ps = Inr qs \<longleftrightarrow>
     (\<forall>p\<in>set ps. pd_posting_id p \<noteq> [] \<and> 0 \<le> pd_position p) \<and> qs = ps"
  by (induction ps arbitrary: qs) (auto simp: rbind_eq_Inr validate_posting_shape_Inr_iff)

lemma reject_duplicates_from_Inr_iff:
  "reject_duplicates_from ids pos ps = Inr () \<longleftrightarrow>
     distinct (map pd_posting_id ps) \<and> distinct (map pd_position ps)
     \<and> (\<forall>p\<in>set ps. pd_posting_id p \<notin> ids \<and> pd_position p \<notin> pos)"
proof (induction ids pos ps rule: reject_duplicates_from.induct)
  case (1 ids pos)
  then show ?case by simp
next
  case (2 ids pos p ps)
  show ?case
  proof (cases "pd_posting_id p \<in> ids \<or> pd_position p \<in> pos")
    case True
    then show ?thesis by auto
  next
    case False
    with "2.IH" show ?thesis by (simp add: image_iff) metis
  qed
qed

lemma reject_duplicates_Inr_iff [result_simps]:
  "reject_duplicate_posting_identity ps = Inr u \<longleftrightarrow>
     distinct (map pd_posting_id ps) \<and> distinct (map pd_position ps)"
  using reject_duplicates_from_Inr_iff [of "{}" "{}" ps]
  by (simp add: reject_duplicate_posting_identity_def)

lemma validate_posting_values_Inr_iff [result_simps]:
  "validate_posting_values p = Inr u \<longleftrightarrow>
     pd_account_id p \<noteq> [] \<and> pd_asset_code p \<noteq> [] \<and> units_ok (pd_units p)"
proof -
  have "(\<exists>m. ScaledUnits (pd_units p) 0 = Inr m) \<longleftrightarrow> units_ok (pd_units p)"
    by (simp add: ScaledUnits_iff scale_ok_def MAX_SCALE_def)
  then show ?thesis by (auto simp: validate_posting_values_def split: sum.splits)
qed

lemma resolve_posting_Inr_iff:
  "resolve_posting c (catalog_index cat) (rs, d) p = Inr (rs', d') \<longleftrightarrow>
     posting_resolves cat (pt_book_id c) p
     \<and> rs' = rs @ [the (account_of cat (pt_book_id c) p)]
     \<and> d' = cadd (pd_asset_code p) (signed_units p) d"
  by (auto simp: resolve_posting_def posting_resolves_def account_of_def split: option.splits)

lemma resolve_loop_Inr_iff:
  "foldE (resolve_posting c (catalog_index cat)) (rs, d) ps = Inr (rs', d') \<longleftrightarrow>
     (\<forall>p\<in>set ps. posting_resolves cat (pt_book_id c) p)
     \<and> rs' = rs @ map (the \<circ> account_of cat (pt_book_id c)) ps
     \<and> d' = ctally pd_asset_code signed_units ps d"
  by (induction ps arbitrary: rs d) (auto simp: rbind_eq_Inr resolve_posting_Inr_iff)

lemma cget_balances [simp]:
  "cget (ctally pd_asset_code signed_units ps []) a = net_units ps a"
  by (simp add: counter_simps net_units_def)

lemma net_units_outside: "a \<notin> pd_asset_code ` set ps \<Longrightarrow> net_units ps a = 0"
  by (simp add: net_units_def total_for_notin)

lemma balances_member:
  "(a, n) \<in> set (ctally pd_asset_code signed_units ps []) \<longleftrightarrow>
     a \<in> pd_asset_code ` set ps \<and> n = net_units ps a"
  by (subst mem_cget) (auto simp: counter_simps net_units_def)

lemma imbalances_empty_iff:
  "filter (\<lambda>(_, n). n \<noteq> 0) (ctally pd_asset_code signed_units ps []) = [] \<longleftrightarrow>
     (\<forall>asset. net_units ps asset = 0)"
proof -
  let ?bal = "ctally pd_asset_code signed_units ps []"
  have "filter (\<lambda>(_, n). n \<noteq> 0) ?bal = [] \<longleftrightarrow> (\<forall>a n. (a, n) \<in> set ?bal \<longrightarrow> n = 0)"
    by (auto simp: filter_empty_conv)
  also have "\<dots> \<longleftrightarrow> (\<forall>a\<in>pd_asset_code ` set ps. net_units ps a = 0)"
    by (simp only: balances_member) blast
  also have "\<dots> \<longleftrightarrow> (\<forall>a. net_units ps a = 0)" using net_units_outside by blast
  finally show ?thesis .
qed

text \<open>The trading accounts' part of the balances.\<close>

lemma zip_trading:
  assumes "\<forall>p\<in>set ps. posting_resolves cat book p"
  shows "filter (\<lambda>(_, a). as_system_role a = R_FX_TRADING) (zip ps (map (the \<circ> account_of cat book) ps))
       = map (\<lambda>p. (p, the (account_of cat book p))) (filter (trades cat book) ps)"
  using assms by (induction ps) (auto simp: posting_resolves_def trades_def)

lemma total_for_map: "total_for key val k (map f xs) = total_for (key \<circ> f) (val \<circ> f) k xs"
  by (induction xs) simp_all

lemma trading_nets_simps:
  assumes "\<forall>p\<in>set ps. posting_resolves cat book p"
  defines "nets \<equiv> trading_nets_of ps (map (the \<circ> account_of cat book) ps)"
  shows "cget nets a = trading_net cat book ps a"
    and "ckeys nets = pd_asset_code ` set (filter (trades cat book) ps)"
    and "distinct (map fst nets)"
  unfolding nets_def trading_nets_of_def zip_trading [OF assms(1)]
  by (auto simp: counter_simps total_for_map comp_def trading_net_def net_units_def)

lemma trading_net_outside:
  "a \<notin> pd_asset_code ` set (filter (trades cat book) ps) \<Longrightarrow> trading_net cat book ps a = 0"
  unfolding trading_net_def by (rule net_units_outside)

lemma validate_fx_Inr_iff:
  assumes "\<forall>p\<in>set ps. posting_resolves cat book p"
  shows "validate_fx ps (map (the \<circ> account_of cat book) ps) (ctally pd_asset_code signed_units ps [])
       = Inr u \<longleftrightarrow> exchange_ok cat book ps"
proof -
  let ?bal = "ctally pd_asset_code signed_units ps []"
  let ?nets = "trading_nets_of ps (map (the \<circ> account_of cat book) ps)"
  let ?assets = "pd_asset_code ` set ps"
  note nets = trading_nets_simps [OF assms]
  have keys: "set (map fst ?bal) = ?assets" "distinct (map fst ?bal)"
    by (simp_all add: counter_simps)
  then have len: "length ?bal = card ?assets" by (metis distinct_card length_map)
  have sub: "ckeys ?nets \<subseteq> ?assets" by (auto simp: nets)
  have ex: "list_ex (\<lambda>(_, n). P n) ?nets \<longleftrightarrow> (\<exists>a\<in>ckeys ?nets. P (trading_net cat book ps a))" for P
    unfolding list_ex_values [OF nets(3)] nets(1) ..
  show ?thesis
  proof (cases "\<forall>a\<in>?assets. trading_net cat book ps a \<noteq> 0")
    case True
    have "?assets \<subseteq> ckeys ?nets"
    proof
      fix a assume "a \<in> ?assets"
      with True have "trading_net cat book ps a \<noteq> 0" by blast
      then show "a \<in> ckeys ?nets" unfolding nets(2) by (metis trading_net_outside)
    qed
    with sub have all: "ckeys ?nets = ?assets" by (rule subset_antisym)
    have missing: "filter (\<lambda>a. a \<notin> ckeys ?nets) (map fst ?bal) = []"
      unfolding filter_empty_conv keys(1) all by simp
    have zero: "filter (\<lambda>a. cget ?nets a = 0) (map fst ?bal) = []"
      unfolding filter_empty_conv keys(1) nets(1) using True by simp
    have "validate_fx ps (map (the \<circ> account_of cat book) ps) ?bal = Inr u \<longleftrightarrow>
        2 \<le> length ?bal \<and> list_ex (\<lambda>(_, n). 0 < n) ?nets \<and> list_ex (\<lambda>(_, n). n < 0) ?nets"
      unfolding validate_fx_def Let_def missing zero by simp
    then show ?thesis unfolding ex all len exchange_ok_def using True by blast
  next
    case False
    then obtain a where a: "a \<in> ?assets" "trading_net cat book ps a = 0" by blast
    then have "a \<in> set (filter (\<lambda>a. cget ?nets a = 0) (map fst ?bal))"
      unfolding set_filter keys(1) nets(1) by simp
    then have "sort (filter (\<lambda>a. cget ?nets a = 0) (map fst ?bal)) \<noteq> []"
      by (metis empty_iff empty_set set_sort)
    then have "validate_fx ps (map (the \<circ> account_of cat book) ps) ?bal \<noteq> Inr u"
      unfolding validate_fx_def Let_def by simp
    with False show ?thesis by (auto simp: exchange_ok_def)
  qed
qed

text \<open>The staged checks, collected: the code accepts exactly what the contract allows.\<close>

lemma balance_check_Inr_iff:
  "(let imbalances = filter (\<lambda>(_, n). n \<noteq> 0) (ctally pd_asset_code signed_units ps []) in
    if imbalances \<noteq> [] then Inl (UnbalancedAsset (sort_key fst imbalances))
    else if fx then r else Inr ()) = Inr () \<longleftrightarrow>
   (\<forall>asset. net_units ps asset = 0) \<and> (fx \<longrightarrow> r = Inr ())"
  unfolding Let_def imbalances_empty_iff by simp

lemma resolve_loop_result_iff:
  "foldE (resolve_posting c (catalog_index cat)) ([], []) ps = Inr rd \<longleftrightarrow>
     (\<forall>p\<in>set ps. posting_resolves cat (pt_book_id c) p)
     \<and> rd = (map (the \<circ> account_of cat (pt_book_id c)) ps, ctally pd_asset_code signed_units ps [])"
  by (cases rd) (simp add: resolve_loop_Inr_iff)

lemma validate_Inr_iff: "validate command cat = Inr () \<longleftrightarrow> journal_contract command cat"
proof -
  let ?ps = "pt_postings command" and ?book = "pt_book_id command"
  have "validate command cat = Inr () \<longleftrightarrow>
      (pt_transaction_id command \<noteq> [] \<and> ?book \<noteq> [] \<and> 2 \<le> length ?ps)
      \<and> (\<forall>p\<in>set ?ps. pd_posting_id p \<noteq> [] \<and> 0 \<le> pd_position p)
      \<and> (distinct (map pd_posting_id ?ps) \<and> distinct (map pd_position ?ps))
      \<and> (\<forall>p\<in>set ?ps. pd_account_id p \<noteq> [] \<and> pd_asset_code p \<noteq> [] \<and> units_ok (pd_units p))
      \<and> catalog_ok cat \<and> (\<forall>p\<in>set ?ps. posting_resolves cat ?book p)
      \<and> (\<forall>asset. net_units ?ps asset = 0)
      \<and> (pt_kind command \<in> {K_FX, K_CREDIT_CARD_PAYMENT} \<longrightarrow>
           validate_fx ?ps (map (the \<circ> account_of cat ?book) ?ps)
             (ctally pd_asset_code signed_units ?ps []) = Inr ())"
    unfolding validate_def rbind_eq_Inr validate_command_shape_Inr_iff posting_shapes_Inr_iff
      reject_duplicates_Inr_iff checkE_Inr_iff validate_posting_values_Inr_iff
      index_by_identity_Inr_iff
    by (simp add: resolve_loop_result_iff balance_check_Inr_iff)
  then show ?thesis
    unfolding journal_contract_def posting_ok_def using validate_fx_Inr_iff by blast
qed

lemma net_units_sides: "net_units ps asset = side_total DEBIT asset ps - side_total CREDIT asset ps"
proof (induction ps)
  case Nil
  then show ?case by (simp add: net_units_def side_total_def)
next
  case (Cons p ps)
  then show ?case by (cases "pd_side p") (auto simp: net_units_def side_total_def signed_units_def)
qed

text \<open>What each exception of the posting loop and of the balance check says.\<close>

lemma account_of_None_iff:
  "catalog_ok cat \<Longrightarrow> account_of cat book p = None \<longleftrightarrow>
     (\<forall>a\<in>set cat. \<not> (as_book_id a = book \<and> as_account_id a = pd_account_id p))"
  by (auto simp: account_of_def map_of_eq_None_iff catalog_index_def account_identity_def image_iff)

lemma catalog_mentions_iff:
  "list_ex (\<lambda>((_, account_id), _). account_id = x) (catalog_index cat) \<longleftrightarrow>
     (\<exists>a\<in>set cat. as_account_id a = x)"
  by (auto simp: list_ex_iff catalog_index_def account_identity_def)

lemma resolve_posting_errors:
  assumes "resolve_posting c (catalog_index cat) s p = Inl e"
  shows "e \<in> {CrossBookAccount (pd_account_id p) (pt_book_id c), UnknownAccount (pd_account_id p),
             AccountClosed (pd_account_id p)}
         \<or> (\<exists>a. account_of cat (pt_book_id c) p = Some a
              \<and> e = PostingAssetMismatch (pd_account_id p) (pd_asset_code p) (as_asset_code a)
              \<and> pd_asset_code p \<noteq> as_asset_code a)"
    and "e = UnknownAccount x \<Longrightarrow> pd_account_id p = x \<and> (\<forall>a\<in>set cat. as_account_id a \<noteq> x)"
    and "e = CrossBookAccount x b \<Longrightarrow> pd_account_id p = x \<and> b = pt_book_id c
           \<and> account_of cat b p = None \<and> (\<exists>a\<in>set cat. as_account_id a = x)"
    and "e = AccountClosed x \<Longrightarrow> pd_account_id p = x
           \<and> (\<exists>a. account_of cat (pt_book_id c) p = Some a \<and> as_status a \<noteq> ''active'')"
  using assms
  by (auto simp: resolve_posting_def account_of_def catalog_mentions_iff
      split: prod.splits option.splits if_splits)

lemma reject_duplicates_from_errors:
  "reject_duplicates_from ids pos ps = Inl e \<Longrightarrow>
     (\<exists>x. e = DuplicatePostingId x) \<or> (\<exists>x. e = DuplicatePostingPosition x)"
  by (induction ids pos ps rule: reject_duplicates_from.induct) (auto split: if_splits)

lemma early_stage_errors:
  "validate_command_shape c = Inl e \<Longrightarrow> e \<in> {InvalidJournalCommand, TooFewPostings}"
  "mapE validate_posting_shape ps = Inl e \<Longrightarrow> e = PostingValidationError"
  "checkE validate_posting_values ps = Inl e \<Longrightarrow>
     e = PostingValidationError \<or> (\<exists>x. e = InvalidPostingUnits x)"
  by (auto simp: validate_command_shape_def validate_posting_shape_def validate_posting_values_def
      dest!: mapE_Inl_D checkE_Inl_D split: if_splits sum.splits)

lemma validate_fx_errors: "validate_fx ps rs d = Inl e \<Longrightarrow> \<exists>r. e = InvalidFxTransaction r"
  by (auto simp: validate_fx_def Let_def split: if_splits)

text \<open>The exceptions the first four stages raise; the loop and the balance check raise others.\<close>

definition early_error :: "journal_error \<Rightarrow> bool" where
  "early_error e \<longleftrightarrow>
     (case e of InvalidJournalCommand \<Rightarrow> True | TooFewPostings \<Rightarrow> True
      | PostingValidationError \<Rightarrow> True | DuplicatePostingId _ \<Rightarrow> True
      | DuplicatePostingPosition _ \<Rightarrow> True | InvalidPostingUnits _ \<Rightarrow> True
      | InvalidAccountCatalog \<Rightarrow> True | _ \<Rightarrow> False)"

lemma validate_late_error:
  assumes "validate c cat = Inl e" and "\<not> early_error e"
  shows "catalog_ok cat
    \<and> (foldE (resolve_posting c (catalog_index cat)) ([], []) (pt_postings c) = Inl e
       \<or> (let imbalances = filter (\<lambda>(_, n). n \<noteq> 0) (ctally pd_asset_code signed_units (pt_postings c) [])
           in imbalances \<noteq> [] \<and> e = UnbalancedAsset (sort_key fst imbalances))
       \<or> (\<exists>r. e = InvalidFxTransaction r))"
proof -
  have early: "validate_command_shape c \<noteq> Inl e" "mapE validate_posting_shape ps \<noteq> Inl e"
    "reject_duplicate_posting_identity ps \<noteq> Inl e" "checkE validate_posting_values ps \<noteq> Inl e"
    "index_by_identity cat \<noteq> Inl e" for ps
    using assms(2) early_stage_errors reject_duplicates_from_errors index_by_identity_error
    by (fastforce simp: early_error_def reject_duplicate_posting_identity_def)+
  have "\<exists>r. foldE (resolve_posting c (catalog_index cat)) ([], []) (pt_postings c) = r \<and> catalog_ok cat
      \<and> rbind r (\<lambda>(resolved, balances).
       let imbalances = filter (\<lambda>(_, net_units). net_units \<noteq> 0) balances in
       if imbalances \<noteq> [] then Inl (UnbalancedAsset (sort_key fst imbalances))
       else if pt_kind c \<in> {K_FX, K_CREDIT_CARD_PAYMENT}
       then validate_fx (pt_postings c) resolved balances else Inr ()) = Inl e"
    using assms(1) early unfolding validate_def
    by (auto simp: rbind_eq_Inl validate_command_shape_Inr_iff posting_shapes_Inr_iff
        index_by_identity_Inr_iff)
  then show ?thesis
    by (auto simp: rbind_eq_Inl resolve_loop_result_iff Let_def dest: validate_fx_errors split: if_splits)
qed

text \<open>A Book with three accounts and a two-posting transfer, to instantiate the properties.\<close>

abbreviation demo_account :: "string \<Rightarrow> string \<Rightarrow> string \<Rightarrow> account_snapshot" where
  "demo_account book i status \<equiv> \<lparr>as_account_id = i, as_book_id = book, as_asset_code = ''CNY'',
     as_account_type = T_ASSET, as_account_subtype = None, as_system_role = R_STANDARD,
     as_status = status\<rparr>"

abbreviation demo_catalog :: account_catalog where
  "demo_catalog \<equiv> [demo_account ''b'' ''x'' ''active'', demo_account ''b'' ''y'' ''active'',
     demo_account ''c'' ''z'' ''active'']"

abbreviation demo_posting :: "string \<Rightarrow> int \<Rightarrow> string \<Rightarrow> posting_side \<Rightarrow> int \<Rightarrow> posting_draft" where
  "demo_posting i n a s u \<equiv> \<lparr>pd_posting_id = i, pd_position = n, pd_account_id = a,
     pd_asset_code = ''CNY'', pd_side = s, pd_units = u\<rparr>"

abbreviation demo_transfer :: "string \<Rightarrow> int \<Rightarrow> post_transaction" where
  "demo_transfer a u \<equiv> \<lparr>pt_transaction_id = ''t'', pt_book_id = ''b'', pt_kind = K_TRANSFER,
     pt_postings = [demo_posting ''p'' 0 ''x'' DEBIT 5, demo_posting ''q'' 1 a CREDIT u]\<rparr>"

lemmas demo_simps = validate_def validate_command_shape_def validate_posting_shape_def
  reject_duplicate_posting_identity_def validate_posting_values_def resolve_posting_def
  ScaledUnits_def units_ok_def validate_scale_def MAX_SCALE_def MAX_UNITS_EXCLUSIVE_def
  MAX_UNIT_DIGITS_def index_by_identity_def index_step_def account_shape_ok_def
  is_valid_account_subtype_def account_identity_def signed_units_def cadd_def cget_def Let_def

lemma demo_accepted: "validate (demo_transfer ''y'' 5) demo_catalog = Inr ()"
  by (simp add: demo_simps)

section \<open>Properties\<close>

text \<open>
  Property C12: the validator accepts a transaction exactly when it satisfies the journal
  contract: shapes, unique identities, active same-Book accounts in the posting's asset,
  debits equal to credits per asset, and the exchange rules for the two exchange kinds.
\<close>

theorem validate_decides_contract:
  "validate command catalog = Inr () \<longleftrightarrow> journal_contract command catalog"
  by (rule validate_Inr_iff)

text \<open>
  Property C20: in an accepted transaction the debited units of every asset equal its credited
  units; this is double entry, asset by asset, with no conversion between assets.
\<close>

theorem accepted_is_double_entry:
  assumes "validate command catalog = Inr ()"
  shows "side_total DEBIT asset (pt_postings command) = side_total CREDIT asset (pt_postings command)"
  using assms net_units_sides [of "pt_postings command" asset]
  by (simp add: validate_Inr_iff journal_contract_def)

theorem accepted_is_double_entry_witness:
  "side_total DEBIT ''CNY'' (pt_postings (demo_transfer ''y'' 5)) = 5
   \<and> side_total CREDIT ''CNY'' (pt_postings (demo_transfer ''y'' 5)) = 5"
  using accepted_is_double_entry [OF demo_accepted, of "''CNY''"] by (simp add: side_total_def)

text \<open>
  Property C23: an \<open>UnbalancedAsset\<close> exception names exactly the assets whose debits and
  credits differ, each once, in the order of their codes, with the difference.
\<close>

theorem unbalanced_report_exact:
  assumes "validate command catalog = Inl (UnbalancedAsset report)"
  shows "report \<noteq> [] \<and> sorted (map fst report) \<and> distinct (map fst report)
    \<and> (\<forall>asset n. (asset, n) \<in> set report \<longleftrightarrow> n \<noteq> 0 \<and> n = net_units (pt_postings command) asset)"
proof -
  let ?bal = "ctally pd_asset_code signed_units (pt_postings command) []"
  let ?imb = "filter (\<lambda>(_, n). n \<noteq> 0) ?bal"
  have no_loop: "foldE (resolve_posting command (catalog_index catalog)) ([], []) (pt_postings command)
      \<noteq> Inl (UnbalancedAsset report)"
    by (auto dest!: foldE_Inl_D resolve_posting_errors(1))
  have r: "?imb \<noteq> []" "report = sort_key fst ?imb"
    using validate_late_error [OF assms] no_loop by (simp_all add: early_error_def Let_def)
  have "distinct (map fst ?bal)" by (simp add: counter_simps)
  then have "distinct (map fst ?imb)" by (rule distinct_map_filter)
  moreover have "mset (map fst report) = mset (map fst ?imb)" unfolding r(2) by simp
  ultimately have "distinct (map fst report)" by (metis mset_eq_imp_distinct_iff)
  moreover have "(asset, n) \<in> set report \<longleftrightarrow> n \<noteq> 0 \<and> n = net_units (pt_postings command) asset"
    for asset n
    unfolding r(2) using net_units_outside [of asset "pt_postings command"]
    by (auto simp: balances_member)
  moreover have "report \<noteq> []" using r by (metis mset_sort mset_zero_iff)
  ultimately show ?thesis by (simp add: r(2))
qed

theorem unbalanced_report_exact_witness:
  "validate (demo_transfer ''y'' 3) demo_catalog = Inl (UnbalancedAsset [(''CNY'', 2)])
   \<and> net_units (pt_postings (demo_transfer ''y'' 3)) ''CNY'' = 2"
proof -
  have v: "validate (demo_transfer ''y'' 3) demo_catalog = Inl (UnbalancedAsset [(''CNY'', 2)])"
    by (simp add: demo_simps)
  note report = unbalanced_report_exact [OF v, THEN conjunct2, THEN conjunct2, THEN conjunct2]
  have "2 = net_units (pt_postings (demo_transfer ''y'' 3)) ''CNY''"
    using report [rule_format, of "''CNY''" 2] by simp
  from v this [symmetric] show ?thesis by (rule conjI)
qed

text \<open>
  The account exceptions tell the truth about the catalog. \<open>UnknownAccount x\<close>
  means no Book has an account \<open>x\<close>; \<open>CrossBookAccount x\<close> that another Book has one and this
  Book does not; \<open>AccountClosed x\<close> that this Book's account \<open>x\<close> is not active.
\<close>

theorem account_errors_truthful:
  assumes "validate command catalog = Inl e"
  shows "(e = UnknownAccount x \<longrightarrow> (\<forall>a\<in>set catalog. as_account_id a \<noteq> x))
    \<and> (e = CrossBookAccount x b \<longrightarrow> b = pt_book_id command
         \<and> (\<exists>a\<in>set catalog. as_account_id a = x \<and> as_book_id a \<noteq> b)
         \<and> (\<forall>a\<in>set catalog. as_account_id a = x \<longrightarrow> as_book_id a \<noteq> b))
    \<and> (e = AccountClosed x \<longrightarrow> (\<exists>a\<in>set catalog. as_account_id a = x
         \<and> as_book_id a = pt_book_id command \<and> as_status a = ''closed''))"
proof (cases "e = UnknownAccount x \<or> e = CrossBookAccount x b \<or> e = AccountClosed x")
  case False
  then show ?thesis by simp
next
  case True
  then have "\<not> early_error e" by (auto simp: early_error_def)
  from validate_late_error [OF assms this] True have cat: "catalog_ok catalog"
    and "foldE (resolve_posting command (catalog_index catalog)) ([], []) (pt_postings command) = Inl e"
    by (auto simp: Let_def)
  then obtain p s where p: "resolve_posting command (catalog_index catalog) s p = Inl e"
    by (blast dest: foldE_Inl_D)
  have "\<exists>a\<in>set catalog. as_account_id a = x \<and> as_book_id a = pt_book_id command
      \<and> as_status a = ''closed''" if "e = AccountClosed x"
  proof -
    from resolve_posting_errors(4) [OF p that] obtain a where a: "pd_account_id p = x"
      "account_of catalog (pt_book_id command) p = Some a" "as_status a \<noteq> ''active''" by blast
    from a(2) cat have "a \<in> set catalog" "account_identity a = (pt_book_id command, x)"
      by (simp_all add: account_of_def catalog_lookup_iff a(1))
    moreover from this cat a(3) have "as_status a = ''closed''"
      by (auto simp: catalog_ok_def account_shape_ok_def)
    ultimately show ?thesis by (auto simp: account_identity_def)
  qed
  moreover have "b = pt_book_id command \<and> (\<exists>a\<in>set catalog. as_account_id a = x \<and> as_book_id a \<noteq> b)
      \<and> (\<forall>a\<in>set catalog. as_account_id a = x \<longrightarrow> as_book_id a \<noteq> b)" if "e = CrossBookAccount x b"
  proof -
    from resolve_posting_errors(3) [OF p that] have c: "pd_account_id p = x" "b = pt_book_id command"
      "account_of catalog b p = None" "\<exists>a\<in>set catalog. as_account_id a = x" by blast+
    from c(3) have "\<forall>a\<in>set catalog. \<not> (as_book_id a = b \<and> as_account_id a = x)"
      by (simp add: account_of_None_iff [OF cat] c(1))
    with c show ?thesis by blast
  qed
  moreover have "\<forall>a\<in>set catalog. as_account_id a \<noteq> x" if "e = UnknownAccount x"
    using resolve_posting_errors(2) [OF p that] by blast
  ultimately show ?thesis by blast
qed

theorem account_errors_truthful_witness:
  "validate (demo_transfer ''z'' 5) demo_catalog = Inl (CrossBookAccount ''z'' ''b'')
   \<and> (\<exists>a\<in>set demo_catalog. as_account_id a = ''z'' \<and> as_book_id a \<noteq> ''b'')"
proof -
  have v: "validate (demo_transfer ''z'' 5) demo_catalog = Inl (CrossBookAccount ''z'' ''b'')"
    by (simp add: demo_simps)
  from account_errors_truthful [OF v, of "''z''" "''b''"] v show ?thesis by simp
qed

text \<open>
  Acceptance does not depend on the order in which the postings are listed.
\<close>

theorem acceptance_order_independent:
  assumes "mset postings = mset (pt_postings command)"
  shows "validate (command\<lparr>pt_postings := postings\<rparr>) catalog = Inr ()
     \<longleftrightarrow> validate command catalog = Inr ()"
proof -
  let ?ps = "pt_postings command"
  from assms have set: "set postings = set ?ps" and len: "length postings = length ?ps"
    by (auto dest: mset_eq_setD mset_eq_length)
  have "mset (map f postings) = mset (map f ?ps)" for f :: "posting_draft \<Rightarrow> 'b"
    by (simp add: assms)
  then have dist: "distinct (map f postings) \<longleftrightarrow> distinct (map f ?ps)" for f :: "posting_draft \<Rightarrow> 'b"
    by (rule mset_eq_imp_distinct_iff)
  have net: "net_units postings a = net_units ?ps a" for a
    unfolding net_units_def using assms by (rule total_for_mset)
  have upd: "pt_transaction_id (command\<lparr>pt_postings := postings\<rparr>) = pt_transaction_id command"
    "pt_book_id (command\<lparr>pt_postings := postings\<rparr>) = pt_book_id command"
    "pt_kind (command\<lparr>pt_postings := postings\<rparr>) = pt_kind command"
    "pt_postings (command\<lparr>pt_postings := postings\<rparr>) = postings" by simp_all
  have "mset (filter (trades cat book) postings) = mset (filter (trades cat book) ?ps)" for cat book
    by (simp add: assms)
  then have trade: "trading_net cat book postings a = trading_net cat book ?ps a" for cat book a
    unfolding trading_net_def net_units_def by (rule total_for_mset)
  show ?thesis
    unfolding validate_Inr_iff journal_contract_def exchange_ok_def upd set len dist net trade ..
qed

theorem acceptance_order_independent_witness:
  "validate (demo_transfer ''y'' 5\<lparr>pt_postings := rev (pt_postings (demo_transfer ''y'' 5))\<rparr>)
     demo_catalog = Inr ()"
  using acceptance_order_independent [of "rev (pt_postings (demo_transfer ''y'' 5))"
      "demo_transfer ''y'' 5" demo_catalog] demo_accepted by simp

end
