(* ===== verification/Event_Contracts.thy ===== *)
theory Event_Contracts
  imports Journal_Validator
begin

text \<open>
  The payloads of the event ledger and their contracts: \<open>domain/privacy.py\<close>,
  \<open>domain/journal/events.py\<close>, \<open>domain/credit_cards/events.py\<close>, \<open>domain/reporting/events.py\<close>
  and \<open>domain/investments/events.py\<close>. Each class is a record of its fields; building one
  checks the field constraints first and then the class's own \<open>model_validator\<close>, and any
  failure is the library's \<open>ValidationError\<close>. Amounts stay the canonical decimal strings they
  are on the ledger; \<open>int(...)\<close> of one is \<open>units_value\<close>.
\<close>

section \<open>Field patterns\<close>

definition is_upper :: "char \<Rightarrow> bool" where
  "is_upper c \<longleftrightarrow> 65 \<le> (of_char c :: nat) \<and> (of_char c :: nat) \<le> 90"

definition head_and_tail :: "(char \<Rightarrow> bool) \<Rightarrow> (char \<Rightarrow> bool) \<Rightarrow> nat \<Rightarrow> string \<Rightarrow> bool" where
  "head_and_tail first rest n s =
     (case s of [] \<Rightarrow> False | c # t \<Rightarrow> first c \<and> list_all rest t \<and> length t \<le> n)"

definition CanonicalUnits :: "string \<Rightarrow> bool" where
  "CanonicalUnits = head_and_tail (\<lambda>c. is_digit c \<and> c \<noteq> CHR ''0'') is_digit 37"

definition AssetCode :: "string \<Rightarrow> bool" where
  "AssetCode = head_and_tail is_upper (\<lambda>c. is_upper c \<or> is_digit c \<or> c \<in> set ''._-'') 15"

definition ProviderCode :: "string \<Rightarrow> bool" where
  "ProviderCode = head_and_tail is_lower (\<lambda>c. is_lower c \<or> is_digit c \<or> c \<in> set ''_-'') 31"

definition ExternalReferenceValue :: "string \<Rightarrow> bool" where
  "ExternalReferenceValue = head_and_tail (\<lambda>c. is_upper c \<or> is_lower c \<or> is_digit c)
     (\<lambda>c. is_upper c \<or> is_lower c \<or> is_digit c \<or> c \<in> set ''._:/-'') 127"

definition CanonicalEventHash :: "string \<Rightarrow> bool" where
  "CanonicalEventHash s \<longleftrightarrow> length s = 64
     \<and> list_all (\<lambda>c. is_digit c \<or> (97 \<le> (of_char c :: nat) \<and> (of_char c :: nat) \<le> 102)) s"

definition units_value :: "string \<Rightarrow> int" where
  "units_value s = int (str_nat s)"

section \<open>Ordered records\<close>

datatype contract_error = ValidationError

text \<open>\<open>unique_fields\<close> names the fields whose values must differ; here the field selectors.\<close>

definition validate_ordered_records ::
    "('r \<Rightarrow> int) \<Rightarrow> 'r list \<Rightarrow> nat \<Rightarrow> ('r \<Rightarrow> uuid) list \<Rightarrow> contract_error + unit" where
  "validate_ordered_records position records minimum unique_fields =
     (if length records < minimum then Inl ValidationError
      else if map position records \<noteq> map int [0..<length records] then Inl ValidationError
      else checkE (\<lambda>field. if \<not> distinct (map field records) then Inl ValidationError else Inr ())
             unique_fields)"

section \<open>Journal events\<close>

datatype external_reference_kind =
  PROVIDER_TRANSACTION | BANK_TRANSACTION | CARD_TRANSACTION | BROKER_TRADE

datatype reversal_reason_code =
  USER_CORRECTION | DUPLICATE | IMPORT_CORRECTION | PROVIDER_REVERSAL

record journal_posting_fact =
  jp_posting_id :: uuid
  jp_position :: int
  jp_account_id :: uuid
  jp_asset_code :: string
  jp_side :: posting_side
  jp_units :: string

record financial_external_reference =
  er_provider_code :: string
  er_kind :: external_reference_kind
  er_reference :: string

record journal_transaction_posted =
  tp_transaction_id :: uuid
  tp_kind :: transaction_kind
  tp_original_transaction_id :: "uuid option"
  tp_postings :: "journal_posting_fact list"
  tp_description_ref :: "uuid option"
  tp_external_references :: "financial_external_reference list"

record journal_transaction_reversed =
  tr_reversal_transaction_id :: uuid
  tr_reverses_transaction_id :: uuid
  tr_original_event_id :: uuid
  tr_original_event_hash :: string
  tr_reason_code :: reversal_reason_code
  tr_inverse_postings :: "journal_posting_fact list"
  tr_description_ref :: "uuid option"

record external_reference_corrected =
  rc_transaction_id :: uuid
  rc_provider_code :: string
  rc_reference_kind :: external_reference_kind
  rc_previous_reference :: "string option"
  rc_corrected_reference :: string

definition posting_fact_fields_ok :: "journal_posting_fact \<Rightarrow> bool" where
  "posting_fact_fields_ok p \<longleftrightarrow> 0 \<le> jp_position p \<and> AssetCode (jp_asset_code p) \<and> CanonicalUnits (jp_units p)"

definition external_reference_fields_ok :: "financial_external_reference \<Rightarrow> bool" where
  "external_reference_fields_ok r \<longleftrightarrow> ProviderCode (er_provider_code r) \<and> ExternalReferenceValue (er_reference r)"

definition reference_key :: "financial_external_reference \<Rightarrow> string \<times> external_reference_kind" where
  "reference_key r = (er_provider_code r, er_kind r)"

definition validate_posted :: "journal_transaction_posted \<Rightarrow> contract_error + unit" where
  "validate_posted self =
     (if \<not> list_all posting_fact_fields_ok (tp_postings self)
         \<or> \<not> list_all external_reference_fields_ok (tp_external_references self)
      then Inl ValidationError
      else rbind (validate_ordered_records jp_position (tp_postings self) 2 [jp_posting_id]) (\<lambda>_.
        if \<not> distinct (map reference_key (tp_external_references self)) then Inl ValidationError
        else if tp_kind self = K_REFUND then
          (case tp_original_transaction_id self of
             None \<Rightarrow> Inl ValidationError
           | Some original \<Rightarrow>
               if original = tp_transaction_id self then Inl ValidationError else Inr ())
        else if tp_original_transaction_id self \<noteq> None then Inl ValidationError
        else Inr ()))"

definition validate_reversed :: "journal_transaction_reversed \<Rightarrow> contract_error + unit" where
  "validate_reversed self =
     (if \<not> list_all posting_fact_fields_ok (tr_inverse_postings self)
         \<or> \<not> CanonicalEventHash (tr_original_event_hash self)
      then Inl ValidationError
      else rbind (validate_ordered_records jp_position (tr_inverse_postings self) 2 [jp_posting_id]) (\<lambda>_.
        if tr_reversal_transaction_id self = tr_reverses_transaction_id self then Inl ValidationError
        else Inr ()))"

definition validate_reference_corrected :: "external_reference_corrected \<Rightarrow> contract_error + unit" where
  "validate_reference_corrected self =
     (if \<not> ProviderCode (rc_provider_code self)
         \<or> \<not> (case rc_previous_reference self of None \<Rightarrow> True | Some r \<Rightarrow> ExternalReferenceValue r)
         \<or> \<not> ExternalReferenceValue (rc_corrected_reference self)
      then Inl ValidationError
      else if rc_previous_reference self = Some (rc_corrected_reference self) then Inl ValidationError
      else Inr ())"

section \<open>Credit-card events\<close>

datatype credit_card_intent = CHARGE | PAYMENT | REFUND | FEE

fun credit_card_intent_value :: "credit_card_intent \<Rightarrow> string" where
  "credit_card_intent_value CHARGE = ''charge''"
| "credit_card_intent_value PAYMENT = ''payment''"
| "credit_card_intent_value REFUND = ''refund''"
| "credit_card_intent_value FEE = ''fee''"

definition intent_transaction_kind :: "credit_card_intent \<Rightarrow> string" where
  "intent_transaction_kind i = ''credit_card_'' @ credit_card_intent_value i"

record credit_card_transaction_recorded =
  cc_intent :: credit_card_intent
  cc_transaction_id :: uuid
  cc_card_account_id :: uuid
  cc_counter_account_id :: uuid
  cc_original_transaction_id :: "uuid option"
  cc_postings :: "journal_posting_fact list"
  cc_description_ref :: "uuid option"
  cc_external_references :: "financial_external_reference list"

definition expected_card_legs :: "credit_card_transaction_recorded \<Rightarrow> (uuid \<times> posting_side) list" where
  "expected_card_legs self =
     (if cc_intent self \<in> {CHARGE, FEE}
      then [(cc_counter_account_id self, DEBIT), (cc_card_account_id self, CREDIT)]
      else [(cc_card_account_id self, DEBIT), (cc_counter_account_id self, CREDIT)])"

definition validate_card :: "credit_card_transaction_recorded \<Rightarrow> contract_error + unit" where
  "validate_card self =
     (if \<not> list_all posting_fact_fields_ok (cc_postings self)
         \<or> \<not> list_all external_reference_fields_ok (cc_external_references self)
      then Inl ValidationError
      else rbind (validate_ordered_records jp_position (cc_postings self) 2 [jp_posting_id]) (\<lambda>_.
        if length (cc_postings self) \<noteq> 2 then Inl ValidationError
        else if cc_card_account_id self = cc_counter_account_id self then Inl ValidationError
        else rbind
          (if cc_intent self = REFUND then
             (case cc_original_transaction_id self of
                None \<Rightarrow> Inl ValidationError
              | Some original \<Rightarrow>
                  if original = cc_transaction_id self then Inl ValidationError else Inr ())
           else if cc_original_transaction_id self \<noteq> None then Inl ValidationError
           else Inr ()) (\<lambda>_.
        case cc_postings self of
          [first, second] \<Rightarrow>
            if jp_asset_code first \<noteq> jp_asset_code second \<or> jp_units first \<noteq> jp_units second
            then Inl ValidationError
            else if map (\<lambda>p. (jp_account_id p, jp_side p)) (cc_postings self) \<noteq> expected_card_legs self
            then Inl ValidationError
            else if \<not> distinct (map reference_key (cc_external_references self)) then Inl ValidationError
            else Inr ()
        | _ \<Rightarrow> Inl ValidationError)))"

section \<open>Reporting events\<close>

datatype reporting_line_kind = L_EXPENSE | L_INCOME | L_TRANSFER | L_TAX | L_INVESTMENT

datatype reporting_dimension = D_CATEGORY | D_PROJECT | D_COUNTERPARTY | D_TAX

record reporting_line =
  rl_line_id :: uuid
  rl_line_version_id :: uuid
  rl_catalog_id :: uuid
  rl_position :: int
  rl_asset_code :: string
  rl_units :: string
  rl_line_kind :: reporting_line_kind
  rl_dimension :: reporting_dimension
  rl_dimension_id :: "uuid option"
  rl_description_ref :: "uuid option"

record reporting_lines_assigned =
  la_transaction_id :: uuid
  la_classification_revision :: int
  la_lines :: "reporting_line list"

record reporting_lines_cleared =
  lc_transaction_id :: uuid
  lc_classification_revision :: int

definition reporting_line_fields_ok :: "reporting_line \<Rightarrow> bool" where
  "reporting_line_fields_ok l \<longleftrightarrow> 0 \<le> rl_position l \<and> AssetCode (rl_asset_code l) \<and> CanonicalUnits (rl_units l)"

definition validate_lines_assigned :: "reporting_lines_assigned \<Rightarrow> contract_error + unit" where
  "validate_lines_assigned self =
     (if la_classification_revision self \<le> 0 \<or> \<not> list_all reporting_line_fields_ok (la_lines self)
      then Inl ValidationError
      else validate_ordered_records rl_position (la_lines self) 1 [rl_line_id, rl_line_version_id])"

definition validate_lines_cleared :: "reporting_lines_cleared \<Rightarrow> contract_error + unit" where
  "validate_lines_cleared self =
     (if lc_classification_revision self \<le> 0 then Inl ValidationError else Inr ())"

section \<open>Investment events\<close>

record lot_disposal_allocation =
  ld_allocation_id :: uuid
  ld_lot_id :: uuid
  ld_position :: int
  ld_quantity_units :: string
  ld_cost_units :: string

record investment_lot_acquired =
  ia_transaction_id :: uuid
  ia_lot_id :: uuid
  ia_instrument_asset_code :: string
  ia_settlement_asset_code :: string
  ia_quantity_units :: string
  ia_cost_units :: string
  ia_fee_units :: "string option"

record investment_lot_disposed =
  id_transaction_id :: uuid
  id_instrument_asset_code :: string
  id_settlement_asset_code :: string
  id_quantity_units :: string
  id_proceeds_units :: string
  id_cost_basis_units :: string
  id_fee_units :: "string option"
  id_allocations :: "lot_disposal_allocation list"

definition optional_units_ok :: "string option \<Rightarrow> bool" where
  "optional_units_ok u = (case u of None \<Rightarrow> True | Some s \<Rightarrow> CanonicalUnits s)"

definition allocation_fields_ok :: "lot_disposal_allocation \<Rightarrow> bool" where
  "allocation_fields_ok a \<longleftrightarrow>
     0 \<le> ld_position a \<and> CanonicalUnits (ld_quantity_units a) \<and> CanonicalUnits (ld_cost_units a)"

definition validate_lot_acquired :: "investment_lot_acquired \<Rightarrow> contract_error + unit" where
  "validate_lot_acquired self =
     (if AssetCode (ia_instrument_asset_code self) \<and> AssetCode (ia_settlement_asset_code self)
         \<and> CanonicalUnits (ia_quantity_units self) \<and> CanonicalUnits (ia_cost_units self)
         \<and> optional_units_ok (ia_fee_units self)
      then Inr () else Inl ValidationError)"

definition validate_lot_disposed :: "investment_lot_disposed \<Rightarrow> contract_error + unit" where
  "validate_lot_disposed self =
     (if \<not> (AssetCode (id_instrument_asset_code self) \<and> AssetCode (id_settlement_asset_code self)
         \<and> CanonicalUnits (id_quantity_units self) \<and> CanonicalUnits (id_proceeds_units self)
         \<and> CanonicalUnits (id_cost_basis_units self) \<and> optional_units_ok (id_fee_units self)
         \<and> list_all allocation_fields_ok (id_allocations self))
      then Inl ValidationError
      else rbind (validate_ordered_records ld_position (id_allocations self) 1 [ld_allocation_id, ld_lot_id]) (\<lambda>_.
        if sum_list (map (units_value \<circ> ld_quantity_units) (id_allocations self)) \<noteq> units_value (id_quantity_units self)
        then Inl ValidationError
        else if sum_list (map (units_value \<circ> ld_cost_units) (id_allocations self)) \<noteq> units_value (id_cost_basis_units self)
        then Inl ValidationError
        else Inr ()))"

section \<open>The registered payloads\<close>

datatype event_payload =
    JournalTransactionPosted journal_transaction_posted
  | JournalTransactionReversed journal_transaction_reversed
  | FinancialExternalReferenceCorrected external_reference_corrected
  | CreditCardTransactionRecorded credit_card_transaction_recorded
  | ReportingLinesAssigned reporting_lines_assigned
  | ReportingLinesCleared reporting_lines_cleared
  | InvestmentLotAcquired investment_lot_acquired
  | InvestmentLotDisposed investment_lot_disposed

fun event_type :: "event_payload \<Rightarrow> string" where
  "event_type (JournalTransactionPosted _) = ''JournalTransactionPosted''"
| "event_type (JournalTransactionReversed _) = ''JournalTransactionReversed''"
| "event_type (FinancialExternalReferenceCorrected _) = ''FinancialExternalReferenceCorrected''"
| "event_type (CreditCardTransactionRecorded _) = ''CreditCardTransactionRecorded''"
| "event_type (ReportingLinesAssigned _) = ''ReportingLinesAssigned''"
| "event_type (ReportingLinesCleared _) = ''ReportingLinesCleared''"
| "event_type (InvestmentLotAcquired _) = ''InvestmentLotAcquired''"
| "event_type (InvestmentLotDisposed _) = ''InvestmentLotDisposed''"

definition schema_version :: "event_payload \<Rightarrow> int" where
  "schema_version _ = 1"

fun validate_payload :: "event_payload \<Rightarrow> contract_error + unit" where
  "validate_payload (JournalTransactionPosted p) = validate_posted p"
| "validate_payload (JournalTransactionReversed p) = validate_reversed p"
| "validate_payload (FinancialExternalReferenceCorrected p) = validate_reference_corrected p"
| "validate_payload (CreditCardTransactionRecorded p) = validate_card p"
| "validate_payload (ReportingLinesAssigned p) = validate_lines_assigned p"
| "validate_payload (ReportingLinesCleared p) = validate_lines_cleared p"
| "validate_payload (InvestmentLotAcquired p) = validate_lot_acquired p"
| "validate_payload (InvestmentLotDisposed p) = validate_lot_disposed p"

text \<open>The postings a financial event carries, if it is one, and their signed totals.\<close>

fun payload_postings :: "event_payload \<Rightarrow> journal_posting_fact list" where
  "payload_postings (JournalTransactionPosted p) = tp_postings p"
| "payload_postings (JournalTransactionReversed p) = tr_inverse_postings p"
| "payload_postings (CreditCardTransactionRecorded p) = cc_postings p"
| "payload_postings _ = []"

definition fact_signed :: "journal_posting_fact \<Rightarrow> int" where
  "fact_signed p = (if jp_side p = DEBIT then units_value (jp_units p) else - units_value (jp_units p))"

definition facts_balanced :: "journal_posting_fact list \<Rightarrow> bool" where
  "facts_balanced ps \<longleftrightarrow> (\<forall>asset\<in>set (map jp_asset_code ps). total_for jp_asset_code fact_signed asset ps = 0)"

section \<open>Lemmas\<close>

lemma CanonicalUnits_iff:
  "CanonicalUnits s \<longleftrightarrow> list_all is_digit s \<and> s \<noteq> [] \<and> hd s \<noteq> CHR ''0'' \<and> length s \<le> 38"
  by (cases s) (auto simp: CanonicalUnits_def head_and_tail_def)

lemma CanonicalUnits_value: "CanonicalUnits s \<Longrightarrow> 0 < units_value s \<and> units_value s < MAX_UNITS_EXCLUSIVE"
proof -
  assume c: "CanonicalUnits s"
  then have d: "list_all is_digit s" "length s \<le> 38" by (simp_all add: CanonicalUnits_iff)
  have "str_nat s \<noteq> 0"
  proof
    assume "str_nat s = 0"
    then have "s = nat_str 0" using c nat_str_str_nat [of s] by (simp add: CanonicalUnits_iff)
    with c show False by (simp add: CanonicalUnits_iff nat_str.simps)
  qed
  moreover have "str_nat s < 10 ^ 38"
    using str_nat_bound [OF d(1)] d(2) power_increasing [of "length s" 38 "10::nat"] by simp
  then have "int (str_nat s) < int (10 ^ 38)" by (simp only: of_nat_less_iff)
  ultimately show ?thesis by (simp add: units_value_def MAX_UNITS_EXCLUSIVE_def MAX_UNIT_DIGITS_def)
qed

lemma CanonicalUnits_nat_str: "CanonicalUnits (nat_str n) \<longleftrightarrow> 0 < n \<and> n < 10 ^ 38"
proof (cases "n = 0")
  case True
  then show ?thesis by (simp add: CanonicalUnits_iff nat_str.simps)
next
  case False
  then show ?thesis
    by (simp add: CanonicalUnits_iff nat_str_digits hd_nat_str length_nat_str_le)
qed

lemma units_value_nat_str [simp]: "units_value (nat_str n) = int n"
  by (simp add: units_value_def)

lemma canonical_units_unique: "CanonicalUnits s \<Longrightarrow> s = nat_str (nat (units_value s))"
  using nat_str_str_nat [of s] by (simp add: CanonicalUnits_iff units_value_def)

lemma validate_ordered_records_Inr_iff [result_simps]:
  "validate_ordered_records position records minimum sel = Inr u \<longleftrightarrow>
     minimum \<le> length records \<and> map position records = map int [0..<length records]
     \<and> (\<forall>field\<in>set sel. distinct (map field records))"
  by (auto simp: validate_ordered_records_def checkE_Inr_iff)

lemma validate_posted_Inr_iff [result_simps]:
  "validate_posted p = Inr u \<longleftrightarrow>
     list_all posting_fact_fields_ok (tp_postings p)
     \<and> list_all external_reference_fields_ok (tp_external_references p)
     \<and> 2 \<le> length (tp_postings p)
     \<and> map jp_position (tp_postings p) = map int [0..<length (tp_postings p)]
     \<and> distinct (map jp_posting_id (tp_postings p))
     \<and> distinct (map reference_key (tp_external_references p))
     \<and> (tp_original_transaction_id p \<noteq> None \<longleftrightarrow> tp_kind p = K_REFUND)
     \<and> tp_original_transaction_id p \<noteq> Some (tp_transaction_id p)"
  by (auto simp: validate_posted_def result_simps split: option.splits if_splits)

lemma validate_reversed_Inr_iff [result_simps]:
  "validate_reversed p = Inr u \<longleftrightarrow>
     list_all posting_fact_fields_ok (tr_inverse_postings p)
     \<and> CanonicalEventHash (tr_original_event_hash p)
     \<and> 2 \<le> length (tr_inverse_postings p)
     \<and> map jp_position (tr_inverse_postings p) = map int [0..<length (tr_inverse_postings p)]
     \<and> distinct (map jp_posting_id (tr_inverse_postings p))
     \<and> tr_reversal_transaction_id p \<noteq> tr_reverses_transaction_id p"
  by (auto simp: validate_reversed_def result_simps)

lemma validate_card_shape:
  assumes "validate_card p = Inr u"
  obtains first second where "cc_postings p = [first, second]"
    "jp_asset_code first = jp_asset_code second" "jp_units first = jp_units second"
    "posting_fact_fields_ok first" "posting_fact_fields_ok second"
    "[(jp_account_id first, jp_side first), (jp_account_id second, jp_side second)] = expected_card_legs p"
    "cc_card_account_id p \<noteq> cc_counter_account_id p"
    "jp_position first = 0" "jp_position second = 1" "jp_posting_id first \<noteq> jp_posting_id second"
proof -
  from assms have "length (cc_postings p) = 2"
    by (auto simp: validate_card_def result_simps split: if_splits)
  then obtain first second where fs: "cc_postings p = [first, second]"
    by (auto simp: length_Suc_conv numeral_2_eq_2)
  from assms show thesis
    by (intro that [OF fs]) (auto simp: validate_card_def fs result_simps split: if_splits option.splits)
qed

lemma validate_lot_disposed_Inr_iff [result_simps]:
  "validate_lot_disposed p = Inr u \<longleftrightarrow>
     AssetCode (id_instrument_asset_code p) \<and> AssetCode (id_settlement_asset_code p)
     \<and> CanonicalUnits (id_quantity_units p) \<and> CanonicalUnits (id_proceeds_units p)
     \<and> CanonicalUnits (id_cost_basis_units p) \<and> optional_units_ok (id_fee_units p)
     \<and> list_all allocation_fields_ok (id_allocations p) \<and> id_allocations p \<noteq> []
     \<and> map ld_position (id_allocations p) = map int [0..<length (id_allocations p)]
     \<and> distinct (map ld_allocation_id (id_allocations p)) \<and> distinct (map ld_lot_id (id_allocations p))
     \<and> sum_list (map (units_value \<circ> ld_quantity_units) (id_allocations p)) = units_value (id_quantity_units p)
     \<and> sum_list (map (units_value \<circ> ld_cost_units) (id_allocations p)) = units_value (id_cost_basis_units p)"
  by (cases "id_allocations p") (auto simp: validate_lot_disposed_def result_simps)

lemma facts_balanced_all: "facts_balanced ps \<longleftrightarrow> (\<forall>asset. total_for jp_asset_code fact_signed asset ps = 0)"
  unfolding facts_balanced_def set_map using total_for_notin [of _ jp_asset_code ps fact_signed] by blast

section \<open>Properties\<close>

text \<open>
  Property C24: a credit-card event that passes its contract is a balanced journal entry of exactly
  two legs, a debit followed by a credit, over two different accounts, in one asset and by one and
  the same positive amount: a charge or a fee debits the counter account and credits the card, a
  payment or a refund does the opposite. So the card and the counter account move by opposite
  amounts and nothing else moves.
\<close>

theorem card_event_is_balanced_entry:
  assumes "validate_card p = Inr ()"
  shows "facts_balanced (cc_postings p)
    \<and> cc_card_account_id p \<noteq> cc_counter_account_id p
    \<and> map (\<lambda>l. (jp_account_id l, jp_side l)) (cc_postings p)
        = (if cc_intent p \<in> {CHARGE, FEE}
           then [(cc_counter_account_id p, DEBIT), (cc_card_account_id p, CREDIT)]
           else [(cc_card_account_id p, DEBIT), (cc_counter_account_id p, CREDIT)])
    \<and> (\<exists>a u. 0 < units_value u
        \<and> map jp_asset_code (cc_postings p) = [a, a] \<and> map jp_units (cc_postings p) = [u, u]
        \<and> total_for jp_account_id fact_signed (cc_card_account_id p) (cc_postings p)
          = (if cc_intent p \<in> {CHARGE, FEE} then - units_value u else units_value u)
        \<and> total_for jp_account_id fact_signed (cc_counter_account_id p) (cc_postings p)
          = (if cc_intent p \<in> {CHARGE, FEE} then units_value u else - units_value u))"
proof -
  from assms obtain f s where fs: "cc_postings p = [f, s]" "jp_asset_code f = jp_asset_code s"
    "jp_units f = jp_units s" "posting_fact_fields_ok f"
    "[(jp_account_id f, jp_side f), (jp_account_id s, jp_side s)] = expected_card_legs p"
    "cc_card_account_id p \<noteq> cc_counter_account_id p"
    by (rule validate_card_shape)
  have n: "0 < units_value (jp_units f)"
    using fs(4) CanonicalUnits_value by (simp add: posting_fact_fields_ok_def)
  show ?thesis
  proof (intro conjI)
    show "facts_balanced (cc_postings p)"
      using fs(1-3,5) by (auto simp: facts_balanced_def fact_signed_def expected_card_legs_def split: if_splits)
  qed (use n fs in \<open>auto simp: fact_signed_def expected_card_legs_def split: if_splits\<close>)
qed

abbreviation demo_fact :: "uuid \<Rightarrow> int \<Rightarrow> uuid \<Rightarrow> posting_side \<Rightarrow> string \<Rightarrow> journal_posting_fact" where
  "demo_fact i n a s u \<equiv> \<lparr>jp_posting_id = i, jp_position = n, jp_account_id = a,
     jp_asset_code = ''CNY'', jp_side = s, jp_units = u\<rparr>"

abbreviation demo_charge :: credit_card_transaction_recorded where
  "demo_charge \<equiv> \<lparr>cc_intent = CHARGE, cc_transaction_id = 9, cc_card_account_id = 1,
     cc_counter_account_id = 2, cc_original_transaction_id = None,
     cc_postings = [demo_fact 11 0 2 DEBIT ''25'', demo_fact 12 1 1 CREDIT ''25''],
     cc_description_ref = None, cc_external_references = []\<rparr>"

lemmas pattern_simps = CanonicalUnits_def AssetCode_def head_and_tail_def is_digit_def is_upper_def

theorem card_event_is_balanced_entry_witness:
  "validate_card demo_charge = Inr () \<and> facts_balanced (cc_postings demo_charge)
    \<and> total_for jp_account_id fact_signed 1 (cc_postings demo_charge)
      = - total_for jp_account_id fact_signed 2 (cc_postings demo_charge)"
proof -
  have v: "validate_card demo_charge = Inr ()"
    by (simp add: validate_card_def validate_ordered_records_def posting_fact_fields_ok_def
        expected_card_legs_def pattern_simps upt_rec)
  note * = card_event_is_balanced_entry [OF v]
  have "facts_balanced (cc_postings demo_charge)" by (rule conjunct1 [OF *])
  moreover have "total_for jp_account_id fact_signed 1 (cc_postings demo_charge)
      = - total_for jp_account_id fact_signed 2 (cc_postings demo_charge)"
    using conjunct2 [OF *] by (elim conjE exE) simp
  ultimately show ?thesis using v by blast
qed

end
