(* ===== verification/Utc_Time.thy ===== *)
theory Utc_Time
  imports Ledger_Prelude
begin

text \<open>
  \<open>format_utc_microseconds\<close> of \<open>serialization/canonical_json.py\<close>. An aware \<open>datetime\<close> is the
  instant it denotes, in microseconds since 1970-01-01T00:00Z; \<open>astimezone(timezone.utc)\<close> gives
  its fields by the proleptic Gregorian calendar, as the standard library's \<open>datetime\<close> computes
  them (\<open>_ord2ymd\<close>), and raises \<open>OverflowError\<close> outside the years 1 to 9999.
\<close>

datatype time_error = TimestampValueError

section \<open>The calendar of the standard library\<close>

definition is_leap :: "int \<Rightarrow> bool" where
  "is_leap year \<longleftrightarrow> year mod 4 = 0 \<and> (year mod 100 \<noteq> 0 \<or> year mod 400 = 0)"

definition days_before_year :: "int \<Rightarrow> int" where
  "days_before_year year = (let y = year - 1 in y * 365 + y div 4 - y div 100 + y div 400)"

fun common_days_before_month :: "int \<Rightarrow> int" where
  "common_days_before_month m =
     (if m = 1 then 0 else if m = 2 then 31 else if m = 3 then 59 else if m = 4 then 90
      else if m = 5 then 120 else if m = 6 then 151 else if m = 7 then 181 else if m = 8 then 212
      else if m = 9 then 243 else if m = 10 then 273 else if m = 11 then 304 else 334)"

definition days_before_month :: "int \<Rightarrow> int \<Rightarrow> int" where
  "days_before_month year month =
     common_days_before_month month + (if 2 < month \<and> is_leap year then 1 else 0)"

definition ymd2ord :: "int \<Rightarrow> int \<Rightarrow> int \<Rightarrow> int" where
  "ymd2ord year month day = days_before_year year + days_before_month year month + day"

definition month_of :: "bool \<Rightarrow> int \<Rightarrow> int" where
  "month_of leap n =
     (let month = (n + 50) div 32;
          preceding = common_days_before_month month + (if 2 < month \<and> leap then 1 else 0)
      in if n < preceding then month - 1 else month)"

definition ord2ymd :: "int \<Rightarrow> int \<times> int \<times> int" where
  "ord2ymd ordinal =
     (let n = ordinal - 1; n400 = n div 146097; n = n mod 146097;
          n100 = n div 36524; n = n mod 36524;
          n4 = n div 1461; n = n mod 1461;
          n1 = n div 365; n = n mod 365;
          year = n400 * 400 + 1 + n100 * 100 + n4 * 4 + n1
      in if n1 = 4 \<or> n100 = 4 then (year - 1, 12, 31)
         else
           let leap = (n1 = 3 \<and> (n4 \<noteq> 24 \<or> n100 = 3));
               month = month_of leap n;
               preceding = common_days_before_month month + (if 2 < month \<and> leap then 1 else 0)
           in (year, month, n - preceding + 1))"

definition EPOCH_ORDINAL :: int where
  "EPOCH_ORDINAL = 719163"

definition MICROSECONDS_PER_DAY :: int where
  "MICROSECONDS_PER_DAY = 86400000000"

definition MAX_ORDINAL :: int where
  "MAX_ORDINAL = 3652059"

section \<open>The timestamp format\<close>

text \<open>\<open>f"{n:0wd}"\<close> of a natural number.\<close>

definition pad :: "nat \<Rightarrow> int \<Rightarrow> string" where
  "pad w n = zfill w (nat_str (nat n))"

definition instant_ordinal :: "instant \<Rightarrow> int" where
  "instant_ordinal value = value div MICROSECONDS_PER_DAY + EPOCH_ORDINAL"

definition format_utc_microseconds :: "instant \<Rightarrow> time_error + string" where
  "format_utc_microseconds value =
     (let ordinal = instant_ordinal value; t = value mod MICROSECONDS_PER_DAY
      in if ordinal < 1 \<or> MAX_ORDINAL < ordinal then Inl TimestampValueError
         else case ord2ymd ordinal of (year, month, day) \<Rightarrow>
           Inr (pad 4 year @ ''-'' @ pad 2 month @ ''-'' @ pad 2 day
                @ ''T'' @ pad 2 (t div 3600000000) @ '':'' @ pad 2 (t div 60000000 mod 60)
                @ '':'' @ pad 2 (t div 1000000 mod 60) @ ''.'' @ pad 6 (t mod 1000000) @ ''Z''))"

section \<open>The calendar is exact\<close>

lemma month_cases: "(1::int) \<le> m \<Longrightarrow> m \<le> 12 \<Longrightarrow>
    m = 1 \<or> m = 2 \<or> m = 3 \<or> m = 4 \<or> m = 5 \<or> m = 6 \<or> m = 7 \<or> m = 8 \<or> m = 9 \<or> m = 10 \<or> m = 11 \<or> m = 12"
  by presburger

lemma month_of_exact:
  assumes "0 \<le> n" "n < (if leap then 366 else 365)"
  shows "1 \<le> month_of leap n \<and> month_of leap n \<le> 12
    \<and> common_days_before_month (month_of leap n) + (if 2 < month_of leap n \<and> leap then 1 else 0) \<le> n
    \<and> n < common_days_before_month (month_of leap n) + (if 2 < month_of leap n \<and> leap then 1 else 0) + 31"
proof -
  let ?m = "(n + 50) div 32"
  have b: "32 * ?m \<le> n + 50" "n + 50 < 32 * ?m + 32" by presburger+
  then have "1 \<le> ?m" "?m \<le> 12" using assms by (auto split: if_splits)
  from month_cases [OF this] show ?thesis
    by (elim disjE; use b assms in \<open>cases leap; simp add: month_of_def Let_def split: if_splits\<close>)
qed

lemma december: "common_days_before_month 12 = 334"
  by simp

declare common_days_before_month.simps [simp del]

lemma div_unique_int: "x = y * q + r \<Longrightarrow> 0 \<le> r \<Longrightarrow> r < y \<Longrightarrow> x div y = q" for x y q r :: int
  by (rule int_div_pos_eq)

lemma mod_unique_int: "x = y * q + r \<Longrightarrow> 0 \<le> r \<Longrightarrow> r < y \<Longrightarrow> x mod y = r" for x y q r :: int
  by (rule int_mod_pos_eq)

lemma year_parts:
  assumes "0 \<le> b" "b \<le> 3" "0 \<le> c" "c \<le> 24" "0 \<le> d" "d \<le> (3::int)"
  shows "(400 * a + 100 * b + 4 * c + d) div 4 = 100 * a + 25 * b + c"
    "(400 * a + 100 * b + 4 * c + d) div 100 = 4 * a + b"
    "(400 * a + 100 * b + 4 * c + d) div 400 = a"
    "is_leap (400 * a + 100 * b + 4 * c + d + 1) \<longleftrightarrow> d = 3 \<and> (c \<noteq> 24 \<or> b = 3)"
proof -
  let ?y = "400 * a + 100 * b + 4 * c + d"
  show "?y div 4 = 100 * a + 25 * b + c" by (rule div_unique_int [where r = d]) (use assms in simp_all)
  show "?y div 100 = 4 * a + b" by (rule div_unique_int [where r = "4 * c + d"]) (use assms in simp_all)
  show "?y div 400 = a" by (rule div_unique_int [where r = "100 * b + 4 * c + d"]) (use assms in simp_all)
  have m4: "(?y + 1) mod 4 = (if d = 3 then 0 else d + 1)"
    by (rule mod_unique_int [where q = "100 * a + 25 * b + c + (if d = 3 then 1 else 0)"]) (use assms in auto)
  have m100: "(?y + 1) mod 100 = (if 4 * c + d = 99 then 0 else 4 * c + d + 1)"
    by (rule mod_unique_int [where q = "4 * a + b + (if 4 * c + d = 99 then 1 else 0)"]) (use assms in auto)
  have m400: "(?y + 1) mod 400 = (if 100 * b + 4 * c + d = 399 then 0 else 100 * b + 4 * c + d + 1)"
    by (rule mod_unique_int [where q = "a + (if 100 * b + 4 * c + d = 399 then 1 else 0)"]) (use assms in auto)
  show "is_leap (?y + 1) \<longleftrightarrow> d = 3 \<and> (c \<noteq> 24 \<or> b = 3)"
    unfolding is_leap_def m4 m100 m400 using assms by auto
qed

lemma days_before_year_parts:
  assumes "0 \<le> b" "b \<le> 3" "0 \<le> c" "c \<le> 24" "0 \<le> d" "d \<le> (3::int)"
  shows "days_before_year (400 * a + 100 * b + 4 * c + d + 1) = 146097 * a + 36524 * b + 1461 * c + 365 * d"
  using year_parts [OF assms, of a] by (simp add: days_before_year_def Let_def)

abbreviation leap_parts :: "int \<Rightarrow> int \<Rightarrow> int \<Rightarrow> bool" where
  "leap_parts b c e \<equiv> e = 3 \<and> (c \<noteq> 24 \<or> b = 3)"

abbreviation preceding_days :: "int \<Rightarrow> bool \<Rightarrow> int" where
  "preceding_days m leap \<equiv> common_days_before_month m + (if 2 < m \<and> leap then 1 else 0)"

lemma ord2ymd_parts:
  obtains a b c e r1 r2 r3 r4 where
    "ordinal - 1 = 146097 * a + r1" "r1 = 36524 * b + r2" "r2 = 1461 * c + r3" "r3 = 365 * e + r4"
    "0 \<le> r1" "r1 < 146097" "0 \<le> r2" "r2 < 36524" "0 \<le> r3" "r3 < 1461" "0 \<le> r4" "r4 < 365"
    "0 \<le> b" "0 \<le> c" "0 \<le> e" "b \<le> 4" "c \<le> 24" "e \<le> 4"
    "ord2ymd ordinal = (if e = 4 \<or> b = 4 then (a * 400 + 1 + b * 100 + c * 4 + e - 1, 12, 31)
      else (a * 400 + 1 + b * 100 + c * 4 + e, month_of (leap_parts b c e) r4,
            r4 - preceding_days (month_of (leap_parts b c e) r4) (leap_parts b c e) + 1))"
proof -
  define a where "a = (ordinal - 1) div 146097"
  define r1 where "r1 = (ordinal - 1) mod 146097"
  define b where "b = r1 div 36524"
  define r2 where "r2 = r1 mod 36524"
  define c where "c = r2 div 1461"
  define r3 where "r3 = r2 mod 1461"
  define e where "e = r3 div 365"
  define r4 where "r4 = r3 mod 365"
  have eqs: "ordinal - 1 = 146097 * a + r1" "r1 = 36524 * b + r2" "r2 = 1461 * c + r3" "r3 = 365 * e + r4"
    unfolding a_def r1_def b_def r2_def c_def r3_def e_def r4_def by simp_all
  have bounds: "0 \<le> r1" "r1 < 146097" "0 \<le> r2" "r2 < 36524" "0 \<le> r3" "r3 < 1461" "0 \<le> r4" "r4 < 365"
    unfolding r1_def r2_def r3_def r4_def by simp_all
  have nn: "0 \<le> b" "0 \<le> c" "0 \<le> e" unfolding b_def c_def e_def
    using bounds by (simp_all add: pos_imp_zdiv_nonneg_iff)
  have ub: "b \<le> 4" "c \<le> 24" "e \<le> 4" using eqs bounds nn by simp_all
  have expand: "ord2ymd ordinal = (if e = 4 \<or> b = 4 then (a * 400 + 1 + b * 100 + c * 4 + e - 1, 12, 31)
      else (a * 400 + 1 + b * 100 + c * 4 + e, month_of (leap_parts b c e) r4,
            r4 - preceding_days (month_of (leap_parts b c e) r4) (leap_parts b c e) + 1))"
    unfolding ord2ymd_def Let_def a_def r1_def b_def r2_def c_def r3_def e_def r4_def ..
  show thesis by (rule that [OF eqs bounds nn ub expand])
qed

lemma ymd2ord_ord2ymd:
  assumes o: "ord2ymd ordinal = (y, m, d)" shows "ymd2ord y m d = ordinal"
proof -
  obtain a b c e r1 r2 r3 r4 where
    eqs: "ordinal - 1 = 146097 * a + r1" "r1 = 36524 * b + r2" "r2 = 1461 * c + r3" "r3 = 365 * e + r4"
    and bounds: "0 \<le> r1" "r1 < 146097" "0 \<le> r2" "r2 < 36524" "0 \<le> r3" "r3 < 1461" "0 \<le> r4" "r4 < 365"
    and nn: "0 \<le> b" "0 \<le> c" "0 \<le> e" and ub: "b \<le> 4" "c \<le> 24" "e \<le> 4"
    and expand: "ord2ymd ordinal = (if e = 4 \<or> b = 4 then (a * 400 + 1 + b * 100 + c * 4 + e - 1, 12, 31)
      else (a * 400 + 1 + b * 100 + c * 4 + e, month_of (leap_parts b c e) r4,
            r4 - preceding_days (month_of (leap_parts b c e) r4) (leap_parts b c e) + 1))"
    by (rule ord2ymd_parts)
  let ?year = "a * 400 + 1 + b * 100 + c * 4 + e"
  let ?leap = "leap_parts b c e"
  show "ymd2ord y m d = ordinal"
  proof (cases "e = 4 \<or> b = 4")
    case True
    with o have ymd: "y = ?year - 1" "m = 12" "d = 31" unfolding expand by simp_all
    show ?thesis
    proof (cases "b = 4")
      case b4: True
      then have z: "c = 0" "e = 0" "r4 = 0" using eqs bounds nn by simp_all
      have y: "y = 400 * a + 100 * 3 + 4 * 24 + 3 + 1" using ymd(1) z b4 by simp
      have "days_before_year y = 146097 * a + 36524 * 3 + 1461 * 24 + 365 * 3" "is_leap y"
        unfolding y by (subst days_before_year_parts year_parts(4); simp)+
      then show ?thesis using eqs z b4 by (simp add: ymd2ord_def days_before_month_def ymd december)
    next
      case b3: False
      then have e4: "e = 4" and b: "b \<le> 3" using True ub by simp_all
      then have z: "r4 = 0" using eqs bounds by simp
      have c: "c \<noteq> 24 \<or> b = 3" "c \<le> 24" using eqs e4 bounds ub by auto
      have c24: "c \<noteq> 24" using eqs e4 bounds by auto
      have y: "y = 400 * a + 100 * b + 4 * c + 3 + 1" using ymd(1) e4 by simp
      have "days_before_year y = 146097 * a + 36524 * b + 1461 * c + 365 * 3"
        unfolding y by (rule days_before_year_parts) (use nn b ub in simp_all)
      moreover have "is_leap y" unfolding y using year_parts(4) [of b c 3 a] nn b ub c24 by simp
      ultimately show ?thesis using eqs z e4 by (simp add: ymd2ord_def days_before_month_def ymd december)
    qed
  next
    case False
    then have be: "b \<le> 3" "e \<le> 3" using ub by simp_all
    have y: "y = 400 * a + 100 * b + 4 * c + e + 1" "m = month_of ?leap r4"
      "d = r4 - (common_days_before_month m + (if 2 < m \<and> ?leap then 1 else 0)) + 1"
      using o False unfolding expand by auto
    have "days_before_year y = 146097 * a + 36524 * b + 1461 * c + 365 * e" "is_leap y \<longleftrightarrow> ?leap"
      unfolding y(1)
      using days_before_year_parts [of b c e a] year_parts(4) [of b c e a] nn be ub by (simp_all only: simp_thms)
    then show ?thesis using eqs y(3) by (simp add: ymd2ord_def days_before_month_def)
  qed
qed

section \<open>Timestamps determine instants\<close>

lemma length_pad: "0 \<le> n \<Longrightarrow> n < 10 ^ w \<Longrightarrow> 0 < w \<Longrightarrow> length (pad w n) = w"
proof -
  assume "0 \<le> n" "n < 10 ^ w" "0 < w"
  then have "nat n < 10 ^ w" by (simp add: nat_less_iff)
  with \<open>0 < w\<close> show ?thesis by (simp add: pad_def zfill_def length_nat_str_le)
qed

lemma str_nat_of_zeros: "str_nat (replicate k CHR ''0'' @ s) = str_nat s"
  by (induction k) (simp_all add: str_nat_def)

lemma pad_inj: "0 \<le> m \<Longrightarrow> 0 \<le> n \<Longrightarrow> pad w m = pad w n \<Longrightarrow> m = n"
proof -
  assume nn: "0 \<le> m" "0 \<le> n" and eq: "pad w m = pad w n"
  from arg_cong [OF eq, of str_nat] have "nat m = nat n" by (simp add: pad_def zfill_def str_nat_of_zeros)
  then show "m = n" using nn by simp
qed

lemma ord2ymd_bounds:
  assumes "1 \<le> ordinal" "ordinal \<le> MAX_ORDINAL" "ord2ymd ordinal = (y, m, d)"
  shows "1 \<le> y" "y \<le> 9999" "1 \<le> m" "m \<le> 12" "1 \<le> d" "d \<le> 31"
proof -
  obtain a b c e r1 r2 r3 r4 where
    eqs: "ordinal - 1 = 146097 * a + r1" "r1 = 36524 * b + r2" "r2 = 1461 * c + r3" "r3 = 365 * e + r4"
    and bounds: "0 \<le> r1" "r1 < 146097" "0 \<le> r2" "r2 < 36524" "0 \<le> r3" "r3 < 1461" "0 \<le> r4" "r4 < 365"
    and nn: "0 \<le> b" "0 \<le> c" "0 \<le> e" and ub: "b \<le> 4" "c \<le> 24" "e \<le> 4"
    and expand: "ord2ymd ordinal = (if e = 4 \<or> b = 4 then (a * 400 + 1 + b * 100 + c * 4 + e - 1, 12, 31)
      else (a * 400 + 1 + b * 100 + c * 4 + e, month_of (leap_parts b c e) r4,
            r4 - preceding_days (month_of (leap_parts b c e) r4) (leap_parts b c e) + 1))"
    by (rule ord2ymd_parts)
  let ?leap = "leap_parts b c e"
  have a: "0 \<le> a" "a \<le> 24" using eqs(1) bounds(1,2) assms(1,2) by (simp_all add: MAX_ORDINAL_def)
  have parts: "a = 24 \<Longrightarrow> b \<le> 3 \<and> (b = 3 \<longrightarrow> c = 24 \<longrightarrow> e \<le> 2)" "b = 4 \<Longrightarrow> c = 0 \<and> e = 0" "c = 24 \<Longrightarrow> e \<le> 3"
    using eqs bounds assms(2) nn ub by (simp_all add: MAX_ORDINAL_def)
  then have year: "1 \<le> a * 400 + 1 + b * 100 + c * 4 + e - (if e = 4 \<or> b = 4 then 1 else 0)"
    "a * 400 + 1 + b * 100 + c * 4 + e - (if e = 4 \<or> b = 4 then 1 else 0) \<le> 9999"
  proof -
    have "0 \<le> a * 400" using a by simp
    then show "1 \<le> a * 400 + 1 + b * 100 + c * 4 + e - (if e = 4 \<or> b = 4 then 1 else 0)" using nn by auto
    show "a * 400 + 1 + b * 100 + c * 4 + e - (if e = 4 \<or> b = 4 then 1 else 0) \<le> 9999"
    proof (cases "a = 24")
      case True
      then show ?thesis using parts nn ub by (cases "b = 3"; cases "c = 24") auto
    next
      case False
      then have "a \<le> 23" using a by simp
      then show ?thesis using parts nn ub by (cases "b = 4") auto
    qed
  qed
  have "r4 < (if ?leap then 366 else 365)" using bounds by simp
  note M = month_of_exact [OF bounds(7) this]
  show "1 \<le> y" "y \<le> 9999" "1 \<le> m" "m \<le> 12" "1 \<le> d" "d \<le> 31"
    using assms(3) year M unfolding expand by (auto split: if_splits)
qed

lemma pad_step_inj:
  assumes "pad w m @ r = pad w n @ s" "0 \<le> m" "m < 10 ^ w" "0 \<le> n" "n < 10 ^ w" "0 < w"
  shows "m = n \<and> r = s"
proof -
  have "length (pad w m) = length (pad w n)" using length_pad assms(2-) by simp
  with assms(1) have "pad w m = pad w n" "r = s" by simp_all
  with pad_inj assms(2,4) show ?thesis by blast
qed

lemma drop_sep: "[c] @ r = [c] @ s \<Longrightarrow> r = s"
  by simp

lemma time_of_day:
  assumes "0 \<le> t" "t < MICROSECONDS_PER_DAY"
  shows "0 \<le> t div 3600000000" "t div 3600000000 < 100"
    "0 \<le> t div 60000000 mod 60" "t div 60000000 mod 60 < 100"
    "0 \<le> t div 1000000 mod 60" "t div 1000000 mod 60 < 100"
    "0 \<le> t mod 1000000" "t mod 1000000 < 1000000"
    "t = 3600000000 * (t div 3600000000) + 60000000 * (t div 60000000 mod 60)
       + 1000000 * (t div 1000000 mod 60) + t mod 1000000"
proof -
  have m: "x mod 60 < 100" for x :: int
  proof -
    have "x mod 60 < 60" by simp
    then show ?thesis by linarith
  qed
  show "0 \<le> t div 3600000000" "t div 3600000000 < 100"
    using assms by (simp_all add: pos_imp_zdiv_nonneg_iff MICROSECONDS_PER_DAY_def)
  show "0 \<le> t div 60000000 mod 60" "t div 60000000 mod 60 < 100"
    "0 \<le> t div 1000000 mod 60" "t div 1000000 mod 60 < 100"
    "0 \<le> t mod 1000000" "t mod 1000000 < 1000000" using m by simp_all
  have "t div 60000000 = t div 1000000 div 60" "t div 3600000000 = t div 60000000 div 60"
    by (simp_all add: zdiv_zmult2_eq [symmetric])
  moreover have "t = 1000000 * (t div 1000000) + t mod 1000000"
    "t div 1000000 = 60 * (t div 1000000 div 60) + t div 1000000 mod 60"
    "t div 60000000 = 60 * (t div 60000000 div 60) + t div 60000000 mod 60" by simp_all
  ultimately show "t = 3600000000 * (t div 3600000000) + 60000000 * (t div 60000000 mod 60)
       + 1000000 * (t div 1000000 mod 60) + t mod 1000000" by linarith
qed

lemma format_inj:
  assumes "format_utc_microseconds u = Inr s" "format_utc_microseconds v = Inr s"
  shows "u = v"
proof -
  obtain y m d where u: "ord2ymd (instant_ordinal u) = (y, m, d)" by (metis prod_cases3)
  obtain y' m' d' where v: "ord2ymd (instant_ordinal v) = (y', m', d')" by (metis prod_cases3)
  let ?t = "u mod MICROSECONDS_PER_DAY" and ?t' = "v mod MICROSECONDS_PER_DAY"
  from assms have r: "1 \<le> instant_ordinal u" "instant_ordinal u \<le> MAX_ORDINAL"
    "1 \<le> instant_ordinal v" "instant_ordinal v \<le> MAX_ORDINAL"
    by (auto simp: format_utc_microseconds_def Let_def split: if_splits)
  note B = ord2ymd_bounds [OF r(1,2) u] and B' = ord2ymd_bounds [OF r(3,4) v]
  have tt: "0 \<le> ?t" "?t < MICROSECONDS_PER_DAY" "0 \<le> ?t'" "?t' < MICROSECONDS_PER_DAY"
    by (simp_all add: MICROSECONDS_PER_DAY_def)
  note T = time_of_day [OF tt(1,2)] and T' = time_of_day [OF tt(3,4)]
  let ?s = "\<lambda>y m d t. pad 4 y @ ''-'' @ pad 2 m @ ''-'' @ pad 2 d
                @ ''T'' @ pad 2 (t div 3600000000) @ '':'' @ pad 2 (t div 60000000 mod 60)
                @ '':'' @ pad 2 (t div 1000000 mod 60) @ ''.'' @ pad 6 (t mod 1000000) @ ''Z''"
  have eq: "?s y m d ?t = ?s y' m' d' ?t'"
    using assms r by (simp add: format_utc_microseconds_def Let_def u v)
  let ?h = "\<lambda>t. t div 3600000000" and ?i = "\<lambda>t. t div 60000000 mod 60" and ?j = "\<lambda>t. t div 1000000 mod 60"
    and ?k = "\<lambda>t. t mod 1000000"
  have b: "0 \<le> y" "y < 10 ^ 4" "0 \<le> y'" "y' < 10 ^ 4" "0 \<le> m" "m < 10 ^ 2" "0 \<le> m'" "m' < 10 ^ 2"
    "0 \<le> d" "d < 10 ^ 2" "0 \<le> d'" "d' < 10 ^ 2" using B B' by simp_all
  have ten: "(10::int) ^ 2 = 100" "(10::int) ^ 6 = 1000000" by simp_all
  have bt: "?h ?t < 10 ^ 2" "?h ?t' < 10 ^ 2" "?i ?t < 10 ^ 2" "?i ?t' < 10 ^ 2" "?j ?t < 10 ^ 2" "?j ?t' < 10 ^ 2"
    "?k ?t < 10 ^ 6" "?k ?t' < 10 ^ 6"
    unfolding ten by (rule T(2) T'(2) T(4) T'(4) T(6) T'(6) T(8) T'(8))+
  have w: "0 < (4::nat)" "0 < (2::nat)" "0 < (6::nat)" by simp_all
  note y = pad_step_inj [OF eq b(1-4) w(1)]
  note m = pad_step_inj [OF y [THEN conjunct2, THEN drop_sep] b(5-8) w(2)]
  note d = pad_step_inj [OF m [THEN conjunct2, THEN drop_sep] b(9-12) w(2)]
  note h = pad_step_inj [OF d [THEN conjunct2, THEN drop_sep] T(1) bt(1) T'(1) bt(2) w(2)]
  note i = pad_step_inj [OF h [THEN conjunct2, THEN drop_sep] T(3) bt(3) T'(3) bt(4) w(2)]
  note j = pad_step_inj [OF i [THEN conjunct2, THEN drop_sep] T(5) bt(5) T'(5) bt(6) w(2)]
  note k = pad_step_inj [OF j [THEN conjunct2, THEN drop_sep] T(7) bt(7) T'(7) bt(8) w(3)]
  have "?t = 3600000000 * ?h ?t + 60000000 * ?i ?t + 1000000 * ?j ?t + ?k ?t" by (rule T(9))
  also have "\<dots> = 3600000000 * ?h ?t' + 60000000 * ?i ?t' + 1000000 * ?j ?t' + ?k ?t'"
    by (simp only: h [THEN conjunct1] i [THEN conjunct1] j [THEN conjunct1] k [THEN conjunct1])
  also have "\<dots> = ?t'" by (rule T'(9) [symmetric])
  finally have "?t = ?t'" .
  have "instant_ordinal u = instant_ordinal v"
    using ymd2ord_ord2ymd [OF u] ymd2ord_ord2ymd [OF v] y m d by simp
  then have "u div MICROSECONDS_PER_DAY = v div MICROSECONDS_PER_DAY" by (simp add: instant_ordinal_def)
  with \<open>?t = ?t'\<close> show "u = v" by (metis div_mult_mod_eq)
qed

section \<open>Timestamps sort as instants do\<close>

text \<open>The order of strings is the lexicographic order of their code points.\<close>

lemma less_append:
  fixes a b r s :: string
  shows "length a = length b \<Longrightarrow> a @ r < b @ s \<longleftrightarrow> a < b \<or> a = b \<and> r < s"
  by (induction a b rule: list_induct2) auto

lemma digit_less:
  "is_digit c \<Longrightarrow> is_digit d \<Longrightarrow> c < d \<longleftrightarrow> digit_val c < digit_val d"
  by (auto simp: is_digit_def digit_val_def less_char_def)

lemma digit_eq:
  "is_digit c \<Longrightarrow> is_digit d \<Longrightarrow> digit_val c = digit_val d \<Longrightarrow> c = d"
  using digit_less [of c d] digit_less [of d c] by (metis less_irrefl linorder_less_linear)

lemma digits_less:
  "length a = length b \<Longrightarrow> list_all is_digit a \<Longrightarrow> list_all is_digit b \<Longrightarrow> a < b \<longleftrightarrow> str_nat a < str_nat b"
proof (induction a b rule: list_induct2)
  case (Cons c a d b)
  let ?P = "10 ^ length a :: nat"
  have bounds: "str_nat a < ?P" "str_nat b < ?P" using Cons str_nat_bound [of a] str_nat_bound [of b] by simp_all
  have val: "str_nat (c # a) = digit_val c * ?P + str_nat a" "str_nat (d # b) = digit_val d * ?P + str_nat b"
    using Cons(1) by (simp_all add: str_nat_Cons)
  have step: "m * ?P + x < n * ?P + y" if "m < n" "x < ?P" for m n x y :: nat
  proof -
    from that(1) have "Suc m * ?P \<le> n * ?P" by (intro mult_le_mono1) simp
    with that(2) show ?thesis by simp
  qed
  consider "digit_val c < digit_val d" | "c = d" | "digit_val d < digit_val c"
    using digit_eq [of c d] Cons.prems by fastforce
  then show ?case
  proof cases
    case 1
    with Cons.prems bounds step [OF 1] show ?thesis by (simp add: val digit_less)
  next
    case 2
    with Cons.IH Cons.prems val show ?thesis by simp
  next
    case 3
    with Cons.prems bounds step [OF 3, of "str_nat b" "str_nat a"] digit_less [of c d]
    show ?thesis by (auto simp: val)
  qed
qed simp

lemma pad_digits: "list_all is_digit (pad w n)"
  by (simp add: pad_def zfill_def nat_str_digits) (simp add: list_all_iff is_digit_def)

lemma str_nat_pad [simp]: "str_nat (pad w n) = nat n"
  by (simp add: pad_def zfill_def str_nat_of_zeros)

lemma pad_less:
  assumes "0 \<le> m" "m < 10 ^ w" "0 \<le> n" "n < 10 ^ w" "0 < w"
  shows "pad w m @ r < pad w n @ s \<longleftrightarrow> m < n \<or> m = n \<and> r < s"
proof -
  have len: "length (pad w m) = length (pad w n)" using length_pad assms by simp
  have "pad w m < pad w n \<longleftrightarrow> m < n" using digits_less [OF len pad_digits pad_digits] assms by auto
  moreover have "pad w m = pad w n \<longleftrightarrow> m = n" using pad_inj assms by blast
  ultimately show ?thesis by (simp add: less_append [OF len])
qed

text \<open>The calendar sorts as the days do.\<close>

lemma month_of_within:
  assumes "0 \<le> n" "n < (if leap then 366 else 365)" "month_of leap n < 12"
  shows "n < preceding_days (month_of leap n + 1) leap"
proof -
  let ?m = "(n + 50) div 32"
  have b: "32 * ?m \<le> n + 50" "n + 50 < 32 * ?m + 32" by presburger+
  then have "1 \<le> ?m" "?m \<le> 12" using assms by (auto split: if_splits)
  from month_cases [OF this] show ?thesis
    by (elim disjE; use b assms in \<open>cases leap; simp add: month_of_def Let_def common_days_before_month.simps split: if_splits\<close>)
qed

definition days_in_month :: "int \<Rightarrow> int \<Rightarrow> int" where
  "days_in_month year month =
     (if month = 12 then 31 else days_before_month year (month + 1) - days_before_month year month)"

lemma ord2ymd_day:
  assumes "ord2ymd ordinal = (y, m, d)"
  shows "d \<le> days_in_month y m"
proof -
  obtain a b c e r1 r2 r3 r4 where
    eqs: "ordinal - 1 = 146097 * a + r1" "r1 = 36524 * b + r2" "r2 = 1461 * c + r3" "r3 = 365 * e + r4"
    and bounds: "0 \<le> r1" "r1 < 146097" "0 \<le> r2" "r2 < 36524" "0 \<le> r3" "r3 < 1461" "0 \<le> r4" "r4 < 365"
    and nn: "0 \<le> b" "0 \<le> c" "0 \<le> e" and ub: "b \<le> 4" "c \<le> 24" "e \<le> 4"
    and expand: "ord2ymd ordinal = (if e = 4 \<or> b = 4 then (a * 400 + 1 + b * 100 + c * 4 + e - 1, 12, 31)
      else (a * 400 + 1 + b * 100 + c * 4 + e, month_of (leap_parts b c e) r4,
            r4 - preceding_days (month_of (leap_parts b c e) r4) (leap_parts b c e) + 1))"
    by (rule ord2ymd_parts)
  let ?leap = "leap_parts b c e"
  show ?thesis
  proof (cases "e = 4 \<or> b = 4")
    case True
    with assms show ?thesis unfolding expand by (auto simp: days_in_month_def)
  next
    case False
    then have be: "b \<le> 3" "e \<le> 3" using ub by simp_all
    have y: "y = 400 * a + 100 * b + 4 * c + e + 1" "m = month_of ?leap r4" "d = r4 - preceding_days m ?leap + 1"
      using assms False unfolding expand by auto
    have leap: "is_leap y \<longleftrightarrow> ?leap" unfolding y(1) using year_parts(4) [of b c e a] nn be ub by (simp_all only: simp_thms)
    have r: "r4 < (if ?leap then 366 else 365)" using bounds by simp
    show ?thesis
    proof (cases "m = 12")
      case True
      then show ?thesis using y(3) bounds(8) by (simp add: days_in_month_def december)
    next
      case False
      then have "month_of ?leap r4 < 12" using month_of_exact [OF bounds(7) r] y(2) by simp
      from month_of_within [OF bounds(7) r this] have "r4 < preceding_days (m + 1) ?leap" by (simp only: y(2))
      with False show ?thesis by (simp add: days_in_month_def days_before_month_def leap y(3))
    qed
  qed
qed

lemma days_before_month_mono:
  assumes "1 \<le> m" "m < m'" "m' \<le> 12"
  shows "days_before_month y (m + 1) \<le> days_before_month y m'"
proof -
  have "1 \<le> m'" "m \<le> 12" using assms by simp_all
  from month_cases [OF assms(1) this(2)] month_cases [OF this(1) assms(3)] assms(2) show ?thesis
    by (elim disjE; simp add: days_before_month_def common_days_before_month.simps)
qed

lemma days_before_month_range:
  assumes "1 \<le> m" "m \<le> 12"
  shows "0 \<le> days_before_month y m" "days_before_month y m + days_in_month y m \<le> 365 + (if is_leap y then 1 else 0)"
  using month_cases [OF assms]
  by (elim disjE; simp add: days_before_month_def days_in_month_def common_days_before_month.simps)+

lemma div_step: "(0::int) < k \<Longrightarrow> y div k = (y - 1) div k + (if y mod k = 0 then 1 else 0)"
proof -
  assume k: "0 < k"
  have y: "y = k * (y div k) + y mod k" "0 \<le> y mod k" "y mod k < k" using k by simp_all
  show ?thesis
  proof (cases "y mod k = 0")
    case True
    have "(y - 1) div k = y div k - 1"
      by (rule div_unique_int [where r = "k - 1"]) (use True y(1) k in \<open>simp_all add: algebra_simps\<close>)
    with True show ?thesis by simp
  next
    case False
    have "(y - 1) div k = y div k"
      by (rule div_unique_int [where r = "y mod k - 1"]) (use False y k in linarith)+
    with False show ?thesis by simp
  qed
qed

lemma leap_day:
  fixes q4 :: int
  assumes "q4 = p4 + (if c4 then 1 else 0)" "q100 = p100 + (if c100 then 1 else 0)" "q400 = p400 + (if c400 then 1 else 0)"
    and "c400 \<Longrightarrow> c100" "c100 \<Longrightarrow> c4"
  shows "y * 365 + q4 - q100 + q400 = (y - 1) * 365 + p4 - p100 + p400 + 365 + (if c4 \<and> (\<not> c100 \<or> c400) then 1 else 0)"
  using assms by (cases c4; cases c100; cases c400) simp_all

lemma days_before_year_step: "days_before_year (y + 1) = days_before_year y + 365 + (if is_leap y then 1 else 0)"
proof -
  have m: "y mod 400 = 0 \<Longrightarrow> y mod 100 = 0" "y mod 100 = 0 \<Longrightarrow> y mod 4 = 0"
    using dvd_trans [of 100 400 y] dvd_trans [of 4 100 y] by (simp_all add: mod_eq_0_iff_dvd)
  show ?thesis unfolding days_before_year_def Let_def is_leap_def add_diff_cancel_right'
    by (rule leap_day [OF div_step div_step div_step m]; simp)
qed

lemma days_before_year_mono:
  assumes "y < y'" shows "days_before_year y + 365 + (if is_leap y then 1 else 0) \<le> days_before_year y'"
proof -
  have "days_before_year (y + 1) \<le> days_before_year (y + 1 + int n)" for n
  proof (induction n)
    case (Suc n)
    then show ?case using days_before_year_step [of "y + 1 + int n"] by (simp add: algebra_simps)
  qed simp
  from this [of "nat (y' - (y + 1))"] assms show ?thesis by (simp add: days_before_year_step)
qed

text \<open>Dates in the order of year, month and day.\<close>

abbreviation date_less :: "int \<times> int \<times> int \<Rightarrow> int \<times> int \<times> int \<Rightarrow> bool" where
  "date_less p q \<equiv> (case p of (y, m, d) \<Rightarrow> case q of (y', m', d') \<Rightarrow>
     y < y' \<or> y = y' \<and> (m < m' \<or> m = m' \<and> d < d'))"

lemma date_less_ordinal:
  assumes r: "1 \<le> n" "n \<le> MAX_ORDINAL" "1 \<le> n'" "n' \<le> MAX_ORDINAL" and less: "date_less (ord2ymd n) (ord2ymd n')"
  shows "n < n'"
proof -
  obtain y m d where o: "ord2ymd n = (y, m, d)" by (metis prod_cases3)
  obtain y' m' d' where o': "ord2ymd n' = (y', m', d')" by (metis prod_cases3)
  note B = ord2ymd_bounds [OF r(1,2) o] and B' = ord2ymd_bounds [OF r(3,4) o']
  note n = ymd2ord_ord2ymd [OF o, unfolded ymd2ord_def] and n' = ymd2ord_ord2ymd [OF o', unfolded ymd2ord_def]
  note D = ord2ymd_day [OF o]
  note R = days_before_month_range [OF B(3,4), of y] and R' = days_before_month_range [OF B'(3,4), of y']
  from less o o' consider "y < y'" | "y = y'" "m < m'" | "y = y'" "m = m'" "d < d'" by auto
  then show ?thesis
  proof cases
    case 1
    from days_before_year_mono [OF this] n n' D R R' B'(5) show ?thesis by linarith
  next
    case 2
    then have "m \<noteq> 12" using B'(4) by simp
    with D have "days_before_month y m + d \<le> days_before_month y (m + 1)" by (simp add: days_in_month_def)
    with days_before_month_mono [OF B(3) 2(2) B'(4), of y] n n' 2(1) B'(5) show ?thesis by simp
  next
    case 3
    with n n' show ?thesis by simp
  qed
qed

lemma ordinal_less_iff:
  assumes "1 \<le> n" "n \<le> MAX_ORDINAL" "1 \<le> n'" "n' \<le> MAX_ORDINAL"
  shows "n < n' \<longleftrightarrow> date_less (ord2ymd n) (ord2ymd n')"
proof
  assume "n < n'"
  then have "ord2ymd n \<noteq> ord2ymd n'" "\<not> date_less (ord2ymd n') (ord2ymd n)"
    using ymd2ord_ord2ymd [of n] ymd2ord_ord2ymd [of n'] date_less_ordinal [OF assms(3,4,1,2)]
    by (cases "ord2ymd n"; cases "ord2ymd n'"; fastforce)+
  then show "date_less (ord2ymd n) (ord2ymd n')"
    by (cases "ord2ymd n"; cases "ord2ymd n'") auto
qed (rule date_less_ordinal [OF assms])

text \<open>The string, with its fields named.\<close>

abbreviation stamp :: "int \<Rightarrow> int \<Rightarrow> int \<Rightarrow> int \<Rightarrow> string" where
  "stamp y m d t \<equiv> pad 4 y @ ''-'' @ pad 2 m @ ''-'' @ pad 2 d
                @ ''T'' @ pad 2 (t div 3600000000) @ '':'' @ pad 2 (t div 60000000 mod 60)
                @ '':'' @ pad 2 (t div 1000000 mod 60) @ ''.'' @ pad 6 (t mod 1000000) @ ''Z''"

lemma format_Inr:
  assumes "format_utc_microseconds u = Inr s"
  obtains y m d t where "t = u mod MICROSECONDS_PER_DAY" "ord2ymd (instant_ordinal u) = (y, m, d)"
    "1 \<le> instant_ordinal u" "instant_ordinal u \<le> MAX_ORDINAL" "s = stamp y m d t"
    "1 \<le> y" "y < 10 ^ 4" "1 \<le> m" "m \<le> 12" "1 \<le> d" "d \<le> 31" "0 \<le> t" "t < MICROSECONDS_PER_DAY"
proof -
  obtain y m d where o: "ord2ymd (instant_ordinal u) = (y, m, d)" by (metis prod_cases3)
  from assms have r: "1 \<le> instant_ordinal u" "instant_ordinal u \<le> MAX_ORDINAL"
    by (auto simp: format_utc_microseconds_def Let_def split: if_splits)
  note B = ord2ymd_bounds [OF r o]
  from assms r have "s = stamp y m d (u mod MICROSECONDS_PER_DAY)"
    by (simp add: format_utc_microseconds_def Let_def o)
  with that [OF refl o r] B show thesis by (simp add: MICROSECONDS_PER_DAY_def)
qed

lemma pad_less_2: "0 \<le> m \<Longrightarrow> m < 100 \<Longrightarrow> 0 \<le> n \<Longrightarrow> n < 100 \<Longrightarrow>
    pad 2 m @ r < pad 2 n @ s \<longleftrightarrow> m < n \<or> m = n \<and> r < s"
  by (rule pad_less) simp_all

lemma pad_less_6: "0 \<le> m \<Longrightarrow> m < 1000000 \<Longrightarrow> 0 \<le> n \<Longrightarrow> n < 1000000 \<Longrightarrow>
    pad 6 m @ r < pad 6 n @ s \<longleftrightarrow> m < n \<or> m = n \<and> r < s"
  by (rule pad_less) simp_all

lemma sep_less: "[c] @ r < [c] @ s \<longleftrightarrow> r < (s :: string)"
  by simp

text \<open>Sorting by mixed radix.\<close>

lemma radix_less:
  fixes a b M :: int
  assumes "0 \<le> x" "x < M" "0 \<le> y" "y < M"
  shows "a * M + x < b * M + y \<longleftrightarrow> a < b \<or> a = b \<and> x < y"
proof -
  have step: "p * M + x' < q * M + y'" if "p < q" "x' < M" "0 \<le> y'" for p q x' y' :: int
  proof -
    from that(1) assms have "(p + 1) * M \<le> q * M" by (intro mult_right_mono) simp_all
    with that(2,3) show ?thesis by (simp add: distrib_right)
  qed
  consider "a < b" | "a = b" | "b < a" by linarith
  then show ?thesis
  proof cases
    case 1
    with step [OF this assms(2,3)] show ?thesis by simp
  next
    case 3
    with step [OF this assms(4,1)] show ?thesis by simp
  qed simp
qed

lemma radix_eq:
  fixes a b M :: int
  assumes "0 \<le> x" "x < M" "0 \<le> y" "y < M"
  shows "a * M + x = b * M + y \<longleftrightarrow> a = b \<and> x = y"
  using radix_less [OF assms, of a b] radix_less [OF assms(3,4,1,2), of b a] by auto

lemma radix_sums:
  fixes t :: int
  assumes "t = 3600000000 * h + 60000000 * i + 1000000 * j + k"
  shows "t = ((h * 60 + i) * 60 + j) * 1000000 + k"
    "u = 86400000000 * a + t \<Longrightarrow> u = ((a * 24 + h) * 60 + i) * 60000000 + j * 1000000 + k"
  using assms by simp_all

lemma stamp_less:
  assumes "1 \<le> y" "y < 10 ^ 4" "1 \<le> m" "m \<le> 12" "1 \<le> d" "d \<le> 31" "0 \<le> t" "t < MICROSECONDS_PER_DAY"
    and "1 \<le> y'" "y' < 10 ^ 4" "1 \<le> m'" "m' \<le> 12" "1 \<le> d'" "d' \<le> 31" "0 \<le> t'" "t' < MICROSECONDS_PER_DAY"
  shows "stamp y m d t < stamp y' m' d' t' \<longleftrightarrow> date_less (y, m, d) (y', m', d') \<or> (y, m, d) = (y', m', d') \<and> t < t'"
proof -
  let ?h = "\<lambda>t. t div 3600000000" and ?i = "\<lambda>t. t div 60000000 mod 60" and ?j = "\<lambda>t. t div 1000000 mod 60"
    and ?k = "\<lambda>t. t mod 1000000"
  note T = time_of_day [OF assms(7,8)] and T' = time_of_day [OF assms(15,16)]
  have year: "pad 4 y @ r < pad 4 y' @ s \<longleftrightarrow> y < y' \<or> y = y' \<and> r < s" for r s
    by (rule pad_less) (use assms(1,2,9,10) in simp_all)
  have month: "pad 2 m @ r < pad 2 m' @ s \<longleftrightarrow> m < m' \<or> m = m' \<and> r < s"
    and day: "pad 2 d @ r < pad 2 d' @ s \<longleftrightarrow> d < d' \<or> d = d' \<and> r < s" for r s
    by (rule pad_less_2; use assms in simp)+
  note clock = pad_less_2 [OF T(1,2) T'(1,2)] pad_less_2 [OF T(3,4) T'(3,4)] pad_less_2 [OF T(5,6) T'(5,6)]
    pad_less_6 [OF T(7,8) T'(7,8)]
  have m: "x mod 60 < 60" "0 \<le> x mod 60" for x :: int by simp_all
  have time: "?h t < ?h t' \<or> ?h t = ?h t' \<and> (?i t < ?i t' \<or> ?i t = ?i t' \<and> (?j t < ?j t' \<or> ?j t = ?j t' \<and> ?k t < ?k t'))
      \<longleftrightarrow> t < t'" (is "?parts \<longleftrightarrow> _")
  proof -
    have "t < t' \<longleftrightarrow> ((?h t * 60 + ?i t) * 60 + ?j t) * 1000000 + ?k t < ((?h t' * 60 + ?i t') * 60 + ?j t') * 1000000 + ?k t'"
      using radix_sums(1) [OF T(9)] radix_sums(1) [OF T'(9)] by (simp only:)
    also have "\<dots> \<longleftrightarrow> ?parts"
      unfolding radix_less [OF T(7,8) T'(7,8)] radix_less [OF m(2,1) m(2,1)] radix_eq [OF m(2,1) m(2,1)] by blast
    finally show ?thesis by simp
  qed
  have z: "\<not> ''Z'' < (''Z'' :: string)" by simp
  show ?thesis unfolding year month day clock sep_less unfolding time [symmetric] using z by auto
qed

lemma format_less:
  assumes "format_utc_microseconds u = Inr s" "format_utc_microseconds v = Inr s'"
  shows "s < s' \<longleftrightarrow> u < v"
proof -
  from assms(1) obtain y m d t where u: "t = u mod MICROSECONDS_PER_DAY" "ord2ymd (instant_ordinal u) = (y, m, d)"
    "1 \<le> instant_ordinal u" "instant_ordinal u \<le> MAX_ORDINAL" "s = stamp y m d t"
    and B: "1 \<le> y" "y < 10 ^ 4" "1 \<le> m" "m \<le> 12" "1 \<le> d" "d \<le> 31" "0 \<le> t" "t < MICROSECONDS_PER_DAY"
    by (rule format_Inr)
  from assms(2) obtain y' m' d' t' where v: "t' = v mod MICROSECONDS_PER_DAY" "ord2ymd (instant_ordinal v) = (y', m', d')"
    "1 \<le> instant_ordinal v" "instant_ordinal v \<le> MAX_ORDINAL" "s' = stamp y' m' d' t'"
    and B': "1 \<le> y'" "y' < 10 ^ 4" "1 \<le> m'" "m' \<le> 12" "1 \<le> d'" "d' \<le> 31" "0 \<le> t'" "t' < MICROSECONDS_PER_DAY"
    by (rule format_Inr)
  have day: "instant_ordinal u < instant_ordinal v \<longleftrightarrow> date_less (y, m, d) (y', m', d')"
    using ordinal_less_iff [OF u(3,4) v(3,4)] by (simp only: u(2) v(2))
  have same: "(y, m, d) = (y', m', d') \<longleftrightarrow> instant_ordinal u = instant_ordinal v"
    using ymd2ord_ord2ymd [OF u(2)] ymd2ord_ord2ymd [OF v(2)] u(2) v(2) by auto
  let ?M = MICROSECONDS_PER_DAY
  have parts: "u = ?M * (instant_ordinal u - EPOCH_ORDINAL) + t" "v = ?M * (instant_ordinal v - EPOCH_ORDINAL) + t'"
    by (simp_all add: u(1) v(1) instant_ordinal_def)
  have "u < v \<longleftrightarrow> instant_ordinal u < instant_ordinal v \<or> instant_ordinal u = instant_ordinal v \<and> t < t'"
    using radix_less [OF B(7,8) B'(7,8), of "instant_ordinal u - EPOCH_ORDINAL" "instant_ordinal v - EPOCH_ORDINAL"]
    by (simp add: mult.commute flip: parts)
  then show ?thesis unfolding u(5) v(5) stamp_less [OF B B'] day same by simp
qed

section \<open>Properties\<close>

text \<open>The fixed shape: digits everywhere but at the seven separators, with the fields at their places.\<close>

definition timestamp_shape :: "string \<Rightarrow> bool" where
  "timestamp_shape s \<longleftrightarrow> length s = 27
     \<and> s ! 4 = CHR ''-'' \<and> s ! 7 = CHR ''-'' \<and> s ! 10 = CHR ''T'' \<and> s ! 13 = CHR '':'' \<and> s ! 16 = CHR '':''
     \<and> s ! 19 = CHR ''.'' \<and> s ! 26 = CHR ''Z''
     \<and> list_all (\<lambda>i. is_digit (s ! i)) [0, 1, 2, 3, 5, 6, 8, 9, 11, 12, 14, 15, 17, 18, 20, 21, 22, 23, 24, 25]"

definition timestamp_field :: "nat \<Rightarrow> nat \<Rightarrow> string \<Rightarrow> int" where
  "timestamp_field start width s = int (str_nat (take width (drop start s)))"

lemma list_of_length:
  "length s = 2 \<Longrightarrow> \<exists>a b. s = [a, b]"
  "length s = 4 \<Longrightarrow> \<exists>a b c d. s = [a, b, c, d]"
  "length s = 6 \<Longrightarrow> \<exists>a b c d e f. s = [a, b, c, d, e, f]"
  by (auto simp: numeral_eq_Suc length_Suc_conv)

lemma hour_bound: "t < MICROSECONDS_PER_DAY \<Longrightarrow> t div 3600000000 < 24"
  unfolding MICROSECONDS_PER_DAY_def by simp

lemma length_pad_2: "0 \<le> n \<Longrightarrow> n < 100 \<Longrightarrow> length (pad 2 n) = 2"
  by (rule length_pad) simp_all

lemma length_pad_6: "0 \<le> n \<Longrightarrow> n < 1000000 \<Longrightarrow> length (pad 6 n) = 6"
  by (rule length_pad) simp_all

lemma stamp_shape:
  assumes "1 \<le> y" "y < 10 ^ 4" "1 \<le> m" "m \<le> 12" "1 \<le> d" "d \<le> 31" "0 \<le> t" "t < MICROSECONDS_PER_DAY"
  shows "timestamp_shape (stamp y m d t)"
    "map (\<lambda>(i, w). timestamp_field i w (stamp y m d t)) [(0, 4), (5, 2), (8, 2), (11, 2), (14, 2), (17, 2), (20, 6)]
      = [y, m, d, t div 3600000000, t div 60000000 mod 60, t div 1000000 mod 60, t mod 1000000]"
proof -
  note T = time_of_day [OF assms(7,8)]
  have len: "length (pad 4 y) = 4" "length (pad 2 m) = 2" "length (pad 2 d) = 2" "length (pad 2 (t div 3600000000)) = 2"
    "length (pad 2 (t div 60000000 mod 60)) = 2" "length (pad 2 (t div 1000000 mod 60)) = 2" "length (pad 6 (t mod 1000000)) = 6"
  proof -
    show "length (pad 4 y) = 4" by (rule length_pad) (use assms(1,2) in simp_all)
    show "length (pad 2 m) = 2" by (rule length_pad_2) (use assms(3,4) in simp_all)
    show "length (pad 2 d) = 2" by (rule length_pad_2) (use assms(5,6) in simp_all)
  qed (rule length_pad_2 [OF T(1,2)] length_pad_2 [OF T(3,4)] length_pad_2 [OF T(5,6)] length_pad_6 [OF T(7,8)])+
  from list_of_length(2) [OF len(1)] obtain a1 a2 a3 a4 where p0: "pad 4 y = [a1, a2, a3, a4]" by blast
  from list_of_length(1) [OF len(2)] obtain b1 b2 where p1: "pad 2 m = [b1, b2]" by blast
  from list_of_length(1) [OF len(3)] obtain c1 c2 where p2: "pad 2 d = [c1, c2]" by blast
  from list_of_length(1) [OF len(4)] obtain d1 d2 where p3: "pad 2 (t div 3600000000) = [d1, d2]" by blast
  from list_of_length(1) [OF len(5)] obtain e1 e2 where p4: "pad 2 (t div 60000000 mod 60) = [e1, e2]" by blast
  from list_of_length(1) [OF len(6)] obtain f1 f2 where p5: "pad 2 (t div 1000000 mod 60) = [f1, f2]" by blast
  from list_of_length(3) [OF len(7)] obtain g1 g2 g3 g4 g5 g6 where p6: "pad 6 (t mod 1000000) = [g1, g2, g3, g4, g5, g6]" by blast
  note p = p0 p1 p2 p3 p4 p5 p6
  note dig = pad_digits [of 4 y, unfolded p] pad_digits [of 2 m, unfolded p] pad_digits [of 2 d, unfolded p]
    pad_digits [of 2 "t div 3600000000", unfolded p] pad_digits [of 2 "t div 60000000 mod 60", unfolded p]
    pad_digits [of 2 "t div 1000000 mod 60", unfolded p] pad_digits [of 6 "t mod 1000000", unfolded p]
  show "timestamp_shape (stamp y m d t)" using dig by (simp add: timestamp_shape_def p)
  note num = str_nat_pad [of 4 y, unfolded p] str_nat_pad [of 2 m, unfolded p] str_nat_pad [of 2 d, unfolded p]
    str_nat_pad [of 2 "t div 3600000000", unfolded p] str_nat_pad [of 2 "t div 60000000 mod 60", unfolded p]
    str_nat_pad [of 2 "t div 1000000 mod 60", unfolded p] str_nat_pad [of 6 "t mod 1000000", unfolded p]
  show "map (\<lambda>(i, w). timestamp_field i w (stamp y m d t)) [(0, 4), (5, 2), (8, 2), (11, 2), (14, 2), (17, 2), (20, 6)]
      = [y, m, d, t div 3600000000, t div 60000000 mod 60, t div 1000000 mod 60, t mod 1000000]"
    using assms(1,3,5) T(1,3,5,7) by (simp add: timestamp_field_def p num)
qed

text \<open>
  Property C28: timestamps are canonical. Exactly the instants of the years 1 to 9999 have a timestamp.
  It has the fixed shape \<open>YYYY-MM-DDThh:mm:ss.ffffffZ\<close> of 27 characters; its date is a valid date of the
  calendar and is the date of the instant's day; its time is the hour, minute, second and microsecond
  of that day, so that the string determines the instant; and two timestamps sort as strings, by code
  points, exactly as their instants sort in time.
\<close>

theorem timestamp_canonical:
  "case format_utc_microseconds u of
      Inl e \<Rightarrow> instant_ordinal u < 1 \<or> MAX_ORDINAL < instant_ordinal u
    | Inr s \<Rightarrow> 1 \<le> instant_ordinal u \<and> instant_ordinal u \<le> MAX_ORDINAL
        \<and> timestamp_shape s
        \<and> ymd2ord (timestamp_field 0 4 s) (timestamp_field 5 2 s) (timestamp_field 8 2 s) = instant_ordinal u
        \<and> 1 \<le> timestamp_field 5 2 s \<and> timestamp_field 5 2 s \<le> 12 \<and> 1 \<le> timestamp_field 8 2 s
        \<and> timestamp_field 8 2 s \<le> days_in_month (timestamp_field 0 4 s) (timestamp_field 5 2 s)
        \<and> timestamp_field 11 2 s < 24 \<and> timestamp_field 14 2 s < 60 \<and> timestamp_field 17 2 s < 60
        \<and> u = (((instant_ordinal u - EPOCH_ORDINAL) * 24 + timestamp_field 11 2 s) * 60 + timestamp_field 14 2 s) * 60000000
               + timestamp_field 17 2 s * 1000000 + timestamp_field 20 6 s
        \<and> (case format_utc_microseconds v of
             Inl _ \<Rightarrow> True
           | Inr s' \<Rightarrow> (s = s' \<longleftrightarrow> u = v) \<and> (s < s' \<longleftrightarrow> u < v))"
proof (cases "format_utc_microseconds u")
  case (Inl e)
  then show ?thesis by (auto simp: format_utc_microseconds_def Let_def split: if_splits prod.splits)
next
  case (Inr s)
  then obtain y m d t where u: "t = u mod MICROSECONDS_PER_DAY" "ord2ymd (instant_ordinal u) = (y, m, d)"
    "1 \<le> instant_ordinal u" "instant_ordinal u \<le> MAX_ORDINAL" "s = stamp y m d t"
    and B: "1 \<le> y" "y < 10 ^ 4" "1 \<le> m" "m \<le> 12" "1 \<le> d" "d \<le> 31" "0 \<le> t" "t < MICROSECONDS_PER_DAY"
    by (rule format_Inr)
  note T = time_of_day [OF B(7,8)]
  have f: "timestamp_field 0 4 s = y" "timestamp_field 5 2 s = m" "timestamp_field 8 2 s = d"
    "timestamp_field 11 2 s = t div 3600000000" "timestamp_field 14 2 s = t div 60000000 mod 60"
    "timestamp_field 17 2 s = t div 1000000 mod 60" "timestamp_field 20 6 s = t mod 1000000"
    using stamp_shape(2) [OF B] by (simp_all add: u(5))
  have hour: "t div 3600000000 < 24" by (rule hour_bound [OF B(8)])
  have "u = MICROSECONDS_PER_DAY * (instant_ordinal u - EPOCH_ORDINAL) + t"
    by (simp add: u(1) instant_ordinal_def)
  then have "u = 86400000000 * (instant_ordinal u - EPOCH_ORDINAL) + t" by (simp only: MICROSECONDS_PER_DAY_def)
  then have whole: "u = (((instant_ordinal u - EPOCH_ORDINAL) * 24 + t div 3600000000) * 60 + t div 60000000 mod 60) * 60000000
      + t div 1000000 mod 60 * 1000000 + t mod 1000000" by (rule radix_sums(2) [OF T(9)])
  have two: "case format_utc_microseconds v of Inl _ \<Rightarrow> True | Inr s' \<Rightarrow> (s = s' \<longleftrightarrow> u = v) \<and> (s < s' \<longleftrightarrow> u < v)"
  proof (cases "format_utc_microseconds v")
    case (Inr s')
    have "s = s' \<longleftrightarrow> u = v"
    proof
      assume "s = s'"
      with \<open>format_utc_microseconds u = Inr s\<close> have "format_utc_microseconds u = Inr s'" by simp
      then show "u = v" using Inr by (rule format_inj)
    next
      assume "u = v"
      with \<open>format_utc_microseconds u = Inr s\<close> Inr show "s = s'" by simp
    qed
    with format_less [OF \<open>format_utc_microseconds u = Inr s\<close> Inr] show ?thesis by (simp only: Inr sum.case simp_thms)
  qed simp
  have shape: "timestamp_shape s" unfolding u(5) by (rule stamp_shape(1) [OF B])
  have sixty: "x mod 60 < 60" for x :: int by simp
  show ?thesis unfolding Inr sum.case f
    by (intro conjI u(3,4) shape ymd2ord_ord2ymd [OF u(2)] B(3-5) ord2ymd_day [OF u(2)] hour sixty whole two)
qed

end
