(* ===== verification/Event_Hash.thy ===== *)
theory Event_Hash
  imports Event_Contracts Canonical_JSON Utc_Time
begin

text \<open>
  How an event becomes bytes and a hash: the JSON an event payload is stored as
  (\<open>EventRegistry.dump_registered\<close>, the fields of each contract class in JSON mode), the event
  registry's reading of a stored payload, and the envelope and hash of
  \<open>serialization/canonical_json.py\<close>. SHA-256 is a parameter.
\<close>

section \<open>Payloads as JSON\<close>

fun external_reference_kind_value :: "external_reference_kind \<Rightarrow> string" where
  "external_reference_kind_value PROVIDER_TRANSACTION = ''provider_transaction''"
| "external_reference_kind_value BANK_TRANSACTION = ''bank_transaction''"
| "external_reference_kind_value CARD_TRANSACTION = ''card_transaction''"
| "external_reference_kind_value BROKER_TRADE = ''broker_trade''"

fun reversal_reason_code_value :: "reversal_reason_code \<Rightarrow> string" where
  "reversal_reason_code_value USER_CORRECTION = ''user_correction''"
| "reversal_reason_code_value DUPLICATE = ''duplicate''"
| "reversal_reason_code_value IMPORT_CORRECTION = ''import_correction''"
| "reversal_reason_code_value PROVIDER_REVERSAL = ''provider_reversal''"

fun reporting_line_kind_value :: "reporting_line_kind \<Rightarrow> string" where
  "reporting_line_kind_value L_EXPENSE = ''expense''"
| "reporting_line_kind_value L_INCOME = ''income''"
| "reporting_line_kind_value L_TRANSFER = ''transfer''"
| "reporting_line_kind_value L_TAX = ''tax''"
| "reporting_line_kind_value L_INVESTMENT = ''investment''"

fun reporting_dimension_value :: "reporting_dimension \<Rightarrow> string" where
  "reporting_dimension_value D_CATEGORY = ''category''"
| "reporting_dimension_value D_PROJECT = ''project''"
| "reporting_dimension_value D_COUNTERPARTY = ''counterparty''"
| "reporting_dimension_value D_TAX = ''tax''"

definition jobj :: "(string \<times> json) list \<Rightarrow> json" where
  "jobj members = JObj (map (\<lambda>(key, item). (code_points key, item)) members)"

definition juuid :: "uuid \<Rightarrow> json" where
  "juuid u = jstr (uuid_str u)"

definition jopt :: "('a \<Rightarrow> json) \<Rightarrow> 'a option \<Rightarrow> json" where
  "jopt f x = (case x of None \<Rightarrow> JNull | Some y \<Rightarrow> f y)"

definition dump_posting :: "journal_posting_fact \<Rightarrow> json" where
  "dump_posting p = jobj
     [(''posting_id'', juuid (jp_posting_id p)), (''position'', JInt (jp_position p)),
      (''account_id'', juuid (jp_account_id p)), (''asset_code'', jstr (jp_asset_code p)),
      (''side'', jstr (posting_side_value (jp_side p))), (''units'', jstr (jp_units p))]"

definition dump_external_reference :: "financial_external_reference \<Rightarrow> json" where
  "dump_external_reference r = jobj
     [(''provider_code'', jstr (er_provider_code r)),
      (''kind'', jstr (external_reference_kind_value (er_kind r))),
      (''reference'', jstr (er_reference r))]"

definition dump_posted :: "journal_transaction_posted \<Rightarrow> json" where
  "dump_posted p = jobj
     [(''transaction_id'', juuid (tp_transaction_id p)),
      (''kind'', jstr (transaction_kind_value (tp_kind p))),
      (''original_transaction_id'', jopt juuid (tp_original_transaction_id p)),
      (''postings'', JList (map dump_posting (tp_postings p))),
      (''description_ref'', jopt juuid (tp_description_ref p)),
      (''external_references'', JList (map dump_external_reference (tp_external_references p)))]"

definition dump_reversed :: "journal_transaction_reversed \<Rightarrow> json" where
  "dump_reversed p = jobj
     [(''reversal_transaction_id'', juuid (tr_reversal_transaction_id p)),
      (''reverses_transaction_id'', juuid (tr_reverses_transaction_id p)),
      (''original_event_id'', juuid (tr_original_event_id p)),
      (''original_event_hash'', jstr (tr_original_event_hash p)),
      (''reason_code'', jstr (reversal_reason_code_value (tr_reason_code p))),
      (''inverse_postings'', JList (map dump_posting (tr_inverse_postings p))),
      (''description_ref'', jopt juuid (tr_description_ref p))]"

definition dump_reference_corrected :: "external_reference_corrected \<Rightarrow> json" where
  "dump_reference_corrected p = jobj
     [(''transaction_id'', juuid (rc_transaction_id p)),
      (''provider_code'', jstr (rc_provider_code p)),
      (''reference_kind'', jstr (external_reference_kind_value (rc_reference_kind p))),
      (''previous_reference'', jopt jstr (rc_previous_reference p)),
      (''corrected_reference'', jstr (rc_corrected_reference p))]"

definition dump_card :: "credit_card_transaction_recorded \<Rightarrow> json" where
  "dump_card p = jobj
     [(''intent'', jstr (credit_card_intent_value (cc_intent p))),
      (''transaction_id'', juuid (cc_transaction_id p)),
      (''card_account_id'', juuid (cc_card_account_id p)),
      (''counter_account_id'', juuid (cc_counter_account_id p)),
      (''original_transaction_id'', jopt juuid (cc_original_transaction_id p)),
      (''postings'', JList (map dump_posting (cc_postings p))),
      (''description_ref'', jopt juuid (cc_description_ref p)),
      (''external_references'', JList (map dump_external_reference (cc_external_references p)))]"

definition dump_reporting_line :: "reporting_line \<Rightarrow> json" where
  "dump_reporting_line l = jobj
     [(''line_id'', juuid (rl_line_id l)), (''line_version_id'', juuid (rl_line_version_id l)),
      (''catalog_id'', juuid (rl_catalog_id l)), (''position'', JInt (rl_position l)),
      (''asset_code'', jstr (rl_asset_code l)), (''units'', jstr (rl_units l)),
      (''line_kind'', jstr (reporting_line_kind_value (rl_line_kind l))),
      (''dimension'', jstr (reporting_dimension_value (rl_dimension l))),
      (''dimension_id'', jopt juuid (rl_dimension_id l)),
      (''description_ref'', jopt juuid (rl_description_ref l))]"

definition dump_lines_assigned :: "reporting_lines_assigned \<Rightarrow> json" where
  "dump_lines_assigned p = jobj
     [(''transaction_id'', juuid (la_transaction_id p)),
      (''classification_revision'', JInt (la_classification_revision p)),
      (''lines'', JList (map dump_reporting_line (la_lines p)))]"

definition dump_lines_cleared :: "reporting_lines_cleared \<Rightarrow> json" where
  "dump_lines_cleared p = jobj
     [(''transaction_id'', juuid (lc_transaction_id p)),
      (''classification_revision'', JInt (lc_classification_revision p))]"

definition dump_lot_acquired :: "investment_lot_acquired \<Rightarrow> json" where
  "dump_lot_acquired p = jobj
     [(''transaction_id'', juuid (ia_transaction_id p)), (''lot_id'', juuid (ia_lot_id p)),
      (''instrument_asset_code'', jstr (ia_instrument_asset_code p)),
      (''settlement_asset_code'', jstr (ia_settlement_asset_code p)),
      (''quantity_units'', jstr (ia_quantity_units p)), (''cost_units'', jstr (ia_cost_units p)),
      (''fee_units'', jopt jstr (ia_fee_units p))]"

definition dump_allocation :: "lot_disposal_allocation \<Rightarrow> json" where
  "dump_allocation a = jobj
     [(''allocation_id'', juuid (ld_allocation_id a)), (''lot_id'', juuid (ld_lot_id a)),
      (''position'', JInt (ld_position a)), (''quantity_units'', jstr (ld_quantity_units a)),
      (''cost_units'', jstr (ld_cost_units a))]"

definition dump_lot_disposed :: "investment_lot_disposed \<Rightarrow> json" where
  "dump_lot_disposed p = jobj
     [(''transaction_id'', juuid (id_transaction_id p)),
      (''instrument_asset_code'', jstr (id_instrument_asset_code p)),
      (''settlement_asset_code'', jstr (id_settlement_asset_code p)),
      (''quantity_units'', jstr (id_quantity_units p)),
      (''proceeds_units'', jstr (id_proceeds_units p)),
      (''cost_basis_units'', jstr (id_cost_basis_units p)),
      (''fee_units'', jopt jstr (id_fee_units p)),
      (''allocations'', JList (map dump_allocation (id_allocations p)))]"

fun model_dump :: "event_payload \<Rightarrow> json" where
  "model_dump (JournalTransactionPosted p) = dump_posted p"
| "model_dump (JournalTransactionReversed p) = dump_reversed p"
| "model_dump (FinancialExternalReferenceCorrected p) = dump_reference_corrected p"
| "model_dump (CreditCardTransactionRecorded p) = dump_card p"
| "model_dump (ReportingLinesAssigned p) = dump_lines_assigned p"
| "model_dump (ReportingLinesCleared p) = dump_lines_cleared p"
| "model_dump (InvestmentLotAcquired p) = dump_lot_acquired p"
| "model_dump (InvestmentLotDisposed p) = dump_lot_disposed p"

definition dump_registered :: "event_payload \<Rightarrow> json_error + json" where
  "dump_registered payload =
     (let dumped = model_dump payload in rbind (canonical_json_bytes dumped) (\<lambda>_. Inr dumped))"

section \<open>Stored payloads\<close>

text \<open>
  A stored payload is kept here as the contract value that was dumped: reading it back with
  \<open>model_validate\<close> gives that value again, provided its class is the one registered under the
  stored type and version and the value passes the checks of the class.
\<close>

datatype registry_error = EventRegistryError | StoredEventValidationError

definition registered_types :: "string list" where
  "registered_types =
     [''CreditCardTransactionRecorded'', ''JournalTransactionPosted'', ''JournalTransactionReversed'',
      ''FinancialExternalReferenceCorrected'', ''ReportingLinesAssigned'', ''ReportingLinesCleared'',
      ''InvestmentLotAcquired'', ''InvestmentLotDisposed'']"

definition validate_stored :: "string \<Rightarrow> int \<Rightarrow> event_payload \<Rightarrow> registry_error + event_payload" where
  "validate_stored stored_type stored_version payload =
     (if stored_type \<notin> set registered_types \<or> stored_version \<noteq> 1 then Inl EventRegistryError
      else case canonical_json_bytes (model_dump payload) of
          Inl _ \<Rightarrow> Inl StoredEventValidationError
        | Inr _ \<Rightarrow>
            if event_type payload \<noteq> stored_type \<or> validate_payload payload \<noteq> Inr ()
            then Inl StoredEventValidationError
            else Inr payload)"

section \<open>The envelope and the hash\<close>

record event_hash_envelope =
  eh_event_id :: uuid
  eh_book_id :: uuid
  eh_book_position :: int
  eh_global_sequence :: int
  eh_stream_type :: string
  eh_stream_id :: uuid
  eh_stream_version :: int
  eh_event_type :: string
  eh_event_schema_version :: int
  eh_command_id :: uuid
  eh_actor_subject_id :: string
  eh_correlation_id :: uuid
  eh_causation_event_id :: "uuid option"
  eh_effective_at :: instant
  eh_recorded_at :: instant
  eh_previous_hash :: "byte list"

datatype hash_error = EnvelopeValueError | HashJsonError | PayloadTypeError

definition BIGINT_MAX :: int where "BIGINT_MAX = 2 ^ 63 - 1"
definition INTEGER_MAX :: int where "INTEGER_MAX = 2 ^ 31 - 1"
definition SMALLINT_MAX :: int where "SMALLINT_MAX = 2 ^ 15 - 1"

definition require_bounded_string :: "string \<Rightarrow> nat \<Rightarrow> hash_error + unit" where
  "require_bounded_string value maximum =
     (if value = [] \<or> maximum < length value then Inl EnvelopeValueError else Inr ())"

definition require_positive_integer :: "int \<Rightarrow> int \<Rightarrow> hash_error + unit" where
  "require_positive_integer value maximum =
     (if value < 1 \<or> maximum < value then Inl EnvelopeValueError else Inr ())"

definition require_timestamp :: "instant \<Rightarrow> hash_error + string" where
  "require_timestamp value =
     (case format_utc_microseconds value of Inl _ \<Rightarrow> Inl EnvelopeValueError | Inr s \<Rightarrow> Inr s)"

definition EventHashEnvelope :: "event_hash_envelope \<Rightarrow> hash_error + event_hash_envelope" where
  "EventHashEnvelope self =
     rbind (require_positive_integer (eh_book_position self) BIGINT_MAX) (\<lambda>_.
     rbind (require_positive_integer (eh_global_sequence self) BIGINT_MAX) (\<lambda>_.
     rbind (require_bounded_string (eh_stream_type self) 32) (\<lambda>_.
     rbind (require_positive_integer (eh_stream_version self) INTEGER_MAX) (\<lambda>_.
     rbind (require_bounded_string (eh_event_type self) 64) (\<lambda>_.
     rbind (require_positive_integer (eh_event_schema_version self) SMALLINT_MAX) (\<lambda>_.
     rbind (require_bounded_string (eh_actor_subject_id self) 128) (\<lambda>_.
     rbind (require_timestamp (eh_effective_at self)) (\<lambda>_.
     rbind (require_timestamp (eh_recorded_at self)) (\<lambda>_.
     if length (eh_previous_hash self) \<noteq> 32 then Inl EnvelopeValueError else Inr self)))))))))"

definition bytes_hex :: "byte list \<Rightarrow> string" where
  "bytes_hex bytes = concat (map (\<lambda>b. hex_fixed 2 (unat b)) bytes)"

definition canonical_envelope_value :: "event_hash_envelope \<Rightarrow> hash_error + json" where
  "canonical_envelope_value envelope =
     rbind (require_timestamp (eh_effective_at envelope)) (\<lambda>effective_at. Inr (jobj
       [(''event_id'', juuid (eh_event_id envelope)),
        (''book_id'', juuid (eh_book_id envelope)),
        (''book_position'', JInt (eh_book_position envelope)),
        (''stream_type'', jstr (eh_stream_type envelope)),
        (''stream_id'', juuid (eh_stream_id envelope)),
        (''stream_version'', JInt (eh_stream_version envelope)),
        (''event_type'', jstr (eh_event_type envelope)),
        (''event_schema_version'', JInt (eh_event_schema_version envelope)),
        (''command_id'', juuid (eh_command_id envelope)),
        (''actor_subject_id'', jstr (eh_actor_subject_id envelope)),
        (''correlation_id'', juuid (eh_correlation_id envelope)),
        (''causation_event_id'', jopt juuid (eh_causation_event_id envelope)),
        (''effective_at'', jstr effective_at),
        (''previous_hash'', jstr (bytes_hex (eh_previous_hash envelope)))]))"

definition encode_json :: "json \<Rightarrow> hash_error + byte list" where
  "encode_json v = (case canonical_json_bytes v of Inl _ \<Rightarrow> Inl HashJsonError | Inr b \<Rightarrow> Inr b)"

text \<open>The payload must be an exact dictionary.\<close>

fun exact_dict :: "json \<Rightarrow> bool" where
  "exact_dict (JObj members) \<longleftrightarrow> True"
| "exact_dict _ \<longleftrightarrow> False"

definition canonical_hash_parts :: "event_hash_envelope \<Rightarrow> json \<Rightarrow> hash_error + byte list \<times> byte list" where
  "canonical_hash_parts envelope stored_payload =
     (if \<not> exact_dict stored_payload then Inl PayloadTypeError else
     rbind (canonical_envelope_value envelope) (\<lambda>value.
     rbind (encode_json value) (\<lambda>envelope_bytes.
     rbind (encode_json stored_payload) (\<lambda>payload_bytes. Inr (envelope_bytes, payload_bytes)))))"

lemma exact_dict_jobj [simp]: "exact_dict (jobj members)"
  by (simp add: jobj_def)

lemma exact_dict_dump [simp]: "exact_dict (model_dump p)"
  by (cases p) (simp_all add: dump_posted_def dump_reversed_def dump_reference_corrected_def dump_card_def
      dump_lines_assigned_def dump_lines_cleared_def dump_lot_acquired_def dump_lot_disposed_def)

definition HASH_DOMAIN_V1 :: "byte list" where
  "HASH_DOMAIN_V1 = utf8 (code_points ''track-anywhere:v2:ledger-event-hash:sha256:v1'')"

definition hash_preimage :: "event_hash_envelope \<Rightarrow> json \<Rightarrow> hash_error + byte list" where
  "hash_preimage envelope stored_payload =
     rbind (canonical_hash_parts envelope stored_payload) (\<lambda>(envelope_bytes, payload_bytes).
       Inr (HASH_DOMAIN_V1 @ [0] @ envelope_bytes @ [0] @ payload_bytes))"

definition event_hash :: "(byte list \<Rightarrow> byte list) \<Rightarrow> event_hash_envelope \<Rightarrow> json \<Rightarrow> hash_error + byte list" where
  "event_hash sha256 envelope stored_payload =
     rbind (hash_preimage envelope stored_payload) (\<lambda>preimage. Inr (sha256 preimage))"

section \<open>Reading objects back\<close>

lemma normal_scalars [simp]:
  "normal (jstr s) = jstr s" "normal (juuid u) = juuid u"
  by (simp_all add: jstr_def juuid_def)

lemma jstr_eq [simp]: "jstr s = jstr t \<longleftrightarrow> s = t"
  by (simp add: jstr_def code_points_inj)

lemma juuid_eq [simp]: "juuid u = juuid v \<longleftrightarrow> u = v"
  by (auto simp: juuid_def uuid_str_inj)

lemma normal_jopt: "normal (jopt f x) = jopt (\<lambda>y. normal (f y)) x"
  by (simp add: jopt_def split: option.splits)

lemma jopt_eq:
  "(\<And>y. f y \<noteq> JNull) \<Longrightarrow> (\<And>y z. f y = f z \<longleftrightarrow> y = z) \<Longrightarrow> jopt f x = jopt f w \<longleftrightarrow> x = w"
  by (auto simp: jopt_def split: option.splits) (metis json.distinct(1))+

lemma jopt_uuid_eq [simp]: "jopt juuid x = jopt juuid w \<longleftrightarrow> x = w"
  by (rule jopt_eq) (simp add: juuid_def jstr_def, simp)

lemma jopt_str_eq [simp]: "jopt jstr x = jopt jstr w \<longleftrightarrow> x = w"
  by (rule jopt_eq) (simp_all add: jstr_def code_points_inj)

lemma enum_values_inj [simp]:
  "posting_side_value a = posting_side_value b \<longleftrightarrow> a = b"
  "transaction_kind_value c = transaction_kind_value d \<longleftrightarrow> c = d"
  "external_reference_kind_value e = external_reference_kind_value f \<longleftrightarrow> e = f"
  "reversal_reason_code_value g = reversal_reason_code_value h \<longleftrightarrow> g = h"
  "reporting_line_kind_value i = reporting_line_kind_value j \<longleftrightarrow> i = j"
  "reporting_dimension_value k = reporting_dimension_value l \<longleftrightarrow> k = l"
  "credit_card_intent_value m = credit_card_intent_value n \<longleftrightarrow> m = n"
  by ((cases a; cases b; simp), (cases c; cases d; simp), (cases e; cases f; simp), (cases g; cases h; simp),
      (cases i; cases j; simp), (cases k; cases l; simp), (cases m; cases n; simp))

lemma map_eq_of_sets:
  assumes "set xs = set ys" "distinct (map fst xs)" "map fst xs = map fst ys"
  shows "xs = ys"
proof (rule nth_equalityI)
  show len: "length xs = length ys" using assms(3) by (metis length_map)
  fix i assume i: "i < length xs"
  have d: "distinct (map fst ys)" using assms(2,3) by simp
  have key: "fst (xs ! i) = fst (ys ! i)" using arg_cong [OF assms(3), of "\<lambda>l. l ! i"] i len by simp
  have "(fst (ys ! i), snd (xs ! i)) \<in> set ys" using i assms(1) key by (metis nth_mem prod.collapse)
  moreover have "(fst (ys ! i), snd (ys ! i)) \<in> set ys" using i len by (metis nth_mem prod.collapse)
  ultimately have "snd (xs ! i) = snd (ys ! i)" using d by (metis map_of_is_SomeI option.inject)
  with key show "xs ! i = ys ! i" by (metis prod.collapse)
qed

text \<open>Two objects with the same keys are equal values exactly when the members are.\<close>

lemma normal_jobj_eq:
  assumes keys: "map fst ms = map fst ns" "distinct (map fst ms)"
  shows "normal (jobj ms) = normal (jobj ns) \<longleftrightarrow> map (normal \<circ> snd) ms = map (normal \<circ> snd) ns"
proof
  let ?f = "\<lambda>(key, item). (code_points key, item)"
  let ?g = "\<lambda>x. (code_points (fst x), normal (snd x))"
  have g: "map (on_item normal) (map ?f xs) = map ?g xs" for xs by (simp add: split_def)
  assume "normal (jobj ms) = normal (jobj ns)"
  then have "sort_key fst (map ?g ms) = sort_key fst (map ?g ns)"
    unfolding jobj_def normal.simps g by simp
  from arg_cong [OF this, of set] have "set (map ?g ms) = set (map ?g ns)" by (simp only: set_sort)
  moreover have k: "map fst (map ?g xs) = map code_points (map fst xs)" for xs by simp
  have "distinct (map fst (map ?g ms))" unfolding k using keys(2)
    by (simp add: distinct_map inj_on_def code_points_inj)
  moreover have "map fst (map ?g ms) = map fst (map ?g ns)" unfolding k keys(1) ..
  ultimately have "map ?g ms = map ?g ns" by (rule map_eq_of_sets)
  then have "map snd (map ?g ms) = map snd (map ?g ns)" by (rule arg_cong)
  then show "map (normal \<circ> snd) ms = map (normal \<circ> snd) ns" by (simp add: comp_def)
next
  assume v: "map (normal \<circ> snd) ms = map (normal \<circ> snd) ns"
  have z: "map (\<lambda>x. (code_points (fst x), normal (snd x))) xs
      = zip (map code_points (map fst xs)) (map (normal \<circ> snd) xs)" for xs
    by (induction xs) simp_all
  have "map (\<lambda>x. (code_points (fst x), normal (snd x))) ms = map (\<lambda>x. (code_points (fst x), normal (snd x))) ns"
    unfolding z keys(1) v ..
  then show "normal (jobj ms) = normal (jobj ns)" by (simp add: jobj_def split_def comp_def)
qed

section \<open>Dumps determine payloads\<close>

lemma map_dump_eq:
  "(\<And>x y. normal (f x) = normal (f y) \<longleftrightarrow> x = y) \<Longrightarrow>
     map (\<lambda>x. normal (f x)) xs = map (\<lambda>x. normal (f x)) ys \<longleftrightarrow> xs = ys"
  by (rule inj_map_eq_map) (auto simp: inj_def)

lemma dump_posting_eq [simp]: "normal (dump_posting p) = normal (dump_posting q) \<longleftrightarrow> p = q"
proof
  assume "normal (dump_posting p) = normal (dump_posting q)"
  then show "p = q" unfolding dump_posting_def
    by (subst (asm) normal_jobj_eq) (simp_all add: journal_posting_fact.equality)
qed simp

lemma dump_external_reference_eq [simp]:
  "normal (dump_external_reference p) = normal (dump_external_reference q) \<longleftrightarrow> p = q"
proof
  assume "normal (dump_external_reference p) = normal (dump_external_reference q)"
  then show "p = q" unfolding dump_external_reference_def
    by (subst (asm) normal_jobj_eq) (simp_all add: financial_external_reference.equality)
qed simp

lemma dump_reporting_line_eq [simp]: "normal (dump_reporting_line p) = normal (dump_reporting_line q) \<longleftrightarrow> p = q"
proof
  assume "normal (dump_reporting_line p) = normal (dump_reporting_line q)"
  then show "p = q" unfolding dump_reporting_line_def
    by (subst (asm) normal_jobj_eq) (simp_all add: normal_jopt reporting_line.equality)
qed simp

lemma dump_allocation_eq [simp]: "normal (dump_allocation p) = normal (dump_allocation q) \<longleftrightarrow> p = q"
proof
  assume "normal (dump_allocation p) = normal (dump_allocation q)"
  then show "p = q" unfolding dump_allocation_def
    by (subst (asm) normal_jobj_eq) (simp_all add: lot_disposal_allocation.equality)
qed simp

lemmas dumped_lists [simp] =
  map_dump_eq [of dump_posting, OF dump_posting_eq]
  map_dump_eq [of dump_external_reference, OF dump_external_reference_eq]
  map_dump_eq [of dump_reporting_line, OF dump_reporting_line_eq]
  map_dump_eq [of dump_allocation, OF dump_allocation_eq]

lemma dump_payload_classes:
  "normal (dump_posted p1) = normal (dump_posted q1) \<Longrightarrow> p1 = q1"
  "normal (dump_reversed p2) = normal (dump_reversed q2) \<Longrightarrow> p2 = q2"
  "normal (dump_reference_corrected p3) = normal (dump_reference_corrected q3) \<Longrightarrow> p3 = q3"
  "normal (dump_card p4) = normal (dump_card q4) \<Longrightarrow> p4 = q4"
  "normal (dump_lines_assigned p5) = normal (dump_lines_assigned q5) \<Longrightarrow> p5 = q5"
  "normal (dump_lines_cleared p6) = normal (dump_lines_cleared q6) \<Longrightarrow> p6 = q6"
  "normal (dump_lot_acquired p7) = normal (dump_lot_acquired q7) \<Longrightarrow> p7 = q7"
  "normal (dump_lot_disposed p8) = normal (dump_lot_disposed q8) \<Longrightarrow> p8 = q8"
  unfolding dump_posted_def dump_reversed_def dump_reference_corrected_def dump_card_def
    dump_lines_assigned_def dump_lines_cleared_def dump_lot_acquired_def dump_lot_disposed_def
  by (subst (asm) normal_jobj_eq; simp add: normal_jopt comp_def)+

lemma model_dump_inj:
  "event_type p = event_type q \<Longrightarrow> normal (model_dump p) = normal (model_dump q) \<Longrightarrow> p = q"
  by (cases p; cases q; simp add: dump_payload_classes)

section \<open>The preimage can be read back\<close>

lemma json_ok_jobj: "json_ok (jobj ms) \<longleftrightarrow> distinct (map fst ms) \<and> list_all json_ok (map snd ms)"
proof -
  have k: "map fst (map (\<lambda>(key, item). (code_points key, item)) ms) = map code_points (map fst ms)"
    by (simp add: split_def)
  have s: "map snd (map (\<lambda>(key, item). (code_points key, item)) ms) = map snd ms"
    by (simp add: split_def)
  have d: "distinct (map code_points xs) \<longleftrightarrow> distinct xs" for xs
    by (simp add: distinct_map inj_on_def code_points_inj)
  have "json_ok (jobj ms) \<longleftrightarrow> distinct (map fst (map (\<lambda>(key, item). (code_points key, item)) ms))
      \<and> list_all json_ok (map snd (map (\<lambda>(key, item). (code_points key, item)) ms))"
    by (simp add: jobj_def list_all_iff split_def)
  then show ?thesis unfolding k s d .
qed

lemma json_ok_scalars [simp]: "json_ok (jstr s)" "json_ok (juuid u)" "json_ok (jopt juuid x)" "json_ok (jopt jstr y)"
  by (simp_all add: jstr_def juuid_def jopt_def split: option.split)

lemma json_ok_parts [simp]:
  "json_ok (dump_posting p)" "json_ok (dump_external_reference r)" "json_ok (dump_reporting_line l)"
  "json_ok (dump_allocation a)"
  by (simp_all add: dump_posting_def dump_external_reference_def dump_reporting_line_def dump_allocation_def json_ok_jobj)

lemma json_ok_dump: "json_ok (model_dump p)"
  by (cases p) (simp_all add: json_ok_jobj dump_posted_def dump_reversed_def dump_reference_corrected_def
      dump_card_def dump_lines_assigned_def dump_lines_cleared_def dump_lot_acquired_def dump_lot_disposed_def
      list_all_iff)

lemma utf8_append: "utf8 (s @ t) = utf8 s @ utf8 t"
  by (simp add: utf8_def)

lemma utf8_zero: "utf8 (0 # t) = 0 # utf8 t"
  by (simp add: utf8_def utf8_units_def)

lemma bytes_hex_inj: "bytes_hex a = bytes_hex b \<Longrightarrow> a = b"
proof (induction a arbitrary: b)
  case Nil
  have "b = []"
  proof (cases b)
    case (Cons c b')
    with Nil have "length (hex_fixed 2 (unat c)) = 0" by (simp add: bytes_hex_def)
    then show ?thesis by simp
  qed
  then show ?case by simp
next
  case (Cons x a)
  obtain y b' where b: "b = y # b'"
  proof (cases b)
    case Nil
    with Cons.prems have "length (hex_fixed 2 (unat x)) = 0" by (simp add: bytes_hex_def)
    then show ?thesis by simp
  qed
  from Cons.prems have "hex_fixed 2 (unat x) @ bytes_hex a = hex_fixed 2 (unat y) @ bytes_hex b'"
    by (simp add: b bytes_hex_def)
  then have "hex_fixed 2 (unat x) = hex_fixed 2 (unat y)" "bytes_hex a = bytes_hex b'" by simp_all
  moreover have "unat w < 16 ^ 2" for w :: byte
  proof -
    have "unat w < 2 ^ LENGTH(8)" by (rule unsigned_less)
    then show ?thesis by simp
  qed
  ultimately have "unat x = unat y" "a = b'" using hex_fixed_inj Cons.IH by blast+
  then show ?case by (simp add: b word_unat_eq_iff)
qed

type_synonym hashed_fields =
  "uuid \<times> uuid \<times> int \<times> string \<times> uuid \<times> int \<times> string \<times> int \<times> uuid \<times> string \<times> uuid \<times> uuid option \<times> instant \<times> byte list"

definition hashed_fields :: "event_hash_envelope \<Rightarrow> hashed_fields" where
  "hashed_fields e =
     (eh_event_id e, eh_book_id e, eh_book_position e, eh_stream_type e, eh_stream_id e, eh_stream_version e,
      eh_event_type e, eh_event_schema_version e, eh_command_id e, eh_actor_subject_id e, eh_correlation_id e,
      eh_causation_event_id e, eh_effective_at e, eh_previous_hash e)"

lemma require_timestamp_inj: "require_timestamp u = Inr s \<Longrightarrow> require_timestamp v = Inr s \<Longrightarrow> u = v"
  using format_inj by (auto simp: require_timestamp_def split: sum.splits)

lemma canonical_envelope_json_ok: "canonical_envelope_value e = Inr v \<Longrightarrow> json_ok v"
  by (auto simp: canonical_envelope_value_def result_simps json_ok_jobj)

lemma canonical_envelope_value_inj:
  assumes "canonical_envelope_value e = Inr v" "canonical_envelope_value e' = Inr v'" "normal v = normal v'"
  shows "hashed_fields e = hashed_fields e'"
proof -
  from assms(1) obtain t where t: "require_timestamp (eh_effective_at e) = Inr t"
    by (auto simp: canonical_envelope_value_def result_simps)
  from assms(2) obtain t' where t': "require_timestamp (eh_effective_at e') = Inr t'"
    by (auto simp: canonical_envelope_value_def result_simps)
  from assms have n: "normal (case canonical_envelope_value e of Inr v \<Rightarrow> v | _ \<Rightarrow> JNull)
      = normal (case canonical_envelope_value e' of Inr v \<Rightarrow> v | _ \<Rightarrow> JNull)" by simp
  have "t = t' \<and> (eh_event_id e, eh_book_id e, eh_book_position e, eh_stream_type e, eh_stream_id e, eh_stream_version e,
      eh_event_type e, eh_event_schema_version e, eh_command_id e, eh_actor_subject_id e, eh_correlation_id e,
      eh_causation_event_id e, eh_previous_hash e) = (eh_event_id e', eh_book_id e', eh_book_position e', eh_stream_type e',
      eh_stream_id e', eh_stream_version e', eh_event_type e', eh_event_schema_version e', eh_command_id e',
      eh_actor_subject_id e', eh_correlation_id e', eh_causation_event_id e', eh_previous_hash e')"
    using n unfolding canonical_envelope_value_def t t' rbind_Inr sum.case
    by (subst (asm) normal_jobj_eq) (simp_all add: normal_jopt bytes_hex_inj)
  moreover from this t t' have "eh_effective_at e = eh_effective_at e'" using require_timestamp_inj by blast
  ultimately show ?thesis by (simp add: hashed_fields_def)
qed

lemma encode_json_Inr: "encode_json v = Inr b \<Longrightarrow> b = utf8 (dumps v)"
  by (auto simp: encode_json_def canonical_json_bytes_def result_simps split: sum.splits)

lemma hash_preimage_shape:
  assumes "hash_preimage e p = Inr x"
  obtains v where "canonical_envelope_value e = Inr v" "json_ok v"
    "x = HASH_DOMAIN_V1 @ utf8 (0 # emit (normal v) @ 0 # emit (normal p))"
proof -
  from assms obtain v eb pb where v: "canonical_envelope_value e = Inr v" "encode_json v = Inr eb"
    "encode_json p = Inr pb" "x = HASH_DOMAIN_V1 @ [0] @ eb @ [0] @ pb"
    by (auto simp: hash_preimage_def canonical_hash_parts_def result_simps split: if_splits)
  from encode_json_Inr [OF v(2)] encode_json_Inr [OF v(3)]
  have "x = HASH_DOMAIN_V1 @ utf8 (0 # emit (normal v) @ 0 # emit (normal p))"
    by (simp add: v(4) utf8_append utf8_zero dumps_normal)
  with that v(1) canonical_envelope_json_ok [OF v(1)] show thesis by blast
qed

lemma hash_preimage_inj:
  assumes x: "hash_preimage e p = Inr x" "hash_preimage e' p' = Inr x" and ok: "json_ok p" "json_ok p'"
  shows "hashed_fields e = hashed_fields e' \<and> normal p = normal p'"
proof -
  from x(1) obtain v where v: "canonical_envelope_value e = Inr v" "json_ok v"
    "x = HASH_DOMAIN_V1 @ utf8 (0 # emit (normal v) @ 0 # emit (normal p))" by (rule hash_preimage_shape)
  from x(2) obtain v' where v': "canonical_envelope_value e' = Inr v'" "json_ok v'"
    "x = HASH_DOMAIN_V1 @ utf8 (0 # emit (normal v') @ 0 # emit (normal p'))" by (rule hash_preimage_shape)
  have t: "text_ok (emit (normal w))" if "json_ok w" for w
    using text_ok_dumps [OF that] by (simp only: dumps_normal)
  from v(3) v'(3) have "utf8 (0 # emit (normal v) @ 0 # emit (normal p)) = utf8 (0 # emit (normal v') @ 0 # emit (normal p'))"
    by simp
  then have "0 # emit (normal v) @ 0 # emit (normal p) = 0 # emit (normal v') @ 0 # emit (normal p')"
    by (rule utf8_inj) (simp_all add: t ok v(2) v'(2))
  then have "emit (normal v) @ 0 # emit (normal p) = emit (normal v') @ 0 # emit (normal p')" by simp
  from readableD [OF emit_readable this] have "normal v = normal v'" "emit (normal p) = emit (normal p')"
    by (simp_all add: stop_def)
  with canonical_envelope_value_inj [OF v(1) v'(1)] emit_inj show ?thesis by blast
qed

section \<open>Properties\<close>

text \<open>
  Property C29: the event hash pins the event. Two events with the same hash agree in every field of
  the envelope that is hashed and in their payload, or else their two preimages are themselves a
  collision of SHA-256.
\<close>

theorem event_hash_pins_event:
  assumes "event_hash sha256 e p = Inr h" "event_hash sha256 e' p' = Inr h" "json_ok p" "json_ok p'"
  shows "(hashed_fields e = hashed_fields e' \<and> normal p = normal p')
    \<or> (\<exists>x y. hash_preimage e p = Inr x \<and> hash_preimage e' p' = Inr y \<and> x \<noteq> y \<and> sha256 x = sha256 y)"
proof -
  from assms(1,2) obtain x y where xy: "hash_preimage e p = Inr x" "hash_preimage e' p' = Inr y"
    "sha256 x = h" "sha256 y = h" by (auto simp: event_hash_def result_simps)
  show ?thesis
  proof (cases "x = y")
    case True
    with hash_preimage_inj [OF xy(1) _ assms(3,4)] xy(2) show ?thesis by blast
  next
    case False
    from xy(3,4) have "sha256 x = sha256 y" by simp
    with xy(1,2) False show ?thesis by (intro disjI2 exI conjI)
  qed
qed

abbreviation demo_envelope :: event_hash_envelope where
  "demo_envelope \<equiv> \<lparr>eh_event_id = 1, eh_book_id = 2, eh_book_position = 1, eh_global_sequence = 1,
     eh_stream_type = ''s'', eh_stream_id = 3, eh_stream_version = 1, eh_event_type = ''E'',
     eh_event_schema_version = 1, eh_command_id = 4, eh_actor_subject_id = ''a'', eh_correlation_id = 5,
     eh_causation_event_id = None, eh_effective_at = 0, eh_recorded_at = 0, eh_previous_hash = replicate 32 0\<rparr>"

lemma demo_timestamp: "\<exists>s. require_timestamp 0 = Inr s"
  by (simp add: require_timestamp_def format_utc_microseconds_def Let_def instant_ordinal_def
      EPOCH_ORDINAL_def MAX_ORDINAL_def split: prod.split)

lemma prove_json_texts:
  "prove_json_value (jstr s) = Inr ()" "prove_json_value (juuid u) = Inr ()" "prove_json_value (jopt juuid x) = Inr ()"
proof -
  have c: "\<not> (0xd800 \<le> (of_char c :: nat))" for c :: char
  proof -
    have "of_char c < (256 :: nat)" by simp
    then show ?thesis by linarith
  qed
  have t: "validate_text (code_points s) = Inr ()" for s
    using c by (simp add: validate_text_def code_points_def list_ex_iff)
  then show "prove_json_value (jstr s) = Inr ()" by (simp add: jstr_def)
  have u: "prove_json_value (juuid v) = Inr ()" for v by (simp add: juuid_def jstr_def t)
  then show "prove_json_value (juuid u) = Inr ()" .
  show "prove_json_value (jopt juuid x) = Inr ()" by (cases x) (simp_all add: jopt_def u)
qed

lemma validate_key: "validate_text (code_points s) = Inr ()"
  using prove_json_texts(1) [of s] by (simp add: jstr_def)

lemma prove_jobj: "\<forall>v\<in>set (map snd ms). prove_json_value v = Inr () \<Longrightarrow> prove_json_value (jobj ms) = Inr ()"
  unfolding jobj_def prove_json_value.simps by (induction ms) (auto simp: validate_key)

abbreviation demo_payload :: json where
  "demo_payload \<equiv> jobj [(''note'', jstr ''n'')]"

lemma demo_hash: "\<exists>x. hash_preimage (demo_envelope\<lparr>eh_event_id := i\<rparr>) demo_payload = Inr x"
proof -
  obtain s where s: "require_timestamp 0 = Inr s" using demo_timestamp by blast
  have one: "prove_json_value (JInt 1) = Inr ()" by (simp add: CANONICAL_INTEGER_ABS_LIMIT_def)
  have "\<exists>v. canonical_envelope_value (demo_envelope\<lparr>eh_event_id := i\<rparr>) = Inr v \<and> prove_json_value v = Inr ()"
    unfolding canonical_envelope_value_def event_hash_envelope.simps s rbind_Inr
    by (rule exI, rule conjI, rule refl, rule prove_jobj) (simp add: prove_json_texts one del: prove_json_value.simps)
  then obtain v where v: "canonical_envelope_value (demo_envelope\<lparr>eh_event_id := i\<rparr>) = Inr v"
    "prove_json_value v = Inr ()" by blast
  have "prove_json_value demo_payload = Inr ()"
    by (rule prove_jobj) (simp add: prove_json_texts del: prove_json_value.simps)
  with v show ?thesis
    by (simp add: hash_preimage_def canonical_hash_parts_def encode_json_def canonical_json_bytes_def
        del: prove_json_value.simps)
qed

theorem event_hash_pins_event_witness:
  "(\<exists>h. event_hash (\<lambda>x. x) demo_envelope demo_payload = Inr h)
    \<and> event_hash (\<lambda>x. x) demo_envelope demo_payload \<noteq> event_hash (\<lambda>x. x) (demo_envelope\<lparr>eh_event_id := 6\<rparr>) demo_payload"
proof (intro conjI notI)
  let ?e = "demo_envelope" and ?f = "demo_envelope\<lparr>eh_event_id := 6\<rparr>"
  obtain x where x: "hash_preimage ?e demo_payload = Inr x" using demo_hash [of 1] by auto
  then have h: "event_hash (\<lambda>x. x) ?e demo_payload = Inr x" by (simp add: event_hash_def)
  then show "\<exists>h. event_hash (\<lambda>x. x) ?e demo_payload = Inr h" by blast
  assume eq: "event_hash (\<lambda>x. x) ?e demo_payload = event_hash (\<lambda>x. x) ?f demo_payload"
  have ok: "json_ok demo_payload" by (simp add: jobj_def jstr_def code_points_def)
  from event_hash_pins_event [OF h _ ok ok, of ?f] eq h
  show False by (auto simp: hashed_fields_def)
qed

end
