(* ===== verification/Lot_Allocation.thy ===== *)
theory Lot_Allocation
  imports Event_Contracts "HOL-Library.Product_Lexorder"
begin

text \<open>
  Investment lots, \<open>domain/investments/allocation.py\<close>: the reducer that rebuilds the lots of a
  Book from its events, and the planner that freezes a disposal into allocations (FIFO or
  specific lots, cost pro rata rounded down). The dictionary of lots is an association list in
  insertion order; \<open>uuid5\<close> of the standard library's name-based UUIDs is a parameter.
\<close>

section \<open>Model\<close>

datatype lot_error =
    LotAllocationError
  | DuplicateLot
  | WrongLotPool
  | OverDisposal
  | InvalidCostAllocation
  | LotNotFound
  | AllocationContract contract_error

datatype allocation_method = FIFO | SPECIFIC_ID

datatype investment_payload =
    Acquired investment_lot_acquired
  | Disposed investment_lot_disposed

record investment_event =
  ie_source_position :: int
  ie_effective_at :: instant
  ie_payload :: investment_payload

record lot_position =
  lp_lot_id :: uuid
  lp_instrument_asset_code :: string
  lp_settlement_asset_code :: string
  lp_effective_at :: instant
  lp_source_position :: int
  lp_remaining_quantity_units :: int
  lp_remaining_cost_units :: int

record lot_state =
  ls_lots :: "lot_position list"

record specific_lot_request =
  sr_lot_id :: uuid
  sr_quantity_units :: int

type_synonym lot_table = "(uuid \<times> lot_position) list"

definition require_asset_code :: "string \<Rightarrow> lot_error + unit" where
  "require_asset_code value =
     (if value = [] \<or> 16 < length value \<or> \<not> upper_stable value then Inl LotAllocationError else Inr ())"

definition require_positive_int :: "int \<Rightarrow> lot_error + unit" where
  "require_positive_int value = (if value \<le> 0 then Inl LotAllocationError else Inr ())"

definition require_nonnegative_int :: "int \<Rightarrow> lot_error + unit" where
  "require_nonnegative_int value = (if value < 0 then Inl LotAllocationError else Inr ())"

definition InvestmentEvent :: "investment_event \<Rightarrow> lot_error + investment_event" where
  "InvestmentEvent self = rbind (require_positive_int (ie_source_position self)) (\<lambda>_. Inr self)"

definition LotPosition :: "lot_position \<Rightarrow> lot_error + lot_position" where
  "LotPosition self =
     rbind (require_asset_code (lp_instrument_asset_code self)) (\<lambda>_.
     rbind (require_asset_code (lp_settlement_asset_code self)) (\<lambda>_.
     rbind (require_positive_int (lp_source_position self)) (\<lambda>_.
     rbind (require_nonnegative_int (lp_remaining_quantity_units self)) (\<lambda>_.
     rbind (require_nonnegative_int (lp_remaining_cost_units self)) (\<lambda>_.
     if (lp_remaining_quantity_units self = 0) \<noteq> (lp_remaining_cost_units self = 0)
     then Inl LotAllocationError
     else Inr self)))))"

definition LotState :: "lot_position list \<Rightarrow> lot_error + lot_state" where
  "LotState lots =
     (if \<not> distinct (map lp_lot_id lots) then Inl DuplicateLot else Inr \<lparr>ls_lots = lots\<rparr>)"

definition SpecificLotRequest :: "specific_lot_request \<Rightarrow> lot_error + specific_lot_request" where
  "SpecificLotRequest self = rbind (require_positive_int (sr_quantity_units self)) (\<lambda>_. Inr self)"

definition require_pool :: "lot_position \<Rightarrow> string \<Rightarrow> string \<Rightarrow> lot_error + unit" where
  "require_pool lot instrument settlement =
     (if lp_instrument_asset_code lot \<noteq> instrument \<or> lp_settlement_asset_code lot \<noteq> settlement
      then Inl WrongLotPool else Inr ())"

definition fifo_key :: "lot_position \<Rightarrow> instant \<times> int \<times> uuid" where
  "fifo_key lot = (lp_effective_at lot, lp_source_position lot, lp_lot_id lot)"

subsection \<open>The reducer\<close>

definition dispose_allocation ::
    "investment_lot_disposed \<Rightarrow> lot_table \<Rightarrow> lot_disposal_allocation \<Rightarrow> lot_error + lot_table" where
  "dispose_allocation payload lots allocation =
     (case map_of lots (ld_lot_id allocation) of
        None \<Rightarrow> Inl LotNotFound
      | Some lot \<Rightarrow>
          rbind (require_pool lot (id_instrument_asset_code payload) (id_settlement_asset_code payload)) (\<lambda>_.
          let quantity = units_value (ld_quantity_units allocation);
              cost = units_value (ld_cost_units allocation)
          in if lp_remaining_quantity_units lot < quantity then Inl OverDisposal
             else if lp_remaining_cost_units lot < cost then Inl InvalidCostAllocation
             else
               let remaining_quantity = lp_remaining_quantity_units lot - quantity;
                   remaining_cost = lp_remaining_cost_units lot - cost
               in if (remaining_quantity = 0) \<noteq> (remaining_cost = 0) then Inl InvalidCostAllocation
                  else rbind (LotPosition (lot\<lparr>lp_remaining_quantity_units := remaining_quantity,
                                               lp_remaining_cost_units := remaining_cost\<rparr>))
                         (\<lambda>lot'. Inr (AList.update (lp_lot_id lot) lot' lots))))"

definition acquire_lot :: "investment_event \<Rightarrow> investment_lot_acquired \<Rightarrow> lot_table \<Rightarrow> lot_error + lot_table" where
  "acquire_lot event payload lots =
     (if map_of lots (ia_lot_id payload) \<noteq> None then Inl DuplicateLot
      else rbind (LotPosition
             \<lparr>lp_lot_id = ia_lot_id payload,
              lp_instrument_asset_code = ia_instrument_asset_code payload,
              lp_settlement_asset_code = ia_settlement_asset_code payload,
              lp_effective_at = ie_effective_at event,
              lp_source_position = ie_source_position event,
              lp_remaining_quantity_units = units_value (ia_quantity_units payload),
              lp_remaining_cost_units = units_value (ia_cost_units payload)\<rparr>)
             (\<lambda>lot. Inr (AList.update (ia_lot_id payload) lot lots)))"

text \<open>The loop carries the lots and \<open>previous_position\<close>.\<close>

definition reduce_step :: "lot_table \<times> int \<Rightarrow> investment_event \<Rightarrow> lot_error + lot_table \<times> int" where
  "reduce_step state event =
     (case state of (lots, previous_position) \<Rightarrow>
        if ie_source_position event \<le> previous_position then Inl LotAllocationError
        else rbind
          (case ie_payload event of
             Acquired payload \<Rightarrow> acquire_lot event payload lots
           | Disposed payload \<Rightarrow> foldE (dispose_allocation payload) lots (id_allocations payload))
          (\<lambda>lots'. Inr (lots', ie_source_position event)))"

definition reduce_investment_events :: "investment_event list \<Rightarrow> lot_error + lot_state" where
  "reduce_investment_events events =
     rbind (foldE reduce_step ([], 0) events)
       (\<lambda>(lots, _). LotState (sort_key fifo_key (map snd lots)))"

subsection \<open>The planner\<close>

fun take_lots :: "int \<Rightarrow> lot_position list \<Rightarrow> (lot_position \<times> int) list" where
  "take_lots remaining [] = []"
| "take_lots remaining (lot # lots) =
     (if remaining = 0 then []
      else let quantity = min remaining (lp_remaining_quantity_units lot)
           in (lot, quantity) # take_lots (remaining - quantity) lots)"

definition in_pool :: "string \<Rightarrow> string \<Rightarrow> lot_position \<Rightarrow> bool" where
  "in_pool instrument settlement lot \<longleftrightarrow>
     lp_instrument_asset_code lot = instrument \<and> lp_settlement_asset_code lot = settlement
     \<and> 0 < lp_remaining_quantity_units lot"

definition fifo_candidates :: "lot_state \<Rightarrow> string \<Rightarrow> string \<Rightarrow> lot_position list" where
  "fifo_candidates state instrument settlement =
     sort_key fifo_key (filter (in_pool instrument settlement) (ls_lots state))"

definition select_fifo ::
    "lot_state \<Rightarrow> string \<Rightarrow> string \<Rightarrow> int \<Rightarrow> lot_error + (lot_position \<times> int) list" where
  "select_fifo state instrument settlement quantity_units =
     (let candidates = fifo_candidates state instrument settlement
      in if sum_list (map lp_remaining_quantity_units candidates) < quantity_units then Inl OverDisposal
         else Inr (take_lots quantity_units candidates))"

definition pick_specific ::
    "lot_table \<Rightarrow> string \<Rightarrow> string \<Rightarrow> specific_lot_request \<Rightarrow> lot_error + lot_position \<times> int" where
  "pick_specific by_id instrument settlement request =
     (case map_of by_id (sr_lot_id request) of
        None \<Rightarrow> Inl LotNotFound
      | Some lot \<Rightarrow>
          rbind (require_pool lot instrument settlement) (\<lambda>_.
          if lp_remaining_quantity_units lot < sr_quantity_units request then Inl OverDisposal
          else Inr (lot, sr_quantity_units request)))"

definition select_specific ::
    "lot_state \<Rightarrow> string \<Rightarrow> string \<Rightarrow> int \<Rightarrow> specific_lot_request list
     \<Rightarrow> lot_error + (lot_position \<times> int) list" where
  "select_specific state instrument settlement quantity_units requests =
     (if requests = [] then Inl LotAllocationError
      else if \<not> distinct (map sr_lot_id requests) then Inl DuplicateLot
      else if sum_list (map sr_quantity_units requests) \<noteq> quantity_units then Inl LotAllocationError
      else mapE (pick_specific (rev (map (\<lambda>lot. (lp_lot_id lot, lot)) (ls_lots state))) instrument settlement)
             requests)"

definition allocated_cost :: "lot_position \<Rightarrow> int \<Rightarrow> lot_error + int" where
  "allocated_cost lot quantity_units =
     rbind (require_positive_int quantity_units) (\<lambda>_.
     if lp_remaining_quantity_units lot < quantity_units then Inl OverDisposal
     else if quantity_units = lp_remaining_quantity_units lot then Inr (lp_remaining_cost_units lot)
     else let cost = lp_remaining_cost_units lot * quantity_units div lp_remaining_quantity_units lot
          in if cost = 0 then Inl InvalidCostAllocation else Inr cost)"

definition allocation_name :: "nat \<Rightarrow> lot_position \<Rightarrow> int \<Rightarrow> int \<Rightarrow> string" where
  "allocation_name position lot quantity cost =
     nat_str position @ '':'' @ uuid_str (lp_lot_id lot) @ '':'' @ int_str quantity @ '':'' @ int_str cost"

definition LotDisposalAllocation :: "lot_disposal_allocation \<Rightarrow> lot_error + lot_disposal_allocation" where
  "LotDisposalAllocation self =
     (if allocation_fields_ok self then Inr self else Inl (AllocationContract ValidationError))"

definition freeze_allocation ::
    "(uuid \<Rightarrow> string \<Rightarrow> uuid) \<Rightarrow> uuid \<Rightarrow> nat \<times> lot_position \<times> int \<Rightarrow> lot_error + lot_disposal_allocation" where
  "freeze_allocation uuid5 command_id item =
     (case item of (position, lot, quantity) \<Rightarrow>
        rbind (allocated_cost lot quantity) (\<lambda>cost.
        LotDisposalAllocation
          \<lparr>ld_allocation_id = uuid5 command_id (allocation_name position lot quantity cost),
           ld_lot_id = lp_lot_id lot,
           ld_position = int position,
           ld_quantity_units = int_str quantity,
           ld_cost_units = int_str cost\<rparr>))"

definition select_lot_allocations ::
    "(uuid \<Rightarrow> string \<Rightarrow> uuid) \<Rightarrow> lot_state \<Rightarrow> string \<Rightarrow> string \<Rightarrow> int \<Rightarrow> allocation_method \<Rightarrow> uuid
     \<Rightarrow> specific_lot_request list \<Rightarrow> lot_error + lot_disposal_allocation list" where
  "select_lot_allocations uuid5 state instrument settlement quantity_units method command_id specific_lots =
     rbind (require_asset_code instrument) (\<lambda>_.
     rbind (require_asset_code settlement) (\<lambda>_.
     rbind (require_positive_int quantity_units) (\<lambda>_.
     rbind
       (if method = FIFO then
          if specific_lots \<noteq> [] then Inl LotAllocationError
          else select_fifo state instrument settlement quantity_units
        else select_specific state instrument settlement quantity_units specific_lots) (\<lambda>selected.
     mapE (freeze_allocation uuid5 command_id) (enumerate 0 selected)))))"

section \<open>Construction\<close>

text \<open>What \<open>LotPosition.__post_init__\<close> lets through.\<close>

definition asset_code_shape :: "string \<Rightarrow> bool" where
  "asset_code_shape s \<longleftrightarrow> s \<noteq> [] \<and> length s \<le> 16 \<and> upper_stable s"

definition lot_ok :: "lot_position \<Rightarrow> bool" where
  "lot_ok lot \<longleftrightarrow>
     asset_code_shape (lp_instrument_asset_code lot) \<and> asset_code_shape (lp_settlement_asset_code lot)
     \<and> 0 < lp_source_position lot
     \<and> 0 \<le> lp_remaining_quantity_units lot \<and> 0 \<le> lp_remaining_cost_units lot
     \<and> (lp_remaining_quantity_units lot = 0 \<longleftrightarrow> lp_remaining_cost_units lot = 0)"

definition lot_table_ok :: "lot_table \<Rightarrow> bool" where
  "lot_table_ok lots \<longleftrightarrow>
     distinct (map fst lots) \<and> (\<forall>(k, lot)\<in>set lots. lp_lot_id lot = k \<and> lot_ok lot)"

lemma require_asset_code_Inr [result_simps]: "require_asset_code s = Inr u \<longleftrightarrow> asset_code_shape s"
  by (auto simp: require_asset_code_def asset_code_shape_def)

lemma require_int_Inr [result_simps]:
  "require_positive_int n = Inr u \<longleftrightarrow> 0 < n"
  "require_nonnegative_int n = Inr u \<longleftrightarrow> 0 \<le> n"
  by (auto simp: require_positive_int_def require_nonnegative_int_def)

lemma require_pool_Inr [result_simps]:
  "require_pool lot instrument settlement = Inr u \<longleftrightarrow>
     lp_instrument_asset_code lot = instrument \<and> lp_settlement_asset_code lot = settlement"
  by (auto simp: require_pool_def)

lemma LotPosition_Inr [result_simps]: "LotPosition lot = Inr lot' \<longleftrightarrow> lot_ok lot \<and> lot' = lot"
  by (auto simp: LotPosition_def lot_ok_def result_simps)

lemma LotState_Inr [result_simps]:
  "LotState lots = Inr st \<longleftrightarrow> distinct (map lp_lot_id lots) \<and> st = \<lparr>ls_lots = lots\<rparr>"
  by (auto simp: LotState_def)

lemma lot_table_ok_Nil [simp]: "lot_table_ok []"
  by (simp add: lot_table_ok_def)

lemma lot_table_okD:
  "lot_table_ok lots \<Longrightarrow> map_of lots k = Some lot \<Longrightarrow> lp_lot_id lot = k \<and> lot_ok lot"
  unfolding lot_table_ok_def by (drule map_of_SomeD) blast

lemma set_AList_update: "set (AList.update k v al) \<subseteq> insert (k, v) (set al)"
  by (induction al) auto

lemma lot_table_ok_update:
  "lot_table_ok lots \<Longrightarrow> lot_ok lot \<Longrightarrow> lp_lot_id lot = k \<Longrightarrow> lot_table_ok (AList.update k lot lots)"
  unfolding lot_table_ok_def using set_AList_update [of k lot lots]
  by (auto intro: distinct_update)

section \<open>The reducer keeps the lots well formed\<close>

lemma dispose_allocation_Inr [result_simps]:
  "dispose_allocation payload lots a = Inr lots' \<longleftrightarrow>
     (\<exists>lot lot'. map_of lots (ld_lot_id a) = Some lot
        \<and> lp_instrument_asset_code lot = id_instrument_asset_code payload
        \<and> lp_settlement_asset_code lot = id_settlement_asset_code payload
        \<and> units_value (ld_quantity_units a) \<le> lp_remaining_quantity_units lot
        \<and> units_value (ld_cost_units a) \<le> lp_remaining_cost_units lot
        \<and> lot' = lot\<lparr>lp_remaining_quantity_units := lp_remaining_quantity_units lot - units_value (ld_quantity_units a),
                     lp_remaining_cost_units := lp_remaining_cost_units lot - units_value (ld_cost_units a)\<rparr>
        \<and> lot_ok lot' \<and> lots' = AList.update (lp_lot_id lot) lot' lots)"
  by (auto simp: dispose_allocation_def result_simps Let_def lot_ok_def split: option.splits if_splits)

lemma acquire_lot_Inr [result_simps]:
  "acquire_lot event payload lots = Inr lots' \<longleftrightarrow>
     (\<exists>lot. map_of lots (ia_lot_id payload) = None \<and> lot_ok lot
        \<and> lot = \<lparr>lp_lot_id = ia_lot_id payload,
              lp_instrument_asset_code = ia_instrument_asset_code payload,
              lp_settlement_asset_code = ia_settlement_asset_code payload,
              lp_effective_at = ie_effective_at event,
              lp_source_position = ie_source_position event,
              lp_remaining_quantity_units = units_value (ia_quantity_units payload),
              lp_remaining_cost_units = units_value (ia_cost_units payload)\<rparr>
        \<and> lots' = AList.update (ia_lot_id payload) lot lots)"
  by (auto simp: acquire_lot_def result_simps)

interpretation disposal: checked_loop "dispose_allocation payload" "\<lambda>_. True" lot_table_ok for payload
proof
  fix lots x lots'
  assume ok: "lot_table_ok lots" and s: "dispose_allocation payload lots x = Inr lots'"
  from s obtain lot lot' where l: "map_of lots (ld_lot_id x) = Some lot" "lot_ok lot'"
    "lp_lot_id lot' = lp_lot_id lot" "lots' = AList.update (lp_lot_id lot) lot' lots"
    by (auto simp: dispose_allocation_Inr)
  then show "lot_table_ok lots'" using ok by (simp add: lot_table_ok_update)
qed

interpretation reducer: checked_loop reduce_step "\<lambda>_. True" "\<lambda>(lots, previous). lot_table_ok lots \<and> 0 \<le> previous"
proof
  fix s e s'
  assume ok: "case s of (lots, previous) \<Rightarrow> lot_table_ok lots \<and> 0 \<le> previous"
    and st: "reduce_step s e = Inr s'"
  obtain lots prev where s: "s = (lots, prev)" by (cases s)
  have "lot_table_ok lots'" if "acquire_lot e payload lots = Inr lots'" for payload lots'
  proof -
    from that obtain lot where "lot_ok lot" "lp_lot_id lot = ia_lot_id payload"
      "lots' = AList.update (ia_lot_id payload) lot lots" by (auto simp: acquire_lot_Inr)
    with ok s show ?thesis by (simp add: lot_table_ok_update)
  qed
  then show "case s' of (lots, previous) \<Rightarrow> lot_table_ok lots \<and> 0 \<le> previous"
    using ok st disposal.loop_keeps [of lots]
    by (auto simp: s reduce_step_def result_simps split: investment_payload.splits)
qed

section \<open>Conservation of lots\<close>

text \<open>What an event adds to a lot: its acquisition, minus every allocation of it.\<close>

fun event_quantity :: "uuid \<Rightarrow> investment_payload \<Rightarrow> int" where
  "event_quantity k (Acquired p) = (if ia_lot_id p = k then units_value (ia_quantity_units p) else 0)"
| "event_quantity k (Disposed p) = - total_for ld_lot_id (units_value \<circ> ld_quantity_units) k (id_allocations p)"

fun event_cost :: "uuid \<Rightarrow> investment_payload \<Rightarrow> int" where
  "event_cost k (Acquired p) = (if ia_lot_id p = k then units_value (ia_cost_units p) else 0)"
| "event_cost k (Disposed p) = - total_for ld_lot_id (units_value \<circ> ld_cost_units) k (id_allocations p)"

definition net_quantity :: "uuid \<Rightarrow> investment_event list \<Rightarrow> int" where
  "net_quantity k events = sum_list (map (event_quantity k \<circ> ie_payload) events)"

definition net_cost :: "uuid \<Rightarrow> investment_event list \<Rightarrow> int" where
  "net_cost k events = sum_list (map (event_cost k \<circ> ie_payload) events)"

fun acquired_lot :: "investment_payload \<Rightarrow> uuid list" where
  "acquired_lot (Acquired p) = [ia_lot_id p]"
| "acquired_lot (Disposed p) = []"

definition held :: "(lot_position \<Rightarrow> int) \<Rightarrow> lot_table \<Rightarrow> uuid \<Rightarrow> int" where
  "held f lots k = (case map_of lots k of None \<Rightarrow> 0 | Some lot \<Rightarrow> f lot)"

abbreviation "held_quantity \<equiv> held lp_remaining_quantity_units"
abbreviation "held_cost \<equiv> held lp_remaining_cost_units"

lemma held_update: "held f (AList.update k lot lots) j = (if j = k then f lot else held f lots j)"
  by (simp add: held_def update_conv')

lemma dispose_allocation_held:
  assumes ok: "lot_table_ok lots" and d: "dispose_allocation payload lots a = Inr lots'"
  shows "held_quantity lots' k = held_quantity lots k
      - (if ld_lot_id a = k then units_value (ld_quantity_units a) else 0)"
    and "held_cost lots' k = held_cost lots k
      - (if ld_lot_id a = k then units_value (ld_cost_units a) else 0)"
    and "fst ` set lots' = fst ` set lots"
proof -
  from d obtain lot lot' where l: "map_of lots (ld_lot_id a) = Some lot"
    "lot' = lot\<lparr>lp_remaining_quantity_units := lp_remaining_quantity_units lot - units_value (ld_quantity_units a),
                 lp_remaining_cost_units := lp_remaining_cost_units lot - units_value (ld_cost_units a)\<rparr>"
    "lots' = AList.update (lp_lot_id lot) lot' lots"
    by (auto simp: dispose_allocation_Inr)
  have i: "lp_lot_id lot = ld_lot_id a" using lot_table_okD [OF ok l(1)] by simp
  show "held_quantity lots' k = held_quantity lots k
      - (if ld_lot_id a = k then units_value (ld_quantity_units a) else 0)"
    "held_cost lots' k = held_cost lots k
      - (if ld_lot_id a = k then units_value (ld_cost_units a) else 0)"
    using l(1) by (auto simp: l(2,3) i held_update) (simp_all add: held_def)
  have "ld_lot_id a \<in> fst ` set lots" using l(1) by (metis map_of_eq_None_iff option.distinct(1))
  then show "fst ` set lots' = fst ` set lots" by (simp add: l(3) i dom_update insert_absorb)
qed

lemma dispose_loop_held:
  "lot_table_ok lots \<Longrightarrow> foldE (dispose_allocation payload) lots as = Inr lots' \<Longrightarrow>
     held_quantity lots' k = held_quantity lots k - total_for ld_lot_id (units_value \<circ> ld_quantity_units) k as
     \<and> held_cost lots' k = held_cost lots k - total_for ld_lot_id (units_value \<circ> ld_cost_units) k as
     \<and> fst ` set lots' = fst ` set lots"
proof (induction as arbitrary: lots)
  case Nil
  then show ?case by simp
next
  case (Cons a as)
  from Cons.prems(2) obtain t where t: "dispose_allocation payload lots a = Inr t"
    and r: "foldE (dispose_allocation payload) t as = Inr lots'" by (auto simp: result_simps simp del: dispose_allocation_Inr)
  have "lot_table_ok t" using disposal.step_keeps [OF Cons.prems(1) _ t] by simp
  from Cons.IH [OF this r] dispose_allocation_held(1,2) [OF Cons.prems(1) t, of k]
    dispose_allocation_held(3) [OF Cons.prems(1) t] show ?case by auto
qed

lemma reduce_step_held:
  assumes ok: "lot_table_ok lots" and r: "reduce_step (lots, prev) e = Inr (lots', prev')"
  shows "held_quantity lots' k = held_quantity lots k + event_quantity k (ie_payload e)
     \<and> held_cost lots' k = held_cost lots k + event_cost k (ie_payload e)
     \<and> fst ` set lots' = fst ` set lots \<union> set (acquired_lot (ie_payload e))
     \<and> prev < ie_source_position e \<and> prev' = ie_source_position e"
proof (cases "ie_payload e")
  case (Acquired p)
  from r have a: "acquire_lot e p lots = Inr lots'" "prev < ie_source_position e" "prev' = ie_source_position e"
    by (auto simp: reduce_step_def Acquired result_simps simp del: acquire_lot_Inr split: if_splits)
  from a(1) have "map_of lots (ia_lot_id p) = None" by (auto simp: acquire_lot_Inr)
  then have "held f lots (ia_lot_id p) = 0" for f by (simp add: held_def)
  then show ?thesis using a by (auto simp: Acquired acquire_lot_Inr held_update dom_update)
next
  case (Disposed p)
  from r have "foldE (dispose_allocation p) lots (id_allocations p) = Inr lots'"
    "prev < ie_source_position e" "prev' = ie_source_position e"
    by (auto simp: reduce_step_def Disposed result_simps split: if_splits)
  with dispose_loop_held [OF ok this(1), of k] show ?thesis by (simp add: Disposed)
qed

lemma sorted_wrt_less_last: "sorted_wrt (<) xs \<Longrightarrow> x \<in> set xs \<Longrightarrow> x \<le> last (xs :: int list)"
  by (induction xs rule: rev_induct) (auto simp: sorted_wrt_append less_imp_le)

lemma reduce_loop_held:
  "foldE reduce_step ([], 0) events = Inr (lots, prev) \<Longrightarrow>
     lot_table_ok lots \<and> 0 \<le> prev
     \<and> held_quantity lots k = net_quantity k events \<and> held_cost lots k = net_cost k events
     \<and> fst ` set lots = set (concat (map (acquired_lot \<circ> ie_payload) events))
     \<and> sorted_wrt (<) (0 # map ie_source_position events)
     \<and> prev = last (0 # map ie_source_position events)"
proof (induction events arbitrary: lots prev rule: rev_induct)
  case Nil
  then show ?case by (simp add: held_def net_quantity_def net_cost_def)
next
  case (snoc e events)
  from snoc.prems obtain l p where f: "foldE reduce_step ([], 0) events = Inr (l, p)"
    and s: "reduce_step (l, p) e = Inr (lots, prev)" by (auto simp: foldE_snoc result_simps)
  note IH = snoc.IH [OF f] and H = reduce_step_held [OF _ s, of k]
  have ok: "lot_table_ok l" "0 \<le> p" using IH by simp_all
  have now: "lot_table_ok lots" "0 \<le> prev"
    using reducer.step_keeps [of "(l, p)" e "(lots, prev)"] ok s by simp_all
  have srt: "sorted_wrt (<) (0 # map ie_source_position events)" "p = last (0 # map ie_source_position events)"
    "p < ie_source_position e" using H [OF ok(1)] IH by (simp_all only:)
  have "x < ie_source_position e" if "x \<in> set (0 # map ie_source_position events)" for x
    using le_less_trans [OF sorted_wrt_less_last [OF srt(1) that]] srt(2,3) by simp
  then have "sorted_wrt (<) ((0 # map ie_source_position events) @ [ie_source_position e])"
    unfolding sorted_wrt_append using srt(1) by simp
  moreover have "held_quantity lots k = net_quantity k (events @ [e])" "held_cost lots k = net_cost k (events @ [e])"
    using IH H [OF ok(1)] by (simp_all add: net_quantity_def net_cost_def)
  moreover have "fst ` set lots = set (concat (map (acquired_lot \<circ> ie_payload) (events @ [e])))"
    "prev = last (0 # map ie_source_position (events @ [e]))"
    using IH H [OF ok(1)] by simp_all
  ultimately show ?case using now by simp
qed

lemma reduce_state:
  assumes "reduce_investment_events events = Inr st"
  obtains lots prev where "foldE reduce_step ([], 0) events = Inr (lots, prev)" "lot_table_ok lots"
    "ls_lots st = sort_key fifo_key (map snd lots)" "distinct (map lp_lot_id (ls_lots st))"
    "set (ls_lots st) = snd ` set lots"
proof -
  from assms obtain lots prev where f: "foldE reduce_step ([], 0) events = Inr (lots, prev)"
    and l: "LotState (sort_key fifo_key (map snd lots)) = Inr st"
    by (auto simp: reduce_investment_events_def result_simps simp del: LotState_Inr)
  from l have "ls_lots st = sort_key fifo_key (map snd lots)" "distinct (map lp_lot_id (ls_lots st))"
    by (auto simp: LotState_Inr)
  with that [OF f] reduce_loop_held [OF f] show thesis by simp
qed

lemma held_mem:
  assumes "lot_table_ok lots" "lot \<in> snd ` set lots"
  shows "held f lots (lp_lot_id lot) = f lot" "map_of lots (lp_lot_id lot) = Some lot" "lot_ok lot"
proof -
  from assms obtain k where k: "(k, lot) \<in> set lots" by auto
  with assms have "lp_lot_id lot = k" "lot_ok lot" "distinct (map fst lots)"
    unfolding lot_table_ok_def by auto
  with k show "map_of lots (lp_lot_id lot) = Some lot" "lot_ok lot" by simp_all
  then show "held f lots (lp_lot_id lot) = f lot" by (simp add: held_def)
qed

lemma lot_ids_of_table:
  assumes "lot_table_ok lots" shows "lp_lot_id ` snd ` set lots = fst ` set lots"
proof -
  have "lp_lot_id (snd x) = fst x" if "x \<in> set lots" for x
    using assms that unfolding lot_table_ok_def by (cases x) auto
  then show ?thesis by (simp add: image_image)
qed

section \<open>Selection\<close>

lemma take_lots_facts:
  "\<lbrakk>\<forall>lot\<in>set lots. 0 < lp_remaining_quantity_units lot; 0 \<le> n;
    n \<le> sum_list (map lp_remaining_quantity_units lots)\<rbrakk> \<Longrightarrow>
   sum_list (map snd (take_lots n lots)) = n
   \<and> map fst (take_lots n lots) = take (length (take_lots n lots)) lots
   \<and> (\<forall>(lot, q)\<in>set (take_lots n lots). 0 < q \<and> q \<le> lp_remaining_quantity_units lot)
   \<and> (\<forall>(lot, q)\<in>set (butlast (take_lots n lots)). q = lp_remaining_quantity_units lot)"
proof (induction lots arbitrary: n)
  case Nil
  then show ?case by simp
next
  case (Cons lot lots)
  let ?r = "lp_remaining_quantity_units lot"
  show ?case
  proof (cases "n \<le> ?r")
    case True
    then have "take_lots (n - min n ?r) lots = []" by (cases lots) simp_all
    with True Cons.prems show ?thesis by (cases "n = 0") (simp_all add: Let_def)
  next
    case False
    then have "0 \<le> n - ?r" "n - ?r \<le> sum_list (map lp_remaining_quantity_units lots)"
      using Cons.prems by simp_all
    with Cons.IH [of "n - ?r"] Cons.prems False show ?thesis by (auto simp: Let_def)
  qed
qed

lemma take_lots_all:
  "\<forall>lot\<in>set lots. 0 < lp_remaining_quantity_units lot \<Longrightarrow>
     take_lots (sum_list (map lp_remaining_quantity_units lots)) lots
       = map (\<lambda>lot. (lot, lp_remaining_quantity_units lot)) lots"
proof (induction lots)
  case Nil
  then show ?case by simp
next
  case (Cons lot lots)
  have "0 \<le> sum_list (map lp_remaining_quantity_units lots)"
    by (rule sum_list_nonneg) (use Cons.prems in \<open>auto intro: less_imp_le\<close>)
  with Cons show ?case by (simp add: Let_def)
qed

definition selection_ok :: "lot_state \<Rightarrow> string \<Rightarrow> string \<Rightarrow> int \<Rightarrow> (lot_position \<times> int) list \<Rightarrow> bool" where
  "selection_ok st instrument settlement n sel \<longleftrightarrow>
     distinct (map (lp_lot_id \<circ> fst) sel) \<and> sum_list (map snd sel) = n \<and> sel \<noteq> []
     \<and> (\<forall>x\<in>set sel. fst x \<in> set (ls_lots st) \<and> lp_instrument_asset_code (fst x) = instrument
          \<and> lp_settlement_asset_code (fst x) = settlement)"

lemma distinct_map_filter_sort:
  assumes "distinct (map f xs)" shows "distinct (map f (sort_key k (filter P xs)))"
proof -
  have "mset (map f (sort_key k (filter P xs))) = mset (map f (filter P xs))" by simp
  moreover have "distinct (map f (filter P xs))" using assms by (simp add: distinct_map_filter)
  ultimately show ?thesis by (metis mset_eq_imp_distinct_iff)
qed

lemma candidates_facts:
  "set (fifo_candidates st i s) = {lot \<in> set (ls_lots st). in_pool i s lot}"
  "\<forall>lot\<in>set (fifo_candidates st i s). 0 < lp_remaining_quantity_units lot"
  "sorted (map fifo_key (fifo_candidates st i s))"
  by (auto simp: fifo_candidates_def in_pool_def)

lemma select_fifo_facts:
  assumes "select_fifo st i s n = Inr sel" "0 < n"
  shows "sum_list (map snd sel) = n"
    "map fst sel = take (length sel) (fifo_candidates st i s)"
    "\<forall>(lot, q)\<in>set sel. 0 < q \<and> q \<le> lp_remaining_quantity_units lot"
    "\<forall>(lot, q)\<in>set (butlast sel). q = lp_remaining_quantity_units lot"
  using assms take_lots_facts [OF candidates_facts(2) [of st i s], of n]
  by (auto simp: select_fifo_def Let_def split: if_splits)

lemma select_fifo_ok:
  assumes d: "distinct (map lp_lot_id (ls_lots st))" and f: "select_fifo st i s n = Inr sel" and n: "0 < n"
  shows "selection_ok st i s n sel"
proof -
  note F = select_fifo_facts [OF f n]
  have "distinct (map lp_lot_id (fifo_candidates st i s))"
    unfolding fifo_candidates_def by (rule distinct_map_filter_sort [OF d])
  then have "distinct (map lp_lot_id (map fst sel))"
    unfolding F(2) take_map [symmetric] by (rule distinct_take)
  moreover have "fst x \<in> set (ls_lots st) \<and> lp_instrument_asset_code (fst x) = i
      \<and> lp_settlement_asset_code (fst x) = s" if "x \<in> set sel" for x
  proof -
    have "fst x \<in> set (map fst sel)" using that by simp
    then have "fst x \<in> set (fifo_candidates st i s)" unfolding F(2) by (rule in_set_takeD)
    then show ?thesis by (simp add: candidates_facts(1) in_pool_def)
  qed
  moreover have "sel \<noteq> []" using F(1) n by (cases sel) simp_all
  ultimately show ?thesis using F(1) unfolding selection_ok_def map_map by simp
qed

lemma map_of_by_id:
  assumes "distinct (map lp_lot_id lots)" "map_of (rev (map (\<lambda>lot. (lp_lot_id lot, lot)) lots)) k = Some lot"
  shows "lot \<in> set lots" "lp_lot_id lot = k"
  using map_of_SomeD [OF assms(2)] by auto

lemma pick_specific_Inr [result_simps]:
  "pick_specific by_id i s r = Inr x \<longleftrightarrow>
     (\<exists>lot. map_of by_id (sr_lot_id r) = Some lot \<and> lp_instrument_asset_code lot = i
        \<and> lp_settlement_asset_code lot = s \<and> sr_quantity_units r \<le> lp_remaining_quantity_units lot
        \<and> x = (lot, sr_quantity_units r))"
  by (auto simp: pick_specific_def result_simps split: option.splits)

lemma select_specific_ok:
  assumes d: "distinct (map lp_lot_id (ls_lots st))" and f: "select_specific st i s n reqs = Inr sel"
  shows "selection_ok st i s n sel"
proof -
  let ?by = "rev (map (\<lambda>lot. (lp_lot_id lot, lot)) (ls_lots st))"
  from f have r: "reqs \<noteq> []" "distinct (map sr_lot_id reqs)" "sum_list (map sr_quantity_units reqs) = n"
    and a: "list_all2 (\<lambda>x y. pick_specific ?by i s x = Inr y) reqs sel"
    by (auto simp: select_specific_def mapE_Inr_iff split: if_splits)
  have p: "lp_lot_id (fst y) = sr_lot_id x \<and> snd y = sr_quantity_units x \<and> fst y \<in> set (ls_lots st)
      \<and> lp_instrument_asset_code (fst y) = i \<and> lp_settlement_asset_code (fst y) = s"
    if "pick_specific ?by i s x = Inr y" for x y
  proof -
    from that obtain lot where l: "map_of ?by (sr_lot_id x) = Some lot" "lp_instrument_asset_code lot = i"
      "lp_settlement_asset_code lot = s" "y = (lot, sr_quantity_units x)"
      unfolding pick_specific_Inr by blast
    with map_of_by_id [OF d l(1)] show ?thesis by simp
  qed
  have m: "map (lp_lot_id \<circ> fst) sel = map sr_lot_id reqs \<and> map snd sel = map sr_quantity_units reqs
      \<and> (\<forall>y\<in>set sel. fst y \<in> set (ls_lots st) \<and> lp_instrument_asset_code (fst y) = i
      \<and> lp_settlement_asset_code (fst y) = s)"
    using a
  proof (induction rule: list_all2_induct)
    case Nil
    then show ?case by simp
  next
    case (Cons x xs y ys)
    from p [OF Cons.hyps(1)] Cons.IH show ?case by simp
  qed
  have "sel \<noteq> []" using r(1) a by auto
  with m r show ?thesis unfolding selection_ok_def by simp
qed

section \<open>Frozen allocations\<close>

lemma allocated_cost_Inr [result_simps]:
  "allocated_cost lot q = Inr c \<longleftrightarrow>
     0 < q \<and> q \<le> lp_remaining_quantity_units lot
     \<and> c = (if q = lp_remaining_quantity_units lot then lp_remaining_cost_units lot
            else lp_remaining_cost_units lot * q div lp_remaining_quantity_units lot)
     \<and> (q = lp_remaining_quantity_units lot \<or> c \<noteq> 0)"
  by (auto simp: allocated_cost_def result_simps Let_def split: if_splits)

text \<open>The pro-rata share, rounded down: never more than the exact share, less by under one unit.\<close>

lemma allocated_cost_bounds:
  assumes "lot_ok lot" "allocated_cost lot q = Inr c"
  shows "0 < c" "c \<le> lp_remaining_cost_units lot"
    "(lp_remaining_quantity_units lot - q = 0) = (lp_remaining_cost_units lot - c = 0)"
    "c * lp_remaining_quantity_units lot \<le> lp_remaining_cost_units lot * q"
    "lp_remaining_cost_units lot * q < (c + 1) * lp_remaining_quantity_units lot"
proof -
  let ?R = "lp_remaining_quantity_units lot" and ?C = "lp_remaining_cost_units lot"
  from assms have q: "0 < q" "q \<le> ?R" and c: "c = (if q = ?R then ?C else ?C * q div ?R)" "q = ?R \<or> c \<noteq> 0"
    and C: "0 < ?C" by (auto simp: allocated_cost_Inr lot_ok_def)
  have R: "0 < ?R" using q by simp
  show lower: "c * ?R \<le> ?C * q"
  proof (cases "q = ?R")
    case False
    then show ?thesis using c R by (metis div_mult_mod_eq le_add_same_cancel1 pos_mod_sign)
  qed (simp add: c(1))
  show upper: "?C * q < (c + 1) * ?R"
  proof (cases "q = ?R")
    case True
    then show ?thesis using c(1) R by simp
  next
    case False
    have "?C * q = c * ?R + ?C * q mod ?R" using c(1) False by (metis div_mult_mod_eq)
    also have "\<dots> < c * ?R + ?R" using R by simp
    finally show ?thesis by (simp add: distrib_right)
  qed
  show "c \<le> ?C"
  proof -
    have "?C * q \<le> ?C * ?R" using q C by (simp add: mult_left_mono)
    with lower have "c * ?R \<le> ?C * ?R" by simp
    then show ?thesis using R by simp
  qed
  show "0 < c"
  proof (cases "q = ?R")
    case False
    then have "0 \<le> c" using c(1) C q R by (simp add: pos_imp_zdiv_nonneg_iff)
    then show ?thesis using c(2) False by simp
  qed (use c(1) C in simp)
  show "(?R - q = 0) = (?C - c = 0)"
  proof (cases "q = ?R")
    case False
    then have "?C * q < ?C * ?R" using q C by (simp add: mult_strict_left_mono)
    with lower have "c * ?R < ?C * ?R" by simp
    then have "c < ?C" using R by simp
    then show ?thesis using False by simp
  qed (simp add: c(1))
qed

lemma units_value_int_str: "0 \<le> n \<Longrightarrow> units_value (int_str n) = n"
  by (simp add: int_str_def)

definition frozen :: "(uuid \<Rightarrow> string \<Rightarrow> uuid) \<Rightarrow> uuid \<Rightarrow> nat \<Rightarrow> lot_position \<Rightarrow> int \<Rightarrow> int \<Rightarrow> lot_disposal_allocation" where
  "frozen uuid5 command_id position lot q c =
     \<lparr>ld_allocation_id = uuid5 command_id (allocation_name position lot q c),
      ld_lot_id = lp_lot_id lot, ld_position = int position,
      ld_quantity_units = int_str q, ld_cost_units = int_str c\<rparr>"

lemma freeze_allocation_Inr [result_simps]:
  "freeze_allocation uuid5 cmd (n, lot, q) = Inr a \<longleftrightarrow>
     (\<exists>c. allocated_cost lot q = Inr c \<and> a = frozen uuid5 cmd n lot q c \<and> allocation_fields_ok a)"
  by (auto simp: freeze_allocation_def frozen_def LotDisposalAllocation_def result_simps
      simp del: allocated_cost_Inr)

lemma select_lot_allocations_D:
  assumes d: "distinct (map lp_lot_id (ls_lots st))"
    and s: "select_lot_allocations uuid5 st i s n method cmd reqs = Inr allocs"
  obtains sel where "selection_ok st i s n sel" "0 < n" "length allocs = length sel"
    "\<forall>j<length sel. \<exists>c. allocated_cost (fst (sel ! j)) (snd (sel ! j)) = Inr c
        \<and> allocs ! j = frozen uuid5 cmd j (fst (sel ! j)) (snd (sel ! j)) c \<and> allocation_fields_ok (allocs ! j)"
    "method = FIFO \<Longrightarrow> select_fifo st i s n = Inr sel"
    "method = FIFO \<Longrightarrow> reqs = []"
    "method = SPECIFIC_ID \<Longrightarrow> select_specific st i s n reqs = Inr sel"
proof -
  from s obtain sel where n: "0 < n"
    and r: "(if method = FIFO then if reqs \<noteq> [] then Inl LotAllocationError else select_fifo st i s n
            else select_specific st i s n reqs) = Inr sel"
    and m: "mapE (freeze_allocation uuid5 cmd) (enumerate 0 sel) = Inr allocs"
    unfolding select_lot_allocations_def rbind_eq_Inr require_int_Inr by blast
  have k: "selection_ok st i s n sel"
    using r select_fifo_ok [OF d _ n] select_specific_ok [OF d] by (cases "method") (auto split: if_splits)
  have l: "length allocs = length sel" using mapE_length [OF m] by simp
  have f: "freeze_allocation uuid5 cmd (j, fst (sel ! j), snd (sel ! j)) = Inr (allocs ! j)"
    if "j < length sel" for j
    using m that unfolding mapE_Inr_iff by (auto dest!: list_all2_nthD [where p = j] simp: nth_enumerate_eq)
  have "\<forall>j<length sel. \<exists>c. allocated_cost (fst (sel ! j)) (snd (sel ! j)) = Inr c
        \<and> allocs ! j = frozen uuid5 cmd j (fst (sel ! j)) (snd (sel ! j)) c \<and> allocation_fields_ok (allocs ! j)"
    using f unfolding freeze_allocation_Inr by metis
  with k n l show thesis using r by (intro that [of sel]) (auto split: if_splits)
qed

section \<open>Replaying a plan\<close>

definition covered :: "investment_lot_disposed \<Rightarrow> lot_table \<Rightarrow> lot_disposal_allocation \<Rightarrow> bool" where
  "covered payload lots a \<longleftrightarrow> (\<exists>lot. map_of lots (ld_lot_id a) = Some lot
     \<and> lp_instrument_asset_code lot = id_instrument_asset_code payload
     \<and> lp_settlement_asset_code lot = id_settlement_asset_code payload
     \<and> units_value (ld_quantity_units a) \<le> lp_remaining_quantity_units lot
     \<and> units_value (ld_cost_units a) \<le> lp_remaining_cost_units lot
     \<and> (lp_remaining_quantity_units lot - units_value (ld_quantity_units a) = 0)
       = (lp_remaining_cost_units lot - units_value (ld_cost_units a) = 0))"

lemma covered_step:
  assumes "lot_table_ok lots" "covered payload lots a"
  obtains lots' where "dispose_allocation payload lots a = Inr lots'" "lot_table_ok lots'"
    "\<And>k. k \<noteq> ld_lot_id a \<Longrightarrow> map_of lots' k = map_of lots k"
proof -
  from assms(2) obtain lot where l: "map_of lots (ld_lot_id a) = Some lot"
    "lp_instrument_asset_code lot = id_instrument_asset_code payload"
    "lp_settlement_asset_code lot = id_settlement_asset_code payload"
    "units_value (ld_quantity_units a) \<le> lp_remaining_quantity_units lot"
    "units_value (ld_cost_units a) \<le> lp_remaining_cost_units lot"
    "(lp_remaining_quantity_units lot - units_value (ld_quantity_units a) = 0)
       = (lp_remaining_cost_units lot - units_value (ld_cost_units a) = 0)"
    unfolding covered_def by blast
  let ?lot' = "lot\<lparr>lp_remaining_quantity_units := lp_remaining_quantity_units lot - units_value (ld_quantity_units a),
                     lp_remaining_cost_units := lp_remaining_cost_units lot - units_value (ld_cost_units a)\<rparr>"
  from lot_table_okD [OF assms(1) l(1)] have i: "lp_lot_id lot = ld_lot_id a" "lot_ok lot" by simp_all
  have "lot_ok ?lot'" using i(2) l(4-6) by (simp add: lot_ok_def)
  then have d: "dispose_allocation payload lots a = Inr (AList.update (lp_lot_id lot) ?lot' lots)"
    unfolding dispose_allocation_Inr using l by blast
  show thesis
    by (rule that [OF d]) (use disposal.step_keeps [OF assms(1) _ d] in \<open>simp_all add: i(1) update_conv'\<close>)
qed

lemma covered_loop:
  "\<lbrakk>lot_table_ok lots; distinct (map ld_lot_id as); \<forall>a\<in>set as. covered payload lots a\<rbrakk> \<Longrightarrow>
     \<exists>lots'. foldE (dispose_allocation payload) lots as = Inr lots'"
proof (induction as arbitrary: lots)
  case Nil
  then show ?case by simp
next
  case (Cons a as)
  from Cons.prems have "covered payload lots a" by simp
  from covered_step [OF Cons.prems(1) this]
  obtain t where t: "dispose_allocation payload lots a = Inr t" "lot_table_ok t"
    "\<And>k. k \<noteq> ld_lot_id a \<Longrightarrow> map_of t k = map_of lots k" by metis
  have "covered payload t b" if "b \<in> set as" for b
  proof -
    have "ld_lot_id a \<notin> ld_lot_id ` set as" using Cons.prems(2) by simp
    then have "ld_lot_id b \<noteq> ld_lot_id a" using that by (metis imageI)
    from t(3) [OF this] Cons.prems(3) that show ?thesis by (simp add: covered_def)
  qed
  with Cons.IH [OF t(2)] Cons.prems(2) obtain u where "foldE (dispose_allocation payload) t as = Inr u" by auto
  then show ?case using t(1) by simp
qed

lemma frozen_covered:
  assumes tab: "lot_table_ok lots" "lot \<in> snd ` set lots"
    and c: "allocated_cost lot q = Inr c"
    and pool: "lp_instrument_asset_code lot = id_instrument_asset_code payload"
      "lp_settlement_asset_code lot = id_settlement_asset_code payload"
  shows "covered payload lots (frozen uuid5 cmd j lot q c)"
proof -
  note H = held_mem [OF tab]
  note B = allocated_cost_bounds [OF H(3) c]
  have q: "0 < q" "q \<le> lp_remaining_quantity_units lot" using c by (simp_all add: allocated_cost_Inr)
  have u: "units_value (int_str q) = q" "units_value (int_str c) = c"
    using q(1) B(1) by (simp_all add: units_value_int_str)
  show ?thesis unfolding covered_def
    by (rule exI [of _ lot]) (use B(3) in \<open>simp add: frozen_def H(2) u q B(2) pool\<close>)
qed

definition plan_event :: "int \<Rightarrow> instant \<Rightarrow> investment_lot_disposed \<Rightarrow> investment_event" where
  "plan_event position at payload =
     \<lparr>ie_source_position = position, ie_effective_at = at, ie_payload = Disposed payload\<rparr>"

lemma reduce_snoc:
  "reduce_investment_events (events @ [e]) =
     rbind (foldE reduce_step ([], 0) events) (\<lambda>s. rbind (reduce_step s e)
       (\<lambda>(lots, _). LotState (sort_key fifo_key (map snd lots))))"
  by (simp add: reduce_investment_events_def foldE_snoc rbind_assoc)

lemma sort_state_ok:
  assumes "lot_table_ok lots"
  shows "LotState (sort_key fifo_key (map snd lots)) = Inr \<lparr>ls_lots = sort_key fifo_key (map snd lots)\<rparr>"
proof -
  have "map (lp_lot_id \<circ> snd) lots = map fst lots"
    using assms unfolding lot_table_ok_def by (intro map_cong) auto
  moreover have "distinct (map fst lots)" using assms unfolding lot_table_ok_def by (rule conjunct1)
  ultimately have "distinct (map lp_lot_id (map snd lots))" by (simp only: map_map)
  moreover have "mset (map lp_lot_id (sort_key fifo_key (map snd lots))) = mset (map lp_lot_id (map snd lots))"
    by (simp add: multiset.map_comp)
  ultimately have "distinct (map lp_lot_id (sort_key fifo_key (map snd lots)))"
    by (metis mset_eq_imp_distinct_iff)
  then show ?thesis by (simp add: LotState_Inr)
qed

section \<open>Properties\<close>

text \<open>
  Property C13: the reducer conserves every lot. When a Book's events replay, the lots are exactly
  the acquired ones, each once, oldest first; what remains of each is what was acquired minus
  what every disposal took of it, in quantity and in cost; nothing is ever negative and a lot's
  quantity and cost run out together.
\<close>

theorem lots_conserved:
  assumes "reduce_investment_events events = Inr st"
  shows "sorted (map fifo_key (ls_lots st))
    \<and> distinct (map lp_lot_id (ls_lots st))
    \<and> lp_lot_id ` set (ls_lots st) = set (concat (map (acquired_lot \<circ> ie_payload) events))
    \<and> (\<forall>lot\<in>set (ls_lots st). lot_ok lot
         \<and> lp_remaining_quantity_units lot = net_quantity (lp_lot_id lot) events
         \<and> lp_remaining_cost_units lot = net_cost (lp_lot_id lot) events)"
proof -
  from assms obtain lots prev where f: "foldE reduce_step ([], 0) events = Inr (lots, prev)"
    and t: "lot_table_ok lots" and s: "ls_lots st = sort_key fifo_key (map snd lots)"
    "distinct (map lp_lot_id (ls_lots st))" "set (ls_lots st) = snd ` set lots" by (rule reduce_state)
  note R = reduce_loop_held [OF f]
  have "lp_lot_id ` set (ls_lots st) = set (concat (map (acquired_lot \<circ> ie_payload) events))"
    unfolding s(3) using lot_ids_of_table [OF t] R by simp
  moreover have "lot_ok lot
         \<and> lp_remaining_quantity_units lot = net_quantity (lp_lot_id lot) events
         \<and> lp_remaining_cost_units lot = net_cost (lp_lot_id lot) events" if "lot \<in> set (ls_lots st)" for lot
    using held_mem [OF t] that R [of "lp_lot_id lot"] unfolding s(3) by metis
  ultimately show ?thesis using s(1,2) by simp
qed

text \<open>
  Property C19: the planner's disposals always replay. A plan made from the state of a Book's
  events, appended to them at a later position, is accepted by the reducer; its allocations are
  numbered from zero, name different lots of the requested pool and add up to the quantity asked.
\<close>

theorem plan_replays:
  assumes "reduce_investment_events events = Inr st"
    and "select_lot_allocations uuid5 st (id_instrument_asset_code payload) (id_settlement_asset_code payload)
           n method cmd reqs = Inr (id_allocations payload)"
    and "\<forall>e\<in>set events. ie_source_position e < position" "0 < position"
  shows "(\<exists>st'. reduce_investment_events (events @ [plan_event position at payload]) = Inr st')
    \<and> map ld_position (id_allocations payload) = map int [0..<length (id_allocations payload)]
    \<and> distinct (map ld_lot_id (id_allocations payload))
    \<and> sum_list (map (units_value \<circ> ld_quantity_units) (id_allocations payload)) = n"
proof -
  from assms(1) obtain lots prev where f: "foldE reduce_step ([], 0) events = Inr (lots, prev)"
    and t: "lot_table_ok lots" and s: "distinct (map lp_lot_id (ls_lots st))" "set (ls_lots st) = snd ` set lots"
    by (rule reduce_state)
  let ?as = "id_allocations payload"
  from s(1) assms(2) obtain sel where sel: "selection_ok st (id_instrument_asset_code payload)
      (id_settlement_asset_code payload) n sel" "0 < n" "length ?as = length sel"
    and fr: "\<forall>j<length sel. \<exists>c. allocated_cost (fst (sel ! j)) (snd (sel ! j)) = Inr c
        \<and> ?as ! j = frozen uuid5 cmd j (fst (sel ! j)) (snd (sel ! j)) c \<and> allocation_fields_ok (?as ! j)"
    by (rule select_lot_allocations_D)
  have nth: "ld_position (?as ! j) = int j \<and> ld_lot_id (?as ! j) = lp_lot_id (fst (sel ! j))
      \<and> units_value (ld_quantity_units (?as ! j)) = snd (sel ! j) \<and> covered payload lots (?as ! j)"
    if j: "j < length sel" for j
  proof -
    from fr j obtain c where c: "allocated_cost (fst (sel ! j)) (snd (sel ! j)) = Inr c"
      "?as ! j = frozen uuid5 cmd j (fst (sel ! j)) (snd (sel ! j)) c" by blast
    have m: "sel ! j \<in> set sel" using j by simp
    with sel(1) s(2) have "fst (sel ! j) \<in> snd ` set lots"
      "lp_instrument_asset_code (fst (sel ! j)) = id_instrument_asset_code payload"
      "lp_settlement_asset_code (fst (sel ! j)) = id_settlement_asset_code payload"
      unfolding selection_ok_def by simp_all
    from frozen_covered [OF t this(1) c(1) this(2,3)] have "covered payload lots (?as ! j)"
      unfolding c(2) .
    moreover have "0 < snd (sel ! j)" using c(1) by (simp add: allocated_cost_Inr)
    ultimately show ?thesis by (simp add: c(2) frozen_def units_value_int_str)
  qed
  have maps: "map ld_position ?as = map int [0..<length ?as]"
    "map ld_lot_id ?as = map (lp_lot_id \<circ> fst) sel"
    "map (units_value \<circ> ld_quantity_units) ?as = map snd sel"
    using nth sel(3) by (auto intro!: nth_equalityI)
  have dist: "distinct (map ld_lot_id ?as)" unfolding maps(2) using sel(1) by (simp add: selection_ok_def)
  have sum: "sum_list (map (units_value \<circ> ld_quantity_units) ?as) = n"
    unfolding maps(3) using sel(1) by (simp add: selection_ok_def)
  have "\<forall>a\<in>set ?as. covered payload lots a" using nth sel(3) by (metis in_set_conv_nth)
  from covered_loop [OF t dist this] obtain lots'
    where l: "foldE (dispose_allocation payload) lots ?as = Inr lots'" by blast
  have "prev < position"
    using reduce_loop_held [OF f] assms(3,4) by (cases events rule: rev_cases) auto
  then have "reduce_step (lots, prev) (plan_event position at payload) = Inr (lots', position)"
    by (simp add: reduce_step_def plan_event_def l)
  moreover have "lot_table_ok lots'" using disposal.loop_keeps [OF t _ l] by simp
  ultimately have "\<exists>st'. reduce_investment_events (events @ [plan_event position at payload]) = Inr st'"
    by (simp add: reduce_snoc f sort_state_ok)
  with maps(1) dist sum show ?thesis by blast
qed

text \<open>
  Property C25: FIFO takes the oldest lots first. Every lot of the pool older than a lot the plan
  touches is consumed whole, no lot gives more than it holds, and together they give exactly the
  quantity asked; the plan is refused, as an over-disposal, only when the pool holds less.
\<close>

theorem fifo_oldest_first:
  assumes "distinct (map lp_lot_id (ls_lots st))" and "0 < n"
  shows "case select_fifo st instrument settlement n of
      Inl e \<Rightarrow> e = OverDisposal
        \<and> sum_list (map lp_remaining_quantity_units (filter (in_pool instrument settlement) (ls_lots st))) < n
    | Inr sel \<Rightarrow> sum_list (map snd sel) = n
        \<and> (\<forall>x\<in>set sel. 0 < snd x \<and> snd x \<le> lp_remaining_quantity_units (fst x))
        \<and> (\<forall>x\<in>set sel. \<forall>older\<in>set (ls_lots st). in_pool instrument settlement older
             \<and> fifo_key older < fifo_key (fst x) \<longrightarrow> (older, lp_remaining_quantity_units older) \<in> set sel)"
proof (cases "select_fifo st instrument settlement n")
  case (Inl e)
  have "sum_mset (mset (map lp_remaining_quantity_units (fifo_candidates st instrument settlement)))
      = sum_mset (mset (map lp_remaining_quantity_units (filter (in_pool instrument settlement) (ls_lots st))))"
    by (simp add: fifo_candidates_def)
  then show ?thesis using Inl
    by (auto simp: select_fifo_def Let_def sum_mset_sum_list simp del: mset_map split: if_splits)
next
  case (Inr sel)
  let ?c = "fifo_candidates st instrument settlement"
  note F = select_fifo_facts [OF Inr assms(2)]
  have whole: "(older, lp_remaining_quantity_units older) \<in> set sel"
    if x: "x \<in> set sel" and o: "older \<in> set (ls_lots st)" "in_pool instrument settlement older"
      "fifo_key older < fifo_key (fst x)" for x older
  proof -
    from x obtain j where j: "j < length sel" "x = sel ! j" by (auto simp: in_set_conv_nth)
    have len: "length sel \<le> length ?c" using arg_cong [OF F(2), of length] by simp
    have fj: "fst (sel ! m) = ?c ! m" if "m < length sel" for m
      using arg_cong [OF F(2), of "\<lambda>l. l ! m"] that by simp
    have "older \<in> set ?c" using o(1,2) by (simp add: candidates_facts(1))
    then obtain m where m: "m < length ?c" "older = ?c ! m" by (auto simp: in_set_conv_nth)
    have "m < j"
    proof (rule ccontr)
      assume "\<not> m < j"
      then have "fifo_key (?c ! j) \<le> fifo_key (?c ! m)"
        using candidates_facts(3) [of st instrument settlement] m(1)
        by (simp add: sorted_map sorted_wrt_iff_nth_less) (metis le_neq_implies_less order_refl not_less)
      with o(3) m(2) j fj show False by simp
    qed
    with j(1) have mb: "m < length (butlast sel)" by simp
    then have "sel ! m \<in> set (butlast sel)" by (metis nth_butlast nth_mem)
    with F(4) have "snd (sel ! m) = lp_remaining_quantity_units (fst (sel ! m))" by (auto split: prod.splits)
    moreover have "fst (sel ! m) = older" "sel ! m \<in> set sel" using fj [of m] m(2) mb j(1) by simp_all
    ultimately show ?thesis by (metis prod.collapse)
  qed
  from F(1,3) whole show ?thesis by (simp add: Inr split_beta)
qed

text \<open>
  Property C26: the cost of an allocation is fair. It is the pro-rata share of the lot's remaining
  cost rounded down to a whole unit, positive, at most what remains, and all that remains when
  the allocation empties the lot.
\<close>

theorem plan_costs_fair:
  assumes "reduce_investment_events events = Inr st"
    and "select_lot_allocations uuid5 st instrument settlement n method cmd reqs = Inr allocs"
    and "a \<in> set allocs"
  shows "\<exists>lot\<in>set (ls_lots st). lp_lot_id lot = ld_lot_id a
    \<and> (let q = units_value (ld_quantity_units a); c = units_value (ld_cost_units a);
           R = lp_remaining_quantity_units lot; C = lp_remaining_cost_units lot
       in 0 < q \<and> q \<le> R \<and> 0 < c \<and> c \<le> C \<and> c * R \<le> C * q \<and> C * q < (c + 1) * R \<and> (q = R \<longleftrightarrow> c = C))"
proof -
  from assms(1) obtain lots prev where t: "lot_table_ok lots"
    and s: "distinct (map lp_lot_id (ls_lots st))" "set (ls_lots st) = snd ` set lots" by (rule reduce_state)
  from s(1) assms(2) obtain sel where sel: "selection_ok st instrument settlement n sel"
      "length allocs = length sel"
    and fr: "\<forall>j<length sel. \<exists>c. allocated_cost (fst (sel ! j)) (snd (sel ! j)) = Inr c
        \<and> allocs ! j = frozen uuid5 cmd j (fst (sel ! j)) (snd (sel ! j)) c \<and> allocation_fields_ok (allocs ! j)"
    by (rule select_lot_allocations_D)
  from assms(3) sel(2) obtain j where j: "j < length sel" "a = allocs ! j" by (auto simp: in_set_conv_nth)
  from fr j obtain c where c: "allocated_cost (fst (sel ! j)) (snd (sel ! j)) = Inr c"
    "a = frozen uuid5 cmd j (fst (sel ! j)) (snd (sel ! j)) c" by blast
  have mem: "fst (sel ! j) \<in> set (ls_lots st)" using sel(1) j(1) unfolding selection_ok_def by simp
  have ok: "lot_ok (fst (sel ! j))" using held_mem(3) [OF t] mem s(2) by simp
  note B = allocated_cost_bounds [OF ok c(1)]
  have q: "0 < snd (sel ! j)" "snd (sel ! j) \<le> lp_remaining_quantity_units (fst (sel ! j))"
    using c(1) by (simp_all add: allocated_cost_Inr)
  show ?thesis
    by (rule bexI [OF _ mem]) (use B q in \<open>auto simp: c(2) frozen_def units_value_int_str Let_def\<close>)
qed

lemma sum_list_map_pos:
  "xs \<noteq> [] \<Longrightarrow> \<forall>x\<in>set xs. 0 < f x \<Longrightarrow> 0 < sum_list (map f xs)" for f :: "'a \<Rightarrow> int"
proof (induction xs)
  case (Cons x xs)
  then show ?case by (cases xs) simp_all
qed simp

lemma allocation_name_inj:
  assumes "allocation_name m lot q c = allocation_name n lot' q' c'" shows "m = n"
proof -
  have h: "takeWhile is_digit (allocation_name m lot q c) = nat_str m" for m lot q c
  proof -
    have "\<forall>x\<in>set (nat_str m). is_digit x" using nat_str_digits [of m] by (simp add: list_all_iff)
    moreover have "\<not> is_digit CHR '':''" by (simp add: is_digit_def)
    ultimately show ?thesis by (simp add: allocation_name_def takeWhile_append2)
  qed
  have "nat_str m = nat_str n" using h [of m lot q c] h [of n lot' q' c'] assms by simp
  then have "units_value (nat_str m) = units_value (nat_str n)" by simp
  then show ?thesis by simp
qed

text \<open>
  A plan is a valid event. The identifiers of a plan's allocations are \<open>uuid5\<close> of
  pairwise different names, and the disposal built from the plan, with the quantity asked and the
  sum of the allocated costs written as canonical units, satisfies the event contract exactly when
  these identifiers are different too.
\<close>

theorem plan_satisfies_contract:
  assumes "reduce_investment_events events = Inr st"
    and "select_lot_allocations uuid5 st (id_instrument_asset_code payload) (id_settlement_asset_code payload)
           n method cmd reqs = Inr (id_allocations payload)"
    and "AssetCode (id_instrument_asset_code payload)" "AssetCode (id_settlement_asset_code payload)"
    and "CanonicalUnits (id_proceeds_units payload)" "optional_units_ok (id_fee_units payload)"
    and "id_quantity_units payload = int_str n" "n < MAX_UNITS_EXCLUSIVE"
    and "id_cost_basis_units payload = int_str (sum_list (map (units_value \<circ> ld_cost_units) (id_allocations payload)))"
    and "sum_list (map (units_value \<circ> ld_cost_units) (id_allocations payload)) < MAX_UNITS_EXCLUSIVE"
  shows "(\<exists>names. distinct names \<and> map ld_allocation_id (id_allocations payload) = map (uuid5 cmd) names)
    \<and> (validate_lot_disposed payload = Inr () \<longleftrightarrow> distinct (map ld_allocation_id (id_allocations payload)))"
proof -
  let ?as = "id_allocations payload"
  let ?C = "sum_list (map (units_value \<circ> ld_cost_units) ?as)"
  from assms(1) have d: "distinct (map lp_lot_id (ls_lots st))" using reduce_state by metis
  from d assms(2) obtain sel where sel: "selection_ok st (id_instrument_asset_code payload)
      (id_settlement_asset_code payload) n sel" "0 < n" "length ?as = length sel"
    and fr: "\<forall>j<length sel. \<exists>c. allocated_cost (fst (sel ! j)) (snd (sel ! j)) = Inr c
        \<and> ?as ! j = frozen uuid5 cmd j (fst (sel ! j)) (snd (sel ! j)) c \<and> allocation_fields_ok (?as ! j)"
    by (rule select_lot_allocations_D)
  have ne: "?as \<noteq> []" using sel(1,3) by (auto simp: selection_ok_def)
  have ok: "\<forall>a\<in>set ?as. allocation_fields_ok a" using fr sel(3) by (metis in_set_conv_nth)
  have nth: "ld_position (?as ! j) = int j \<and> ld_lot_id (?as ! j) = lp_lot_id (fst (sel ! j))
      \<and> units_value (ld_quantity_units (?as ! j)) = snd (sel ! j)" if j: "j < length sel" for j
  proof -
    from fr j obtain c where c: "allocated_cost (fst (sel ! j)) (snd (sel ! j)) = Inr c"
      "?as ! j = frozen uuid5 cmd j (fst (sel ! j)) (snd (sel ! j)) c" by blast
    have "0 < snd (sel ! j)" using c(1) by (simp add: allocated_cost_Inr)
    then show ?thesis by (simp add: c(2) frozen_def units_value_int_str)
  qed
  have maps: "map ld_position ?as = map int [0..<length ?as]"
    "map ld_lot_id ?as = map (lp_lot_id \<circ> fst) sel"
    "map (units_value \<circ> ld_quantity_units) ?as = map snd sel"
    using nth sel(3) by (auto intro!: nth_equalityI)
  have "\<forall>j<length sel. \<exists>x. (\<exists>lot q c. x = allocation_name j lot q c) \<and> ld_allocation_id (?as ! j) = uuid5 cmd x"
  proof (intro allI impI)
    fix j assume "j < length sel"
    with fr obtain c where "?as ! j = frozen uuid5 cmd j (fst (sel ! j)) (snd (sel ! j)) c" by blast
    then have "ld_allocation_id (?as ! j) = uuid5 cmd (allocation_name j (fst (sel ! j)) (snd (sel ! j)) c)"
      by (simp add: frozen_def)
    then show "\<exists>x. (\<exists>lot q c. x = allocation_name j lot q c) \<and> ld_allocation_id (?as ! j) = uuid5 cmd x" by blast
  qed
  then obtain name where name: "\<And>j. j < length sel \<Longrightarrow> (\<exists>lot q c. name j = allocation_name j lot q c)"
    "\<And>j. j < length sel \<Longrightarrow> ld_allocation_id (?as ! j) = uuid5 cmd (name j)" by metis
  have names: "\<exists>names. distinct names \<and> map ld_allocation_id ?as = map (uuid5 cmd) names"
  proof (intro exI conjI)
    show "distinct (map name [0..<length sel])"
    proof (unfold distinct_map, intro conjI inj_onI)
      fix j k assume "j \<in> set [0..<length sel]" "k \<in> set [0..<length sel]" and eq: "name j = name k"
      then have "j < length sel" "k < length sel" by simp_all
      from name(1) [OF this(1)] name(1) [OF this(2)] eq show "j = k" by (metis allocation_name_inj)
    qed simp
    show "map ld_allocation_id ?as = map (uuid5 cmd) (map name [0..<length sel])"
      using name(2) sel(3) by (auto intro!: nth_equalityI)
  qed
  have pos: "0 < ?C"
  proof -
    have "\<forall>x\<in>set ?as. 0 < units_value (ld_cost_units x)"
      using ok CanonicalUnits_value by (auto simp: allocation_fields_ok_def)
    with ne show ?thesis by (simp add: sum_list_map_pos)
  qed
  have units: "CanonicalUnits (int_str x)" if "0 < x" "x < MAX_UNITS_EXCLUSIVE" for x
  proof -
    have "nat x < 10 ^ 38" using that by (simp add: MAX_UNITS_EXCLUSIVE_def MAX_UNIT_DIGITS_def nat_less_iff)
    then show ?thesis using that by (simp add: int_str_def CanonicalUnits_nat_str)
  qed
  have "distinct (map ld_lot_id ?as)" unfolding maps(2) using sel(1) by (simp add: selection_ok_def)
  moreover have "sum_list (map (units_value \<circ> ld_quantity_units) ?as) = units_value (id_quantity_units payload)"
    unfolding maps(3) assms(7) using sel(1,2) by (simp add: selection_ok_def units_value_int_str)
  moreover have "?C = units_value (id_cost_basis_units payload)"
    unfolding assms(9) using pos by (simp add: units_value_int_str)
  moreover have "CanonicalUnits (id_quantity_units payload)" "CanonicalUnits (id_cost_basis_units payload)"
    unfolding assms(7,9) using units sel(2) assms(8,10) pos by blast+
  ultimately have "validate_lot_disposed payload = Inr () \<longleftrightarrow> distinct (map ld_allocation_id ?as)"
    unfolding validate_lot_disposed_Inr_iff list_all_iff using assms(3-6) ne ok maps(1) by simp
  with names show ?thesis by blast
qed

text \<open>
  A full liquidation leaves no residue. Under FIFO, disposing of everything a pool
  holds allocates every open lot whole: the plan carries exactly the pool's remaining cost.
\<close>

theorem full_liquidation_exact:
  assumes "reduce_investment_events events = Inr st"
    and "select_lot_allocations uuid5 st instrument settlement n FIFO cmd reqs = Inr allocs"
    and "n = sum_list (map lp_remaining_quantity_units (filter (in_pool instrument settlement) (ls_lots st)))"
  shows "map ld_lot_id allocs = map lp_lot_id (filter (in_pool instrument settlement) (ls_lots st))
    \<and> map (units_value \<circ> ld_cost_units) allocs
      = map lp_remaining_cost_units (filter (in_pool instrument settlement) (ls_lots st))"
proof -
  from assms(1) obtain lots prev where t: "lot_table_ok lots"
    and s: "ls_lots st = sort_key fifo_key (map snd lots)" "distinct (map lp_lot_id (ls_lots st))"
    "set (ls_lots st) = snd ` set lots" by (rule reduce_state)
  let ?f = "filter (in_pool instrument settlement) (ls_lots st)"
  have c: "fifo_candidates st instrument settlement = ?f"
    unfolding fifo_candidates_def s(1)
    by (rule sort_key_id_if_sorted) (rule sorted_filter, simp)
  from s(2) assms(2) obtain sel where sel: "selection_ok st instrument settlement n sel" "length allocs = length sel"
    and fr: "\<forall>j<length sel. \<exists>c. allocated_cost (fst (sel ! j)) (snd (sel ! j)) = Inr c
        \<and> allocs ! j = frozen uuid5 cmd j (fst (sel ! j)) (snd (sel ! j)) c \<and> allocation_fields_ok (allocs ! j)"
    and fifo: "select_fifo st instrument settlement n = Inr sel"
    by (metis select_lot_allocations_D)
  have "sel = map (\<lambda>lot. (lot, lp_remaining_quantity_units lot)) ?f"
    using fifo take_lots_all [OF candidates_facts(2) [of st instrument settlement]]
    by (simp add: select_fifo_def Let_def c assms(3))
  then have sj: "length sel = length ?f" "\<And>j. j < length sel \<Longrightarrow> sel ! j = (?f ! j, lp_remaining_quantity_units (?f ! j))"
    by simp_all
  have nth: "ld_lot_id (allocs ! j) = lp_lot_id (?f ! j)
      \<and> units_value (ld_cost_units (allocs ! j)) = lp_remaining_cost_units (?f ! j)" if j: "j < length sel" for j
  proof -
    from fr j obtain c where c: "allocated_cost (fst (sel ! j)) (snd (sel ! j)) = Inr c"
      "allocs ! j = frozen uuid5 cmd j (fst (sel ! j)) (snd (sel ! j)) c" by blast
    then have "c = lp_remaining_cost_units (?f ! j)" by (simp add: sj(2) [OF j] allocated_cost_Inr)
    moreover have "?f ! j \<in> set ?f" using j sj(1) nth_mem by metis
    then have "lot_ok (?f ! j)" using held_mem(3) [OF t] s(3) by (metis filter_is_subset subsetD)
    ultimately show ?thesis by (simp add: c(2) frozen_def sj(2) [OF j] units_value_int_str lot_ok_def)
  qed
  show ?thesis using nth sel(2) sj(1) by (auto intro!: nth_equalityI)
qed


section \<open>A worked Book\<close>

abbreviation demo_acquired :: "uuid \<Rightarrow> string \<Rightarrow> string \<Rightarrow> investment_lot_acquired" where
  "demo_acquired lot quantity cost \<equiv>
     \<lparr>ia_transaction_id = 50, ia_lot_id = lot, ia_instrument_asset_code = ''BTC'',
      ia_settlement_asset_code = ''USDT'', ia_quantity_units = quantity, ia_cost_units = cost,
      ia_fee_units = None\<rparr>"

abbreviation demo_events :: "investment_event list" where
  "demo_events \<equiv>
     [\<lparr>ie_source_position = 1, ie_effective_at = 20, ie_payload = Acquired (demo_acquired 1 ''3'' ''10'')\<rparr>,
      \<lparr>ie_source_position = 2, ie_effective_at = 10, ie_payload = Acquired (demo_acquired 2 ''5'' ''9'')\<rparr>]"

abbreviation demo_lot :: "uuid \<Rightarrow> instant \<Rightarrow> int \<Rightarrow> int \<Rightarrow> int \<Rightarrow> lot_position" where
  "demo_lot i at position quantity cost \<equiv>
     \<lparr>lp_lot_id = i, lp_instrument_asset_code = ''BTC'', lp_settlement_asset_code = ''USDT'',
      lp_effective_at = at, lp_source_position = position,
      lp_remaining_quantity_units = quantity, lp_remaining_cost_units = cost\<rparr>"

abbreviation demo_state :: lot_state where
  "demo_state \<equiv> \<lparr>ls_lots = [demo_lot 2 10 2 5 9, demo_lot 1 20 1 3 10]\<rparr>"

abbreviation demo_uuid5 :: "uuid \<Rightarrow> string \<Rightarrow> uuid" where
  "demo_uuid5 namespace name \<equiv> namespace + of_nat (digit_val (hd name))"

abbreviation demo_allocation :: "uuid \<Rightarrow> int \<Rightarrow> uuid \<Rightarrow> string \<Rightarrow> string \<Rightarrow> lot_disposal_allocation" where
  "demo_allocation i position lot quantity cost \<equiv>
     \<lparr>ld_allocation_id = i, ld_lot_id = lot, ld_position = position, ld_quantity_units = quantity,
      ld_cost_units = cost\<rparr>"

abbreviation demo_disposed :: investment_lot_disposed where
  "demo_disposed \<equiv>
     \<lparr>id_transaction_id = 60, id_instrument_asset_code = ''BTC'', id_settlement_asset_code = ''USDT'',
      id_quantity_units = ''7'', id_proceeds_units = ''40'', id_cost_basis_units = ''15'',
      id_fee_units = None,
      id_allocations = [demo_allocation 100 0 2 ''5'' ''9'', demo_allocation 101 1 1 ''2'' ''6'']\<rparr>"

lemma demo_reduced: "reduce_investment_events demo_events = Inr demo_state"
  by (simp add: reduce_investment_events_def reduce_step_def acquire_lot_def LotPosition_def LotState_def
      require_asset_code_def require_positive_int_def require_nonnegative_int_def upper_stable_def
      units_value_def str_nat_def digit_val_def fifo_key_def less_eq_prod_def)

lemma demo_units:
  "nat_str 0 = ''0''" "nat_str (Suc 0) = ''1''" "nat_str 2 = ''2''" "nat_str 3 = ''3''" "nat_str 5 = ''5''"
  "nat_str 7 = ''7''" "nat_str 10 = ''10''" "nat_str 15 = ''15''" "nat_str 6 = ''6''" "nat_str 9 = ''9''"
  by code_simp+

lemma demo_names:
  "hd (allocation_name 0 lot q c) = CHR ''0''" "hd (allocation_name (Suc 0) lot q c) = CHR ''1''"
  by (simp_all add: allocation_name_def demo_units)

lemma demo_planned:
  "select_lot_allocations demo_uuid5 demo_state ''BTC'' ''USDT'' 7 FIFO 100 []
     = Inr (id_allocations demo_disposed)"
proof -
  have "select_fifo demo_state ''BTC'' ''USDT'' 7 = Inr [(demo_lot 2 10 2 5 9, 5), (demo_lot 1 20 1 3 10, 2)]"
    by (simp add: select_fifo_def fifo_candidates_def in_pool_def fifo_key_def Let_def less_eq_prod_def)
  then show ?thesis
    by (simp add: select_lot_allocations_def require_asset_code_def require_positive_int_def upper_stable_def
      freeze_allocation_def allocated_cost_def LotDisposalAllocation_def allocation_fields_ok_def
      demo_names int_str_def demo_units pattern_simps digit_val_def)
qed


theorem lots_conserved_witness:
  "reduce_investment_events demo_events = Inr demo_state
   \<and> net_quantity 2 demo_events = 5 \<and> net_cost 1 demo_events = 10"
proof -
  have "\<forall>lot\<in>set (ls_lots demo_state). lp_remaining_quantity_units lot = net_quantity (lp_lot_id lot) demo_events
     \<and> lp_remaining_cost_units lot = net_cost (lp_lot_id lot) demo_events"
    using lots_conserved [OF demo_reduced] by blast
  then show ?thesis using demo_reduced by simp
qed

theorem plan_replays_witness:
  "\<exists>st'. reduce_investment_events (demo_events @ [plan_event 3 30 demo_disposed]) = Inr st'"
proof -
  have "select_lot_allocations demo_uuid5 demo_state (id_instrument_asset_code demo_disposed)
      (id_settlement_asset_code demo_disposed) 7 FIFO 100 [] = Inr (id_allocations demo_disposed)"
    using demo_planned by simp
  from plan_replays [OF demo_reduced this, of 3 30] show ?thesis by simp
qed

theorem fifo_oldest_first_witness:
  "\<exists>sel. select_fifo demo_state ''BTC'' ''USDT'' 7 = Inr sel \<and> sum_list (map snd sel) = 7"
proof -
  have "distinct (map lp_lot_id (ls_lots demo_state))" by simp
  from fifo_oldest_first [OF this, of 7 "''BTC''" "''USDT''"] show ?thesis
    by (auto split: sum.splits simp: in_pool_def)
qed

theorem plan_costs_fair_witness:
  "\<exists>lot\<in>set (ls_lots demo_state). lp_lot_id lot = 1
     \<and> units_value ''6'' * lp_remaining_quantity_units lot \<le> lp_remaining_cost_units lot * units_value ''2''"
proof -
  have "demo_allocation 101 1 1 ''2'' ''6'' \<in> set (id_allocations demo_disposed)" by simp
  from plan_costs_fair [OF demo_reduced demo_planned this] show ?thesis
    unfolding Let_def by auto
qed

theorem plan_satisfies_contract_witness:
  "validate_lot_disposed demo_disposed = Inr ()"
proof -
  have p: "select_lot_allocations demo_uuid5 demo_state (id_instrument_asset_code demo_disposed)
      (id_settlement_asset_code demo_disposed) 7 FIFO 100 [] = Inr (id_allocations demo_disposed)"
    using demo_planned by simp
  have c: "sum_list (map (units_value \<circ> ld_cost_units) (id_allocations demo_disposed)) = 15"
    by (simp add: units_value_def str_nat_def digit_val_def)
  have "validate_lot_disposed demo_disposed = Inr ()
      \<longleftrightarrow> distinct (map ld_allocation_id (id_allocations demo_disposed))"
  proof (rule plan_satisfies_contract [OF demo_reduced p, THEN conjunct2], unfold c)
    show "id_cost_basis_units demo_disposed = int_str 15" "id_quantity_units demo_disposed = int_str 7"
      by (simp_all add: int_str_def demo_units)
  qed (simp_all add: pattern_simps optional_units_ok_def MAX_UNITS_EXCLUSIVE_def MAX_UNIT_DIGITS_def)
  then show ?thesis by simp
qed

theorem full_liquidation_exact_witness:
  "\<exists>allocs. select_lot_allocations demo_uuid5 demo_state ''BTC'' ''USDT'' 8 FIFO 100 [] = Inr allocs
     \<and> map (units_value \<circ> ld_cost_units) allocs = [9, 10]"
proof -
  have f: "select_fifo demo_state ''BTC'' ''USDT'' 8 = Inr [(demo_lot 2 10 2 5 9, 5), (demo_lot 1 20 1 3 10, 3)]"
    by (simp add: select_fifo_def fifo_candidates_def in_pool_def fifo_key_def Let_def less_eq_prod_def)
  then obtain allocs where a: "select_lot_allocations demo_uuid5 demo_state ''BTC'' ''USDT'' 8 FIFO 100 [] = Inr allocs"
    by (simp add: select_lot_allocations_def require_asset_code_def require_positive_int_def upper_stable_def
      freeze_allocation_def allocated_cost_def LotDisposalAllocation_def allocation_fields_ok_def
      demo_names int_str_def demo_units pattern_simps digit_val_def)
  from full_liquidation_exact [OF demo_reduced a] have "map (units_value \<circ> ld_cost_units) allocs = [9, 10]"
    by (simp add: in_pool_def)
  with a show ?thesis by (intro exI [of _ allocs] conjI)
qed

end
