(* ===== verification/Ledger_Db.thy ===== *)
theory Ledger_Db
  imports Relational Event_Hash Lot_Allocation
begin

text \<open>
  The tables the ledger lives in: the rows of \<open>infrastructure/db/models\<close> (event_store.py,
  projections.py, credit_cards.py, investments.py and the catalog tables they refer to), the
  database as a record of tables, and the exceptions of the layers above it. Columns the database
  fills in for diagnosis only (\<open>global_sequence\<close>, \<open>recorded_at\<close>, \<open>created_at\<close>, \<open>updated_at\<close>,
  \<open>applied_at\<close>) are left out; an event's payload is the contract value its JSON was dumped from.
\<close>

section \<open>Catalog rows\<close>

record book_record =
  bk_book_id :: uuid
  bk_current_name :: string
  bk_base_asset_code :: "string option"
  bk_write_state :: string

record asset_record =
  sa_asset_code :: string
  sa_kind :: string
  sa_ledger_scale :: int
  sa_input_scale :: int
  sa_display_scale :: int
  sa_current_name :: string
  sa_status :: string

record account_record =
  ac_book_id :: uuid
  ac_account_id :: uuid
  ac_asset_code :: string
  ac_account_type :: string
  ac_account_subtype :: "string option"
  ac_system_role :: "string option"
  ac_current_name :: string
  ac_status :: string
  ac_version :: int

record category_version_record =
  cv_book_id :: uuid
  cv_category_id :: uuid
  cv_category_version_id :: uuid
  cv_parent_category_id :: "uuid option"
  cv_name :: string
  cv_status :: string
  cv_usage_kind :: string
  cv_change_reason_code :: string

record book_member_record =
  bm_book_id :: uuid
  bm_user_id :: string
  bm_role :: string
  bm_status :: string
  bm_scopes :: "string list"
  bm_revoked_at :: "instant option"

section \<open>Event store rows\<close>

record book_event_head_record =
  hd_book_id :: uuid
  hd_last_position :: int
  hd_last_hash :: "byte list"

record ledger_event_record =
  le_event_id :: uuid
  le_book_id :: uuid
  le_book_position :: int
  le_stream_type :: string
  le_stream_id :: uuid
  le_stream_version :: int
  le_event_type :: string
  le_event_schema_version :: int
  le_command_id :: uuid
  le_actor_subject_id :: string
  le_correlation_id :: uuid
  le_causation_event_id :: "uuid option"
  le_effective_at :: instant
  le_payload :: event_payload
  le_previous_hash :: "byte list"
  le_event_hash :: "byte list"

record event_stream_head_record =
  sh_book_id :: uuid
  sh_stream_type :: string
  sh_stream_id :: uuid
  sh_last_version :: int
  sh_last_book_position :: int
  sh_last_event_id :: uuid

datatype receipt_status = PROCESSING | COMPLETED

record command_receipt_record =
  cr_actor_subject_id :: string
  cr_book_id :: uuid
  cr_operation :: string
  cr_idempotency_key_hash :: "byte list"
  cr_request_hash :: "byte list"
  cr_command_id :: uuid
  cr_status :: receipt_status
  cr_response_schema_version :: "int option"
  cr_result_status :: "int option"
  cr_result_body :: "json option"
  cr_first_book_position :: "int option"
  cr_last_book_position :: "int option"
  cr_completed_at :: "instant option"

section \<open>Projection rows\<close>

record journal_transaction_record =
  jt_book_id :: uuid
  jt_transaction_id :: uuid
  jt_source_event_id :: uuid
  jt_source_position :: int
  jt_effective_at :: instant
  jt_transaction_kind :: string
  jt_description_ref :: "uuid option"

record journal_posting_record =
  po_book_id :: uuid
  po_transaction_id :: uuid
  po_posting_id :: uuid
  po_posting_position :: int
  po_account_id :: uuid
  po_asset_code :: string
  po_side :: posting_side
  po_units :: int

record account_balance_record =
  ab_book_id :: uuid
  ab_account_id :: uuid
  ab_asset_code :: string
  ab_balance_units :: int
  ab_as_of_position :: int

record transaction_reversal_record =
  rv_book_id :: uuid
  rv_reversal_transaction_id :: uuid
  rv_original_transaction_id :: uuid
  rv_source_event_id :: uuid
  rv_original_event_id :: uuid
  rv_original_event_hash :: "byte list"
  rv_reason_code :: string

record external_reference_record =
  xr_book_id :: uuid
  xr_transaction_id :: uuid
  xr_provider_code :: string
  xr_reference_kind :: string
  xr_reference_value :: string
  xr_source_event_id :: uuid

record reporting_line_record =
  rr_book_id :: uuid
  rr_transaction_id :: uuid
  rr_classification_revision :: int
  rr_line_id :: uuid
  rr_line_version_id :: uuid
  rr_catalog_id :: uuid
  rr_line_position :: int
  rr_asset_code :: string
  rr_units :: int
  rr_line_kind :: string
  rr_dimension :: string
  rr_dimension_id :: "uuid option"
  rr_description_ref :: "uuid option"
  rr_source_event_id :: uuid

record applied_event_record =
  ae_book_id :: uuid
  ae_event_id :: uuid
  ae_projection_version :: int

record credit_card_record =
  ct_book_id :: uuid
  ct_transaction_id :: uuid
  ct_intent :: string
  ct_card_account_id :: uuid
  ct_counter_account_id :: uuid
  ct_asset_code :: string
  ct_units :: int
  ct_original_transaction_id :: "uuid option"
  ct_source_event_id :: uuid
  ct_source_position :: int

record investment_lot_record =
  lt_book_id :: uuid
  lt_lot_id :: uuid
  lt_acquisition_transaction_id :: uuid
  lt_instrument_asset_code :: string
  lt_settlement_asset_code :: string
  lt_acquired_quantity_units :: int
  lt_acquired_cost_units :: int
  lt_fee_units :: "int option"
  lt_remaining_quantity_units :: int
  lt_remaining_cost_units :: int
  lt_source_event_id :: uuid
  lt_source_position :: int

record lot_allocation_record =
  al_book_id :: uuid
  al_allocation_id :: uuid
  al_lot_id :: uuid
  al_disposal_transaction_id :: uuid
  al_allocation_position :: int
  al_quantity_units :: int
  al_cost_units :: int
  al_source_event_id :: uuid
  al_source_position :: int

section \<open>The database\<close>

text \<open>
  The deferred constraint triggers fire at commit, once for every row that was inserted or updated
  in the transaction: the transaction carries the list of the firings it owes.
\<close>

datatype deferred_check =
    ReceiptCheck command_receipt_record
  | TransactionBalanceCheck journal_transaction_record
  | PostingBalanceCheck journal_posting_record
  | SyncProjectionCheck ledger_event_record
  | LotDecrementCheck investment_lot_record investment_lot_record

record db =
  books :: "book_record list"
  assets :: "asset_record list"
  accounts :: "account_record list"
  category_versions :: "category_version_record list"
  description_sidecars :: "(uuid \<times> uuid) list"
  book_members :: "book_member_record list"
  book_event_heads :: "book_event_head_record list"
  ledger_events :: "ledger_event_record list"
  event_stream_heads :: "event_stream_head_record list"
  command_receipts :: "command_receipt_record list"
  journal_transactions :: "journal_transaction_record list"
  journal_postings :: "journal_posting_record list"
  account_balances :: "account_balance_record list"
  transaction_reversals :: "transaction_reversal_record list"
  external_references :: "external_reference_record list"
  reporting_lines :: "reporting_line_record list"
  applied_events :: "applied_event_record list"
  credit_card_transactions :: "credit_card_record list"
  investment_lots :: "investment_lot_record list"
  lot_allocations :: "lot_allocation_record list"
  deferred_checks :: "deferred_check list"

section \<open>Exceptions\<close>

type_synonym stream_key = "string \<times> uuid"

text \<open>The exceptions of the command handlers, \<open>application/journal\<close>, \<open>credit_cards\<close>, \<open>investments\<close>.\<close>

datatype handler_error =
    PlainValueError
  | KeyError
  | CatalogNotFound
  | JournalRejected journal_error
  | MoneyRejected money_error
  | ContractRejected contract_error
  | LotRejected lot_error
  | InvalidStoredContract
  | JournalWriteForbidden
  | CreditCardSemanticWriteRequired
  | AssetUnavailable string
  | SystemManagedAccountForbidden
  | TransactionNotFound
  | TransactionAlreadyReversed
  | TransactionIdAlreadyExists
  | InvalidTransactionSource
  | CreditCardChargeHasActiveRefunds
  | CreditCardReversalChainForbidden
  | CreditCardReversalPrecedesOriginal
  | CreditCardReversalRequiresActiveAccount
  | CreditCardGeneralCorrectionForbidden
  | AdjustmentAccountUnavailable
  | AdjustmentBalanceMismatch
  | AdjustmentProjectionMismatch
  | CreditCardAccountInvalid
  | CreditCardRefundSourceInvalid
  | CreditCardRefundSourceReversed
  | CreditCardRefundExceeded
  | ReportingAllocationExceeded
  | UnsupportedReportingDimension
  | UnsupportedCreditCardReporting
  | UnsupportedReportingTarget
  | ExternalReferenceUnchanged

datatype ledger_error =
    DBError db_error
  | AppendBatchValidationError
  | BookEventHeadNotFound
  | StreamVersionConflict stream_key (expected_version: int) (actual_version: int)
  | HashValueError hash_error
  | PayloadJsonError json_error
  | StoredPayloadError registry_error
  | SynchronousProjectionError
  | BookWritePaused
  | LedgerWriteBoundaryError
  | IdempotencyValidationError
  | IdempotencyConflict
  | ReceiptStateError
  | AuthorizationError
  | AssertionError
  | HandlerError handler_error

definition raise_as :: "('e \<Rightarrow> ledger_error) \<Rightarrow> 'e + 'a \<Rightarrow> ledger_error + 'a" where
  "raise_as f r = (case r of Inl e \<Rightarrow> Inl (f e) | Inr x \<Rightarrow> Inr x)"

lemma raise_as_simps [simp]: "raise_as f (Inl e) = Inl (f e)" "raise_as f (Inr x) = Inr x"
  by (simp_all add: raise_as_def)

lemma raise_as_iff [result_simps]:
  "raise_as f r = Inr x \<longleftrightarrow> r = Inr x"
  "raise_as f r = Inl d \<longleftrightarrow> (\<exists>e. r = Inl e \<and> d = f e)"
  by (cases r; auto)+

section \<open>Reading tables\<close>

text \<open>\<open>session.get\<close> and a query by primary key: the row with that key, if there is one.\<close>

definition find_by :: "('r \<Rightarrow> 'k) \<Rightarrow> 'k \<Rightarrow> 'r list \<Rightarrow> 'r option" where
  "find_by key k rows = find (\<lambda>r. key r = k) rows"

lemma find_by_Some_D: "find_by key k rows = Some r \<Longrightarrow> r \<in> set rows \<and> key r = k"
  by (auto simp: find_by_def find_Some_iff)

lemma find_by_None_iff: "find_by key k rows = None \<longleftrightarrow> k \<notin> key ` set rows"
  by (auto simp: find_by_def find_None_iff)

lemma find_by_append:
  "find_by key k (xs @ ys) = (case find_by key k xs of None \<Rightarrow> find_by key k ys | Some r \<Rightarrow> Some r)"
  by (induction xs) (simp_all add: find_by_def)

lemma find_by_distinct:
  "distinct (map key rows) \<Longrightarrow> r \<in> set rows \<Longrightarrow> find_by key (key r) rows = Some r"
  by (induction rows) (auto simp: find_by_def rev_image_eqI)

text \<open>An update of the rows with one key.\<close>

definition replace_by :: "('r \<Rightarrow> 'k) \<Rightarrow> 'k \<Rightarrow> 'r \<Rightarrow> 'r list \<Rightarrow> 'r list" where
  "replace_by key k r rows = map (\<lambda>x. if key x = k then r else x) rows"

lemma map_key_replace_by: "key r = k \<Longrightarrow> map key (replace_by key k r rows) = map key rows"
  by (simp add: replace_by_def)

lemma find_by_replace_by:
  "key r = k \<Longrightarrow> find_by key j (replace_by key k r rows) =
     (if j = k \<and> k \<in> key ` set rows then Some r else find_by key j rows)"
  by (induction rows) (auto simp: find_by_def replace_by_def)

end
