(* ===== verification/Event_Tables.thy ===== *)
theory Event_Tables
  imports Ledger_Db
begin

text \<open>
  The four tables of the event store: their column widths, check, unique and foreign-key
  constraints (\<open>infrastructure/db/models/event_store.py\<close>) and the triggers of
  \<open>alembic/versions/v2_0003_event_store.py\<close>. Rows of \<open>ledger_events\<close> are never updated or deleted:
  the trigger \<open>v2_reject_ledger_event_mutation\<close> refuses both, and no operation here does it.
\<close>

definition ZERO_HASH :: "byte list" where
  "ZERO_HASH = replicate 32 0"

abbreviation has_book :: "db \<Rightarrow> uuid \<Rightarrow> bool" where
  "has_book db b \<equiv> b \<in> bk_book_id ` set (books db)"

section \<open>ledger\_events\<close>

definition event_position_key :: "ledger_event_record \<Rightarrow> uuid \<times> int" where
  "event_position_key e = (le_book_id e, le_book_position e)"

definition event_stream_key :: "ledger_event_record \<Rightarrow> uuid \<times> string \<times> uuid \<times> int" where
  "event_stream_key e = (le_book_id e, le_stream_type e, le_stream_id e, le_stream_version e)"

definition event_hash_key :: "ledger_event_record \<Rightarrow> uuid \<times> byte list" where
  "event_hash_key e = (le_book_id e, le_event_hash e)"

definition event_book_key :: "ledger_event_record \<Rightarrow> uuid \<times> uuid" where
  "event_book_key e = (le_book_id e, le_event_id e)"

definition admit_event :: "db \<Rightarrow> ledger_event_record \<Rightarrow> db_error + unit" where
  "admit_event db new = checks
     [(varchar 32 (le_stream_type new), StringTooLong),
      (varchar 64 (le_event_type new), StringTooLong),
      (varchar 128 (le_actor_subject_id new), StringTooLong),
      (bigint (le_book_position new), NumericOutOfRange),
      (integer4 (le_stream_version new), NumericOutOfRange),
      (smallint (le_event_schema_version new), NumericOutOfRange),
      (0 < le_book_position new, CheckViolation),
      (nonblank (le_stream_type new), CheckViolation),
      (0 < le_stream_version new, CheckViolation),
      (nonblank (le_event_type new), CheckViolation),
      (0 < le_event_schema_version new, CheckViolation),
      (nonblank (le_actor_subject_id new), CheckViolation),
      (le_causation_event_id new \<noteq> Some (le_event_id new), CheckViolation),
      (octet_length (le_previous_hash new) = 32, CheckViolation),
      (octet_length (le_event_hash new) = 32, CheckViolation),
      (le_event_id new \<notin> le_event_id ` set (ledger_events db), UniqueViolation),
      (event_position_key new \<notin> event_position_key ` set (ledger_events db), UniqueViolation),
      (event_stream_key new \<notin> event_stream_key ` set (ledger_events db), UniqueViolation),
      (event_hash_key new \<notin> event_hash_key ` set (ledger_events db), UniqueViolation)]"

definition add_event :: "ledger_event_record \<Rightarrow> db \<Rightarrow> db" where
  "add_event new db = db\<lparr>ledger_events := ledger_events db @ [new],
     deferred_checks := deferred_checks db @ [SyncProjectionCheck new]\<rparr>"

definition event_refers :: "db \<Rightarrow> ledger_event_record \<Rightarrow> db_error + unit" where
  "event_refers db new = checks
     [(has_book db (le_book_id new), ForeignKeyViolation),
      (nullable (\<lambda>c. (le_book_id new, c) \<in> event_book_key ` set (ledger_events db)) (le_causation_event_id new),
       ForeignKeyViolation)]"

definition insert_events :: "ledger_event_record list \<Rightarrow> db \<Rightarrow> db_error + db" where
  "insert_events = insert_rows admit_event add_event event_refers"

section \<open>book\_event\_heads\<close>

definition head_row_ok :: "book_event_head_record \<Rightarrow> db_error + unit" where
  "head_row_ok new = checks
     [(0 \<le> hd_last_position new, CheckViolation),
      (octet_length (hd_last_hash new) = 32, CheckViolation),
      (hd_last_position new \<noteq> 0 \<or> hd_last_hash new = ZERO_HASH, CheckViolation)]"

text \<open>\<open>v2_guard_book_event_head\<close>; the old row is missing on an insert.\<close>

definition v2_guard_book_event_head ::
    "db \<Rightarrow> book_event_head_record option \<Rightarrow> book_event_head_record \<Rightarrow> db_error + unit" where
  "v2_guard_book_event_head db old new = checks
     [(case old of None \<Rightarrow> True | Some o' \<Rightarrow> hd_book_id new = hd_book_id o', CheckViolation),
      (case old of None \<Rightarrow> True | Some o' \<Rightarrow> hd_last_position o' < hd_last_position new, CheckViolation),
      (0 < hd_last_position new \<longrightarrow>
         list_ex (\<lambda>e. le_book_id e = hd_book_id new \<and> le_book_position e = hd_last_position new
             \<and> le_event_hash e = hd_last_hash new) (ledger_events db), CheckViolation)]"

definition insert_book_event_head :: "book_event_head_record \<Rightarrow> db \<Rightarrow> db_error + db" where
  "insert_book_event_head new db =
     rbind (checks [(bigint (hd_last_position new), NumericOutOfRange)]) (\<lambda>_.
     rbind (v2_guard_book_event_head db None new) (\<lambda>_.
     rbind (head_row_ok new) (\<lambda>_.
     rbind (checks [(hd_book_id new \<notin> hd_book_id ` set (book_event_heads db), UniqueViolation),
                    (has_book db (hd_book_id new), ForeignKeyViolation)]) (\<lambda>_.
     Inr (db\<lparr>book_event_heads := book_event_heads db @ [new]\<rparr>)))))"

definition update_book_event_head :: "book_event_head_record \<Rightarrow> book_event_head_record \<Rightarrow> db \<Rightarrow> db_error + db" where
  "update_book_event_head old new db =
     rbind (checks [(bigint (hd_last_position new), NumericOutOfRange)]) (\<lambda>_.
     rbind (v2_guard_book_event_head db (Some old) new) (\<lambda>_.
     rbind (head_row_ok new) (\<lambda>_.
     Inr (db\<lparr>book_event_heads := replace_by hd_book_id (hd_book_id old) new (book_event_heads db)\<rparr>))))"

section \<open>event\_stream\_heads\<close>

definition stream_head_key :: "event_stream_head_record \<Rightarrow> uuid \<times> string \<times> uuid" where
  "stream_head_key h = (sh_book_id h, sh_stream_type h, sh_stream_id h)"

definition stream_head_row_ok :: "event_stream_head_record \<Rightarrow> db_error + unit" where
  "stream_head_row_ok new = checks
     [(nonblank (sh_stream_type new), CheckViolation),
      (0 < sh_last_version new, CheckViolation),
      (0 < sh_last_book_position new, CheckViolation)]"

definition stream_head_types_ok :: "event_stream_head_record \<Rightarrow> db_error + unit" where
  "stream_head_types_ok new = checks
     [(varchar 32 (sh_stream_type new), StringTooLong),
      (integer4 (sh_last_version new), NumericOutOfRange),
      (bigint (sh_last_book_position new), NumericOutOfRange)]"

definition stream_head_refers :: "db \<Rightarrow> event_stream_head_record \<Rightarrow> db_error + unit" where
  "stream_head_refers db new = checks
     [(has_book db (sh_book_id new), ForeignKeyViolation),
      (list_ex (\<lambda>e. event_stream_key e = (sh_book_id new, sh_stream_type new, sh_stream_id new, sh_last_version new)
           \<and> le_book_position e = sh_last_book_position new \<and> le_event_id e = sh_last_event_id new)
         (ledger_events db), ForeignKeyViolation)]"

definition v2_guard_event_stream_head ::
    "event_stream_head_record option \<Rightarrow> event_stream_head_record \<Rightarrow> db_error + unit" where
  "v2_guard_event_stream_head old new = checks
     [(case old of None \<Rightarrow> True | Some o' \<Rightarrow> stream_head_key new = stream_head_key o', CheckViolation),
      (case old of None \<Rightarrow> True | Some o' \<Rightarrow>
         sh_last_version o' < sh_last_version new \<and> sh_last_book_position o' < sh_last_book_position new,
       CheckViolation)]"

definition insert_stream_head :: "event_stream_head_record \<Rightarrow> db \<Rightarrow> db_error + db" where
  "insert_stream_head new db =
     rbind (stream_head_types_ok new) (\<lambda>_.
     rbind (v2_guard_event_stream_head None new) (\<lambda>_.
     rbind (stream_head_row_ok new) (\<lambda>_.
     rbind (checks [(stream_head_key new \<notin> stream_head_key ` set (event_stream_heads db), UniqueViolation)]) (\<lambda>_.
     rbind (stream_head_refers db new) (\<lambda>_.
     Inr (db\<lparr>event_stream_heads := event_stream_heads db @ [new]\<rparr>))))))"

definition update_stream_head :: "event_stream_head_record \<Rightarrow> event_stream_head_record \<Rightarrow> db \<Rightarrow> db_error + db" where
  "update_stream_head old new db =
     rbind (stream_head_types_ok new) (\<lambda>_.
     rbind (v2_guard_event_stream_head (Some old) new) (\<lambda>_.
     rbind (stream_head_row_ok new) (\<lambda>_.
     rbind (stream_head_refers db new) (\<lambda>_.
     Inr (db\<lparr>event_stream_heads := replace_by stream_head_key (stream_head_key old) new (event_stream_heads db)\<rparr>)))))"

section \<open>command\_receipts\<close>

definition receipt_key :: "command_receipt_record \<Rightarrow> string \<times> uuid \<times> string \<times> byte list" where
  "receipt_key r = (cr_actor_subject_id r, cr_book_id r, cr_operation r, cr_idempotency_key_hash r)"

definition receipt_types_ok :: "command_receipt_record \<Rightarrow> db_error + unit" where
  "receipt_types_ok new = checks
     [(varchar 128 (cr_actor_subject_id new), StringTooLong),
      (varchar 96 (cr_operation new), StringTooLong),
      (nullable smallint (cr_response_schema_version new), NumericOutOfRange),
      (nullable smallint (cr_result_status new), NumericOutOfRange),
      (nullable bigint (cr_first_book_position new), NumericOutOfRange),
      (nullable bigint (cr_last_book_position new), NumericOutOfRange)]"

definition receipt_lifecycle_shape :: "command_receipt_record \<Rightarrow> bool" where
  "receipt_lifecycle_shape r \<longleftrightarrow>
     (cr_status r = PROCESSING \<and> cr_response_schema_version r = None \<and> cr_result_status r = None
        \<and> cr_result_body r = None \<and> cr_first_book_position r = None \<and> cr_last_book_position r = None
        \<and> cr_completed_at r = None)
     \<or> (cr_status r = COMPLETED
        \<and> (case cr_response_schema_version r of None \<Rightarrow> False | Some v \<Rightarrow> 0 < v)
        \<and> (case cr_result_status r of None \<Rightarrow> False | Some s \<Rightarrow> 100 \<le> s \<and> s \<le> 599)
        \<and> (case cr_result_body r of None \<Rightarrow> False | Some b \<Rightarrow> b \<noteq> JNull)
        \<and> cr_completed_at r \<noteq> None)"

definition receipt_row_ok :: "command_receipt_record \<Rightarrow> db_error + unit" where
  "receipt_row_ok new = checks
     [(nonblank (cr_actor_subject_id new), CheckViolation),
      (nonblank (cr_operation new), CheckViolation),
      (octet_length (cr_idempotency_key_hash new) = 32, CheckViolation),
      (octet_length (cr_request_hash new) = 32, CheckViolation),
      ((cr_first_book_position new = None) = (cr_last_book_position new = None)
         \<and> (case (cr_first_book_position new, cr_last_book_position new) of
              (Some f, Some l) \<Rightarrow> 0 < f \<and> f \<le> l | _ \<Rightarrow> True), CheckViolation),
      (receipt_lifecycle_shape new, CheckViolation)]"

definition receipt_refers :: "db \<Rightarrow> command_receipt_record \<Rightarrow> db_error + unit" where
  "receipt_refers db new = checks
     [(has_book db (cr_book_id new), ForeignKeyViolation),
      (nullable (\<lambda>n. (cr_book_id new, n) \<in> event_position_key ` set (ledger_events db))
         (cr_first_book_position new), ForeignKeyViolation),
      (nullable (\<lambda>n. (cr_book_id new, n) \<in> event_position_key ` set (ledger_events db))
         (cr_last_book_position new), ForeignKeyViolation)]"

text \<open>The trigger also keeps \<open>created_at\<close> unchanged, a column the database fills in and the rows here do not have.\<close>

definition v2_guard_command_receipt_lifecycle ::
    "command_receipt_record option \<Rightarrow> command_receipt_record \<Rightarrow> db_error + unit" where
  "v2_guard_command_receipt_lifecycle old new =
     (case old of
        None \<Rightarrow> checks [(cr_status new = PROCESSING, CheckViolation)]
      | Some o' \<Rightarrow> checks
          [(receipt_key new = receipt_key o' \<and> cr_request_hash new = cr_request_hash o'
              \<and> cr_command_id new = cr_command_id o', CheckViolation),
           (cr_status o' = PROCESSING \<and> cr_status new = COMPLETED, CheckViolation)])"

text \<open>
  \<open>insert ... on conflict do nothing returning command_id\<close>: a row that clashes with a unique key
  is not inserted and the statement returns nothing.
\<close>

definition insert_receipt_on_conflict_do_nothing ::
    "command_receipt_record \<Rightarrow> db \<Rightarrow> db_error + (uuid option \<times> db)" where
  "insert_receipt_on_conflict_do_nothing new db =
     rbind (receipt_types_ok new) (\<lambda>_.
     rbind (v2_guard_command_receipt_lifecycle None new) (\<lambda>_.
     rbind (receipt_row_ok new) (\<lambda>_.
     if receipt_key new \<in> receipt_key ` set (command_receipts db)
        \<or> cr_command_id new \<in> cr_command_id ` set (command_receipts db)
     then Inr (None, db)
     else rbind (receipt_refers db new) (\<lambda>_.
       Inr (Some (cr_command_id new),
         db\<lparr>command_receipts := command_receipts db @ [new],
            deferred_checks := deferred_checks db @ [ReceiptCheck new]\<rparr>)))))"

definition update_receipt :: "command_receipt_record \<Rightarrow> command_receipt_record \<Rightarrow> db \<Rightarrow> db_error + db" where
  "update_receipt old new db =
     rbind (receipt_types_ok new) (\<lambda>_.
     rbind (v2_guard_command_receipt_lifecycle (Some old) new) (\<lambda>_.
     rbind (receipt_row_ok new) (\<lambda>_.
     rbind (receipt_refers db new) (\<lambda>_.
     Inr (db\<lparr>command_receipts := replace_by receipt_key (receipt_key old) new (command_receipts db),
            deferred_checks := deferred_checks db @ [ReceiptCheck new]\<rparr>)))))"

text \<open>\<open>v2_reject_processing_receipt\<close>, deferred to the commit.\<close>

definition v2_reject_processing_receipt :: "db \<Rightarrow> command_receipt_record \<Rightarrow> db_error + unit" where
  "v2_reject_processing_receipt db new = checks
     [(\<not> list_ex (\<lambda>r. receipt_key r = receipt_key new \<and> cr_status r = PROCESSING) (command_receipts db),
       CheckViolation),
      (\<not> list_ex (\<lambda>r. receipt_key r = receipt_key new \<and> cr_status r = COMPLETED
          \<and> (case (cr_first_book_position r, cr_last_book_position r) of
               (Some f, Some l) \<Rightarrow>
                 int (length (filter (\<lambda>e. le_book_id e = cr_book_id r \<and> f \<le> le_book_position e
                     \<and> le_book_position e \<le> l \<and> le_command_id e = cr_command_id r) (ledger_events db)))
                 \<noteq> l - f + 1
             | _ \<Rightarrow> False)) (command_receipts db), CheckViolation)]"

section \<open>The tables as keyed tables\<close>

definition event_row_ok :: "ledger_event_record \<Rightarrow> bool" where
  "event_row_ok e \<longleftrightarrow> length (le_previous_hash e) = 32 \<and> length (le_event_hash e) = 32
     \<and> 0 < le_stream_version e \<and> 0 < le_book_position e"

interpretation events_by_id: keyed_table ledger_events admit_event add_event event_refers le_event_id event_row_ok
  by unfold_locales
    (simp_all add: add_event_def admit_event_def result_simps event_row_ok_def octet_length_def)

interpretation events_by_position: keyed_table ledger_events admit_event add_event event_refers event_position_key event_row_ok
  by unfold_locales
    (simp_all add: add_event_def admit_event_def result_simps event_row_ok_def octet_length_def)

interpretation events_by_stream: keyed_table ledger_events admit_event add_event event_refers event_stream_key event_row_ok
  by unfold_locales
    (simp_all add: add_event_def admit_event_def result_simps event_row_ok_def octet_length_def)

interpretation events_by_hash: keyed_table ledger_events admit_event add_event event_refers event_hash_key event_row_ok
  by unfold_locales
    (simp_all add: add_event_def admit_event_def result_simps event_row_ok_def octet_length_def)

lemma fold_add_event:
  "fold add_event rows db = db\<lparr>ledger_events := ledger_events db @ rows,
     deferred_checks := deferred_checks db @ map SyncProjectionCheck rows\<rparr>"
  by (induction rows arbitrary: db) (simp_all add: add_event_def)

lemma insert_events_Inr: "insert_events rows db = Inr db' \<Longrightarrow>
  db' = db\<lparr>ledger_events := ledger_events db @ rows,
     deferred_checks := deferred_checks db @ map SyncProjectionCheck rows\<rparr>"
  unfolding insert_events_def insert_rows_Inr fold_add_event by blast

end
