(* ===== verification/Event_Store.thy ===== *)
theory Event_Store
  imports Event_Tables
begin

text \<open>
  Appending a batch of events to the ledger of a Book: \<open>PendingEvent\<close> and \<open>AppendBatchResult\<close> of
  \<open>application/event_batch.py\<close> and \<open>PostgresEventStore\<close> of \<open>infrastructure/db/event_store.py\<close>.
  The row locks taken with \<open>with_for_update\<close> make transactions on one Book run one after the
  other, which is how the model runs them. SHA-256 is a parameter.
\<close>

section \<open>Batches\<close>

record pending_event =
  pe_event_id :: uuid
  pe_stream_type :: string
  pe_stream_id :: uuid
  pe_payload :: event_payload
  pe_command_id :: uuid
  pe_actor_subject_id :: string
  pe_correlation_id :: uuid
  pe_causation_event_id :: "uuid option"
  pe_effective_at :: instant

definition stream_key :: "pending_event \<Rightarrow> stream_key" where
  "stream_key self = (pe_stream_type self, pe_stream_id self)"

text \<open>\<open>positions\<close> is a Python \<open>range\<close>: its start, and its stop, which is excluded.\<close>

record append_batch_result =
  ar_start :: int
  ar_stop :: int
  ar_terminal_hash :: "byte list"
  ar_event_ids :: "uuid list"

definition validate_batch :: "(stream_key \<times> int) list \<Rightarrow> pending_event list \<Rightarrow> ledger_error + unit" where
  "validate_batch expected_stream_versions events = checks
     [(events \<noteq> [], AppendBatchValidationError),
      (list_all (\<lambda>(key, version). 0 \<le> version) expected_stream_versions, AppendBatchValidationError),
      (fst ` set expected_stream_versions = stream_key ` set events, AppendBatchValidationError)]"

section \<open>Building the stored events\<close>

text \<open>\<open>dict.fromkeys\<close>: the distinct elements in the order of their first occurrence.\<close>

definition dict_fromkeys :: "'a list \<Rightarrow> 'a list" where
  "dict_fromkeys xs = foldl (\<lambda>seen x. if x \<in> set seen then seen else seen @ [x]) [] xs"

definition HASH_PLACEHOLDER_RECORDED_AT :: instant where
  "HASH_PLACEHOLDER_RECORDED_AT = 0"

definition pending_envelope :: "uuid \<Rightarrow> int \<Rightarrow> int \<Rightarrow> byte list \<Rightarrow> pending_event \<Rightarrow> event_hash_envelope" where
  "pending_envelope book_id position version previous_hash pending =
     \<lparr>eh_event_id = pe_event_id pending, eh_book_id = book_id, eh_book_position = position,
      eh_global_sequence = 1, eh_stream_type = pe_stream_type pending, eh_stream_id = pe_stream_id pending,
      eh_stream_version = version, eh_event_type = event_type (pe_payload pending),
      eh_event_schema_version = schema_version (pe_payload pending), eh_command_id = pe_command_id pending,
      eh_actor_subject_id = pe_actor_subject_id pending, eh_correlation_id = pe_correlation_id pending,
      eh_causation_event_id = pe_causation_event_id pending, eh_effective_at = pe_effective_at pending,
      eh_recorded_at = HASH_PLACEHOLDER_RECORDED_AT, eh_previous_hash = previous_hash\<rparr>"

definition stored_event ::
    "(byte list \<Rightarrow> byte list) \<Rightarrow> uuid \<Rightarrow> int \<Rightarrow> int \<Rightarrow> byte list \<Rightarrow> pending_event \<Rightarrow> ledger_error + ledger_event_record" where
  "stored_event sha256 book_id position version previous_hash pending =
     rbind (raise_as PayloadJsonError (dump_registered (pe_payload pending))) (\<lambda>stored_payload.
     rbind (raise_as HashValueError
              (EventHashEnvelope (pending_envelope book_id position version previous_hash pending))) (\<lambda>envelope.
     rbind (raise_as HashValueError (event_hash sha256 envelope stored_payload)) (\<lambda>hashed. Inr
       \<lparr>le_event_id = pe_event_id pending, le_book_id = book_id, le_book_position = position,
        le_stream_type = pe_stream_type pending, le_stream_id = pe_stream_id pending,
        le_stream_version = version, le_event_type = event_type (pe_payload pending),
        le_event_schema_version = schema_version (pe_payload pending),
        le_command_id = pe_command_id pending, le_actor_subject_id = pe_actor_subject_id pending,
        le_correlation_id = pe_correlation_id pending,
        le_causation_event_id = pe_causation_event_id pending, le_effective_at = pe_effective_at pending,
        le_payload = pe_payload pending, le_previous_hash = previous_hash, le_event_hash = hashed\<rparr>)))"

record append_state =
  aq_next_position :: int
  aq_previous_hash :: "byte list"
  aq_next_versions :: "stream_key counter"
  aq_stored_events :: "ledger_event_record list"
  aq_terminal_by_stream :: "(stream_key \<times> ledger_event_record) list"

definition append_step ::
    "(byte list \<Rightarrow> byte list) \<Rightarrow> uuid \<Rightarrow> append_state \<Rightarrow> pending_event \<Rightarrow> ledger_error + append_state" where
  "append_step sha256 book_id st pending =
     (let position = aq_next_position st + 1;
          key = stream_key pending;
          versions = cadd key 1 (aq_next_versions st)
      in rbind (stored_event sha256 book_id position (cget versions key) (aq_previous_hash st) pending) (\<lambda>stored.
           Inr \<lparr>aq_next_position = position, aq_previous_hash = le_event_hash stored,
                aq_next_versions = versions, aq_stored_events = aq_stored_events st @ [stored],
                aq_terminal_by_stream = AList.update key stored (aq_terminal_by_stream st)\<rparr>))"

section \<open>Appending\<close>

definition lift_db :: "(db \<Rightarrow> db_error + 'a) \<Rightarrow> db \<Rightarrow> ledger_error + 'a" where
  "lift_db f db = raise_as DBError (f db)"

definition stream_head_of :: "db \<Rightarrow> uuid \<Rightarrow> stream_key \<Rightarrow> event_stream_head_record option" where
  "stream_head_of db book_id key = find_by stream_head_key (book_id, key) (event_stream_heads db)"

definition current_version :: "db \<Rightarrow> uuid \<Rightarrow> stream_key \<Rightarrow> int" where
  "current_version db book_id key =
     (case stream_head_of db book_id key of None \<Rightarrow> 0 | Some head \<Rightarrow> sh_last_version head)"

definition check_stream_version :: "db \<Rightarrow> uuid \<Rightarrow> (stream_key \<times> int) list \<Rightarrow> stream_key \<Rightarrow> ledger_error + unit" where
  "check_stream_version db book_id expected_stream_versions key =
     (let expected = cget expected_stream_versions key; actual = current_version db book_id key
      in if expected \<noteq> actual then Inl (StreamVersionConflict key expected actual) else Inr ())"

definition terminal_head :: "uuid \<Rightarrow> stream_key \<Rightarrow> ledger_event_record \<Rightarrow> event_stream_head_record" where
  "terminal_head book_id key terminal =
     \<lparr>sh_book_id = book_id, sh_stream_type = fst key, sh_stream_id = snd key,
      sh_last_version = le_stream_version terminal,
      sh_last_book_position = le_book_position terminal, sh_last_event_id = le_event_id terminal\<rparr>"

definition advance_stream_head ::
    "db \<Rightarrow> uuid \<Rightarrow> db \<Rightarrow> stream_key \<times> ledger_event_record \<Rightarrow> ledger_error + db" where
  "advance_stream_head before book_id db entry =
     (case entry of (key, terminal) \<Rightarrow>
       let new = terminal_head book_id key terminal
       in case stream_head_of before book_id key of
            None \<Rightarrow> lift_db (insert_stream_head new) db
          | Some old \<Rightarrow> lift_db (update_stream_head old new) db)"

definition append_batch ::
    "(byte list \<Rightarrow> byte list) \<Rightarrow> uuid \<Rightarrow> (stream_key \<times> int) list \<Rightarrow> pending_event list \<Rightarrow> db
      \<Rightarrow> ledger_error + append_batch_result \<times> db" where
  "append_batch sha256 book_id expected_stream_versions events db =
     rbind (validate_batch expected_stream_versions events) (\<lambda>_.
     case find_by hd_book_id book_id (book_event_heads db) of
       None \<Rightarrow> Inl BookEventHeadNotFound
     | Some head \<Rightarrow>
       let stream_keys = dict_fromkeys (map stream_key events) in
       rbind (checkE (check_stream_version db book_id expected_stream_versions) stream_keys) (\<lambda>_.
       rbind (foldE (append_step sha256 book_id)
                \<lparr>aq_next_position = hd_last_position head, aq_previous_hash = hd_last_hash head,
                 aq_next_versions = map (\<lambda>key. (key, current_version db book_id key)) stream_keys,
                 aq_stored_events = [], aq_terminal_by_stream = []\<rparr> events) (\<lambda>st.
       rbind (lift_db (insert_events (aq_stored_events st)) db) (\<lambda>db1.
       rbind (foldE (advance_stream_head db book_id) db1 (aq_terminal_by_stream st)) (\<lambda>db2.
       rbind (lift_db (update_book_event_head head
                \<lparr>hd_book_id = book_id, hd_last_position = aq_next_position st,
                 hd_last_hash = aq_previous_hash st\<rparr>) db2) (\<lambda>db3.
       Inr (\<lparr>ar_start = hd_last_position head + 1, ar_stop = aq_next_position st + 1,
             ar_terminal_hash = aq_previous_hash st, ar_event_ids = map pe_event_id events\<rparr>, db3)))))))"

section \<open>The ledger of a Book\<close>

definition book_events :: "db \<Rightarrow> uuid \<Rightarrow> ledger_event_record list" where
  "book_events db b = filter (\<lambda>e. le_book_id e = b) (ledger_events db)"

definition event_key :: "ledger_event_record \<Rightarrow> stream_key" where
  "event_key e = (le_stream_type e, le_stream_id e)"

definition in_stream :: "stream_key \<Rightarrow> ledger_event_record list \<Rightarrow> ledger_event_record list" where
  "in_stream k es = filter (\<lambda>e. event_key e = k) es"

primrec numbered :: "int \<Rightarrow> int list \<Rightarrow> bool" where
  "numbered n [] = True"
| "numbered n (x # xs) = (x = n + 1 \<and> numbered (n + 1) xs)"

primrec chained :: "byte list \<Rightarrow> ledger_event_record list \<Rightarrow> bool" where
  "chained h [] = True"
| "chained h (e # es) = (le_previous_hash e = h \<and> chained (le_event_hash e) es)"

definition last_hash :: "byte list \<Rightarrow> ledger_event_record list \<Rightarrow> byte list" where
  "last_hash h es = (if es = [] then h else le_event_hash (last es))"

definition event_envelope :: "ledger_event_record \<Rightarrow> event_hash_envelope" where
  "event_envelope e =
     \<lparr>eh_event_id = le_event_id e, eh_book_id = le_book_id e, eh_book_position = le_book_position e,
      eh_global_sequence = 1, eh_stream_type = le_stream_type e, eh_stream_id = le_stream_id e,
      eh_stream_version = le_stream_version e, eh_event_type = le_event_type e,
      eh_event_schema_version = le_event_schema_version e, eh_command_id = le_command_id e,
      eh_actor_subject_id = le_actor_subject_id e, eh_correlation_id = le_correlation_id e,
      eh_causation_event_id = le_causation_event_id e, eh_effective_at = le_effective_at e,
      eh_recorded_at = HASH_PLACEHOLDER_RECORDED_AT, eh_previous_hash = le_previous_hash e\<rparr>"

text \<open>An event that carries the hash of its own envelope and payload.\<close>

definition sealed :: "(byte list \<Rightarrow> byte list) \<Rightarrow> ledger_event_record \<Rightarrow> bool" where
  "sealed sha256 e \<longleftrightarrow> event_hash sha256 (event_envelope e) (model_dump (le_payload e)) = Inr (le_event_hash e)
     \<and> le_event_type e = event_type (le_payload e) \<and> le_event_schema_version e = schema_version (le_payload e)
     \<and> EventHashEnvelope (event_envelope e) = Inr (event_envelope e)"

text \<open>
  The ledger of a Book: its events numbered from 1 without a gap, chained by their hashes, each
  sealed; every stream numbered from 1 without a gap; and both kinds of head at the last event.
\<close>

definition head_agrees :: "db \<Rightarrow> uuid \<Rightarrow> bool" where
  "head_agrees db b \<longleftrightarrow>
     (case find_by hd_book_id b (book_event_heads db) of
        None \<Rightarrow> book_events db b = []
      | Some h \<Rightarrow> hd_last_position h = int (length (book_events db b))
          \<and> hd_last_hash h = last_hash ZERO_HASH (book_events db b))"

definition stream_head_agrees :: "db \<Rightarrow> uuid \<Rightarrow> stream_key \<Rightarrow> bool" where
  "stream_head_agrees db b k \<longleftrightarrow>
     stream_head_of db b k =
       (if in_stream k (book_events db b) = [] then None
        else Some (terminal_head b k (last (in_stream k (book_events db b)))))"

definition book_ledger_ok :: "(byte list \<Rightarrow> byte list) \<Rightarrow> db \<Rightarrow> uuid \<Rightarrow> bool" where
  "book_ledger_ok sha256 db b \<longleftrightarrow>
     numbered 0 (map le_book_position (book_events db b))
     \<and> chained ZERO_HASH (book_events db b)
     \<and> list_all (sealed sha256) (book_events db b)
     \<and> (\<forall>k. numbered 0 (map le_stream_version (in_stream k (book_events db b))))
     \<and> head_agrees db b
     \<and> (\<forall>k. stream_head_agrees db b k)"

definition ledger_ok :: "(byte list \<Rightarrow> byte list) \<Rightarrow> db \<Rightarrow> bool" where
  "ledger_ok sha256 db \<longleftrightarrow> (\<forall>b. book_ledger_ok sha256 db b)"

section \<open>Numbering and chaining\<close>

lemma numbered_append: "numbered n (xs @ ys) \<longleftrightarrow> numbered n xs \<and> numbered (n + int (length xs)) ys"
  by (induction xs arbitrary: n) (simp_all add: add.assoc)

lemma numbered_nth: "numbered n xs \<Longrightarrow> i < length xs \<Longrightarrow> xs ! i = n + 1 + int i"
proof (induction xs arbitrary: n i)
  case Nil
  then show ?case by simp
next
  case (Cons x xs)
  then show ?case by (cases i) auto
qed

lemma numbered_last: "numbered n xs \<Longrightarrow> xs \<noteq> [] \<Longrightarrow> last xs = n + int (length xs)"
  by (cases xs rule: rev_cases) (simp_all add: numbered_append)

lemma numbered_bounds: "numbered n xs \<Longrightarrow> x \<in> set xs \<Longrightarrow> n < x \<and> x \<le> n + int (length xs)"
  by (auto simp: in_set_conv_nth numbered_nth)

lemma numbered_distinct: "numbered n xs \<Longrightarrow> distinct xs"
  by (simp add: distinct_conv_nth numbered_nth)

lemma chained_append: "chained h (xs @ ys) \<longleftrightarrow> chained h xs \<and> chained (last_hash h xs) ys"
  by (induction xs arbitrary: h) (auto simp: last_hash_def)

lemma last_hash_append: "last_hash h (xs @ ys) = last_hash (last_hash h xs) ys"
  by (simp add: last_hash_def)

lemma last_hash_simps [simp]:
  "last_hash h [] = h" "last_hash h (es @ [e]) = le_event_hash e"
  by (simp_all add: last_hash_def)

lemma in_stream_append [simp]: "in_stream k (xs @ ys) = in_stream k xs @ in_stream k ys"
  by (simp add: in_stream_def)

lemma in_stream_simps [simp]:
  "in_stream k [] = []" "in_stream k (e # es) = (if event_key e = k then e # in_stream k es else in_stream k es)"
  by (simp_all add: in_stream_def)

lemma in_stream_empty_iff: "in_stream k es = [] \<longleftrightarrow> k \<notin> event_key ` set es"
  by (auto simp: in_stream_def filter_empty_conv)

section \<open>Distinct keys in order\<close>

lemma dict_fromkeys_snoc:
  "dict_fromkeys (xs @ [x]) = (if x \<in> set (dict_fromkeys xs) then dict_fromkeys xs else dict_fromkeys xs @ [x])"
  by (simp add: dict_fromkeys_def)

lemma set_dict_fromkeys [simp]: "set (dict_fromkeys xs) = set xs"
  by (induction xs rule: rev_induct) (auto simp: dict_fromkeys_snoc, simp add: dict_fromkeys_def)

lemma distinct_dict_fromkeys [simp]: "distinct (dict_fromkeys xs)"
  by (induction xs rule: rev_induct) (auto simp: dict_fromkeys_snoc, simp add: dict_fromkeys_def)

lemma cget_of_keys: "cget (map (\<lambda>k. (k, f k)) ks) k = (if k \<in> set ks then f k else 0)"
  by (auto simp: cget_def map_of_map_restrict restrict_map_def)

section \<open>The loop that builds the events\<close>

text \<open>What a stored event takes over from the pending event.\<close>

definition records_pending :: "uuid \<Rightarrow> pending_event \<Rightarrow> ledger_event_record \<Rightarrow> bool" where
  "records_pending book_id pe e \<longleftrightarrow>
     le_book_id e = book_id \<and> le_event_id e = pe_event_id pe \<and> event_key e = stream_key pe
     \<and> le_payload e = pe_payload pe \<and> le_command_id e = pe_command_id pe
     \<and> le_actor_subject_id e = pe_actor_subject_id pe \<and> le_correlation_id e = pe_correlation_id pe
     \<and> le_causation_event_id e = pe_causation_event_id pe \<and> le_effective_at e = pe_effective_at pe"

lemma dump_registered_Inr: "dump_registered p = Inr v \<Longrightarrow> v = model_dump p"
  by (auto simp: dump_registered_def Let_def result_simps)

lemma EventHashEnvelope_Inr: "EventHashEnvelope e = Inr e' \<Longrightarrow> e' = e"
  by (auto simp: EventHashEnvelope_def result_simps)

lemma stored_event_Inr:
  assumes "stored_event sha256 b pos v prev pe = Inr e"
  shows "records_pending b pe e" "sealed sha256 e" "le_book_position e = pos"
    "le_stream_version e = v" "le_previous_hash e = prev"
proof -
  from assms obtain dumped envelope hashed where d: "dump_registered (pe_payload pe) = Inr dumped"
    and en: "EventHashEnvelope (pending_envelope b pos v prev pe) = Inr envelope"
    and h: "event_hash sha256 envelope dumped = Inr hashed"
    and e: "e = \<lparr>le_event_id = pe_event_id pe, le_book_id = b, le_book_position = pos,
        le_stream_type = pe_stream_type pe, le_stream_id = pe_stream_id pe,
        le_stream_version = v, le_event_type = event_type (pe_payload pe),
        le_event_schema_version = schema_version (pe_payload pe),
        le_command_id = pe_command_id pe, le_actor_subject_id = pe_actor_subject_id pe,
        le_correlation_id = pe_correlation_id pe,
        le_causation_event_id = pe_causation_event_id pe, le_effective_at = pe_effective_at pe,
        le_payload = pe_payload pe, le_previous_hash = prev, le_event_hash = hashed\<rparr>"
    by (auto simp: stored_event_def result_simps)
  show "records_pending b pe e" by (simp add: e records_pending_def event_key_def stream_key_def)
  have "event_envelope e = envelope"
    using EventHashEnvelope_Inr [OF en] by (simp add: e event_envelope_def pending_envelope_def)
  moreover from this have "EventHashEnvelope (event_envelope e) = Inr (event_envelope e)"
    using en EventHashEnvelope_Inr [OF en] by simp
  ultimately show "sealed sha256 e" using h dump_registered_Inr [OF d] by (simp add: sealed_def e)
qed (use assms in \<open>auto simp: stored_event_def result_simps\<close>)

definition append_inv ::
    "(byte list \<Rightarrow> byte list) \<Rightarrow> uuid \<Rightarrow> int \<Rightarrow> byte list \<Rightarrow> (stream_key \<Rightarrow> int) \<Rightarrow> append_state \<Rightarrow> bool" where
  "append_inv sha256 b pos h versions st \<longleftrightarrow>
     (let new = aq_stored_events st in
      numbered pos (map le_book_position new) \<and> aq_next_position st = pos + int (length new)
      \<and> chained h new \<and> aq_previous_hash st = last_hash h new
      \<and> list_all (sealed sha256) new \<and> list_all (\<lambda>e. le_book_id e = b) new
      \<and> (\<forall>k. numbered (versions k) (map le_stream_version (in_stream k new))
           \<and> cget (aq_next_versions st) k = versions k + int (length (in_stream k new)))
      \<and> distinct (map fst (aq_terminal_by_stream st))
      \<and> (\<forall>k. map_of (aq_terminal_by_stream st) k
           = (if in_stream k new = [] then None else Some (last (in_stream k new)))))"

lemma append_step_Inr:
  assumes "append_step sha256 b st pe = Inr st'"
  obtains e where "records_pending b pe e" "sealed sha256 e" "le_book_position e = aq_next_position st + 1"
    "le_stream_version e = cget (aq_next_versions st) (stream_key pe) + 1"
    "le_previous_hash e = aq_previous_hash st"
    "st' = \<lparr>aq_next_position = aq_next_position st + 1, aq_previous_hash = le_event_hash e,
        aq_next_versions = cadd (stream_key pe) 1 (aq_next_versions st), aq_stored_events = aq_stored_events st @ [e],
        aq_terminal_by_stream = AList.update (stream_key pe) e (aq_terminal_by_stream st)\<rparr>"
proof -
  let ?v = "cget (cadd (stream_key pe) 1 (aq_next_versions st)) (stream_key pe)"
  from assms obtain e where e: "stored_event sha256 b (aq_next_position st + 1) ?v (aq_previous_hash st) pe = Inr e"
    and st': "st' = \<lparr>aq_next_position = aq_next_position st + 1, aq_previous_hash = le_event_hash e,
        aq_next_versions = cadd (stream_key pe) 1 (aq_next_versions st), aq_stored_events = aq_stored_events st @ [e],
        aq_terminal_by_stream = AList.update (stream_key pe) e (aq_terminal_by_stream st)\<rparr>"
    by (auto simp: append_step_def Let_def rbind_eq_Inr)
  from stored_event_Inr [OF e] st' that show thesis by (simp add: counter_simps)
qed

lemma append_step_keeps:
  assumes inv: "append_inv sha256 b pos h versions st" and step: "append_step sha256 b st pe = Inr st'"
  shows "append_inv sha256 b pos h versions st'"
proof -
  from step obtain e where e: "records_pending b pe e" "sealed sha256 e" "le_book_position e = aq_next_position st + 1"
    "le_stream_version e = cget (aq_next_versions st) (stream_key pe) + 1"
    "le_previous_hash e = aq_previous_hash st"
    and st': "st' = \<lparr>aq_next_position = aq_next_position st + 1, aq_previous_hash = le_event_hash e,
        aq_next_versions = cadd (stream_key pe) 1 (aq_next_versions st), aq_stored_events = aq_stored_events st @ [e],
        aq_terminal_by_stream = AList.update (stream_key pe) e (aq_terminal_by_stream st)\<rparr>"
    by (rule append_step_Inr)
  have k: "event_key e = stream_key pe" "le_book_id e = b" using e(1) by (simp_all add: records_pending_def)
  have upd: "distinct (map fst (AList.update (stream_key pe) e (aq_terminal_by_stream st)))"
    using inv by (simp add: append_inv_def Let_def distinct_update)
  from inv e(2-5) k upd show ?thesis
    unfolding append_inv_def Let_def st'
    by (simp add: numbered_append chained_append counter_simps update_conv' del: split_paired_All)
qed

interpretation append_loop: checked_loop "append_step sha256 b" "\<lambda>_. True" "append_inv sha256 b pos h versions"
  for sha256 b pos h versions
  by unfold_locales (rule append_step_keeps)

lemma append_loop_records:
  "foldE (append_step sha256 b) st events = Inr st' \<Longrightarrow>
     \<exists>new. aq_stored_events st' = aq_stored_events st @ new \<and> list_all2 (records_pending b) events new"
proof (induction events arbitrary: st)
  case Nil
  then show ?case by simp
next
  case (Cons pe events)
  then obtain st1 where s1: "append_step sha256 b st pe = Inr st1"
    and rest: "foldE (append_step sha256 b) st1 events = Inr st'" by (auto simp: rbind_eq_Inr)
  from s1 obtain e where e: "records_pending b pe e" "aq_stored_events st1 = aq_stored_events st @ [e]"
    by (rule append_step_Inr) simp
  from Cons.IH [OF rest] obtain new where "aq_stored_events st' = aq_stored_events st1 @ new"
    "list_all2 (records_pending b) events new" by blast
  with e show ?case by (intro exI [of _ "e # new"]) simp
qed

section \<open>Advancing the heads\<close>

lemma stream_head_key_terminal [simp]: "stream_head_key (terminal_head b k e) = (b, k)"
  by (simp add: stream_head_key_def terminal_head_def)

lemma insert_stream_head_Inr:
  "insert_stream_head new db = Inr db' \<Longrightarrow>
     db' = db\<lparr>event_stream_heads := event_stream_heads db @ [new]\<rparr>
     \<and> stream_head_key new \<notin> stream_head_key ` set (event_stream_heads db)"
  by (auto simp: insert_stream_head_def rbind_eq_Inr checks_Inr_iff)

lemma update_stream_head_Inr:
  "update_stream_head old new db = Inr db' \<Longrightarrow>
     db' = db\<lparr>event_stream_heads := replace_by stream_head_key (stream_head_key old) new (event_stream_heads db)\<rparr>"
  by (auto simp: update_stream_head_def rbind_eq_Inr)

lemma advance_stream_head_Inr:
  assumes "advance_stream_head before b db (k, e) = Inr db'" "stream_head_of db b k = stream_head_of before b k"
  shows "\<exists>hs. db' = db\<lparr>event_stream_heads := hs\<rparr>"
    and "stream_head_of db' b' k' = (if (b', k') = (b, k) then Some (terminal_head b k e) else stream_head_of db b' k')"
proof -
  show "\<exists>hs. db' = db\<lparr>event_stream_heads := hs\<rparr>"
    using assms(1) insert_stream_head_Inr update_stream_head_Inr
    by (fastforce simp: advance_stream_head_def lift_db_def Let_def result_simps split: option.splits)
  show "stream_head_of db' b' k' = (if (b', k') = (b, k) then Some (terminal_head b k e) else stream_head_of db b' k')"
  proof (cases "stream_head_of before b k")
    case None
    with assms(1) have "insert_stream_head (terminal_head b k e) db = Inr db'"
      by (simp add: advance_stream_head_def lift_db_def Let_def result_simps)
    from insert_stream_head_Inr [OF this] have db': "db' = db\<lparr>event_stream_heads := event_stream_heads db @ [terminal_head b k e]\<rparr>"
      by blast
    from None assms(2) have none: "find_by stream_head_key (b, k) (event_stream_heads db) = None"
      by (simp add: stream_head_of_def)
    show ?thesis
    proof (cases "(b', k') = (b, k)")
      case True
      with none show ?thesis by (simp add: stream_head_of_def db' find_by_append) (simp add: find_by_def)
    next
      case False
      then show ?thesis
        by (simp add: stream_head_of_def db' find_by_append split: option.split) (auto simp: find_by_def)
    qed
  next
    case (Some old)
    with assms(1) have "update_stream_head old (terminal_head b k e) db = Inr db'"
      by (simp add: advance_stream_head_def lift_db_def Let_def result_simps)
    from update_stream_head_Inr [OF this] have db': "db' = db\<lparr>event_stream_heads :=
        replace_by stream_head_key (stream_head_key old) (terminal_head b k e) (event_stream_heads db)\<rparr>" .
    from Some assms(2) have "find_by stream_head_key (b, k) (event_stream_heads db) = Some old"
      by (simp add: stream_head_of_def)
    from find_by_Some_D [OF this] have old: "stream_head_key old = (b, k)"
      and mem: "(b, k) \<in> stream_head_key ` set (event_stream_heads db)" by (auto intro: rev_image_eqI)
    show ?thesis using mem by (simp add: stream_head_of_def db' old find_by_replace_by)
  qed
qed

lemma advance_stream_heads_Inr:
  "foldE (advance_stream_head before b) db terminals = Inr db' \<Longrightarrow> distinct (map fst terminals) \<Longrightarrow>
   \<forall>k\<in>fst ` set terminals. stream_head_of db b k = stream_head_of before b k \<Longrightarrow>
     (\<exists>hs. db' = db\<lparr>event_stream_heads := hs\<rparr>)
     \<and> (\<forall>b' k'. stream_head_of db' b' k' =
          (if b' = b then (case map_of terminals k' of Some e \<Rightarrow> Some (terminal_head b k' e) | None \<Rightarrow> stream_head_of db b k')
           else stream_head_of db b' k'))"
proof (induction terminals arbitrary: db)
  case Nil
  then show ?case by (auto intro: exI [of _ "event_stream_heads db"])
next
  case (Cons t terminals)
  obtain k e where t: "t = (k, e)" by (cases t)
  from Cons.prems(1) t obtain db1 where s: "advance_stream_head before b db (k, e) = Inr db1"
    and rest: "foldE (advance_stream_head before b) db1 terminals = Inr db'" by (auto simp: rbind_eq_Inr)
  have same: "stream_head_of db b k = stream_head_of before b k" using Cons.prems(3) t by simp
  note adv = advance_stream_head_Inr [OF s same]
  have fresh: "k \<notin> fst ` set terminals" using Cons.prems(2) t by simp
  have "\<forall>k'\<in>fst ` set terminals. stream_head_of db1 b k' = stream_head_of before b k'"
    using adv(2) fresh Cons.prems(3) t by auto
  moreover have dt: "distinct (map fst terminals)" using Cons.prems(2) by simp
  ultimately have IH0: "(\<exists>hs. db' = db1\<lparr>event_stream_heads := hs\<rparr>)
     \<and> (\<forall>b' k'. stream_head_of db' b' k' =
          (if b' = b then (case map_of terminals k' of Some e \<Rightarrow> Some (terminal_head b k' e) | None \<Rightarrow> stream_head_of db1 b k')
           else stream_head_of db1 b' k'))" using Cons.IH [OF rest] by blast
  note IH = conjunct1 [OF IH0] and IH2 = conjunct2 [OF IH0, rule_format]
  from IH adv(1) have "\<exists>hs. db' = db\<lparr>event_stream_heads := hs\<rparr>" by fastforce
  moreover have "stream_head_of db' b' k' =
      (if b' = b then (case map_of (t # terminals) k' of Some e \<Rightarrow> Some (terminal_head b k' e) | None \<Rightarrow> stream_head_of db b k')
           else stream_head_of db b' k')" for b' k'
  proof (cases "b' = b \<and> k' = k")
    case True
    with fresh have "map_of terminals k' = None" by (simp add: map_of_eq_None_iff)
    with True show ?thesis by (simp add: IH2 t adv(2))
  next
    case False
    then show ?thesis by (auto simp: IH2 t adv(2) split: option.split)
  qed
  ultimately show ?case by blast
qed

lemma update_book_event_head_Inr:
  "update_book_event_head old new db = Inr db' \<Longrightarrow>
     db' = db\<lparr>book_event_heads := replace_by hd_book_id (hd_book_id old) new (book_event_heads db)\<rparr>"
  by (auto simp: update_book_event_head_def rbind_eq_Inr)

section \<open>What a successful append does\<close>

lemma append_batch_Inr:
  assumes app: "append_batch sha256 b expected events db = Inr (res, db')"
  obtains head new where
    "find_by hd_book_id b (book_event_heads db) = Some head"
    "events \<noteq> []" "fst ` set expected = stream_key ` set events"
    "\<forall>pe\<in>set events. cget expected (stream_key pe) = current_version db b (stream_key pe)"
    "list_all2 (records_pending b) events new"
    "ledger_events db' = ledger_events db @ new"
    "numbered (hd_last_position head) (map le_book_position new)"
    "chained (hd_last_hash head) new" "list_all (sealed sha256) new" "list_all (\<lambda>e. le_book_id e = b) new"
    "\<forall>k. numbered (current_version db b k) (map le_stream_version (in_stream k new)) \<or> k \<notin> stream_key ` set events"
    "res = \<lparr>ar_start = hd_last_position head + 1, ar_stop = hd_last_position head + int (length events) + 1,
       ar_terminal_hash = last_hash (hd_last_hash head) new, ar_event_ids = map pe_event_id events\<rparr>"
    "\<exists>hs. db' = db\<lparr>ledger_events := ledger_events db @ new,
       deferred_checks := deferred_checks db @ map SyncProjectionCheck new, event_stream_heads := hs,
       book_event_heads := replace_by hd_book_id b
         \<lparr>hd_book_id = b, hd_last_position = hd_last_position head + int (length new),
          hd_last_hash = last_hash (hd_last_hash head) new\<rparr> (book_event_heads db)\<rparr>"
    "\<forall>b' k. stream_head_of db' b' k = (if b' = b \<and> in_stream k new \<noteq> []
       then Some (terminal_head b k (last (in_stream k new))) else stream_head_of db b' k)"
proof -
  let ?keys = "dict_fromkeys (map stream_key events)"
  let ?v = "\<lambda>k. if k \<in> stream_key ` set events then current_version db b k else 0"
  from app obtain head st db1 db2 where
    valid: "validate_batch expected events = Inr ()" and
    head: "find_by hd_book_id b (book_event_heads db) = Some head" and
    versions: "checkE (check_stream_version db b expected) ?keys = Inr ()" and
    loop: "foldE (append_step sha256 b)
                \<lparr>aq_next_position = hd_last_position head, aq_previous_hash = hd_last_hash head,
                 aq_next_versions = map (\<lambda>key. (key, current_version db b key)) ?keys,
                 aq_stored_events = [], aq_terminal_by_stream = []\<rparr> events = Inr st" (is "foldE _ ?st0 _ = _") and
    ins: "insert_events (aq_stored_events st) db = Inr db1" and
    streams: "foldE (advance_stream_head db b) db1 (aq_terminal_by_stream st) = Inr db2" and
    upd: "update_book_event_head head \<lparr>hd_book_id = b, hd_last_position = aq_next_position st,
                 hd_last_hash = aq_previous_hash st\<rparr> db2 = Inr db'" and
    res: "res = \<lparr>ar_start = hd_last_position head + 1, ar_stop = aq_next_position st + 1,
             ar_terminal_hash = aq_previous_hash st, ar_event_ids = map pe_event_id events\<rparr>"
    by (auto simp: append_batch_def Let_def rbind_eq_Inr lift_db_def raise_as_iff split: option.splits)
  have hb: "hd_book_id head = b" using find_by_Some_D [OF head] by simp
  have "append_inv sha256 b (hd_last_position head) (hd_last_hash head) ?v ?st0"
    by (auto simp: append_inv_def cget_of_keys)
  with loop have inv: "append_inv sha256 b (hd_last_position head) (hd_last_hash head) ?v st"
    by (blast intro: append_loop.loop_keeps [of _ _ _ _ _ _ events])
  define new where "new = aq_stored_events st"
  have nums: "numbered (hd_last_position head) (map le_book_position new)"
    "aq_next_position st = hd_last_position head + int (length new)"
    "chained (hd_last_hash head) new" "aq_previous_hash st = last_hash (hd_last_hash head) new"
    "list_all (sealed sha256) new" "list_all (\<lambda>e. le_book_id e = b) new"
    "\<And>k. numbered (?v k) (map le_stream_version (in_stream k new))"
    "distinct (map fst (aq_terminal_by_stream st))"
    "\<And>k. map_of (aq_terminal_by_stream st) k = (if in_stream k new = [] then None else Some (last (in_stream k new)))"
    using inv unfolding append_inv_def Let_def new_def by blast+
  from append_loop_records [OF loop] have rec: "list_all2 (records_pending b) events new"
    by (simp add: new_def)
  have len: "length new = length events" using rec by (simp add: list_all2_lengthD)
  from insert_events_Inr [OF ins] have db1: "db1 = db\<lparr>ledger_events := ledger_events db @ new,
     deferred_checks := deferred_checks db @ map SyncProjectionCheck new\<rparr>" by (simp add: new_def)
  have same: "stream_head_of db1 b' k = stream_head_of db b' k" for b' k by (simp add: db1 stream_head_of_def)
  from advance_stream_heads_Inr [OF streams nums(8)] same
  have hs: "\<exists>hs. db2 = db1\<lparr>event_stream_heads := hs\<rparr>" and
    sh2: "\<And>b' k'. stream_head_of db2 b' k' = (if b' = b then (case map_of (aq_terminal_by_stream st) k' of
            Some e \<Rightarrow> Some (terminal_head b k' e) | None \<Rightarrow> stream_head_of db1 b k')
           else stream_head_of db1 b' k')" by auto
  from update_book_event_head_Inr [OF upd] have db': "db' = db2\<lparr>book_event_heads := replace_by hd_book_id b
      \<lparr>hd_book_id = b, hd_last_position = aq_next_position st, hd_last_hash = aq_previous_hash st\<rparr> (book_event_heads db2)\<rparr>"
    by (simp add: hb)
  show thesis
  proof (rule that [of head new])
    show "find_by hd_book_id b (book_event_heads db) = Some head" by (rule head)
    show "events \<noteq> []" "fst ` set expected = stream_key ` set events"
      using valid by (simp_all add: validate_batch_def result_simps)
    show "\<forall>pe\<in>set events. cget expected (stream_key pe) = current_version db b (stream_key pe)"
      using versions by (auto simp: result_simps check_stream_version_def Let_def split: if_splits)
    show "list_all2 (records_pending b) events new" by (rule rec)
    show "ledger_events db' = ledger_events db @ new" using hs by (auto simp: db' db1)
    show "\<forall>k. numbered (current_version db b k) (map le_stream_version (in_stream k new)) \<or> k \<notin> stream_key ` set events"
    proof
      fix k
      show "numbered (current_version db b k) (map le_stream_version (in_stream k new)) \<or> k \<notin> stream_key ` set events"
        using nums(7) [of k] by (cases "k \<in> stream_key ` set events") simp_all
    qed
    show "res = \<lparr>ar_start = hd_last_position head + 1, ar_stop = hd_last_position head + int (length events) + 1,
       ar_terminal_hash = last_hash (hd_last_hash head) new, ar_event_ids = map pe_event_id events\<rparr>"
      by (simp add: res nums(2,4) len)
    show "\<exists>hs. db' = db\<lparr>ledger_events := ledger_events db @ new,
       deferred_checks := deferred_checks db @ map SyncProjectionCheck new, event_stream_heads := hs,
       book_event_heads := replace_by hd_book_id b
         \<lparr>hd_book_id = b, hd_last_position = hd_last_position head + int (length new),
          hd_last_hash = last_hash (hd_last_hash head) new\<rparr> (book_event_heads db)\<rparr>"
      using hs by (auto simp: db' db1 nums(2,4))
    show "\<forall>b' k. stream_head_of db' b' k = (if b' = b \<and> in_stream k new \<noteq> []
       then Some (terminal_head b k (last (in_stream k new))) else stream_head_of db b' k)"
    proof (intro allI)
      fix b' k
      have "stream_head_of db' b' k = stream_head_of db2 b' k" by (simp add: db' stream_head_of_def)
      then show "stream_head_of db' b' k = (if b' = b \<and> in_stream k new \<noteq> []
         then Some (terminal_head b k (last (in_stream k new))) else stream_head_of db b' k)"
        by (simp add: sh2 same nums(9))
    qed
  qed (use nums in blast)+
qed

section \<open>The invariant\<close>

lemma terminal_head_simps [simp]:
  "sh_book_id (terminal_head b k e) = b" "sh_last_version (terminal_head b k e) = le_stream_version e"
  "sh_last_book_position (terminal_head b k e) = le_book_position e"
  by (simp_all add: terminal_head_def)

lemma current_version_counts:
  assumes "book_ledger_ok sha256 db b"
  shows "current_version db b k = int (length (in_stream k (book_events db b)))"
proof -
  let ?es = "in_stream k (book_events db b)"
  have n: "numbered 0 (map le_stream_version ?es)" and sh: "stream_head_agrees db b k"
    using assms by (simp_all add: book_ledger_ok_def del: split_paired_All)
  show ?thesis
  proof (cases "?es = []")
    case True
    with sh show ?thesis by (simp add: current_version_def stream_head_agrees_def)
  next
    case False
    from numbered_last [OF n] False have "le_stream_version (last ?es) = int (length ?es)"
      by (simp add: last_map)
    with sh False show ?thesis by (simp add: current_version_def stream_head_agrees_def)
  qed
qed

lemma book_events_append:
  "ledger_events db' = ledger_events db @ new \<Longrightarrow> list_all (\<lambda>e. le_book_id e = b) new \<Longrightarrow>
     book_events db' b' = book_events db b' @ (if b' = b then new else [])"
  by (auto simp: book_events_def list_all_iff filter_empty_conv)

lemma in_stream_events: "list_all2 (records_pending b) events new \<Longrightarrow> k \<notin> stream_key ` set events \<Longrightarrow> in_stream k new = []"
  by (induction rule: list_all2_induct) (auto simp: records_pending_def)

lemma append_keeps_ledger:
  assumes ok: "ledger_ok sha256 db" and app: "append_batch sha256 b expected events db = Inr (res, db')"
  shows "ledger_ok sha256 db'"
proof -
  from app obtain head new where
    head: "find_by hd_book_id b (book_event_heads db) = Some head" and
    rec: "list_all2 (records_pending b) events new" and
    evs: "ledger_events db' = ledger_events db @ new" and
    pos: "numbered (hd_last_position head) (map le_book_position new)" and
    ch: "chained (hd_last_hash head) new" and sl: "list_all (sealed sha256) new" and
    bk: "list_all (\<lambda>e. le_book_id e = b) new" and
    vs: "\<forall>k. numbered (current_version db b k) (map le_stream_version (in_stream k new)) \<or> k \<notin> stream_key ` set events" and
    db': "\<exists>hs. db' = db\<lparr>ledger_events := ledger_events db @ new,
       deferred_checks := deferred_checks db @ map SyncProjectionCheck new, event_stream_heads := hs,
       book_event_heads := replace_by hd_book_id b
         \<lparr>hd_book_id = b, hd_last_position = hd_last_position head + int (length new),
          hd_last_hash = last_hash (hd_last_hash head) new\<rparr> (book_event_heads db)\<rparr>" and
    sh: "\<forall>b' k. stream_head_of db' b' k = (if b' = b \<and> in_stream k new \<noteq> []
       then Some (terminal_head b k (last (in_stream k new))) else stream_head_of db b' k)"
    by (rule append_batch_Inr)
  have bh: "book_event_heads db' = replace_by hd_book_id b
         \<lparr>hd_book_id = b, hd_last_position = hd_last_position head + int (length new),
          hd_last_hash = last_hash (hd_last_hash head) new\<rparr> (book_event_heads db)"
    using db' by auto
  have memb: "b \<in> hd_book_id ` set (book_event_heads db)"
    using find_by_Some_D [OF head] by (auto intro: rev_image_eqI)
  note be = book_events_append [OF evs bk]
  have ok': "book_ledger_ok sha256 db b'" for b' using ok by (simp add: ledger_ok_def)
  note parts = ok' [unfolded book_ledger_ok_def]
  have hb: "hd_last_position head = int (length (book_events db b))"
    "hd_last_hash head = last_hash ZERO_HASH (book_events db b)"
    using parts [of b] head by (simp_all add: head_agrees_def)
  have "book_ledger_ok sha256 db' b'" for b'
  proof (cases "b' = b")
    case False
    with parts [of b'] show ?thesis
      unfolding book_ledger_ok_def head_agrees_def stream_head_agrees_def
      by (simp add: be sh bh find_by_replace_by del: split_paired_All cong: option.case_cong)
  next
    case True
    have vk: "numbered (int (length (in_stream k (book_events db b)))) (map le_stream_version (in_stream k new))" for k
    proof (cases "k \<in> stream_key ` set events")
      case True
      with vs [rule_format, of k] show ?thesis by (simp add: current_version_counts [OF ok'])
    next
      case False
      then show ?thesis by (simp add: in_stream_events [OF rec])
    qed
    show ?thesis unfolding True book_ledger_ok_def
    proof (intro conjI allI)
      show "numbered 0 (map le_book_position (book_events db' b))"
        using parts [of b] pos by (simp add: be numbered_append hb)
      show "chained ZERO_HASH (book_events db' b)"
        using parts [of b] ch by (simp add: be chained_append hb)
      show "list_all (sealed sha256) (book_events db' b)" using parts [of b] sl by (simp add: be)
      show "head_agrees db' b"
        using memb by (simp add: head_agrees_def bh find_by_replace_by be hb last_hash_append)
      fix k
      show "numbered 0 (map le_stream_version (in_stream k (book_events db' b)))"
        using parts [of b] vk [of k] by (simp add: be numbered_append del: split_paired_All)
      have "stream_head_agrees db b k" using parts [of b] by (simp del: split_paired_All)
      then show "stream_head_agrees db' b k" by (simp add: stream_head_agrees_def be sh)
    qed
  qed
  then show ?thesis by (simp add: ledger_ok_def)
qed

lemma open_keeps_ledger:
  assumes ok: "ledger_ok sha256 db"
    and op: "insert_book_event_head \<lparr>hd_book_id = b, hd_last_position = 0, hd_last_hash = ZERO_HASH\<rparr> db = Inr db'"
  shows "ledger_ok sha256 db'"
proof -
  from op have db': "db' = db\<lparr>book_event_heads := book_event_heads db
        @ [\<lparr>hd_book_id = b, hd_last_position = 0, hd_last_hash = ZERO_HASH\<rparr>]\<rparr>"
    and fresh: "b \<notin> hd_book_id ` set (book_event_heads db)"
    by (auto simp: insert_book_event_head_def rbind_eq_Inr checks_Inr_iff)
  have "book_ledger_ok sha256 db' b'" for b'
  proof -
    have be: "book_events db' b' = book_events db b'" and sh: "stream_head_of db' b' k = stream_head_of db b' k" for k
      by (simp_all add: db' book_events_def stream_head_of_def)
    have ok': "book_ledger_ok sha256 db b'" using ok by (simp add: ledger_ok_def)
    have "head_agrees db' b'"
    proof (cases "find_by hd_book_id b' (book_event_heads db)")
      case None
      then have "find_by hd_book_id b' (book_event_heads db') = None \<or>
          find_by hd_book_id b' (book_event_heads db') = Some \<lparr>hd_book_id = b, hd_last_position = 0, hd_last_hash = ZERO_HASH\<rparr>"
        by (simp add: db' find_by_append) (simp add: find_by_def)
      moreover have "book_events db b' = []" using ok' None by (simp add: book_ledger_ok_def head_agrees_def)
      ultimately show ?thesis by (auto simp: head_agrees_def be)
    next
      case (Some h)
      then have "find_by hd_book_id b' (book_event_heads db') = Some h" by (simp add: db' find_by_append)
      with Some ok' show ?thesis by (simp add: book_ledger_ok_def head_agrees_def be)
    qed
    with ok' show ?thesis
      unfolding book_ledger_ok_def stream_head_agrees_def by (simp add: be sh del: split_paired_All)
  qed
  then show ?thesis by (simp add: ledger_ok_def)
qed

text \<open>
  Every state the ledger can get into: it starts empty, Books are opened (\<open>create_book.py\<close> inserts
  the head at position 0 with the zero hash), batches are appended, and nothing else writes the
  three tables of the ledger.
\<close>

definition same_ledger :: "db \<Rightarrow> db \<Rightarrow> bool" where
  "same_ledger db db' \<longleftrightarrow> ledger_events db' = ledger_events db \<and> book_event_heads db' = book_event_heads db
     \<and> event_stream_heads db' = event_stream_heads db"

lemma same_ledger_ok: "same_ledger db db' \<Longrightarrow> ledger_ok sha256 db' = ledger_ok sha256 db"
  by (simp add: same_ledger_def ledger_ok_def book_ledger_ok_def head_agrees_def stream_head_agrees_def
      book_events_def stream_head_of_def del: split_paired_All cong: option.case_cong)

inductive ledger_reachable :: "(byte list \<Rightarrow> byte list) \<Rightarrow> db \<Rightarrow> bool" for sha256 where
  empty: "ledger_events db = [] \<Longrightarrow> book_event_heads db = [] \<Longrightarrow> event_stream_heads db = [] \<Longrightarrow> ledger_reachable sha256 db"
| open_book: "ledger_reachable sha256 db \<Longrightarrow>
    insert_book_event_head \<lparr>hd_book_id = b, hd_last_position = 0, hd_last_hash = ZERO_HASH\<rparr> db = Inr db' \<Longrightarrow>
    ledger_reachable sha256 db'"
| append: "ledger_reachable sha256 db \<Longrightarrow> append_batch sha256 b expected events db = Inr (res, db') \<Longrightarrow>
    ledger_reachable sha256 db'"
| elsewhere: "ledger_reachable sha256 db \<Longrightarrow> same_ledger db db' \<Longrightarrow> ledger_reachable sha256 db'"

lemma reachable_ledger_ok: "ledger_reachable sha256 db \<Longrightarrow> ledger_ok sha256 db"
proof (induction rule: ledger_reachable.induct)
  case (empty db)
  then show ?case
    by (simp add: ledger_ok_def book_ledger_ok_def head_agrees_def stream_head_agrees_def book_events_def
        stream_head_of_def find_by_def in_stream_def)
next
  case (open_book db b db')
  then show ?case using open_keeps_ledger by blast
next
  case (append db b expected events res db')
  then show ?case using append_keeps_ledger by blast
next
  case (elsewhere db db')
  then show ?case using same_ledger_ok by blast
qed

section \<open>Batches that can be stored\<close>

lemma prove_juuid [simp]: "prove_json_value (juuid u) = Inr ()" "prove_json_value (jopt juuid x) = Inr ()"
  "prove_json_value (jstr s) = Inr ()"
  by (rule prove_json_texts)+

lemma small_int_provable: "\<bar>n\<bar> < 2 ^ 64 \<Longrightarrow> prove_json_value (JInt n) = Inr ()"
proof -
  assume n: "\<bar>n\<bar> < 2 ^ 64"
  have "(2 :: int) ^ 64 \<le> 10 ^ 64" by (rule power_mono) simp_all
  also have "(10 :: int) ^ 64 \<le> CANONICAL_INTEGER_ABS_LIMIT"
    unfolding CANONICAL_INTEGER_ABS_LIMIT_def by (rule power_increasing) simp_all
  finally have "\<bar>n\<bar> < CANONICAL_INTEGER_ABS_LIMIT" using n by linarith
  then have "\<not> (n \<le> - CANONICAL_INTEGER_ABS_LIMIT \<or> CANONICAL_INTEGER_ABS_LIMIT \<le> n)" by linarith
  then show ?thesis by (simp only: prove_json_value.simps if_False)
qed

lemma positive_int_provable:
  "require_positive_integer n m = Inr () \<Longrightarrow> m \<le> BIGINT_MAX \<Longrightarrow> prove_json_value (JInt n) = Inr ()"
  by (rule small_int_provable) (auto simp: require_positive_integer_def BIGINT_MAX_def split: if_splits)

lemma envelope_provable:
  assumes "EventHashEnvelope e = Inr e'"
  shows "\<exists>v. canonical_envelope_value e = Inr v \<and> prove_json_value v = Inr ()"
proof -
  from assms obtain t where t: "require_timestamp (eh_effective_at e) = Inr t"
    and p: "require_positive_integer (eh_book_position e) BIGINT_MAX = Inr ()"
      "require_positive_integer (eh_stream_version e) INTEGER_MAX = Inr ()"
      "require_positive_integer (eh_event_schema_version e) SMALLINT_MAX = Inr ()"
    by (auto simp: EventHashEnvelope_def rbind_eq_Inr)
  have i: "prove_json_value (JInt (eh_book_position e)) = Inr ()"
    "prove_json_value (JInt (eh_stream_version e)) = Inr ()"
    "prove_json_value (JInt (eh_event_schema_version e)) = Inr ()"
    using p by (auto intro!: positive_int_provable simp: BIGINT_MAX_def INTEGER_MAX_def SMALLINT_MAX_def
        simp del: prove_json_value.simps)
  show ?thesis unfolding canonical_envelope_value_def t rbind_Inr
    by (rule exI, rule conjI, rule refl, rule prove_jobj) (simp add: i del: prove_json_value.simps)
qed

lemma event_hash_total:
  assumes "EventHashEnvelope e = Inr e'" "prove_json_value p = Inr ()" "exact_dict p"
  shows "\<exists>x. event_hash sha256 e p = Inr (sha256 x)"
proof -
  from envelope_provable [OF assms(1)] obtain v where "canonical_envelope_value e = Inr v" "prove_json_value v = Inr ()"
    by blast
  with assms(2,3) show ?thesis
    by (simp add: event_hash_def hash_preimage_def canonical_hash_parts_def encode_json_def canonical_json_bytes_def)
      (rule exI, rule refl)
qed

section \<open>Properties\<close>

lemma chained_nth: "chained h es \<Longrightarrow> i < length es \<Longrightarrow>
  le_previous_hash (es ! i) = (if i = 0 then h else le_event_hash (es ! (i - 1)))"
proof (induction es arbitrary: h i)
  case Nil
  then show ?case by simp
next
  case (Cons e es)
  then show ?case by (cases i) (auto simp: nth_Cons')
qed

text \<open>
  Property C3: in every reachable state the events of a Book are numbered 1, 2, 3, ... without a gap,
  each carries the hash of its own content and the hash of the event before it (zeros for the first),
  every stream is numbered without a gap as well, and both heads stand at the last event.
\<close>

theorem ledger_gapless_and_chained:
  assumes "ledger_reachable sha256 db"
  shows "(\<forall>i < length (book_events db b). let e = book_events db b ! i in
           le_book_position e = int i + 1
           \<and> event_hash sha256 (event_envelope e) (model_dump (le_payload e)) = Inr (le_event_hash e)
           \<and> le_previous_hash e = (if i = 0 then ZERO_HASH else le_event_hash (book_events db b ! (i - 1))))
    \<and> (\<forall>k. \<forall>i < length (in_stream k (book_events db b)).
           le_stream_version (in_stream k (book_events db b) ! i) = int i + 1)
    \<and> (\<forall>h. find_by hd_book_id b (book_event_heads db) = Some h \<longrightarrow>
           hd_last_position h = int (length (book_events db b))
           \<and> hd_last_hash h = last_hash ZERO_HASH (book_events db b))
    \<and> (\<forall>k. current_version db b k = int (length (in_stream k (book_events db b))))"
proof -
  have ok: "book_ledger_ok sha256 db b" using reachable_ledger_ok [OF assms] by (simp add: ledger_ok_def)
  then have n: "numbered 0 (map le_book_position (book_events db b))" and c: "chained ZERO_HASH (book_events db b)"
    and s: "list_all (sealed sha256) (book_events db b)"
    and v: "\<And>k. numbered 0 (map le_stream_version (in_stream k (book_events db b)))"
    and h: "head_agrees db b" by (auto simp only: book_ledger_ok_def)
  show ?thesis
  proof (intro conjI allI impI)
    fix i assume i: "i < length (book_events db b)"
    show "let e = book_events db b ! i in le_book_position e = int i + 1
           \<and> event_hash sha256 (event_envelope e) (model_dump (le_payload e)) = Inr (le_event_hash e)
           \<and> le_previous_hash e = (if i = 0 then ZERO_HASH else le_event_hash (book_events db b ! (i - 1)))"
      using numbered_nth [OF n, of i] chained_nth [OF c i] s i by (simp add: Let_def list_all_length sealed_def)
  next
    fix k i assume "i < length (in_stream k (book_events db b))"
    then show "le_stream_version (in_stream k (book_events db b) ! i) = int i + 1"
      using numbered_nth [OF v [of k], of i] by simp
  next
    fix hd assume "find_by hd_book_id b (book_event_heads db) = Some hd"
    with h show "hd_last_position hd = int (length (book_events db b))"
      "hd_last_hash hd = last_hash ZERO_HASH (book_events db b)" by (simp_all add: head_agrees_def)
  next
    fix k show "current_version db b k = int (length (in_stream k (book_events db b)))"
      by (rule current_version_counts [OF ok])
  qed
qed

text \<open>A small ledger: one Book, in which one event is appended.\<close>

abbreviation demo_sha :: "byte list \<Rightarrow> byte list" where
  "demo_sha \<equiv> \<lambda>_. replicate 32 1"

abbreviation demo_book :: book_record where
  "demo_book \<equiv> \<lparr>bk_book_id = 2, bk_current_name = ''b'', bk_base_asset_code = None, bk_write_state = ''active''\<rparr>"

abbreviation demo_db :: db where
  "demo_db \<equiv> \<lparr>books = [demo_book], assets = [], accounts = [], category_versions = [], description_sidecars = [],
     book_members = [],
     book_event_heads = [\<lparr>hd_book_id = 2, hd_last_position = 0, hd_last_hash = ZERO_HASH\<rparr>], ledger_events = [],
     event_stream_heads = [], command_receipts = [], journal_transactions = [], journal_postings = [],
     account_balances = [], transaction_reversals = [], external_references = [], reporting_lines = [],
     applied_events = [], credit_card_transactions = [], investment_lots = [], lot_allocations = [],
     deferred_checks = []\<rparr>"

abbreviation demo_pending :: pending_event where
  "demo_pending \<equiv> \<lparr>pe_event_id = 7, pe_stream_type = ''s'', pe_stream_id = 3,
     pe_payload = ReportingLinesCleared \<lparr>lc_transaction_id = 3, lc_classification_revision = 1\<rparr>,
     pe_command_id = 4, pe_actor_subject_id = ''a'', pe_correlation_id = 5, pe_causation_event_id = None,
     pe_effective_at = 0\<rparr>"

definition demo_event :: ledger_event_record where
  "demo_event = \<lparr>le_event_id = 7, le_book_id = 2, le_book_position = 1, le_stream_type = ''s'', le_stream_id = 3,
     le_stream_version = 1, le_event_type = ''ReportingLinesCleared'', le_event_schema_version = 1,
     le_command_id = 4, le_actor_subject_id = ''a'', le_correlation_id = 5, le_causation_event_id = None,
     le_effective_at = 0, le_payload = ReportingLinesCleared \<lparr>lc_transaction_id = 3, lc_classification_revision = 1\<rparr>,
     le_previous_hash = ZERO_HASH, le_event_hash = replicate 32 1\<rparr>"

lemma demo_dump: "dump_registered (pe_payload demo_pending) = Inr (model_dump (pe_payload demo_pending))"
proof -
  have "prove_json_value (JInt 1) = Inr ()" by (rule small_int_provable) simp
  then have "prove_json_value (model_dump (pe_payload demo_pending)) = Inr ()"
    by (simp add: dump_lines_cleared_def prove_jobj del: prove_json_value.simps)
  then show ?thesis by (simp add: dump_registered_def canonical_json_bytes_def Let_def)
qed

lemma demo_stored: "stored_event demo_sha 2 1 1 ZERO_HASH demo_pending = Inr demo_event"
proof -
  obtain t where t: "require_timestamp 0 = Inr t" using demo_timestamp by blast
  have e: "EventHashEnvelope (pending_envelope 2 1 1 ZERO_HASH demo_pending) = Inr (pending_envelope 2 1 1 ZERO_HASH demo_pending)"
    by (simp add: EventHashEnvelope_def pending_envelope_def require_positive_integer_def require_bounded_string_def
        BIGINT_MAX_def INTEGER_MAX_def SMALLINT_MAX_def schema_version_def HASH_PLACEHOLDER_RECORDED_AT_def t ZERO_HASH_def)
  have "prove_json_value (model_dump (pe_payload demo_pending)) = Inr ()"
    using demo_dump by (auto simp: dump_registered_def canonical_json_bytes_def Let_def rbind_eq_Inr simp del: model_dump.simps)
  from event_hash_total [OF e this exact_dict_dump] obtain x where
    "event_hash demo_sha (pending_envelope 2 1 1 ZERO_HASH demo_pending) (model_dump (pe_payload demo_pending)) = Inr (replicate 32 1)"
    by blast
  then show ?thesis
    unfolding stored_event_def demo_dump raise_as_simps rbind_Inr e by (simp add: demo_event_def schema_version_def)
qed

definition demo_appended :: db where
  "demo_appended = demo_db\<lparr>ledger_events := [demo_event], deferred_checks := [SyncProjectionCheck demo_event],
     event_stream_heads := [terminal_head 2 (''s'', 3) demo_event],
     book_event_heads := [\<lparr>hd_book_id = 2, hd_last_position = 1, hd_last_hash = replicate 32 1\<rparr>]\<rparr>"

lemmas table_checks = checks_Inr_iff varchar_def bigint_def integer4_def smallint_def nonblank_def octet_length_def

lemma demo_append:
  "append_batch demo_sha 2 [((''s'', 3), 0)] [demo_pending] demo_db =
     Inr (\<lparr>ar_start = 1, ar_stop = 2, ar_terminal_hash = replicate 32 1, ar_event_ids = [7]\<rparr>, demo_appended)"
proof -
  let ?db1 = "demo_db\<lparr>ledger_events := [demo_event], deferred_checks := [SyncProjectionCheck demo_event]\<rparr>"
  have v: "validate_batch [((''s'', 3), 0)] [demo_pending] = Inr ()"
    by (simp add: validate_batch_def checks_Inr_iff stream_key_def)
  have c: "check_stream_version demo_db 2 [((''s'', 3), 0)] (''s'', 3) = Inr ()"
    by (simp add: check_stream_version_def cget_def current_version_def stream_head_of_def find_by_def Let_def)
  have one: "cadd (''s'', 3) 1 [((''s'', 3), 0)] = [((''s'', 3), 1)]" "cget [((''s'', 3), 1)] (''s'', 3) = 1"
    by (simp_all add: cadd_def cget_def)
  have step: "append_step demo_sha 2 \<lparr>aq_next_position = 0, aq_previous_hash = ZERO_HASH,
      aq_next_versions = [((''s'', 3), 0)], aq_stored_events = [], aq_terminal_by_stream = []\<rparr> demo_pending
    = Inr \<lparr>aq_next_position = 1, aq_previous_hash = replicate 32 1, aq_next_versions = [((''s'', 3), 1)],
        aq_stored_events = [demo_event], aq_terminal_by_stream = [((''s'', 3), demo_event)]\<rparr>"
    by (simp add: append_step_def stream_key_def one demo_stored Let_def del: replicate.simps) (simp add: demo_event_def)
  have ins: "insert_events [demo_event] demo_db = Inr ?db1"
    by (simp add: insert_events_def insert_rows_def admit_event_def add_event_def event_refers_def table_checks
        demo_event_def ZERO_HASH_def)
  have st: "insert_stream_head (terminal_head 2 (''s'', 3) demo_event) ?db1
      = Inr (?db1\<lparr>event_stream_heads := [terminal_head 2 (''s'', 3) demo_event]\<rparr>)"
    by (simp add: insert_stream_head_def stream_head_types_ok_def v2_guard_event_stream_head_def stream_head_row_ok_def
        stream_head_refers_def table_checks terminal_head_def demo_event_def event_stream_key_def)
  have hd: "update_book_event_head \<lparr>hd_book_id = 2, hd_last_position = 0, hd_last_hash = ZERO_HASH\<rparr>
      \<lparr>hd_book_id = 2, hd_last_position = 1, hd_last_hash = replicate 32 1\<rparr>
      (?db1\<lparr>event_stream_heads := [terminal_head 2 (''s'', 3) demo_event]\<rparr>) = Inr demo_appended"
    by (simp add: update_book_event_head_def v2_guard_book_event_head_def head_row_ok_def table_checks
        demo_event_def demo_appended_def replace_by_def)
  show ?thesis
    by (simp add: append_batch_def v find_by_def dict_fromkeys_def stream_key_def c Let_def current_version_def stream_head_of_def
        step ins lift_db_def advance_stream_head_def st [simplified] hd [simplified] del: replicate.simps)
qed

lemma demo_reachable:
  "ledger_reachable demo_sha (demo_db\<lparr>book_event_heads := []\<rparr>)" "ledger_reachable demo_sha demo_db"
  "ledger_reachable demo_sha demo_appended" "book_events demo_appended 2 = [demo_event]"
proof -
  show e: "ledger_reachable demo_sha (demo_db\<lparr>book_event_heads := []\<rparr>)" by (rule ledger_reachable.empty) simp_all
  then show d: "ledger_reachable demo_sha demo_db"
    by (rule ledger_reachable.open_book [where b = 2])
      (simp add: insert_book_event_head_def v2_guard_book_event_head_def head_row_ok_def table_checks ZERO_HASH_def)
  show "ledger_reachable demo_sha demo_appended" using d demo_append by (rule ledger_reachable.append)
  show "book_events demo_appended 2 = [demo_event]"
    by (simp add: book_events_def demo_appended_def) (simp add: demo_event_def)
qed

theorem ledger_gapless_and_chained_witness: "current_version demo_appended 2 (''s'', 3) = 1"
proof -
  from ledger_gapless_and_chained [OF demo_reachable(3), of 2]
  have "current_version demo_appended 2 (''s'', 3) = int (length (in_stream (''s'', 3) (book_events demo_appended 2)))"
    by blast
  with demo_reachable(4) show ?thesis by (simp add: event_key_def) (simp add: demo_event_def)
qed

lemma reachable_book_ok: "ledger_reachable sha256 db \<Longrightarrow> book_ledger_ok sha256 db b"
  using reachable_ledger_ok unfolding ledger_ok_def by blast

lemma reachable_head:
  assumes "ledger_reachable sha256 db" "find_by hd_book_id b (book_event_heads db) = Some head"
  shows "hd_last_position head = int (length (book_events db b))"
    "hd_last_hash head = last_hash ZERO_HASH (book_events db b)"
proof -
  have "head_agrees db b" using reachable_book_ok [OF assms(1)] unfolding book_ledger_ok_def by blast
  with assms(2) show "hd_last_position head = int (length (book_events db b))"
    "hd_last_hash head = last_hash ZERO_HASH (book_events db b)" by (simp_all add: head_agrees_def)
qed

text \<open>The abstract ledger of a Book is the sequence of events it was given.\<close>

definition pending_of :: "ledger_event_record \<Rightarrow> pending_event" where
  "pending_of e = \<lparr>pe_event_id = le_event_id e, pe_stream_type = le_stream_type e, pe_stream_id = le_stream_id e,
     pe_payload = le_payload e, pe_command_id = le_command_id e, pe_actor_subject_id = le_actor_subject_id e,
     pe_correlation_id = le_correlation_id e, pe_causation_event_id = le_causation_event_id e,
     pe_effective_at = le_effective_at e\<rparr>"

definition book_log :: "db \<Rightarrow> uuid \<Rightarrow> pending_event list" where
  "book_log db b = map pending_of (book_events db b)"

lemma records_pending_of: "records_pending b pe e \<Longrightarrow> pending_of e = pe"
  by (simp add: records_pending_def pending_of_def event_key_def stream_key_def)

lemma list_records_pending_of: "list_all2 (records_pending b) events new \<Longrightarrow> map pending_of new = events"
  by (induction rule: list_all2_induct) (simp_all add: records_pending_of)

text \<open>
  Property C16: appending implements the abstract ledger: the Book's log grows by exactly the batch, in
  the order given, no other Book's log changes, the batch gets the next positions in a row, and what
  the call returns (range, identifiers and terminal hash) is what the ledger then holds.
\<close>

theorem append_refines_log:
  assumes "ledger_reachable sha256 db" "append_batch sha256 b expected events db = Inr (res, db')"
  shows "book_log db' b' = book_log db b' @ (if b' = b then events else [])
    \<and> ar_start res = int (length (book_log db b)) + 1
    \<and> ar_stop res = int (length (book_log db' b)) + 1
    \<and> map le_book_position (drop (length (book_log db b)) (book_events db' b)) = [ar_start res..ar_stop res - 1]
    \<and> map le_event_id (drop (length (book_log db b)) (book_events db' b)) = ar_event_ids res
    \<and> ar_terminal_hash res = last_hash ZERO_HASH (book_events db' b)"
proof -
  from assms(2) obtain head new where
    head: "find_by hd_book_id b (book_event_heads db) = Some head" and
    rec: "list_all2 (records_pending b) events new" and
    evs: "ledger_events db' = ledger_events db @ new" and
    pos: "numbered (hd_last_position head) (map le_book_position new)" and
    bk: "list_all (\<lambda>e. le_book_id e = b) new" and
    res: "res = \<lparr>ar_start = hd_last_position head + 1, ar_stop = hd_last_position head + int (length events) + 1,
       ar_terminal_hash = last_hash (hd_last_hash head) new, ar_event_ids = map pe_event_id events\<rparr>"
    by (rule append_batch_Inr)
  note be = book_events_append [OF evs bk]
  note hb = reachable_head [OF assms(1) head]
  have len: "length new = length events" using rec by (simp add: list_all2_lengthD)
  have ids: "map le_event_id new = map pe_event_id events"
    using rec by (induction rule: list_all2_induct) (simp_all add: records_pending_def)
  have "map le_book_position new = [hd_last_position head + 1..hd_last_position head + int (length events)]"
    by (rule nth_equalityI) (use numbered_nth [OF pos] len in auto)
  then show ?thesis
    using list_records_pending_of [OF rec] by (simp add: book_log_def be res hb len ids last_hash_append)
qed

theorem append_refines_log_witness:
  "book_log demo_appended 2 = [demo_pending] \<and> book_log demo_appended 9 = []"
proof -
  note r = demo_reachable(2)
  have e: "book_log demo_db b = []" for b by (simp add: book_log_def book_events_def)
  from append_refines_log [OF r demo_append, of 2] append_refines_log [OF r demo_append, of 9] e show ?thesis by simp
qed

text \<open>
  Property C30: the expected stream versions are an exact optimistic lock. On a reachable ledger a
  valid batch for an open Book is refused with \<open>StreamVersionConflict\<close> whenever an expected version
  differs from the number of events the stream really holds, naming such a stream and both numbers;
  and a batch that goes in had every expected version right.
\<close>

theorem optimistic_lock_exact:
  assumes "ledger_reachable sha256 db" "validate_batch expected events = Inr ()"
    and "b \<in> hd_book_id ` set (book_event_heads db)"
  shows "(\<forall>key expected_version actual.
            append_batch sha256 b expected events db = Inl (StreamVersionConflict key expected_version actual) \<longrightarrow>
              key \<in> stream_key ` set events \<and> expected_version = cget expected key
              \<and> actual = int (length (in_stream key (book_events db b))) \<and> expected_version \<noteq> actual)
    \<and> ((\<exists>key expected_version actual.
            append_batch sha256 b expected events db = Inl (StreamVersionConflict key expected_version actual))
        \<longleftrightarrow> (\<exists>key \<in> stream_key ` set events. cget expected key \<noteq> int (length (in_stream key (book_events db b)))))
    \<and> (\<forall>res db'. append_batch sha256 b expected events db = Inr (res, db') \<longrightarrow>
          (\<forall>key \<in> stream_key ` set events. cget expected key = int (length (in_stream key (book_events db b)))))"
    (is "?named \<and> ?iff \<and> ?success")
proof -
  have cv: "current_version db b k = int (length (in_stream k (book_events db b)))" for k
    by (rule current_version_counts [OF reachable_book_ok [OF assms(1)]])
  let ?check = "checkE (check_stream_version db b expected) (dict_fromkeys (map stream_key events))"
  obtain head where head: "find_by hd_book_id b (book_event_heads db) = Some head"
    using assms(3) find_by_None_iff [of hd_book_id b "book_event_heads db"]
    by (cases "find_by hd_book_id b (book_event_heads db)") auto
  have raised: "append_batch sha256 b expected events db = Inl (StreamVersionConflict key ev av) \<longleftrightarrow>
      ?check = Inl (StreamVersionConflict key ev av)" for key ev av
  proof -
    have no_step: "append_step sha256 b st pe \<noteq> Inl (StreamVersionConflict key ev av)" for st pe
      by (auto simp: append_step_def stored_event_def Let_def rbind_eq_Inl raise_as_iff)
    have no_loop: "foldE (append_step sha256 b) st es \<noteq> Inl (StreamVersionConflict key ev av)" for st es
      using foldE_Inl_D no_step by metis
    have no_adv: "advance_stream_head d b d' kt \<noteq> Inl (StreamVersionConflict key ev av)" for d d' kt
      by (auto simp: advance_stream_head_def lift_db_def Let_def raise_as_iff split: prod.splits option.splits)
    have no_heads: "foldE (advance_stream_head d b) d' ts \<noteq> Inl (StreamVersionConflict key ev av)" for d d' ts
      using foldE_Inl_D no_adv by metis
    show ?thesis
      using assms(2) head no_loop no_heads
      by (auto simp: append_batch_def Let_def rbind_eq_Inl lift_db_def raise_as_iff)
  qed
  have only: "?check = Inl e \<Longrightarrow> \<exists>key \<in> stream_key ` set events. cget expected key \<noteq> current_version db b key
      \<and> e = StreamVersionConflict key (cget expected key) (current_version db b key)" for e
  proof -
    assume "?check = Inl e"
    from checkE_Inl_D [OF this] obtain key where "key \<in> set (dict_fromkeys (map stream_key events))"
      "check_stream_version db b expected key = Inl e" by (rule bexE)
    then have "key \<in> stream_key ` set events" "check_stream_version db b expected key = Inl e" by simp_all
    then show ?thesis
      by (intro bexI [of _ key]) (simp_all add: check_stream_version_def Let_def split: if_splits)
  qed
  have passes: "?check = Inr () \<longleftrightarrow> (\<forall>key \<in> stream_key ` set events. cget expected key = current_version db b key)"
    by (auto simp: checkE_Inr_iff check_stream_version_def Let_def split: if_splits)
  have ?named
  proof (intro allI impI)
    fix key ev av
    assume "append_batch sha256 b expected events db = Inl (StreamVersionConflict key ev av)"
    then have "?check = Inl (StreamVersionConflict key ev av)" by (rule iffD1 [OF raised])
    from only [OF this] show "key \<in> stream_key ` set events \<and> ev = cget expected key
        \<and> av = int (length (in_stream key (book_events db b))) \<and> ev \<noteq> av" unfolding cv by auto
  qed
  moreover have ?iff
  proof
    assume "\<exists>key expected_version actual.
        append_batch sha256 b expected events db = Inl (StreamVersionConflict key expected_version actual)"
    then show "\<exists>key \<in> stream_key ` set events. cget expected key \<noteq> int (length (in_stream key (book_events db b)))"
    proof (elim exE)
      fix key ev av
      assume "append_batch sha256 b expected events db = Inl (StreamVersionConflict key ev av)"
      then have "?check = Inl (StreamVersionConflict key ev av)" by (rule iffD1 [OF raised])
      from only [OF this] show ?thesis unfolding cv by blast
    qed
  next
    assume "\<exists>key \<in> stream_key ` set events. cget expected key \<noteq> int (length (in_stream key (book_events db b)))"
    with passes cv obtain e where "?check = Inl e" by (cases ?check) auto
    with only raised show "\<exists>key expected_version actual.
        append_batch sha256 b expected events db = Inl (StreamVersionConflict key expected_version actual)" by blast
  qed
  moreover have ?success
  proof (intro allI impI)
    fix res db' assume "append_batch sha256 b expected events db = Inr (res, db')"
    then have "?check = Inr ()" using assms(2) head by (auto simp: append_batch_def Let_def rbind_eq_Inr)
    with passes cv show "\<forall>key \<in> stream_key ` set events. cget expected key = int (length (in_stream key (book_events db b)))"
      by simp
  qed
  ultimately show ?thesis by blast
qed

theorem optimistic_lock_exact_witness:
  "append_batch demo_sha 2 [((''s'', 3), 0)] [demo_pending] demo_appended
     = Inl (StreamVersionConflict (''s'', 3) 0 1)"
proof -
  have v: "validate_batch [((''s'', 3), 0)] [demo_pending] = Inr ()"
    by (simp add: validate_batch_def checks_Inr_iff stream_key_def)
  note r = demo_reachable(3)
  have one: "int (length (in_stream (''s'', 3) (book_events demo_appended 2))) = 1"
    using demo_reachable(4) by (simp add: event_key_def) (simp add: demo_event_def)
  have "2 \<in> hd_book_id ` set (book_event_heads demo_appended)" by (simp add: demo_appended_def)
  note opt = optimistic_lock_exact [OF r v this]
  have "cget [((''s'', 3 :: uuid), 0)] (''s'', 3) \<noteq> int (length (in_stream (''s'', 3) (book_events demo_appended 2)))"
    by (simp add: one cget_def)
  with opt obtain key ev av where app:
    "append_batch demo_sha 2 [((''s'', 3), 0)] [demo_pending] demo_appended = Inl (StreamVersionConflict key ev av)"
    by (auto simp: stream_key_def)
  with opt one have "key = (''s'', 3)" "ev = 0" "av = 1" by (auto simp: stream_key_def cget_def)
  with app show ?thesis by simp
qed

text \<open>
  Equal last hashes of two chains of one Book that start from the same hash: the chains agree in what
  they hash, or show a collision, or contain an event whose preimage hashes to the starting value.
\<close>

abbreviation pinned :: "ledger_event_record \<Rightarrow> (_ \<times> event_payload)" where
  "pinned e \<equiv> (hashed_fields (event_envelope e), le_payload e)"

definition preimage :: "ledger_event_record \<Rightarrow> byte list \<Rightarrow> bool" where
  "preimage e x \<longleftrightarrow> hash_preimage (event_envelope e) (model_dump (le_payload e)) = Inr x"

definition collision ::
  "(byte list \<Rightarrow> byte list) \<Rightarrow> ledger_event_record list \<Rightarrow> ledger_event_record list \<Rightarrow> bool" where
  "collision sha256 es es' \<longleftrightarrow>
     (\<exists>e\<in>set es. \<exists>e'\<in>set es'. \<exists>x y. preimage e x \<and> preimage e' y \<and> x \<noteq> y \<and> sha256 x = sha256 y)"

lemma collision_append:
  "collision sha256 es es' \<Longrightarrow> collision sha256 (es @ fs) (es' @ fs')"
  "collision sha256 fs fs' \<Longrightarrow> collision sha256 (es @ fs) (es' @ fs')"
  unfolding collision_def by fastforce+

lemma sealed_preimage:
  assumes "sealed sha256 e"
  obtains x where "preimage e x" "sha256 x = le_event_hash e"
  using assms by (auto simp: sealed_def preimage_def event_hash_def rbind_eq_Inr)

lemma pinned_or_collision:
  assumes s: "sealed sha256 e" "sealed sha256 e'" and h: "le_event_hash e = le_event_hash e'"
  shows "pinned e = pinned e' \<or> collision sha256 [e] [e']"
proof -
  from s(1) obtain x where x: "preimage e x" "sha256 x = le_event_hash e" by (rule sealed_preimage)
  from s(2) obtain y where y: "preimage e' y" "sha256 y = le_event_hash e'" by (rule sealed_preimage)
  show ?thesis
  proof (cases "x = y")
    case True
    with x(1) y(1) hash_preimage_inj [OF _ _ json_ok_dump json_ok_dump]
    have hf: "hashed_fields (event_envelope e) = hashed_fields (event_envelope e')"
      and n: "normal (model_dump (le_payload e)) = normal (model_dump (le_payload e'))"
      unfolding preimage_def by blast+
    from hf have "le_event_type e = le_event_type e'" by (simp add: hashed_fields_def event_envelope_def)
    with model_dump_inj n s have "le_payload e = le_payload e'" by (simp add: sealed_def)
    with hf show ?thesis by simp
  next
    case False
    from x(2) y(2) h have "sha256 x = sha256 y" by simp
    with x(1) y(1) False have "\<exists>x y. preimage e x \<and> preimage e' y \<and> x \<noteq> y \<and> sha256 x = sha256 y" by blast
    then show ?thesis by (simp add: collision_def)
  qed
qed

lemma chains_pinned:
  assumes "list_all (sealed sha256) es" "list_all (sealed sha256) es'" "chained z es" "chained z es'"
    and "last_hash z es = last_hash z es'"
  shows "map pinned es = map pinned es' \<or> collision sha256 es es'
    \<or> (\<exists>e\<in>set (es @ es'). \<exists>x. preimage e x \<and> sha256 x = z)"
  using assms
proof (induction es arbitrary: es' rule: rev_induct)
  case Nil
  show ?case
  proof (cases es' rule: rev_cases)
    case (snoc us u)
    with Nil.prems have u: "sealed sha256 u" "le_event_hash u = z" by simp_all
    from u(1) obtain x where "preimage u x" "sha256 x = le_event_hash u" by (rule sealed_preimage)
    with u(2) snoc show ?thesis by auto
  qed simp
next
  case (snoc e es)
  show ?case
  proof (cases es' rule: rev_cases)
    case Nil
    with snoc.prems have e: "sealed sha256 e" "le_event_hash e = z" by simp_all
    from e(1) obtain x where "preimage e x" "sha256 x = le_event_hash e" by (rule sealed_preimage)
    with e(2) show ?thesis by auto
  next
    case (snoc us e')
    note prems = snoc.prems and es' = snoc
    have "pinned e = pinned e' \<or> collision sha256 [e] [e']"
      using prems(1,2,5) es' by (intro pinned_or_collision) simp_all
    then show ?thesis
    proof
      assume "collision sha256 [e] [e']"
      then show ?thesis unfolding es' by (intro disjI2 disjI1) (rule collision_append(2))
    next
      assume eq: "pinned e = pinned e'"
      then have "le_previous_hash e = le_previous_hash e'" by (simp add: hashed_fields_def event_envelope_def)
      with prems es' have "last_hash z es = last_hash z us" by (simp add: chained_append)
      with snoc.IH [of us] prems es' have "map pinned es = map pinned us \<or> collision sha256 es us
          \<or> (\<exists>e\<in>set (es @ us). \<exists>x. preimage e x \<and> sha256 x = z)" by (simp add: chained_append)
      then show ?thesis unfolding es' using eq collision_append(1) [of sha256 es us "[e]" "[e']"] by auto
    qed
  qed
qed

text \<open>
  Property C17: the head hash of a Book pins its whole history. Take two internally consistent ledgers
  whose heads for a Book carry the same hash, whatever else the two heads say. Then their events of the
  Book agree, in number, order, every hashed field and payload; otherwise SHA-256 fails explicitly:
  two of the events have different preimages with one hash, or the preimage of an event hashes to the
  32 zero bytes that stand for the empty history.
\<close>

theorem head_hash_pins_history:
  assumes "book_ledger_ok sha256 db b" "book_ledger_ok sha256 db' b"
    and "find_by hd_book_id b (book_event_heads db) = Some h"
    and "find_by hd_book_id b (book_event_heads db') = Some h'"
    and "hd_last_hash h = hd_last_hash h'"
  shows "map (\<lambda>e. (hashed_fields (event_envelope e), le_payload e)) (book_events db b)
       = map (\<lambda>e. (hashed_fields (event_envelope e), le_payload e)) (book_events db' b)
    \<or> (\<exists>e\<in>set (book_events db b). \<exists>e'\<in>set (book_events db' b). \<exists>x y.
         hash_preimage (event_envelope e) (model_dump (le_payload e)) = Inr x
         \<and> hash_preimage (event_envelope e') (model_dump (le_payload e')) = Inr y
         \<and> x \<noteq> y \<and> sha256 x = sha256 y)
    \<or> (\<exists>e\<in>set (book_events db b @ book_events db' b). \<exists>x.
         hash_preimage (event_envelope e) (model_dump (le_payload e)) = Inr x \<and> sha256 x = ZERO_HASH)"
proof -
  have "hd_last_hash h = last_hash ZERO_HASH (book_events db b)" "hd_last_hash h' = last_hash ZERO_HASH (book_events db' b)"
    using assms(1-4) by (simp_all add: book_ledger_ok_def head_agrees_def)
  with assms(1,2,5) show ?thesis
    using chains_pinned [of sha256 "book_events db b" "book_events db' b" ZERO_HASH]
    unfolding book_ledger_ok_def collision_def preimage_def by simp
qed

text \<open>The ledger of \<open>demo_appended\<close> with its one event put down to another command.\<close>

definition demo_forged :: db where
  "demo_forged = demo_appended\<lparr>ledger_events := [demo_event\<lparr>le_command_id := 8\<rparr>]\<rparr>"

lemma demo_forged_ok: "book_ledger_ok demo_sha demo_forged 2"
proof -
  let ?e = "demo_event\<lparr>le_command_id := 8\<rparr>"
  obtain t where t: "require_timestamp 0 = Inr t" using demo_timestamp by blast
  have e: "EventHashEnvelope (event_envelope ?e) = Inr (event_envelope ?e)"
    by (simp add: EventHashEnvelope_def event_envelope_def require_positive_integer_def require_bounded_string_def
        BIGINT_MAX_def INTEGER_MAX_def SMALLINT_MAX_def HASH_PLACEHOLDER_RECORDED_AT_def t ZERO_HASH_def demo_event_def)
  have p: "prove_json_value (model_dump (le_payload ?e)) = Inr ()"
    using demo_dump by (auto simp: demo_event_def dump_registered_def canonical_json_bytes_def Let_def rbind_eq_Inr simp del: model_dump.simps)
  from event_hash_total [OF e p exact_dict_dump] e have sealed: "sealed demo_sha ?e"
    by (auto simp: sealed_def demo_event_def schema_version_def)
  have "book_ledger_ok demo_sha demo_appended 2" by (rule reachable_book_ok) (rule demo_reachable(3))
  moreover have be: "book_events demo_forged 2 = [?e]" "book_events demo_appended 2 = [demo_event]"
    by (simp add: book_events_def demo_forged_def demo_event_def, rule demo_reachable(4))
  moreover have "stream_head_agrees demo_forged 2 k \<longleftrightarrow> stream_head_agrees demo_appended 2 k" for k
    unfolding stream_head_agrees_def be
    by (simp add: event_key_def stream_head_of_def demo_forged_def) (simp add: terminal_head_def)
  moreover have "head_agrees demo_forged 2 \<longleftrightarrow> head_agrees demo_appended 2"
    unfolding head_agrees_def be by (simp add: demo_forged_def demo_event_def last_hash_def split: option.split)
  ultimately show ?thesis using sealed unfolding book_ledger_ok_def by (auto simp: event_key_def split: if_splits)
qed

theorem head_hash_pins_history_witness:
  "\<exists>x y. hash_preimage (event_envelope demo_event) (model_dump (le_payload demo_event)) = Inr x
     \<and> hash_preimage (event_envelope (demo_event\<lparr>le_command_id := 8\<rparr>)) (model_dump (le_payload demo_event)) = Inr y
     \<and> x \<noteq> y \<and> demo_sha x = demo_sha y"
proof -
  let ?e = "demo_event\<lparr>le_command_id := 8\<rparr>"
  have ok: "book_ledger_ok demo_sha demo_appended 2" by (rule reachable_book_ok) (rule demo_reachable(3))
  have f: "find_by hd_book_id 2 (book_event_heads demo_appended)
      = Some \<lparr>hd_book_id = 2, hd_last_position = 1, hd_last_hash = replicate 32 1\<rparr>"
    by (simp add: demo_appended_def find_by_def)
  then have f': "find_by hd_book_id 2 (book_event_heads demo_forged)
      = Some \<lparr>hd_book_id = 2, hd_last_position = 1, hd_last_hash = replicate 32 1\<rparr>"
    by (simp add: demo_forged_def)
  have be: "book_events demo_forged 2 = [?e]" "book_events demo_appended 2 = [demo_event]"
    by (simp add: book_events_def demo_forged_def demo_event_def, rule demo_reachable(4))
  have "hashed_fields (event_envelope demo_event) \<noteq> hashed_fields (event_envelope ?e)"
    by (simp add: hashed_fields_def event_envelope_def demo_event_def)
  moreover have "replicate 32 1 \<noteq> ZERO_HASH" by (simp add: ZERO_HASH_def replicate_eq_replicate)
  ultimately show ?thesis
    using head_hash_pins_history [OF ok demo_forged_ok f f' refl] unfolding be by auto
qed

end
