(* ===== verification/Projection_Tables.thy ===== *)
theory Projection_Tables
  imports Event_Store
begin

text \<open>
  The tables of the synchronous projections: constraints of \<open>models/projections.py\<close>,
  \<open>models/credit_cards.py\<close> and \<open>models/investments.py\<close>, the triggers of the migrations
  \<open>v2_0004_sync_projections\<close>, \<open>v2_0006_investment_lot_projection\<close> and
  \<open>v2_0010_credit_card_transactions\<close>, and the commit with its deferred triggers. Where a trigger
  reads a field of the stored JSON, the model reads that field of the payload it was dumped from.
\<close>

section \<open>synchronous\_projection\_event\_types\<close>

text \<open>The rows the migrations insert; the runtime role may not write the table.\<close>

definition synchronous_projection_event_types :: "(string \<times> int \<times> int) list" where
  "synchronous_projection_event_types =
     [(''FinancialExternalReferenceCorrected'', 1, 1), (''JournalTransactionPosted'', 1, 1),
      (''JournalTransactionReversed'', 1, 1), (''ReportingLinesAssigned'', 1, 1),
      (''ReportingLinesCleared'', 1, 1), (''InvestmentLotAcquired'', 1, 1),
      (''InvestmentLotDisposed'', 1, 1), (''CreditCardTransactionRecorded'', 1, 1)]"

definition required_projection :: "string \<Rightarrow> int \<Rightarrow> int option" where
  "required_projection stored_type stored_version =
     map_option (\<lambda>r. snd (snd r))
       (find (\<lambda>r. fst r = stored_type \<and> fst (snd r) = stored_version) synchronous_projection_event_types)"

definition sync_required :: "ledger_event_record \<Rightarrow> bool" where
  "sync_required e \<longleftrightarrow> required_projection (le_event_type e) (le_event_schema_version e) \<noteq> None"

section \<open>journal\_transactions\<close>

definition transaction_key :: "journal_transaction_record \<Rightarrow> uuid \<times> uuid" where
  "transaction_key t = (jt_book_id t, jt_transaction_id t)"

definition transaction_source_key :: "journal_transaction_record \<Rightarrow> uuid \<times> uuid" where
  "transaction_source_key t = (jt_book_id t, jt_source_event_id t)"

definition transaction_kinds :: "string list" where
  "transaction_kinds =
     [''standard'', ''opening'', ''adjustment'', ''transfer'', ''refund'', ''fx'', ''investment_cash'',
      ''credit_card_charge'', ''credit_card_payment'', ''credit_card_refund'', ''credit_card_fee'']"

definition v2_validate_journal_source_projection :: "db \<Rightarrow> journal_transaction_record \<Rightarrow> bool" where
  "v2_validate_journal_source_projection db new = list_ex (\<lambda>e. sync_required e
       \<and> le_book_id e = jt_book_id new \<and> le_event_id e = jt_source_event_id new
       \<and> le_book_position e = jt_source_position new \<and> le_stream_id e = jt_transaction_id new
       \<and> le_event_type e \<in> {''JournalTransactionPosted'', ''JournalTransactionReversed'',
                              ''CreditCardTransactionRecorded''}) (ledger_events db)"

definition admit_transaction :: "db \<Rightarrow> journal_transaction_record \<Rightarrow> db_error + unit" where
  "admit_transaction db new = checks
     [(bigint (jt_source_position new), NumericOutOfRange),
      (varchar 32 (jt_transaction_kind new), StringTooLong),
      (v2_validate_journal_source_projection db new, CheckViolation),
      (0 < jt_source_position new, CheckViolation),
      (jt_transaction_kind new \<in> set transaction_kinds, CheckViolation),
      (transaction_key new \<notin> transaction_key ` set (journal_transactions db), UniqueViolation),
      (transaction_source_key new \<notin> transaction_source_key ` set (journal_transactions db), UniqueViolation)]"

definition add_transaction :: "journal_transaction_record \<Rightarrow> db \<Rightarrow> db" where
  "add_transaction new db = db\<lparr>journal_transactions := journal_transactions db @ [new],
     deferred_checks := deferred_checks db @ [TransactionBalanceCheck new]\<rparr>"

definition sidecar_exists :: "db \<Rightarrow> uuid \<Rightarrow> uuid option \<Rightarrow> bool" where
  "sidecar_exists db b ref = nullable (\<lambda>s. (b, s) \<in> set (description_sidecars db)) ref"

definition transaction_refers :: "db \<Rightarrow> journal_transaction_record \<Rightarrow> db_error + unit" where
  "transaction_refers db new = checks
     [((jt_book_id new, jt_source_event_id new) \<in> event_book_key ` set (ledger_events db), ForeignKeyViolation),
      ((jt_book_id new, jt_source_position new) \<in> event_position_key ` set (ledger_events db), ForeignKeyViolation),
      (sidecar_exists db (jt_book_id new) (jt_description_ref new), ForeignKeyViolation)]"

definition insert_transaction :: "journal_transaction_record \<Rightarrow> db \<Rightarrow> db_error + db" where
  "insert_transaction new = insert_rows admit_transaction add_transaction transaction_refers [new]"

section \<open>journal\_postings\<close>

definition posting_key :: "journal_posting_record \<Rightarrow> uuid \<times> uuid" where
  "posting_key p = (po_book_id p, po_posting_id p)"

definition posting_position_key :: "journal_posting_record \<Rightarrow> uuid \<times> uuid \<times> int" where
  "posting_position_key p = (po_book_id p, po_transaction_id p, po_posting_position p)"

definition account_asset_key :: "account_record \<Rightarrow> uuid \<times> uuid \<times> string" where
  "account_asset_key a = (ac_book_id a, ac_account_id a, ac_asset_code a)"

definition admit_posting :: "db \<Rightarrow> journal_posting_record \<Rightarrow> db_error + unit" where
  "admit_posting db new = checks
     [(smallint (po_posting_position new), NumericOutOfRange),
      (varchar 16 (po_asset_code new), StringTooLong),
      (numeric_digits 38 (po_units new), NumericOutOfRange),
      (0 \<le> po_posting_position new, CheckViolation),
      (0 < po_units new, CheckViolation),
      (posting_key new \<notin> posting_key ` set (journal_postings db), UniqueViolation),
      (posting_position_key new \<notin> posting_position_key ` set (journal_postings db), UniqueViolation)]"

definition add_posting :: "journal_posting_record \<Rightarrow> db \<Rightarrow> db" where
  "add_posting new db = db\<lparr>journal_postings := journal_postings db @ [new],
     deferred_checks := deferred_checks db @ [PostingBalanceCheck new]\<rparr>"

definition posting_refers :: "db \<Rightarrow> journal_posting_record \<Rightarrow> db_error + unit" where
  "posting_refers db new = checks
     [((po_book_id new, po_transaction_id new) \<in> transaction_key ` set (journal_transactions db), ForeignKeyViolation),
      ((po_book_id new, po_account_id new, po_asset_code new) \<in> account_asset_key ` set (accounts db), ForeignKeyViolation)]"

definition insert_postings :: "journal_posting_record list \<Rightarrow> db \<Rightarrow> db_error + db" where
  "insert_postings = insert_rows admit_posting add_posting posting_refers"

section \<open>account\_balances\<close>

definition balance_key :: "account_balance_record \<Rightarrow> uuid \<times> uuid \<times> string" where
  "balance_key a = (ab_book_id a, ab_account_id a, ab_asset_code a)"

text \<open>\<open>insert ... on conflict do update\<close>: adds to the balance that is there, or starts one.\<close>

definition upsert_balance :: "account_balance_record \<Rightarrow> db \<Rightarrow> db_error + db" where
  "upsert_balance excluded db =
     rbind (checks
       [(varchar 16 (ab_asset_code excluded), StringTooLong),
        (numeric_digits 48 (ab_balance_units excluded), NumericOutOfRange),
        (bigint (ab_as_of_position excluded), NumericOutOfRange),
        (0 < ab_as_of_position excluded, CheckViolation)]) (\<lambda>_.
     let key = balance_key excluded;
         refers = checks
           [(key \<in> account_asset_key ` set (accounts db), ForeignKeyViolation),
            ((ab_book_id excluded, ab_as_of_position excluded) \<in> event_position_key ` set (ledger_events db),
             ForeignKeyViolation)]
     in case find_by balance_key key (account_balances db) of
          None \<Rightarrow> rbind refers (\<lambda>_. Inr (db\<lparr>account_balances := account_balances db @ [excluded]\<rparr>))
        | Some old \<Rightarrow>
            let new = old\<lparr>ab_balance_units := ab_balance_units old + ab_balance_units excluded,
                          ab_as_of_position := ab_as_of_position excluded\<rparr>
            in rbind (checks [(numeric_digits 48 (ab_balance_units new), NumericOutOfRange)]) (\<lambda>_.
               rbind refers (\<lambda>_.
               Inr (db\<lparr>account_balances := replace_by balance_key key new (account_balances db)\<rparr>))))"

section \<open>transaction\_reversals\<close>

definition reversal_key :: "transaction_reversal_record \<Rightarrow> uuid \<times> uuid" where
  "reversal_key r = (rv_book_id r, rv_reversal_transaction_id r)"

definition reversal_target_key :: "transaction_reversal_record \<Rightarrow> uuid \<times> uuid" where
  "reversal_target_key r = (rv_book_id r, rv_original_transaction_id r)"

definition transaction_with_source :: "journal_transaction_record \<Rightarrow> uuid \<times> uuid \<times> uuid" where
  "transaction_with_source t = (jt_book_id t, jt_transaction_id t, jt_source_event_id t)"

definition reversed_transaction :: "db \<Rightarrow> uuid \<Rightarrow> uuid \<Rightarrow> bool" where
  "reversed_transaction db b t = list_ex (\<lambda>r. reversal_target_key r = (b, t)) (transaction_reversals db)"

definition active_refund :: "db \<Rightarrow> uuid \<Rightarrow> uuid \<Rightarrow> credit_card_record \<Rightarrow> bool" where
  "active_refund db b original refund \<longleftrightarrow> ct_book_id refund = b \<and> ct_intent refund = ''refund''
     \<and> ct_original_transaction_id refund = Some original
     \<and> \<not> reversed_transaction db b (ct_transaction_id refund)"

definition payload_intent :: "event_payload \<Rightarrow> string option" where
  "payload_intent p = (case p of CreditCardTransactionRecorded c \<Rightarrow> Some (credit_card_intent_value (cc_intent c)) | _ \<Rightarrow> None)"

definition touches_credit_card :: "db \<Rightarrow> uuid \<Rightarrow> uuid \<Rightarrow> bool" where
  "touches_credit_card db b t = list_ex (\<lambda>p. po_book_id p = b \<and> po_transaction_id p = t
       \<and> list_ex (\<lambda>a. account_asset_key a = (po_book_id p, po_account_id p, po_asset_code p)
           \<and> ac_account_subtype a = Some ''credit_card'') (accounts db)) (journal_postings db)"

text \<open>\<open>like 'credit_card_%'\<close>, where each underscore stands for any character.\<close>

definition like_credit_card :: "string \<Rightarrow> bool" where
  "like_credit_card s \<longleftrightarrow> 12 \<le> length s \<and> take 6 s = ''credit'' \<and> take 4 (drop 7 s) = ''card''"

text \<open>
  The \<open>select into\<close> joins the original transaction, its source event and the reversal transaction;
  without a match every variable is null and only the account test can take effect.
\<close>

definition v2_validate_credit_card_reversal :: "db \<Rightarrow> transaction_reversal_record \<Rightarrow> db_error + unit" where
  "v2_validate_credit_card_reversal db new =
     (case find_by transaction_key (rv_book_id new, rv_original_transaction_id new) (journal_transactions db) of
        None \<Rightarrow> Inr ()
      | Some original \<Rightarrow>
        (case find_by event_book_key (jt_book_id original, jt_source_event_id original) (ledger_events db) of
           None \<Rightarrow> Inr ()
         | Some event \<Rightarrow>
           (case find_by transaction_key (rv_book_id new, rv_reversal_transaction_id new) (journal_transactions db) of
              None \<Rightarrow> Inr ()
            | Some reversal \<Rightarrow>
              if like_credit_card (jt_transaction_kind original)
                 \<or> touches_credit_card db (rv_book_id new) (rv_original_transaction_id new)
              then checks
                [(le_event_type event \<noteq> ''JournalTransactionReversed'', CheckViolation),
                 (jt_effective_at original \<le> jt_effective_at reversal, CheckViolation),
                 (\<not> (le_event_type event = ''CreditCardTransactionRecorded''
                     \<and> payload_intent (le_payload event) = Some ''charge''
                     \<and> list_ex (active_refund db (rv_book_id new) (rv_original_transaction_id new))
                          (credit_card_transactions db)), CheckViolation)]
              else Inr ())))"

definition admit_reversal :: "db \<Rightarrow> transaction_reversal_record \<Rightarrow> db_error + unit" where
  "admit_reversal db new =
     rbind (checks [(varchar 32 (rv_reason_code new), StringTooLong)]) (\<lambda>_.
     rbind (v2_validate_credit_card_reversal db new) (\<lambda>_. checks
       [(rv_reversal_transaction_id new \<noteq> rv_original_transaction_id new, CheckViolation),
        (octet_length (rv_original_event_hash new) = 32, CheckViolation),
        (rv_reason_code new \<in> set [''user_correction'', ''duplicate'', ''import_correction'', ''provider_reversal''],
         CheckViolation),
        (reversal_key new \<notin> reversal_key ` set (transaction_reversals db), UniqueViolation),
        (reversal_target_key new \<notin> reversal_target_key ` set (transaction_reversals db), UniqueViolation)]))"

definition add_reversal :: "transaction_reversal_record \<Rightarrow> db \<Rightarrow> db" where
  "add_reversal new db = db\<lparr>transaction_reversals := transaction_reversals db @ [new]\<rparr>"

definition reversal_refers :: "db \<Rightarrow> transaction_reversal_record \<Rightarrow> db_error + unit" where
  "reversal_refers db new = checks
     [((rv_book_id new, rv_reversal_transaction_id new, rv_source_event_id new)
         \<in> transaction_with_source ` set (journal_transactions db), ForeignKeyViolation),
      ((rv_book_id new, rv_original_transaction_id new, rv_original_event_id new)
         \<in> transaction_with_source ` set (journal_transactions db), ForeignKeyViolation)]"

definition insert_reversal :: "transaction_reversal_record \<Rightarrow> db \<Rightarrow> db_error + db" where
  "insert_reversal new = insert_rows admit_reversal add_reversal reversal_refers [new]"

section \<open>transaction\_external\_references\<close>

definition external_reference_key :: "external_reference_record \<Rightarrow> uuid \<times> uuid \<times> string \<times> string" where
  "external_reference_key x = (xr_book_id x, xr_transaction_id x, xr_provider_code x, xr_reference_kind x)"

definition external_reference_row_ok :: "external_reference_record \<Rightarrow> db_error + unit" where
  "external_reference_row_ok new = checks
     [(varchar 32 (xr_provider_code new), StringTooLong),
      (varchar 32 (xr_reference_kind new), StringTooLong),
      (varchar 128 (xr_reference_value new), StringTooLong),
      (ProviderCode (xr_provider_code new), CheckViolation),
      (xr_reference_kind new \<in> set [''provider_transaction'', ''bank_transaction'', ''card_transaction'', ''broker_trade''],
       CheckViolation),
      (ExternalReferenceValue (xr_reference_value new), CheckViolation)]"

definition admit_external_reference :: "db \<Rightarrow> external_reference_record \<Rightarrow> db_error + unit" where
  "admit_external_reference db new =
     rbind (external_reference_row_ok new) (\<lambda>_. checks
       [(external_reference_key new \<notin> external_reference_key ` set (external_references db), UniqueViolation)])"

definition add_external_reference :: "external_reference_record \<Rightarrow> db \<Rightarrow> db" where
  "add_external_reference new db = db\<lparr>external_references := external_references db @ [new]\<rparr>"

definition external_reference_refers :: "db \<Rightarrow> external_reference_record \<Rightarrow> db_error + unit" where
  "external_reference_refers db new = checks
     [((xr_book_id new, xr_transaction_id new) \<in> transaction_key ` set (journal_transactions db), ForeignKeyViolation),
      ((xr_book_id new, xr_source_event_id new) \<in> event_book_key ` set (ledger_events db), ForeignKeyViolation)]"

definition insert_external_references :: "external_reference_record list \<Rightarrow> db \<Rightarrow> db_error + db" where
  "insert_external_references = insert_rows admit_external_reference add_external_reference external_reference_refers"

definition update_external_reference :: "external_reference_record \<Rightarrow> db \<Rightarrow> db_error + db" where
  "update_external_reference new db =
     rbind (external_reference_row_ok new) (\<lambda>_.
     rbind (external_reference_refers db new) (\<lambda>_.
     Inr (db\<lparr>external_references :=
       replace_by external_reference_key (external_reference_key new) new (external_references db)\<rparr>)))"

section \<open>reporting\_lines\<close>

definition reporting_line_key :: "reporting_line_record \<Rightarrow> uuid \<times> uuid \<times> uuid" where
  "reporting_line_key l = (rr_book_id l, rr_transaction_id l, rr_line_id l)"

definition reporting_position_key :: "reporting_line_record \<Rightarrow> uuid \<times> uuid \<times> int \<times> int" where
  "reporting_position_key l = (rr_book_id l, rr_transaction_id l, rr_classification_revision l, rr_line_position l)"

definition reporting_version_key :: "reporting_line_record \<Rightarrow> uuid \<times> uuid \<times> uuid" where
  "reporting_version_key l = (rr_book_id l, rr_transaction_id l, rr_line_version_id l)"

definition admit_reporting_line :: "db \<Rightarrow> reporting_line_record \<Rightarrow> db_error + unit" where
  "admit_reporting_line db new = checks
     [(integer4 (rr_classification_revision new), NumericOutOfRange),
      (smallint (rr_line_position new), NumericOutOfRange),
      (varchar 16 (rr_asset_code new), StringTooLong),
      (numeric_digits 38 (rr_units new), NumericOutOfRange),
      (varchar 32 (rr_line_kind new), StringTooLong),
      (varchar 32 (rr_dimension new), StringTooLong),
      (0 < rr_classification_revision new, CheckViolation),
      (0 \<le> rr_line_position new, CheckViolation),
      (0 < rr_units new, CheckViolation),
      (rr_line_kind new \<in> set [''expense'', ''income'', ''transfer'', ''tax'', ''investment''], CheckViolation),
      (rr_dimension new \<in> set [''category'', ''project'', ''counterparty'', ''tax''], CheckViolation),
      (reporting_line_key new \<notin> reporting_line_key ` set (reporting_lines db), UniqueViolation),
      (reporting_position_key new \<notin> reporting_position_key ` set (reporting_lines db), UniqueViolation),
      (reporting_version_key new \<notin> reporting_version_key ` set (reporting_lines db), UniqueViolation)]"

definition add_reporting_line :: "reporting_line_record \<Rightarrow> db \<Rightarrow> db" where
  "add_reporting_line new db = db\<lparr>reporting_lines := reporting_lines db @ [new]\<rparr>"

definition reporting_line_refers :: "db \<Rightarrow> reporting_line_record \<Rightarrow> db_error + unit" where
  "reporting_line_refers db new = checks
     [((rr_book_id new, rr_transaction_id new) \<in> transaction_key ` set (journal_transactions db), ForeignKeyViolation),
      (rr_asset_code new \<in> sa_asset_code ` set (assets db), ForeignKeyViolation),
      ((rr_book_id new, rr_source_event_id new) \<in> event_book_key ` set (ledger_events db), ForeignKeyViolation),
      (sidecar_exists db (rr_book_id new) (rr_description_ref new), ForeignKeyViolation)]"

definition insert_reporting_lines :: "reporting_line_record list \<Rightarrow> db \<Rightarrow> db_error + db" where
  "insert_reporting_lines = insert_rows admit_reporting_line add_reporting_line reporting_line_refers"

section \<open>synchronous\_projection\_applied\_events\<close>

definition applied_key :: "applied_event_record \<Rightarrow> uuid \<times> uuid" where
  "applied_key a = (ae_book_id a, ae_event_id a)"

definition v2_validate_sync_projection_marker :: "db \<Rightarrow> applied_event_record \<Rightarrow> bool" where
  "v2_validate_sync_projection_marker db new = list_ex (\<lambda>e. event_book_key e = applied_key new
       \<and> required_projection (le_event_type e) (le_event_schema_version e) = Some (ae_projection_version new))
     (ledger_events db)"

text \<open>The marker is inserted unless it is there; the result tells whether it was.\<close>

definition insert_marker_on_conflict_do_nothing :: "applied_event_record \<Rightarrow> db \<Rightarrow> db_error + bool \<times> db" where
  "insert_marker_on_conflict_do_nothing new db =
     rbind (checks
       [(integer4 (ae_projection_version new), NumericOutOfRange),
        (v2_validate_sync_projection_marker db new, CheckViolation),
        (0 < ae_projection_version new, CheckViolation)]) (\<lambda>_.
     if applied_key new \<in> applied_key ` set (applied_events db) then Inr (False, db)
     else rbind (checks [(applied_key new \<in> event_book_key ` set (ledger_events db), ForeignKeyViolation)]) (\<lambda>_.
       Inr (True, db\<lparr>applied_events := applied_events db @ [new]\<rparr>)))"

section \<open>credit\_card\_transactions\<close>

definition card_key :: "credit_card_record \<Rightarrow> uuid \<times> uuid" where
  "card_key c = (ct_book_id c, ct_transaction_id c)"

definition card_source_key :: "credit_card_record \<Rightarrow> uuid \<times> uuid" where
  "card_source_key c = (ct_book_id c, ct_source_event_id c)"

text \<open>One of the two postings of the entry, as the event states it and as the intent demands it.\<close>

definition card_leg_bound :: "db \<Rightarrow> credit_card_record \<Rightarrow> journal_posting_fact \<Rightarrow> int \<Rightarrow> uuid \<Rightarrow> posting_side \<Rightarrow> bool" where
  "card_leg_bound db new stated position account side = list_ex (\<lambda>p.
       po_book_id p = ct_book_id new \<and> po_transaction_id p = ct_transaction_id new
       \<and> po_posting_position p = position \<and> po_posting_id p = jp_posting_id stated
       \<and> po_posting_position p = jp_position stated
       \<and> po_account_id p = jp_account_id stated \<and> po_account_id p = account
       \<and> po_side p = side \<and> po_side p = jp_side stated
       \<and> po_asset_code p = ct_asset_code new \<and> po_asset_code p = jp_asset_code stated
       \<and> po_units p = ct_units new \<and> po_units p = units_value (jp_units stated)) (journal_postings db)"

definition account_with :: "db \<Rightarrow> uuid \<Rightarrow> uuid \<Rightarrow> string \<Rightarrow> (account_record \<Rightarrow> bool) \<Rightarrow> bool" where
  "account_with db b account asset ok =
     list_ex (\<lambda>a. account_asset_key a = (b, account, asset) \<and> ok a) (accounts db)"

definition card_projection_bound :: "db \<Rightarrow> credit_card_record \<Rightarrow> bool" where
  "card_projection_bound db new = list_ex (\<lambda>e.
       le_book_id e = ct_book_id new \<and> le_event_id e = ct_source_event_id new
       \<and> le_book_position e = ct_source_position new
       \<and> le_event_type e = ''CreditCardTransactionRecorded'' \<and> le_event_schema_version e = 1
       \<and> le_stream_type e = ''journal_transaction'' \<and> le_stream_id e = ct_transaction_id new
       \<and> list_ex (\<lambda>j. transaction_key j = (le_book_id e, ct_transaction_id new)
           \<and> jt_source_event_id j = le_event_id e \<and> jt_source_position j = le_book_position e
           \<and> jt_transaction_kind j = ''credit_card_'' @ ct_intent new) (journal_transactions db)
       \<and> (case le_payload e of
            CreditCardTransactionRecorded c \<Rightarrow>
              credit_card_intent_value (cc_intent c) = ct_intent new
              \<and> cc_transaction_id c = ct_transaction_id new
              \<and> cc_card_account_id c = ct_card_account_id new
              \<and> cc_counter_account_id c = ct_counter_account_id new
              \<and> cc_original_transaction_id c = ct_original_transaction_id new
              \<and> (case cc_postings c of
                   [debit, credit] \<Rightarrow>
                     card_leg_bound db new debit 0
                       (if ct_intent new \<in> {''charge'', ''fee''} then ct_counter_account_id new
                        else ct_card_account_id new) DEBIT
                     \<and> card_leg_bound db new credit 1
                       (if ct_intent new \<in> {''charge'', ''fee''} then ct_card_account_id new
                        else ct_counter_account_id new) CREDIT
                 | _ \<Rightarrow> False)
          | _ \<Rightarrow> False)
       \<and> account_with db (ct_book_id new) (ct_card_account_id new) (ct_asset_code new)
           (\<lambda>a. ac_account_type a = ''liability'' \<and> ac_account_subtype a = Some ''credit_card'')
       \<and> account_with db (ct_book_id new) (ct_counter_account_id new) (ct_asset_code new)
           (\<lambda>a. ac_account_type a = (if ct_intent new = ''payment'' then ''asset'' else ''expense''))
       \<and> length (filter (\<lambda>p. po_book_id p = ct_book_id new \<and> po_transaction_id p = ct_transaction_id new)
           (journal_postings db)) = 2) (ledger_events db)"

definition active_refund_units :: "db \<Rightarrow> uuid \<Rightarrow> uuid \<Rightarrow> int" where
  "active_refund_units db b original =
     sum_list (map ct_units (filter (active_refund db b original) (credit_card_transactions db)))"

definition refund_source_valid :: "db \<Rightarrow> credit_card_record \<Rightarrow> credit_card_record \<Rightarrow> bool" where
  "refund_source_valid db new original \<longleftrightarrow>
     ct_card_account_id original = ct_card_account_id new
     \<and> ct_counter_account_id original = ct_counter_account_id new
     \<and> ct_asset_code original = ct_asset_code new
     \<and> \<not> reversed_transaction db (ct_book_id new) (ct_transaction_id original)
     \<and> \<not> list_ex (\<lambda>o'. transaction_key o' = card_key original
           \<and> list_ex (\<lambda>r. transaction_key r = card_key new \<and> jt_effective_at r < jt_effective_at o')
               (journal_transactions db)) (journal_transactions db)"

definition v2_validate_credit_card_projection :: "db \<Rightarrow> credit_card_record \<Rightarrow> db_error + unit" where
  "v2_validate_credit_card_projection db new =
     (if \<not> card_projection_bound db new then Inl CheckViolation
      else if ct_intent new = ''refund'' then
        (case find (\<lambda>c. ct_book_id c = ct_book_id new
               \<and> ct_original_transaction_id new = Some (ct_transaction_id c) \<and> ct_intent c = ''charge'')
             (credit_card_transactions db) of
           None \<Rightarrow> Inl CheckViolation
         | Some original \<Rightarrow>
             if \<not> refund_source_valid db new original then Inl CheckViolation
             else if ct_units original
                 < active_refund_units db (ct_book_id new) (ct_transaction_id original) + ct_units new
             then Inl CheckViolation
             else Inr ())
      else Inr ())"

definition admit_card :: "db \<Rightarrow> credit_card_record \<Rightarrow> db_error + unit" where
  "admit_card db new =
     rbind (checks
       [(varchar 16 (ct_intent new), StringTooLong),
        (varchar 16 (ct_asset_code new), StringTooLong),
        (numeric_digits 38 (ct_units new), NumericOutOfRange),
        (bigint (ct_source_position new), NumericOutOfRange)]) (\<lambda>_.
     rbind (v2_validate_credit_card_projection db new) (\<lambda>_. checks
       [(ct_intent new \<in> set [''charge'', ''payment'', ''refund'', ''fee''], CheckViolation),
        ((ct_intent new = ''refund'') = (ct_original_transaction_id new \<noteq> None), CheckViolation),
        (ct_card_account_id new \<noteq> ct_counter_account_id new, CheckViolation),
        (0 < ct_units new, CheckViolation),
        (0 < ct_source_position new, CheckViolation),
        (card_key new \<notin> card_key ` set (credit_card_transactions db), UniqueViolation),
        (card_source_key new \<notin> card_source_key ` set (credit_card_transactions db), UniqueViolation)]))"

definition add_card :: "credit_card_record \<Rightarrow> db \<Rightarrow> db" where
  "add_card new db = db\<lparr>credit_card_transactions := credit_card_transactions db @ [new]\<rparr>"

definition card_refers :: "db \<Rightarrow> credit_card_record \<Rightarrow> db_error + unit" where
  "card_refers db new = checks
     [(card_key new \<in> transaction_key ` set (journal_transactions db), ForeignKeyViolation),
      (card_source_key new \<in> event_book_key ` set (ledger_events db), ForeignKeyViolation),
      ((ct_book_id new, ct_source_position new) \<in> event_position_key ` set (ledger_events db), ForeignKeyViolation),
      ((ct_book_id new, ct_card_account_id new, ct_asset_code new) \<in> account_asset_key ` set (accounts db),
       ForeignKeyViolation),
      ((ct_book_id new, ct_counter_account_id new, ct_asset_code new) \<in> account_asset_key ` set (accounts db),
       ForeignKeyViolation),
      (nullable (\<lambda>o'. (ct_book_id new, o') \<in> card_key ` set (credit_card_transactions db))
         (ct_original_transaction_id new), ForeignKeyViolation)]"

definition insert_card :: "credit_card_record \<Rightarrow> db \<Rightarrow> db_error + db" where
  "insert_card new = insert_rows admit_card add_card card_refers [new]"

section \<open>investment\_lots\<close>

definition lot_key :: "investment_lot_record \<Rightarrow> uuid \<times> uuid" where
  "lot_key l = (lt_book_id l, lt_lot_id l)"

text \<open>The transaction a lot or an allocation belongs to was projected before its own source event.\<close>

definition transaction_precedes :: "db \<Rightarrow> uuid \<Rightarrow> uuid \<Rightarrow> int \<Rightarrow> bool" where
  "transaction_precedes db b t position =
     list_ex (\<lambda>j. transaction_key j = (b, t) \<and> jt_source_position j < position) (journal_transactions db)"

definition disposed_transaction :: "event_payload \<Rightarrow> uuid option" where
  "disposed_transaction p = (case p of InvestmentLotDisposed d \<Rightarrow> Some (id_transaction_id d) | _ \<Rightarrow> None)"

definition v2_validate_investment_lot_source_projection ::
    "db \<Rightarrow> investment_lot_record option \<Rightarrow> investment_lot_record \<Rightarrow> db_error + unit" where
  "v2_validate_investment_lot_source_projection db old new = checks
     [(list_ex (\<lambda>e. sync_required e \<and> le_book_id e = lt_book_id new \<and> le_event_id e = lt_source_event_id new
          \<and> le_book_position e = lt_source_position new
          \<and> (case old of
               None \<Rightarrow> le_event_type e = ''InvestmentLotAcquired'' \<and> le_stream_type e = ''investment_lot''
                 \<and> le_stream_id e = lt_lot_id new
             | Some _ \<Rightarrow> le_event_type e = ''InvestmentLotDisposed'' \<and> le_stream_type e = ''investment_disposal''
                 \<and> disposed_transaction (le_payload e) = Some (le_stream_id e))) (ledger_events db), CheckViolation),
      (transaction_precedes db (lt_book_id new) (lt_acquisition_transaction_id new) (lt_source_position new),
       CheckViolation),
      (case old of None \<Rightarrow> True | Some o' \<Rightarrow>
         lt_book_id new = lt_book_id o' \<and> lt_lot_id new = lt_lot_id o'
         \<and> lt_acquisition_transaction_id new = lt_acquisition_transaction_id o'
         \<and> lt_instrument_asset_code new = lt_instrument_asset_code o'
         \<and> lt_settlement_asset_code new = lt_settlement_asset_code o'
         \<and> lt_acquired_quantity_units new = lt_acquired_quantity_units o'
         \<and> lt_acquired_cost_units new = lt_acquired_cost_units o' \<and> lt_fee_units new = lt_fee_units o',
       CheckViolation),
      (case old of None \<Rightarrow> True | Some o' \<Rightarrow>
         lt_remaining_quantity_units new < lt_remaining_quantity_units o'
         \<and> lt_remaining_cost_units new < lt_remaining_cost_units o', CheckViolation),
      (case old of None \<Rightarrow> True | Some o' \<Rightarrow> lt_source_position o' < lt_source_position new, CheckViolation)]"

definition lot_row_ok :: "investment_lot_record \<Rightarrow> db_error + unit" where
  "lot_row_ok new = checks
     [(0 < lt_acquired_quantity_units new, CheckViolation),
      (0 < lt_acquired_cost_units new, CheckViolation),
      (nullable (\<lambda>f. 0 < f) (lt_fee_units new), CheckViolation),
      (0 \<le> lt_remaining_quantity_units new \<and> lt_remaining_quantity_units new \<le> lt_acquired_quantity_units new,
       CheckViolation),
      (0 \<le> lt_remaining_cost_units new \<and> lt_remaining_cost_units new \<le> lt_acquired_cost_units new, CheckViolation),
      (lt_remaining_quantity_units new = 0 \<and> lt_remaining_cost_units new = 0
         \<or> 0 < lt_remaining_quantity_units new \<and> 0 < lt_remaining_cost_units new, CheckViolation),
      (0 < lt_source_position new, CheckViolation)]"

definition lot_types_ok :: "investment_lot_record \<Rightarrow> db_error + unit" where
  "lot_types_ok new = checks
     [(varchar 16 (lt_instrument_asset_code new), StringTooLong),
      (varchar 16 (lt_settlement_asset_code new), StringTooLong),
      (numeric_digits 38 (lt_acquired_quantity_units new), NumericOutOfRange),
      (numeric_digits 38 (lt_acquired_cost_units new), NumericOutOfRange),
      (nullable (numeric_digits 38) (lt_fee_units new), NumericOutOfRange),
      (numeric_digits 38 (lt_remaining_quantity_units new), NumericOutOfRange),
      (numeric_digits 38 (lt_remaining_cost_units new), NumericOutOfRange),
      (bigint (lt_source_position new), NumericOutOfRange)]"

definition lot_refers :: "db \<Rightarrow> investment_lot_record \<Rightarrow> db_error + unit" where
  "lot_refers db new = checks
     [((lt_book_id new, lt_acquisition_transaction_id new) \<in> transaction_key ` set (journal_transactions db),
       ForeignKeyViolation),
      (lt_instrument_asset_code new \<in> sa_asset_code ` set (assets db), ForeignKeyViolation),
      (lt_settlement_asset_code new \<in> sa_asset_code ` set (assets db), ForeignKeyViolation),
      ((lt_book_id new, lt_source_event_id new) \<in> event_book_key ` set (ledger_events db), ForeignKeyViolation),
      ((lt_book_id new, lt_source_position new) \<in> event_position_key ` set (ledger_events db), ForeignKeyViolation)]"

definition admit_lot :: "db \<Rightarrow> investment_lot_record \<Rightarrow> db_error + unit" where
  "admit_lot db new =
     rbind (lot_types_ok new) (\<lambda>_.
     rbind (v2_validate_investment_lot_source_projection db None new) (\<lambda>_.
     rbind (lot_row_ok new) (\<lambda>_. checks
       [(lot_key new \<notin> lot_key ` set (investment_lots db), UniqueViolation)])))"

definition add_lot :: "investment_lot_record \<Rightarrow> db \<Rightarrow> db" where
  "add_lot new db = db\<lparr>investment_lots := investment_lots db @ [new]\<rparr>"

definition insert_lot :: "investment_lot_record \<Rightarrow> db \<Rightarrow> db_error + db" where
  "insert_lot new = insert_rows admit_lot add_lot lot_refers [new]"

definition update_lot :: "investment_lot_record \<Rightarrow> investment_lot_record \<Rightarrow> db \<Rightarrow> db_error + db" where
  "update_lot old new db =
     rbind (lot_types_ok new) (\<lambda>_.
     rbind (v2_validate_investment_lot_source_projection db (Some old) new) (\<lambda>_.
     rbind (lot_row_ok new) (\<lambda>_.
     rbind (lot_refers db new) (\<lambda>_.
     Inr (db\<lparr>investment_lots := replace_by lot_key (lot_key old) new (investment_lots db),
            deferred_checks := deferred_checks db @ [LotDecrementCheck old new]\<rparr>)))))"

section \<open>investment\_lot\_allocations\<close>

definition allocation_key :: "lot_allocation_record \<Rightarrow> uuid \<times> uuid" where
  "allocation_key a = (al_book_id a, al_allocation_id a)"

definition allocation_position_key :: "lot_allocation_record \<Rightarrow> uuid \<times> uuid \<times> int" where
  "allocation_position_key a = (al_book_id a, al_disposal_transaction_id a, al_allocation_position a)"

definition allocation_lot_key :: "lot_allocation_record \<Rightarrow> uuid \<times> uuid \<times> uuid" where
  "allocation_lot_key a = (al_book_id a, al_disposal_transaction_id a, al_lot_id a)"

definition states_allocation :: "lot_allocation_record \<Rightarrow> lot_disposal_allocation \<Rightarrow> bool" where
  "states_allocation new a \<longleftrightarrow> ld_allocation_id a = al_allocation_id new \<and> ld_lot_id a = al_lot_id new
     \<and> ld_position a = al_allocation_position new \<and> units_value (ld_quantity_units a) = al_quantity_units new
     \<and> units_value (ld_cost_units a) = al_cost_units new"

definition v2_validate_investment_lot_allocation_source_projection ::
    "db \<Rightarrow> lot_allocation_record \<Rightarrow> db_error + unit" where
  "v2_validate_investment_lot_allocation_source_projection db new = checks
     [(list_ex (\<lambda>e. sync_required e \<and> le_book_id e = al_book_id new \<and> le_event_id e = al_source_event_id new
          \<and> le_book_position e = al_source_position new \<and> le_event_type e = ''InvestmentLotDisposed''
          \<and> le_stream_type e = ''investment_disposal'' \<and> le_stream_id e = al_disposal_transaction_id new
          \<and> (case le_payload e of
               InvestmentLotDisposed d \<Rightarrow> id_transaction_id d = al_disposal_transaction_id new
                 \<and> list_ex (states_allocation new) (id_allocations d)
             | _ \<Rightarrow> False)) (ledger_events db), CheckViolation),
      (transaction_precedes db (al_book_id new) (al_disposal_transaction_id new) (al_source_position new),
       CheckViolation)]"

definition admit_allocation :: "db \<Rightarrow> lot_allocation_record \<Rightarrow> db_error + unit" where
  "admit_allocation db new =
     rbind (checks
       [(smallint (al_allocation_position new), NumericOutOfRange),
        (numeric_digits 38 (al_quantity_units new), NumericOutOfRange),
        (numeric_digits 38 (al_cost_units new), NumericOutOfRange),
        (bigint (al_source_position new), NumericOutOfRange)]) (\<lambda>_.
     rbind (v2_validate_investment_lot_allocation_source_projection db new) (\<lambda>_. checks
       [(0 \<le> al_allocation_position new, CheckViolation),
        (0 < al_quantity_units new, CheckViolation),
        (0 < al_cost_units new, CheckViolation),
        (0 < al_source_position new, CheckViolation),
        (allocation_key new \<notin> allocation_key ` set (lot_allocations db), UniqueViolation),
        (allocation_position_key new \<notin> allocation_position_key ` set (lot_allocations db), UniqueViolation),
        (allocation_lot_key new \<notin> allocation_lot_key ` set (lot_allocations db), UniqueViolation)]))"

definition add_allocation :: "lot_allocation_record \<Rightarrow> db \<Rightarrow> db" where
  "add_allocation new db = db\<lparr>lot_allocations := lot_allocations db @ [new]\<rparr>"

definition allocation_refers :: "db \<Rightarrow> lot_allocation_record \<Rightarrow> db_error + unit" where
  "allocation_refers db new = checks
     [((al_book_id new, al_lot_id new) \<in> lot_key ` set (investment_lots db), ForeignKeyViolation),
      ((al_book_id new, al_disposal_transaction_id new) \<in> transaction_key ` set (journal_transactions db),
       ForeignKeyViolation),
      ((al_book_id new, al_source_event_id new) \<in> event_book_key ` set (ledger_events db), ForeignKeyViolation),
      ((al_book_id new, al_source_position new) \<in> event_position_key ` set (ledger_events db), ForeignKeyViolation)]"

definition insert_allocation :: "lot_allocation_record \<Rightarrow> db \<Rightarrow> db_error + db" where
  "insert_allocation new = insert_rows admit_allocation add_allocation allocation_refers [new]"

section \<open>Commit\<close>

definition transaction_postings :: "db \<Rightarrow> uuid \<Rightarrow> uuid \<Rightarrow> journal_posting_record list" where
  "transaction_postings db b t = filter (\<lambda>p. po_book_id p = b \<and> po_transaction_id p = t) (journal_postings db)"

definition posting_signed :: "journal_posting_record \<Rightarrow> int" where
  "posting_signed p = (case po_side p of DEBIT \<Rightarrow> po_units p | CREDIT \<Rightarrow> - po_units p)"

definition v2_validate_journal_balance :: "db \<Rightarrow> uuid \<Rightarrow> uuid \<Rightarrow> db_error + unit" where
  "v2_validate_journal_balance db b t =
     (if (b, t) \<in> transaction_key ` set (journal_transactions db) then
        (let postings = transaction_postings db b t in checks
           [(2 \<le> length postings, CheckViolation),
            (\<not> list_ex (\<lambda>asset. total_for po_asset_code posting_signed asset postings \<noteq> 0)
                 (map po_asset_code postings), CheckViolation)])
      else Inr ())"

definition v2_require_sync_projection :: "db \<Rightarrow> ledger_event_record \<Rightarrow> db_error + unit" where
  "v2_require_sync_projection db new =
     (if le_event_type new \<in> fst ` set synchronous_projection_event_types
      then checks [(sync_required new, CheckViolation),
                   (event_book_key new \<in> applied_key ` set (applied_events db), CheckViolation)]
      else Inr ())"

definition v2_require_investment_lot_allocation_projection ::
    "db \<Rightarrow> investment_lot_record \<Rightarrow> investment_lot_record \<Rightarrow> db_error + unit" where
  "v2_require_investment_lot_allocation_projection db old new = checks
     [(list_ex (\<lambda>a. al_book_id a = lt_book_id new \<and> al_lot_id a = lt_lot_id new
          \<and> al_source_event_id a = lt_source_event_id new \<and> al_source_position a = lt_source_position new
          \<and> al_quantity_units a = lt_remaining_quantity_units old - lt_remaining_quantity_units new
          \<and> al_cost_units a = lt_remaining_cost_units old - lt_remaining_cost_units new) (lot_allocations db),
       CheckViolation)]"

definition run_deferred :: "db \<Rightarrow> deferred_check \<Rightarrow> db_error + unit" where
  "run_deferred db c =
     (case c of
        ReceiptCheck new \<Rightarrow> v2_reject_processing_receipt db new
      | TransactionBalanceCheck new \<Rightarrow> v2_validate_journal_balance db (jt_book_id new) (jt_transaction_id new)
      | PostingBalanceCheck new \<Rightarrow> v2_validate_journal_balance db (po_book_id new) (po_transaction_id new)
      | SyncProjectionCheck new \<Rightarrow> v2_require_sync_projection db new
      | LotDecrementCheck old new \<Rightarrow> v2_require_investment_lot_allocation_projection db old new)"

definition commit :: "db \<Rightarrow> db_error + db" where
  "commit db = rbind (checkE (run_deferred db) (deferred_checks db)) (\<lambda>_. Inr (db\<lparr>deferred_checks := []\<rparr>))"

end
