(* ===== verification/Projector.thy ===== *)
theory Projector
  imports Projection_Tables
begin

text \<open>
  The synchronous projections: \<open>infrastructure/projections/synchronous.py\<close> and the appliers of
  \<open>infrastructure/projections/synchronous_appliers\<close>. Rows the code adds to the session are written
  here where it adds them; they reach the database at the next flush, in the same transaction.
\<close>

definition run :: "(db \<Rightarrow> db_error + db) \<Rightarrow> db \<Rightarrow> ledger_error + db" where
  "run statement db = lift_db statement db"

definition require :: "bool \<Rightarrow> ledger_error + unit" where
  "require c = (if c then Inr () else Inl SynchronousProjectionError)"

lemma require_iff [result_simps]: "require c = Inr u \<longleftrightarrow> c" "require c = Inl e \<longleftrightarrow> \<not> c \<and> e = SynchronousProjectionError"
  by (auto simp: require_def)

lemma run_iff [result_simps]:
  "run f db = Inr db' \<longleftrightarrow> f db = Inr db'" "run f db = Inl e \<longleftrightarrow> (\<exists>d. f db = Inl d \<and> e = DBError d)"
  by (auto simp: run_def lift_db_def raise_as_iff)

section \<open>Journal\<close>

definition reference_record ::
    "ledger_event_record \<Rightarrow> uuid \<Rightarrow> financial_external_reference \<Rightarrow> external_reference_record" where
  "reference_record stored transaction_id reference =
     \<lparr>xr_book_id = le_book_id stored, xr_transaction_id = transaction_id,
      xr_provider_code = er_provider_code reference,
      xr_reference_kind = external_reference_kind_value (er_kind reference),
      xr_reference_value = er_reference reference, xr_source_event_id = le_event_id stored\<rparr>"

definition add_external_references ::
    "ledger_event_record \<Rightarrow> uuid \<Rightarrow> financial_external_reference list \<Rightarrow> db \<Rightarrow> ledger_error + db" where
  "add_external_references stored transaction_id references =
     run (insert_external_references (map (reference_record stored transaction_id) references))"

definition transaction_record ::
    "ledger_event_record \<Rightarrow> uuid \<Rightarrow> string \<Rightarrow> uuid option \<Rightarrow> journal_transaction_record" where
  "transaction_record stored transaction_id transaction_kind description_ref =
     \<lparr>jt_book_id = le_book_id stored, jt_transaction_id = transaction_id,
      jt_source_event_id = le_event_id stored, jt_source_position = le_book_position stored,
      jt_effective_at = le_effective_at stored, jt_transaction_kind = transaction_kind,
      jt_description_ref = description_ref\<rparr>"

definition posting_record :: "ledger_event_record \<Rightarrow> uuid \<Rightarrow> journal_posting_fact \<Rightarrow> journal_posting_record" where
  "posting_record stored transaction_id posting =
     \<lparr>po_book_id = le_book_id stored, po_transaction_id = transaction_id,
      po_posting_id = jp_posting_id posting, po_posting_position = jp_position posting,
      po_account_id = jp_account_id posting, po_asset_code = jp_asset_code posting,
      po_side = jp_side posting, po_units = units_value (jp_units posting)\<rparr>"

definition balance_record :: "ledger_event_record \<Rightarrow> journal_posting_fact \<Rightarrow> account_balance_record" where
  "balance_record stored posting =
     \<lparr>ab_book_id = le_book_id stored, ab_account_id = jp_account_id posting,
      ab_asset_code = jp_asset_code posting,
      ab_balance_units = (if jp_side posting = DEBIT then units_value (jp_units posting)
                          else - units_value (jp_units posting)),
      ab_as_of_position = le_book_position stored\<rparr>"

definition apply_financial_transaction ::
    "ledger_event_record \<Rightarrow> uuid \<Rightarrow> string \<Rightarrow> uuid option \<Rightarrow> journal_posting_fact list \<Rightarrow> db \<Rightarrow> ledger_error + db" where
  "apply_financial_transaction stored transaction_id transaction_kind description_ref postings db =
     rbind (run (insert_transaction (transaction_record stored transaction_id transaction_kind description_ref)) db) (\<lambda>db.
     rbind (run (insert_postings (map (posting_record stored transaction_id) postings)) db) (\<lambda>db.
     foldE (\<lambda>db posting. run (upsert_balance (balance_record stored posting)) db) db postings))"

definition apply_journal_posted :: "ledger_event_record \<Rightarrow> journal_transaction_posted \<Rightarrow> db \<Rightarrow> ledger_error + db" where
  "apply_journal_posted stored payload db =
     rbind (apply_financial_transaction stored (tp_transaction_id payload)
              (transaction_kind_value (tp_kind payload)) (tp_description_ref payload) (tp_postings payload) db)
       (add_external_references stored (tp_transaction_id payload) (tp_external_references payload))"

definition inverse_of :: "journal_posting_fact \<Rightarrow> journal_posting_fact \<Rightarrow> bool" where
  "inverse_of original inverse_posting \<longleftrightarrow>
     jp_position inverse_posting = jp_position original \<and> jp_account_id inverse_posting = jp_account_id original
     \<and> jp_asset_code inverse_posting = jp_asset_code original \<and> jp_units inverse_posting = jp_units original
     \<and> jp_side inverse_posting = (if jp_side original = DEBIT then CREDIT else DEBIT)"

definition validate_exact_inverse :: "journal_posting_fact list \<Rightarrow> journal_posting_fact list \<Rightarrow> ledger_error + unit" where
  "validate_exact_inverse original_postings inverse_postings =
     rbind (require (length original_postings = length inverse_postings)) (\<lambda>_.
     rbind (require (set (map jp_posting_id original_postings) \<inter> set (map jp_posting_id inverse_postings) = {})) (\<lambda>_.
     checkE (\<lambda>(original, inverse_posting). require (inverse_of original inverse_posting))
       (zip original_postings inverse_postings)))"

text \<open>The transaction and the postings a financial event put on the journal.\<close>

definition source_transaction :: "event_payload \<Rightarrow> (uuid \<times> journal_posting_fact list) option" where
  "source_transaction p =
     (case p of
        CreditCardTransactionRecorded c \<Rightarrow> Some (cc_transaction_id c, cc_postings c)
      | JournalTransactionPosted t \<Rightarrow> Some (tp_transaction_id t, tp_postings t)
      | JournalTransactionReversed r \<Rightarrow> Some (tr_reversal_transaction_id r, tr_inverse_postings r)
      | _ \<Rightarrow> None)"

definition transaction_of :: "db \<Rightarrow> uuid \<Rightarrow> uuid \<Rightarrow> journal_transaction_record option" where
  "transaction_of db b t = find_by transaction_key (b, t) (journal_transactions db)"

definition require_some :: "'a option \<Rightarrow> ledger_error + 'a" where
  "require_some x = (case x of None \<Rightarrow> Inl SynchronousProjectionError | Some y \<Rightarrow> Inr y)"

lemma require_some_iff [result_simps]: "require_some x = Inr y \<longleftrightarrow> x = Some y"
  by (auto simp: require_some_def split: option.splits)

text \<open>\<open>bytes.fromhex\<close> of the hash the payload states, which was compared with the event's before.\<close>

definition reversal_record ::
    "ledger_event_record \<Rightarrow> journal_transaction_reversed \<Rightarrow> ledger_event_record \<Rightarrow> transaction_reversal_record" where
  "reversal_record stored payload original_event =
     \<lparr>rv_book_id = le_book_id stored, rv_reversal_transaction_id = tr_reversal_transaction_id payload,
      rv_original_transaction_id = tr_reverses_transaction_id payload,
      rv_source_event_id = le_event_id stored, rv_original_event_id = tr_original_event_id payload,
      rv_original_event_hash = le_event_hash original_event,
      rv_reason_code = reversal_reason_code_value (tr_reason_code payload)\<rparr>"

definition apply_journal_reversed :: "ledger_event_record \<Rightarrow> journal_transaction_reversed \<Rightarrow> db \<Rightarrow> ledger_error + db" where
  "apply_journal_reversed stored payload db =
     rbind (require_some (transaction_of db (le_book_id stored) (tr_reverses_transaction_id payload)))
       (\<lambda>original_transaction.
     rbind (require (jt_source_event_id original_transaction = tr_original_event_id payload
              \<and> jt_source_position original_transaction < le_book_position stored)) (\<lambda>_.
     rbind (require_some (find_by le_event_id (tr_original_event_id payload) (ledger_events db))) (\<lambda>original_event.
     rbind (require (le_book_id original_event = le_book_id stored
              \<and> bytes_hex (le_event_hash original_event) = tr_original_event_hash payload)) (\<lambda>_.
     rbind (raise_as StoredPayloadError (validate_stored (le_event_type original_event)
              (le_event_schema_version original_event) (le_payload original_event))) (\<lambda>original_payload.
     rbind (require_some (source_transaction original_payload)) (\<lambda>(original_id, original_postings).
     rbind (require (original_id = tr_reverses_transaction_id payload)) (\<lambda>_.
     rbind (validate_exact_inverse original_postings (tr_inverse_postings payload)) (\<lambda>_.
     rbind (apply_financial_transaction stored (tr_reversal_transaction_id payload)
              (jt_transaction_kind original_transaction) (tr_description_ref payload)
              (tr_inverse_postings payload) db) (\<lambda>db.
     run (insert_reversal (reversal_record stored payload original_event)) db)))))))))"

definition apply_external_reference_corrected ::
    "ledger_event_record \<Rightarrow> external_reference_corrected \<Rightarrow> db \<Rightarrow> ledger_error + db" where
  "apply_external_reference_corrected stored payload db =
     rbind (require (le_stream_type stored = ''external_reference'' \<and> le_stream_id stored = rc_transaction_id payload)) (\<lambda>_.
     rbind (require_some (transaction_of db (le_book_id stored) (rc_transaction_id payload))) (\<lambda>target.
     rbind (require (jt_source_position target < le_book_position stored)) (\<lambda>_.
     let new = \<lparr>xr_book_id = le_book_id stored, xr_transaction_id = rc_transaction_id payload,
                xr_provider_code = rc_provider_code payload,
                xr_reference_kind = external_reference_kind_value (rc_reference_kind payload),
                xr_reference_value = rc_corrected_reference payload, xr_source_event_id = le_event_id stored\<rparr>
     in case find_by external_reference_key (external_reference_key new) (external_references db) of
          None \<Rightarrow> rbind (require (rc_previous_reference payload = None)) (\<lambda>_.
                    run (insert_external_references [new]) db)
        | Some current \<Rightarrow>
            rbind (require (Some (xr_reference_value current) = rc_previous_reference payload)) (\<lambda>_.
              run (update_external_reference new) db))))"

section \<open>Credit cards\<close>

definition apply_credit_card_recorded ::
    "ledger_event_record \<Rightarrow> credit_card_transaction_recorded \<Rightarrow> db \<Rightarrow> ledger_error + db" where
  "apply_credit_card_recorded stored payload db =
     rbind (apply_financial_transaction stored (cc_transaction_id payload)
              (intent_transaction_kind (cc_intent payload)) (cc_description_ref payload) (cc_postings payload) db) (\<lambda>db.
     rbind (add_external_references stored (cc_transaction_id payload) (cc_external_references payload) db) (\<lambda>db.
     run (insert_card
       \<lparr>ct_book_id = le_book_id stored, ct_transaction_id = cc_transaction_id payload,
        ct_intent = credit_card_intent_value (cc_intent payload),
        ct_card_account_id = cc_card_account_id payload, ct_counter_account_id = cc_counter_account_id payload,
        ct_asset_code = jp_asset_code (hd (cc_postings payload)),
        ct_units = units_value (jp_units (hd (cc_postings payload))),
        ct_original_transaction_id = cc_original_transaction_id payload,
        ct_source_event_id = le_event_id stored, ct_source_position = le_book_position stored\<rparr>) db))"

section \<open>Reporting lines\<close>

definition validate_reporting_source ::
    "ledger_event_record \<Rightarrow> uuid \<Rightarrow> int \<Rightarrow> db \<Rightarrow> ledger_error + journal_transaction_record" where
  "validate_reporting_source stored transaction_id classification_revision db =
     rbind (require (le_stream_type stored = ''reporting_lines'' \<and> le_stream_id stored = transaction_id
              \<and> le_stream_version stored = classification_revision)) (\<lambda>_.
     rbind (require_some (transaction_of db (le_book_id stored) transaction_id)) (\<lambda>target.
     rbind (require (jt_source_position target < le_book_position stored)) (\<lambda>_.
     rbind (require (find_by reversal_key (le_book_id stored, transaction_id) (transaction_reversals db) = None)) (\<lambda>_.
     Inr target))))"

text \<open>Two dictionaries are equal when they hold the same items.\<close>

definition same_dict :: "'k counter \<Rightarrow> 'k counter \<Rightarrow> bool" where
  "same_dict d d' \<longleftrightarrow> list_all (\<lambda>k. map_of d k = map_of d' k) (map fst d @ map fst d')"

definition side_totals :: "posting_side \<Rightarrow> journal_posting_record list \<Rightarrow> string counter" where
  "side_totals side postings = ctally po_asset_code po_units (filter (\<lambda>p. po_side p = side) postings) []"

definition check_reporting_line :: "ledger_event_record \<Rightarrow> db \<Rightarrow> reporting_line \<Rightarrow> ledger_error + unit" where
  "check_reporting_line stored db line =
     (case (rl_dimension line, rl_dimension_id line) of
        (D_CATEGORY, Some category) \<Rightarrow> require (list_ex (\<lambda>v.
            (cv_book_id v, cv_category_id v, cv_category_version_id v) = (le_book_id stored, category, rl_catalog_id line))
            (category_versions db))
      | _ \<Rightarrow> Inl SynchronousProjectionError)"

definition validate_reporting_lines ::
    "ledger_event_record \<Rightarrow> reporting_lines_assigned \<Rightarrow> journal_transaction_record \<Rightarrow> db \<Rightarrow> ledger_error + unit" where
  "validate_reporting_lines stored payload target db =
     (let kind = jt_transaction_kind target;
          source_event = find_by le_event_id (jt_source_event_id target) (ledger_events db);
          postings = transaction_postings db (le_book_id stored) (la_transaction_id payload);
          debit_by_asset = side_totals DEBIT postings;
          credit_by_asset = side_totals CREDIT postings
      in
     rbind (require (\<not> (kind = ''credit_card_payment''
              \<and> (case source_event of None \<Rightarrow> True | Some e \<Rightarrow> le_event_type e \<noteq> ''JournalTransactionPosted'')))) (\<lambda>_.
     rbind (require (\<not> (kind \<in> set [''credit_card_charge'', ''credit_card_fee'', ''credit_card_refund'']
              \<and> list_ex (\<lambda>line. rl_line_kind line \<noteq> L_EXPENSE) (la_lines payload)))) (\<lambda>_.
     rbind (require (postings \<noteq> [])) (\<lambda>_.
     rbind (require (same_dict debit_by_asset credit_by_asset)) (\<lambda>_.
     rbind (checkE (check_reporting_line stored db) (la_lines payload)) (\<lambda>_.
     checkE (\<lambda>(asset_code, allocated). require (allocated \<le> cget debit_by_asset asset_code))
       (ctally rl_asset_code (\<lambda>line. units_value (rl_units line)) (la_lines payload) [])))))))"

definition delete_current_reporting_lines :: "uuid \<Rightarrow> uuid \<Rightarrow> db \<Rightarrow> db" where
  "delete_current_reporting_lines b t db =
     db\<lparr>reporting_lines := filter (\<lambda>l. \<not> (rr_book_id l = b \<and> rr_transaction_id l = t)) (reporting_lines db)\<rparr>"

definition line_record ::
    "ledger_event_record \<Rightarrow> reporting_lines_assigned \<Rightarrow> reporting_line \<Rightarrow> reporting_line_record" where
  "line_record stored payload line =
     \<lparr>rr_book_id = le_book_id stored, rr_transaction_id = la_transaction_id payload,
      rr_classification_revision = la_classification_revision payload, rr_line_id = rl_line_id line,
      rr_line_version_id = rl_line_version_id line, rr_catalog_id = rl_catalog_id line,
      rr_line_position = rl_position line, rr_asset_code = rl_asset_code line,
      rr_units = units_value (rl_units line), rr_line_kind = reporting_line_kind_value (rl_line_kind line),
      rr_dimension = reporting_dimension_value (rl_dimension line), rr_dimension_id = rl_dimension_id line,
      rr_description_ref = rl_description_ref line, rr_source_event_id = le_event_id stored\<rparr>"

definition apply_reporting_lines_assigned ::
    "ledger_event_record \<Rightarrow> reporting_lines_assigned \<Rightarrow> db \<Rightarrow> ledger_error + db" where
  "apply_reporting_lines_assigned stored payload db =
     rbind (validate_reporting_source stored (la_transaction_id payload) (la_classification_revision payload) db) (\<lambda>target.
     rbind (validate_reporting_lines stored payload target db) (\<lambda>_.
     run (insert_reporting_lines (map (line_record stored payload) (la_lines payload)))
       (delete_current_reporting_lines (le_book_id stored) (la_transaction_id payload) db)))"

definition apply_reporting_lines_cleared ::
    "ledger_event_record \<Rightarrow> reporting_lines_cleared \<Rightarrow> db \<Rightarrow> ledger_error + db" where
  "apply_reporting_lines_cleared stored payload db =
     rbind (validate_reporting_source stored (lc_transaction_id payload) (lc_classification_revision payload) db) (\<lambda>_.
     Inr (delete_current_reporting_lines (le_book_id stored) (lc_transaction_id payload) db))"

section \<open>Investment lots\<close>

definition validate_linked_transaction ::
    "ledger_event_record \<Rightarrow> uuid \<Rightarrow> db \<Rightarrow> ledger_error + journal_transaction_record" where
  "validate_linked_transaction stored transaction_id db =
     rbind (require_some (transaction_of db (le_book_id stored) transaction_id)) (\<lambda>linked.
     rbind (require (jt_source_position linked < le_book_position stored)) (\<lambda>_. Inr linked))"

definition apply_investment_lot_acquired ::
    "ledger_event_record \<Rightarrow> investment_lot_acquired \<Rightarrow> db \<Rightarrow> ledger_error + db" where
  "apply_investment_lot_acquired stored payload db =
     rbind (require (le_stream_type stored = ''investment_lot'' \<and> le_stream_id stored = ia_lot_id payload
              \<and> le_stream_version stored = 1)) (\<lambda>_.
     rbind (validate_linked_transaction stored (ia_transaction_id payload) db) (\<lambda>_.
     rbind (require (find_by lot_key (le_book_id stored, ia_lot_id payload) (investment_lots db) = None)) (\<lambda>_.
     run (insert_lot
       \<lparr>lt_book_id = le_book_id stored, lt_lot_id = ia_lot_id payload,
        lt_acquisition_transaction_id = ia_transaction_id payload,
        lt_instrument_asset_code = ia_instrument_asset_code payload,
        lt_settlement_asset_code = ia_settlement_asset_code payload,
        lt_acquired_quantity_units = units_value (ia_quantity_units payload),
        lt_acquired_cost_units = units_value (ia_cost_units payload),
        lt_fee_units = map_option units_value (ia_fee_units payload),
        lt_remaining_quantity_units = units_value (ia_quantity_units payload),
        lt_remaining_cost_units = units_value (ia_cost_units payload),
        lt_source_event_id = le_event_id stored, lt_source_position = le_book_position stored\<rparr>) db)))"

definition apply_lot_allocation ::
    "ledger_event_record \<Rightarrow> investment_lot_disposed \<Rightarrow> db \<Rightarrow> lot_disposal_allocation \<Rightarrow> ledger_error + db" where
  "apply_lot_allocation stored payload db allocation =
     rbind (require_some (find_by lot_key (le_book_id stored, ld_lot_id allocation) (investment_lots db))) (\<lambda>lot.
     rbind (require (lt_instrument_asset_code lot = id_instrument_asset_code payload
              \<and> lt_settlement_asset_code lot = id_settlement_asset_code payload)) (\<lambda>_.
     let quantity = units_value (ld_quantity_units allocation);
         remaining_quantity = lt_remaining_quantity_units lot;
         remaining_cost = lt_remaining_cost_units lot;
         frozen_cost = units_value (ld_cost_units allocation);
         next_quantity = remaining_quantity - quantity;
         next_cost = remaining_cost - frozen_cost
     in
     rbind (require (quantity \<le> remaining_quantity)) (\<lambda>_.
     rbind (require (frozen_cost \<le> remaining_cost)) (\<lambda>_.
     rbind (require ((next_quantity = 0) = (next_cost = 0))) (\<lambda>_.
     rbind (run (update_lot lot
              (lot\<lparr>lt_remaining_quantity_units := next_quantity, lt_remaining_cost_units := next_cost,
                   lt_source_event_id := le_event_id stored, lt_source_position := le_book_position stored\<rparr>)) db) (\<lambda>db.
     run (insert_allocation
       \<lparr>al_book_id = le_book_id stored, al_allocation_id = ld_allocation_id allocation,
        al_lot_id = ld_lot_id allocation, al_disposal_transaction_id = id_transaction_id payload,
        al_allocation_position = ld_position allocation, al_quantity_units = quantity,
        al_cost_units = frozen_cost, al_source_event_id = le_event_id stored,
        al_source_position = le_book_position stored\<rparr>) db))))))"

definition apply_investment_lot_disposed ::
    "ledger_event_record \<Rightarrow> investment_lot_disposed \<Rightarrow> db \<Rightarrow> ledger_error + db" where
  "apply_investment_lot_disposed stored payload db =
     rbind (require (le_stream_type stored = ''investment_disposal'' \<and> le_stream_id stored = id_transaction_id payload
              \<and> le_stream_version stored = 1)) (\<lambda>_.
     rbind (validate_linked_transaction stored (id_transaction_id payload) db) (\<lambda>_.
     foldE (apply_lot_allocation stored payload) db (id_allocations payload)))"

section \<open>The projector\<close>

text \<open>\<open>SYNCHRONOUS_APPLIERS\<close>: the applier registered for the class of the payload.\<close>

fun apply_payload :: "ledger_event_record \<Rightarrow> event_payload \<Rightarrow> db \<Rightarrow> ledger_error + db" where
  "apply_payload stored (CreditCardTransactionRecorded p) db = apply_credit_card_recorded stored p db"
| "apply_payload stored (JournalTransactionPosted p) db = apply_journal_posted stored p db"
| "apply_payload stored (JournalTransactionReversed p) db = apply_journal_reversed stored p db"
| "apply_payload stored (ReportingLinesAssigned p) db = apply_reporting_lines_assigned stored p db"
| "apply_payload stored (ReportingLinesCleared p) db = apply_reporting_lines_cleared stored p db"
| "apply_payload stored (FinancialExternalReferenceCorrected p) db = apply_external_reference_corrected stored p db"
| "apply_payload stored (InvestmentLotAcquired p) db = apply_investment_lot_acquired stored p db"
| "apply_payload stored (InvestmentLotDisposed p) db = apply_investment_lot_disposed stored p db"

record projection_apply_result =
  pr_event_id :: uuid
  pr_required :: bool
  pr_applied :: bool
  pr_projection_version :: "int option"

definition apply_stored :: "ledger_event_record \<Rightarrow> db \<Rightarrow> ledger_error + projection_apply_result \<times> db" where
  "apply_stored stored db =
     (case required_projection (le_event_type stored) (le_event_schema_version stored) of
        None \<Rightarrow> Inr (\<lparr>pr_event_id = le_event_id stored, pr_required = False, pr_applied = False,
                     pr_projection_version = None\<rparr>, db)
      | Some version \<Rightarrow>
          rbind (raise_as StoredPayloadError (validate_stored (le_event_type stored)
                   (le_event_schema_version stored) (le_payload stored))) (\<lambda>payload.
          rbind (lift_db (insert_marker_on_conflict_do_nothing
                   \<lparr>ae_book_id = le_book_id stored, ae_event_id = le_event_id stored,
                    ae_projection_version = version\<rparr>) db) (\<lambda>(inserted, db).
          if \<not> inserted then
            Inr (\<lparr>pr_event_id = le_event_id stored, pr_required = True, pr_applied = False,
                  pr_projection_version = Some version\<rparr>, db)
          else rbind (apply_payload stored payload db) (\<lambda>db.
            Inr (\<lparr>pr_event_id = le_event_id stored, pr_required = True, pr_applied = True,
                  pr_projection_version = Some version\<rparr>, db)))))"

end
