(* ===== verification/Journal_Projection.thy ===== *)
theory Journal_Projection
  imports Projector
begin

text \<open>
  What the synchronous projector writes: the exact database every statement of the appliers leaves,
  the cases of applying a stored event, the ledgers reached by projecting stored events, and the
  trial balance of the committed projections.
\<close>

section \<open>What each statement writes\<close>

lemma insert_one: "insert_rows admit add refers [r] db = Inr db' \<longleftrightarrow>
    db' = add r db \<and> admit db r = Inr () \<and> refers (add r db) r = Inr ()"
  by (auto simp: insert_rows_def rbind_eq_Inr)

named_theorems statement_shapes "the database a successful statement leaves"

lemma fold_add_posting:
  "fold add_posting rows db = db\<lparr>journal_postings := journal_postings db @ rows,
     deferred_checks := deferred_checks db @ map PostingBalanceCheck rows\<rparr>"
  by (induction rows arbitrary: db) (simp_all add: add_posting_def)

lemma fold_add_external_reference:
  "fold add_external_reference rows db = db\<lparr>external_references := external_references db @ rows\<rparr>"
  by (induction rows arbitrary: db) (simp_all add: add_external_reference_def)

lemma fold_add_reporting_line:
  "fold add_reporting_line rows db = db\<lparr>reporting_lines := reporting_lines db @ rows\<rparr>"
  by (induction rows arbitrary: db) (simp_all add: add_reporting_line_def)

lemma insert_transaction_Inr [statement_shapes]:
  "insert_transaction new db = Inr db' \<Longrightarrow> db' = db\<lparr>journal_transactions := journal_transactions db @ [new],
     deferred_checks := deferred_checks db @ [TransactionBalanceCheck new]\<rparr>"
  by (auto simp: insert_transaction_def insert_rows_Inr add_transaction_def)

lemma insert_postings_Inr [statement_shapes]:
  "insert_postings rows db = Inr db' \<Longrightarrow> db' = db\<lparr>journal_postings := journal_postings db @ rows,
     deferred_checks := deferred_checks db @ map PostingBalanceCheck rows\<rparr>"
  unfolding insert_postings_def insert_rows_Inr fold_add_posting by blast

lemma insert_external_references_Inr [statement_shapes]:
  "insert_external_references rows db = Inr db' \<Longrightarrow> db' = db\<lparr>external_references := external_references db @ rows\<rparr>"
  unfolding insert_external_references_def insert_rows_Inr fold_add_external_reference by blast

lemma insert_reporting_lines_Inr [statement_shapes]:
  "insert_reporting_lines rows db = Inr db' \<Longrightarrow> db' = db\<lparr>reporting_lines := reporting_lines db @ rows\<rparr>"
  unfolding insert_reporting_lines_def insert_rows_Inr fold_add_reporting_line by blast

lemma insert_reversal_Inr [statement_shapes]:
  "insert_reversal new db = Inr db' \<Longrightarrow> db' = db\<lparr>transaction_reversals := transaction_reversals db @ [new]\<rparr>"
  by (auto simp: insert_reversal_def insert_rows_Inr add_reversal_def)

lemma insert_card_Inr [statement_shapes]:
  "insert_card new db = Inr db' \<Longrightarrow> db' = db\<lparr>credit_card_transactions := credit_card_transactions db @ [new]\<rparr>"
  by (auto simp: insert_card_def insert_rows_Inr add_card_def)

lemma insert_lot_Inr [statement_shapes]:
  "insert_lot new db = Inr db' \<Longrightarrow> db' = db\<lparr>investment_lots := investment_lots db @ [new]\<rparr>"
  by (auto simp: insert_lot_def insert_rows_Inr add_lot_def)

lemma insert_allocation_Inr [statement_shapes]:
  "insert_allocation new db = Inr db' \<Longrightarrow> db' = db\<lparr>lot_allocations := lot_allocations db @ [new]\<rparr>"
  by (auto simp: insert_allocation_def insert_rows_Inr add_allocation_def)

lemma update_external_reference_Inr [statement_shapes]:
  "update_external_reference new db = Inr db' \<Longrightarrow> db' = db\<lparr>external_references :=
     replace_by external_reference_key (external_reference_key new) new (external_references db)\<rparr>"
  by (auto simp: update_external_reference_def rbind_eq_Inr)

lemma update_lot_Inr [statement_shapes]:
  "update_lot old new db = Inr db' \<Longrightarrow> db' = db\<lparr>investment_lots := replace_by lot_key (lot_key old) new (investment_lots db),
     deferred_checks := deferred_checks db @ [LotDecrementCheck old new]\<rparr>"
  by (auto simp: update_lot_def rbind_eq_Inr)

section \<open>Balances\<close>

definition balance_of :: "db \<Rightarrow> uuid \<times> uuid \<times> string \<Rightarrow> int" where
  "balance_of db k = (case find_by balance_key k (account_balances db) of None \<Rightarrow> 0 | Some a \<Rightarrow> ab_balance_units a)"

definition posted_to :: "journal_posting_record \<Rightarrow> uuid \<times> uuid \<times> string" where
  "posted_to p = (po_book_id p, po_account_id p, po_asset_code p)"

lemma upsert_balance_Inr:
  assumes "upsert_balance excluded db = Inr db'"
  shows "\<exists>bs. db' = db\<lparr>account_balances := bs\<rparr>"
    and "balance_of db' k = balance_of db k + (if k = balance_key excluded then ab_balance_units excluded else 0)"
    and "distinct (map balance_key (account_balances db)) \<Longrightarrow> distinct (map balance_key (account_balances db'))"
proof -
  let ?k = "balance_key excluded"
  consider (new) "find_by balance_key ?k (account_balances db) = None"
      "db' = db\<lparr>account_balances := account_balances db @ [excluded]\<rparr>"
    | (old) old where "find_by balance_key ?k (account_balances db) = Some old"
      "db' = db\<lparr>account_balances := replace_by balance_key ?k
         (old\<lparr>ab_balance_units := ab_balance_units old + ab_balance_units excluded,
              ab_as_of_position := ab_as_of_position excluded\<rparr>) (account_balances db)\<rparr>"
    using assms by (auto simp: upsert_balance_def Let_def rbind_eq_Inr split: option.splits)
  then show "\<exists>bs. db' = db\<lparr>account_balances := bs\<rparr>"
    and "balance_of db' k = balance_of db k + (if k = balance_key excluded then ab_balance_units excluded else 0)"
    and "distinct (map balance_key (account_balances db)) \<Longrightarrow> distinct (map balance_key (account_balances db'))"
  proof (atomize (full), cases)
    case new
    then have "?k \<notin> balance_key ` set (account_balances db)" by (simp add: find_by_None_iff)
    moreover have "balance_of db' k = balance_of db k + (if k = ?k then ab_balance_units excluded else 0)"
    proof (cases "k = ?k")
      case True
      with new(1) show ?thesis
        by (simp add: balance_of_def new(2) find_by_append) (simp add: find_by_def)
    next
      case False
      then have "find_by balance_key k [excluded] = None" by (simp add: find_by_def)
      with False show ?thesis by (simp add: balance_of_def new(2) find_by_append split: option.split)
    qed
    ultimately show "(\<exists>bs. db' = db\<lparr>account_balances := bs\<rparr>)
        \<and> balance_of db' k = balance_of db k + (if k = ?k then ab_balance_units excluded else 0)
        \<and> (distinct (map balance_key (account_balances db)) \<longrightarrow> distinct (map balance_key (account_balances db')))"
      by (auto simp: new(2))
  next
    case old
    let ?new = "old\<lparr>ab_balance_units := ab_balance_units old + ab_balance_units excluded,
              ab_as_of_position := ab_as_of_position excluded\<rparr>"
    have k: "balance_key old = ?k" and mem: "?k \<in> balance_key ` set (account_balances db)"
      using find_by_Some_D [OF old(1)] by (auto intro: rev_image_eqI)
    have kn: "balance_key ?new = ?k" using k by (simp add: balance_key_def)
    have "find_by balance_key k (account_balances db') =
        (if k = ?k then Some ?new else find_by balance_key k (account_balances db))"
      by (simp add: old(2) find_by_replace_by [of balance_key, OF kn] mem)
    then have "balance_of db' k = balance_of db k + (if k = ?k then ab_balance_units excluded else 0)"
      using old(1) by (simp add: balance_of_def)
    then show "(\<exists>bs. db' = db\<lparr>account_balances := bs\<rparr>)
        \<and> balance_of db' k = balance_of db k + (if k = ?k then ab_balance_units excluded else 0)
        \<and> (distinct (map balance_key (account_balances db)) \<longrightarrow> distinct (map balance_key (account_balances db')))"
      by (auto simp: old(2) map_key_replace_by [of balance_key, OF kn])
  qed
qed

text \<open>The amount the postings of an event put on an account.\<close>

definition fact_amount :: "uuid \<Rightarrow> uuid \<times> uuid \<times> string \<Rightarrow> journal_posting_fact list \<Rightarrow> int" where
  "fact_amount b k facts = total_for (\<lambda>p. (b, jp_account_id p, jp_asset_code p)) fact_signed k facts"

lemma balance_loop_Inr:
  "foldE (\<lambda>db posting. run (upsert_balance (balance_record stored posting)) db) db postings = Inr db' \<Longrightarrow>
     (\<exists>bs. db' = db\<lparr>account_balances := bs\<rparr>)
     \<and> balance_of db' k = balance_of db k + fact_amount (le_book_id stored) k postings
     \<and> (distinct (map balance_key (account_balances db)) \<longrightarrow> distinct (map balance_key (account_balances db')))"
proof (induction postings arbitrary: db)
  case Nil
  then show ?case by (auto simp: fact_amount_def intro: exI [of _ "account_balances db"])
next
  case (Cons p postings)
  then obtain db1 where s: "upsert_balance (balance_record stored p) db = Inr db1"
    and rest: "foldE (\<lambda>db posting. run (upsert_balance (balance_record stored posting)) db) db1 postings = Inr db'"
    by (auto simp: rbind_eq_Inr run_iff)
  note u = upsert_balance_Inr [OF s]
  have bk: "balance_key (balance_record stored p) = (le_book_id stored, jp_account_id p, jp_asset_code p)"
    "ab_balance_units (balance_record stored p) = fact_signed p"
    by (simp_all add: balance_key_def balance_record_def fact_signed_def split: posting_side.split)
  from Cons.IH [OF rest] u(1) have "\<exists>bs. db' = db\<lparr>account_balances := bs\<rparr>" by fastforce
  moreover from Cons.IH [OF rest] have "balance_of db' k = balance_of db k + fact_amount (le_book_id stored) k (p # postings)"
    by (simp add: u(2) bk fact_amount_def)
  moreover from Cons.IH [OF rest] u(3)
  have "distinct (map balance_key (account_balances db)) \<longrightarrow> distinct (map balance_key (account_balances db'))" by blast
  ultimately show ?case by blast
qed

text \<open>What applying a financial transaction leaves.\<close>

lemma apply_financial_transaction_Inr:
  assumes "apply_financial_transaction stored t kind ref postings db = Inr db'"
  shows "\<exists>bs. db' = db\<lparr>journal_transactions := journal_transactions db @ [transaction_record stored t kind ref],
      journal_postings := journal_postings db @ map (posting_record stored t) postings,
      deferred_checks := deferred_checks db @ TransactionBalanceCheck (transaction_record stored t kind ref)
        # map PostingBalanceCheck (map (posting_record stored t) postings), account_balances := bs\<rparr>"
    and "balance_of db' k = balance_of db k + fact_amount (le_book_id stored) k postings"
    and "distinct (map balance_key (account_balances db)) \<Longrightarrow> distinct (map balance_key (account_balances db'))"
    and "admit_transaction db (transaction_record stored t kind ref) = Inr ()"
    and "transaction_refers db (transaction_record stored t kind ref) = Inr ()"
proof -
  let ?t = "transaction_record stored t kind ref" and ?ps = "map (posting_record stored t) postings"
  from assms obtain db1 db2 where
    1: "insert_transaction ?t db = Inr db1" and
    2: "insert_postings ?ps db1 = Inr db2" and
    3: "foldE (\<lambda>db posting. run (upsert_balance (balance_record stored posting)) db) db2 postings = Inr db'"
    by (auto simp: apply_financial_transaction_def rbind_eq_Inr run_iff)
  have db1: "db1 = db\<lparr>journal_transactions := journal_transactions db @ [?t],
     deferred_checks := deferred_checks db @ [TransactionBalanceCheck ?t]\<rparr>" using 1 by (rule insert_transaction_Inr)
  have db2: "db2 = db1\<lparr>journal_postings := journal_postings db1 @ ?ps,
     deferred_checks := deferred_checks db1 @ map PostingBalanceCheck ?ps\<rparr>" using 2 by (rule insert_postings_Inr)
  have same: "account_balances db2 = account_balances db" by (simp add: db1 db2)
  have bal: "balance_of db2 k = balance_of db k" by (simp add: balance_of_def same)
  note L = balance_loop_Inr [OF 3, of k]
  show "\<exists>bs. db' = db\<lparr>journal_transactions := journal_transactions db @ [?t],
      journal_postings := journal_postings db @ ?ps,
      deferred_checks := deferred_checks db @ TransactionBalanceCheck ?t # map PostingBalanceCheck ?ps,
      account_balances := bs\<rparr>"
    using conjunct1 [OF L] by (simp add: db1 db2)
  show "balance_of db' k = balance_of db k + fact_amount (le_book_id stored) k postings"
    using L by (simp add: bal)
  show "distinct (map balance_key (account_balances db)) \<Longrightarrow> distinct (map balance_key (account_balances db'))"
    using L same by simp
  show "admit_transaction db ?t = Inr ()" using 1 by (simp add: insert_transaction_def insert_one)
  have "transaction_refers db1 ?t = Inr ()" using 1 by (auto simp: insert_transaction_def insert_one)
  then show "transaction_refers db ?t = Inr ()"
    by (simp add: db1 transaction_refers_def checks_Inr_iff sidecar_exists_def)
qed

section \<open>What each applier writes on the journal\<close>

definition same_journal :: "db \<Rightarrow> db \<Rightarrow> bool" where
  "same_journal db db' \<longleftrightarrow> journal_transactions db' = journal_transactions db
     \<and> journal_postings db' = journal_postings db \<and> account_balances db' = account_balances db
     \<and> set (deferred_checks db) \<subseteq> set (deferred_checks db')"

lemma same_journal_refl [simp]: "same_journal db db"
  by (simp add: same_journal_def)

lemma same_journal_trans: "same_journal db db' \<Longrightarrow> same_journal db' db'' \<Longrightarrow> same_journal db db''"
  by (auto simp: same_journal_def)

lemma balance_of_same: "same_journal db db' \<Longrightarrow> balance_of db' k = balance_of db k"
  by (simp add: same_journal_def balance_of_def)

lemma other_tables_same_journal:
  "insert_external_references xs db = Inr db' \<Longrightarrow> same_journal db db'"
  "insert_reporting_lines ls db = Inr db' \<Longrightarrow> same_journal db db'"
  "insert_reversal r db = Inr db' \<Longrightarrow> same_journal db db'"
  "insert_card c db = Inr db' \<Longrightarrow> same_journal db db'"
  "insert_lot l db = Inr db' \<Longrightarrow> same_journal db db'"
  "insert_allocation a db = Inr db' \<Longrightarrow> same_journal db db'"
  "update_external_reference x db = Inr db' \<Longrightarrow> same_journal db db'"
  "update_lot l l' db = Inr db' \<Longrightarrow> same_journal db db'"
  by (auto dest!: statement_shapes simp: same_journal_def)

lemma delete_lines_same_journal: "same_journal db (delete_current_reporting_lines b t db)"
  by (simp add: same_journal_def delete_current_reporting_lines_def)

definition records_transaction ::
    "ledger_event_record \<Rightarrow> uuid \<Rightarrow> journal_posting_fact list \<Rightarrow> db \<Rightarrow> db \<Rightarrow> bool" where
  "records_transaction stored t postings db db' \<longleftrightarrow>
     (\<exists>kind ref. journal_transactions db' = journal_transactions db @ [transaction_record stored t kind ref]
        \<and> admit_transaction db (transaction_record stored t kind ref) = Inr ()
        \<and> TransactionBalanceCheck (transaction_record stored t kind ref) \<in> set (deferred_checks db'))
     \<and> journal_postings db' = journal_postings db @ map (posting_record stored t) postings
     \<and> PostingBalanceCheck ` posting_record stored t ` set postings \<subseteq> set (deferred_checks db')
     \<and> set (deferred_checks db) \<subseteq> set (deferred_checks db')
     \<and> (\<forall>k. balance_of db' k = balance_of db k + fact_amount (le_book_id stored) k postings)
     \<and> (distinct (map balance_key (account_balances db)) \<longrightarrow> distinct (map balance_key (account_balances db')))"

lemma financial_records:
  assumes "apply_financial_transaction stored t kind ref postings db = Inr db'"
  shows "records_transaction stored t postings db db'"
  using apply_financial_transaction_Inr(1-4) [OF assms] unfolding records_transaction_def by (fastforce simp del: map_map)

lemma records_then_same:
  "records_transaction stored t postings db db' \<Longrightarrow> same_journal db' db'' \<Longrightarrow> records_transaction stored t postings db db''"
  unfolding records_transaction_def same_journal_def balance_of_def by (simp only:) blast

lemma lot_loop_same_journal:
  "foldE (apply_lot_allocation stored payload) db as = Inr db' \<Longrightarrow> same_journal db db'"
proof (induction as arbitrary: db)
  case Nil
  then show ?case by simp
next
  case (Cons a as)
  then obtain db1 where s: "apply_lot_allocation stored payload db a = Inr db1"
    and rest: "foldE (apply_lot_allocation stored payload) db1 as = Inr db'" by (auto simp: rbind_eq_Inr)
  from s obtain lot lot' al db2 where "update_lot lot lot' db = Inr db2" "insert_allocation al db2 = Inr db1"
    by (auto simp: apply_lot_allocation_def Let_def rbind_eq_Inr run_iff)
  then have "same_journal db db1"
    by (rule same_journal_trans [OF other_tables_same_journal(8) other_tables_same_journal(6)])
  with Cons.IH [OF rest] show ?case by (rule same_journal_trans [rotated])
qed

lemma apply_payload_journal:
  assumes "apply_payload stored p db = Inr db'"
  shows "case source_transaction p of
      None \<Rightarrow> same_journal db db'
    | Some (t, postings) \<Rightarrow> records_transaction stored t postings db db'"
proof (cases p)
  case (JournalTransactionPosted t)
  with assms obtain db1 where "apply_financial_transaction stored (tp_transaction_id t)
      (transaction_kind_value (tp_kind t)) (tp_description_ref t) (tp_postings t) db = Inr db1"
    "insert_external_references (map (reference_record stored (tp_transaction_id t)) (tp_external_references t)) db1 = Inr db'"
    by (auto simp: apply_journal_posted_def add_external_references_def rbind_eq_Inr run_iff)
  then have "records_transaction stored (tp_transaction_id t) (tp_postings t) db db'"
    by (rule records_then_same [OF financial_records other_tables_same_journal(1)])
  with JournalTransactionPosted show ?thesis by (simp add: source_transaction_def)
next
  case (CreditCardTransactionRecorded c)
  with assms obtain db1 db2 card where "apply_financial_transaction stored (cc_transaction_id c)
      (intent_transaction_kind (cc_intent c)) (cc_description_ref c) (cc_postings c) db = Inr db1"
    "insert_external_references (map (reference_record stored (cc_transaction_id c)) (cc_external_references c)) db1 = Inr db2"
    "insert_card card db2 = Inr db'"
    by (auto simp: apply_credit_card_recorded_def add_external_references_def rbind_eq_Inr run_iff)
  then have "records_transaction stored (cc_transaction_id c) (cc_postings c) db db'"
    by (intro records_then_same [OF financial_records
        same_journal_trans [OF other_tables_same_journal(1) other_tables_same_journal(4)]])
  with CreditCardTransactionRecorded show ?thesis by (simp add: source_transaction_def)
next
  case (JournalTransactionReversed r)
  with assms obtain kind db1 rv where "apply_financial_transaction stored (tr_reversal_transaction_id r)
      kind (tr_description_ref r) (tr_inverse_postings r) db = Inr db1" "insert_reversal rv db1 = Inr db'"
    by (auto simp: apply_journal_reversed_def rbind_eq_Inr run_iff split: prod.splits)
  then have "records_transaction stored (tr_reversal_transaction_id r) (tr_inverse_postings r) db db'"
    by (rule records_then_same [OF financial_records other_tables_same_journal(3)])
  with JournalTransactionReversed show ?thesis by (simp add: source_transaction_def)
next
  case (FinancialExternalReferenceCorrected x)
  with assms have "(\<exists>xs. insert_external_references xs db = Inr db') \<or> (\<exists>x. update_external_reference x db = Inr db')"
    by (auto simp: apply_external_reference_corrected_def Let_def rbind_eq_Inr run_iff split: option.splits)
  with FinancialExternalReferenceCorrected other_tables_same_journal show ?thesis
    by (auto simp: source_transaction_def)
next
  case (ReportingLinesAssigned l)
  with assms obtain ls where "insert_reporting_lines ls (delete_current_reporting_lines (le_book_id stored) (la_transaction_id l) db) = Inr db'"
    by (auto simp: apply_reporting_lines_assigned_def rbind_eq_Inr run_iff)
  then have "same_journal db db'"
    by (rule same_journal_trans [OF delete_lines_same_journal other_tables_same_journal(2)])
  with ReportingLinesAssigned show ?thesis by (simp add: source_transaction_def)
next
  case (ReportingLinesCleared l)
  with assms show ?thesis
    by (auto simp: source_transaction_def apply_reporting_lines_cleared_def rbind_eq_Inr delete_lines_same_journal)
next
  case (InvestmentLotAcquired l)
  with assms obtain lot where "insert_lot lot db = Inr db'"
    by (auto simp: apply_investment_lot_acquired_def rbind_eq_Inr run_iff)
  with InvestmentLotAcquired other_tables_same_journal(5) show ?thesis by (auto simp: source_transaction_def)
next
  case (InvestmentLotDisposed l)
  with assms have "foldE (apply_lot_allocation stored l) db (id_allocations l) = Inr db'"
    by (auto simp: apply_investment_lot_disposed_def rbind_eq_Inr)
  with InvestmentLotDisposed lot_loop_same_journal show ?thesis by (auto simp: source_transaction_def)
qed

section \<open>Applying a stored event\<close>

lemma apply_stored_cases:
  assumes "apply_stored stored db = Inr (r, db')"
  obtains (not_required) "required_projection (le_event_type stored) (le_event_schema_version stored) = None"
      "\<not> pr_required r" "\<not> pr_applied r" "db' = db"
  | (already) "pr_required r" "\<not> pr_applied r" "db' = db" "event_book_key stored \<in> applied_key ` set (applied_events db)"
  | (applied) m where "pr_required r" "pr_applied r" "validate_payload (le_payload stored) = Inr ()"
      "event_type (le_payload stored) = le_event_type stored"
      "applied_key m = event_book_key stored" "event_book_key stored \<notin> applied_key ` set (applied_events db)"
      "v2_validate_sync_projection_marker db m"
      "apply_payload stored (le_payload stored) (db\<lparr>applied_events := applied_events db @ [m]\<rparr>) = Inr db'"
proof (cases "required_projection (le_event_type stored) (le_event_schema_version stored)")
  case None
  with assms not_required show thesis by (auto simp: apply_stored_def)
next
  case (Some v)
  let ?m = "\<lparr>ae_book_id = le_book_id stored, ae_event_id = le_event_id stored, ae_projection_version = v\<rparr>"
  have key: "applied_key ?m = event_book_key stored" by (simp add: applied_key_def event_book_key_def)
  from assms Some obtain payload inserted db1 where
    p: "validate_stored (le_event_type stored) (le_event_schema_version stored) (le_payload stored) = Inr payload" and
    m: "insert_marker_on_conflict_do_nothing ?m db = Inr (inserted, db1)" and
    rest: "if inserted then pr_required r \<and> pr_applied r \<and> apply_payload stored payload db1 = Inr db'
       else pr_required r \<and> \<not> pr_applied r \<and> db' = db1"
    by (auto simp: apply_stored_def rbind_eq_Inr raise_as_iff lift_db_def split: prod.splits if_splits)
  from p have payload: "payload = le_payload stored" "validate_payload (le_payload stored) = Inr ()"
    "event_type (le_payload stored) = le_event_type stored"
    by (auto simp: validate_stored_def split: if_splits sum.splits)
  from m have mk: "v2_validate_sync_projection_marker db ?m"
    and ins: "if event_book_key stored \<in> applied_key ` set (applied_events db) then \<not> inserted \<and> db1 = db
       else inserted \<and> db1 = db\<lparr>applied_events := applied_events db @ [?m]\<rparr>"
    by (auto simp: insert_marker_on_conflict_do_nothing_def rbind_eq_Inr checks_Inr_iff key split: if_splits)
  show thesis
  proof (cases "event_book_key stored \<in> applied_key ` set (applied_events db)")
    case True
    with ins rest already show thesis by auto
  next
    case False
    with ins rest payload mk key applied [of ?m] show thesis by auto
  qed
qed

text \<open>
  What an event that was applied changed on the journal, whatever its class.
\<close>

lemma apply_stored_journal:
  assumes "apply_stored stored db = Inr (r, db')"
  shows "if pr_applied r then (case source_transaction (le_payload stored) of
      None \<Rightarrow> same_journal db db'
    | Some (t, postings) \<Rightarrow> records_transaction stored t postings db db') else db' = db"
  using assms
proof (cases rule: apply_stored_cases)
  case (applied m)
  have admits: "admit_transaction (db\<lparr>applied_events := x\<rparr>) t = admit_transaction db t" for x t
    by (simp add: admit_transaction_def v2_validate_journal_source_projection_def)
  have same: "same_journal (db\<lparr>applied_events := x\<rparr>) db' = same_journal db db'" for x
    by (simp add: same_journal_def)
  have recs: "records_transaction stored t ps (db\<lparr>applied_events := x\<rparr>) db' = records_transaction stored t ps db db'" for t ps x
    by (simp add: records_transaction_def balance_of_def admits)
  from apply_payload_journal [OF applied(8)] applied(2) show ?thesis
    by (simp add: same recs split: option.splits prod.splits)
qed simp_all

section \<open>The journal stays in balance\<close>

text \<open>
  Balances are the sums of the postings; every posting belongs to a transaction; and a transaction
  is balanced, or the commit still owes its check.
\<close>

definition journal_ok :: "db \<Rightarrow> bool" where
  "journal_ok db \<longleftrightarrow>
     distinct (map transaction_key (journal_transactions db))
     \<and> distinct (map balance_key (account_balances db))
     \<and> (\<forall>k. balance_of db k = total_for posted_to posting_signed k (journal_postings db))
     \<and> (\<forall>p\<in>set (journal_postings db). (po_book_id p, po_transaction_id p) \<in> transaction_key ` set (journal_transactions db))
     \<and> (\<forall>t\<in>set (journal_transactions db). TransactionBalanceCheck t \<in> set (deferred_checks db)
          \<or> v2_validate_journal_balance db (jt_book_id t) (jt_transaction_id t) = Inr ())"

lemma journal_ok_same: "journal_ok db \<Longrightarrow> same_journal db db' \<Longrightarrow> journal_ok db'"
  unfolding journal_ok_def same_journal_def balance_of_def v2_validate_journal_balance_def transaction_postings_def
  by (auto simp del: split_paired_All)

lemma fact_amount_postings:
  "fact_amount (le_book_id stored) k postings
     = total_for posted_to posting_signed k (map (posting_record stored t) postings)"
  by (induction postings)
    (auto simp: fact_amount_def posted_to_def posting_record_def posting_signed_def fact_signed_def split: posting_side.split)

lemma journal_ok_records:
  assumes ok: "journal_ok db" and rec: "records_transaction stored t postings db db'"
  shows "journal_ok db'"
proof -
  from rec obtain kind ref where
    txn: "journal_transactions db' = journal_transactions db @ [transaction_record stored t kind ref]"
    and adm: "admit_transaction db (transaction_record stored t kind ref) = Inr ()"
    and owed: "TransactionBalanceCheck (transaction_record stored t kind ref) \<in> set (deferred_checks db')"
    and post: "journal_postings db' = journal_postings db @ map (posting_record stored t) postings"
    and def: "set (deferred_checks db) \<subseteq> set (deferred_checks db')"
    and bal: "\<And>k. balance_of db' k = balance_of db k + fact_amount (le_book_id stored) k postings"
    and dist: "distinct (map balance_key (account_balances db)) \<longrightarrow> distinct (map balance_key (account_balances db'))"
    unfolding records_transaction_def by blast
  let ?t = "transaction_record stored t kind ref"
  note parts = ok [unfolded journal_ok_def]
  have key: "transaction_key ?t = (le_book_id stored, t)" by (simp add: transaction_key_def transaction_record_def)
  have fresh: "(le_book_id stored, t) \<notin> transaction_key ` set (journal_transactions db)"
    using adm by (simp add: admit_transaction_def checks_Inr_iff key)
  have others: "transaction_postings db' b u = transaction_postings db b u" if "(b, u) \<noteq> (le_book_id stored, t)" for b u
    using that by (auto simp: transaction_postings_def post filter_empty_conv posting_record_def)
  show ?thesis unfolding journal_ok_def
  proof (intro conjI allI ballI)
    show "distinct (map transaction_key (journal_transactions db'))" using parts fresh by (simp add: txn key)
    show "distinct (map balance_key (account_balances db'))" using parts dist by blast
    show "balance_of db' k = total_for posted_to posting_signed k (journal_postings db')" for k
      using parts by (simp add: bal post fact_amount_postings [of _ _ _ t] del: split_paired_All)
    show "(po_book_id p, po_transaction_id p) \<in> transaction_key ` set (journal_transactions db')"
      if "p \<in> set (journal_postings db')" for p
      using that parts by (auto simp: post txn key posting_record_def)
    show "TransactionBalanceCheck u \<in> set (deferred_checks db')
        \<or> v2_validate_journal_balance db' (jt_book_id u) (jt_transaction_id u) = Inr ()"
      if u: "u \<in> set (journal_transactions db')" for u
    proof (cases "u = ?t")
      case True
      with owed show ?thesis by simp
    next
      case False
      with u have mem: "u \<in> set (journal_transactions db)" by (simp add: txn)
      then have ne: "(jt_book_id u, jt_transaction_id u) \<noteq> (le_book_id stored, t)"
        using fresh by (auto simp: transaction_key_def image_iff)
      have "(jt_book_id u, jt_transaction_id u) \<in> transaction_key ` set (journal_transactions db)"
        using mem by (auto simp: transaction_key_def)
      then have "v2_validate_journal_balance db' (jt_book_id u) (jt_transaction_id u)
          = v2_validate_journal_balance db (jt_book_id u) (jt_transaction_id u)"
        by (simp add: v2_validate_journal_balance_def others [OF ne] txn)
      with parts mem def show ?thesis by auto
    qed
  qed
qed

lemma journal_ok_apply:
  assumes ok: "journal_ok db" and app: "apply_stored stored db = Inr (r, db')"
  shows "journal_ok db'"
proof (cases "pr_applied r")
  case False
  with apply_stored_journal [OF app] ok show ?thesis by simp
next
  case True
  show ?thesis
  proof (cases "source_transaction (le_payload stored)")
    case None
    with apply_stored_journal [OF app] True have "same_journal db db'" by simp
    with ok show ?thesis by (rule journal_ok_same)
  next
    case (Some tp)
    with apply_stored_journal [OF app] True have "records_transaction stored (fst tp) (snd tp) db db'"
      by (simp add: split_def)
    with ok show ?thesis by (rule journal_ok_records)
  qed
qed

lemma commit_Inr:
  "commit db = Inr db' \<Longrightarrow> db' = db\<lparr>deferred_checks := []\<rparr> \<and> (\<forall>c\<in>set (deferred_checks db). run_deferred db c = Inr ())"
  by (auto simp: commit_def rbind_eq_Inr checkE_Inr_iff)

lemma journal_ok_commit:
  assumes "journal_ok db" "commit db = Inr db'"
  shows "journal_ok db'" "\<forall>t\<in>set (journal_transactions db'). v2_validate_journal_balance db' (jt_book_id t) (jt_transaction_id t) = Inr ()"
proof -
  from commit_Inr [OF assms(2)] have db': "db' = db\<lparr>deferred_checks := []\<rparr>"
    and run: "\<forall>c\<in>set (deferred_checks db). run_deferred db c = Inr ()" by simp_all
  have same: "v2_validate_journal_balance db' b t = v2_validate_journal_balance db b t" for b t
    by (simp add: db' v2_validate_journal_balance_def transaction_postings_def)
  have "v2_validate_journal_balance db (jt_book_id t) (jt_transaction_id t) = Inr ()"
    if t: "t \<in> set (journal_transactions db)" for t
  proof (cases "TransactionBalanceCheck t \<in> set (deferred_checks db)")
    case True
    with run have "run_deferred db (TransactionBalanceCheck t) = Inr ()" by blast
    then show ?thesis by (simp add: run_deferred_def)
  next
    case False
    with assms(1) t show ?thesis unfolding journal_ok_def by blast
  qed
  then show all: "\<forall>t\<in>set (journal_transactions db'). v2_validate_journal_balance db' (jt_book_id t) (jt_transaction_id t) = Inr ()"
    by (simp add: same) (simp add: db')
  from assms(1) all show "journal_ok db'"
    unfolding journal_ok_def by (simp add: db' balance_of_def del: split_paired_All)
qed

text \<open>Everything that can happen to the journal of the database.\<close>

inductive projected :: "db \<Rightarrow> bool" where
  empty: "journal_transactions db = [] \<Longrightarrow> journal_postings db = [] \<Longrightarrow> account_balances db = [] \<Longrightarrow> projected db"
| elsewhere: "projected db \<Longrightarrow> same_journal db db' \<Longrightarrow> projected db'"
| project: "projected db \<Longrightarrow> apply_stored stored db = Inr (r, db') \<Longrightarrow> projected db'"
| commit: "projected db \<Longrightarrow> commit db = Inr db' \<Longrightarrow> projected db'"

lemma projected_journal_ok: "projected db \<Longrightarrow> journal_ok db"
proof (induction rule: projected.induct)
  case (empty db)
  then show ?case by (simp add: journal_ok_def balance_of_def find_by_def)
next
  case (elsewhere db db')
  then show ?case using journal_ok_same by blast
next
  case (project db stored r db')
  then show ?case using journal_ok_apply by blast
next
  case (commit db db')
  then show ?case using journal_ok_commit(1) by blast
qed

section \<open>Trial balance\<close>

lemma sum_total_for:
  "finite K \<Longrightarrow> (\<Sum>k\<in>K. total_for key val k xs) = sum_list (map val (filter (\<lambda>x. key x \<in> K) xs))"
proof (induction xs)
  case Nil
  then show ?case by simp
next
  case (Cons x xs)
  then have "(\<Sum>k\<in>K. if key x = k then val x else 0) = (if key x \<in> K then val x else 0)" by (simp add: sum.delta')
  with Cons show ?case by (simp add: sum.distrib)
qed

lemma sum_filter_asset:
  "sum_list (map posting_signed (filter (\<lambda>p. po_asset_code p = asset) ps)) = total_for po_asset_code posting_signed asset ps"
  by (simp add: total_for_def)

definition trial_balance :: "db \<Rightarrow> uuid \<Rightarrow> string \<Rightarrow> int" where
  "trial_balance db b asset =
     sum_list (map ab_balance_units (filter (\<lambda>a. ab_book_id a = b \<and> ab_asset_code a = asset) (account_balances db)))"

lemma balanced_total:
  "v2_validate_journal_balance db b t = Inr () \<Longrightarrow> (b, t) \<in> transaction_key ` set (journal_transactions db) \<Longrightarrow>
     2 \<le> length (transaction_postings db b t) \<and> (\<forall>asset. total_for po_asset_code posting_signed asset (transaction_postings db b t) = 0)"
proof -
  assume v: "v2_validate_journal_balance db b t = Inr ()" and m: "(b, t) \<in> transaction_key ` set (journal_transactions db)"
  from v m have l: "2 \<le> length (transaction_postings db b t)"
    and z: "\<forall>asset\<in>po_asset_code ` set (transaction_postings db b t).
        total_for po_asset_code posting_signed asset (transaction_postings db b t) = 0"
    by (auto simp: v2_validate_journal_balance_def checks_Inr_iff Let_def list_ex_iff)
  have "total_for po_asset_code posting_signed asset (transaction_postings db b t) = 0" for asset
    using z total_for_notin [of asset po_asset_code] by (cases "asset \<in> po_asset_code ` set (transaction_postings db b t)") auto
  with l show ?thesis by blast
qed

lemma trial_balance_zero:
  assumes ok: "journal_ok db"
    and bal: "\<forall>t\<in>set (journal_transactions db). v2_validate_journal_balance db (jt_book_id t) (jt_transaction_id t) = Inr ()"
  shows "trial_balance db b asset = 0"
proof -
  note parts = ok [unfolded journal_ok_def]
  let ?rows = "filter (\<lambda>a. ab_book_id a = b \<and> ab_asset_code a = asset) (account_balances db)"
  let ?ps = "filter (\<lambda>p. po_book_id p = b \<and> po_asset_code p = asset) (journal_postings db)"
  let ?K = "balance_key ` set ?rows \<union> posted_to ` set ?ps"
  let ?T = "\<lambda>k. total_for posted_to posting_signed k (journal_postings db)"
  have d: "distinct (map balance_key ?rows)" using parts by (simp add: distinct_map_filter)
  have row: "ab_balance_units a = ?T (balance_key a)" if "a \<in> set ?rows" for a
  proof -
    have "find_by balance_key (balance_key a) (account_balances db) = Some a"
      using that parts by (intro find_by_distinct) auto
    then have "balance_of db (balance_key a) = ab_balance_units a" by (simp add: balance_of_def)
    with parts show ?thesis by (simp del: split_paired_All)
  qed
  have "trial_balance db b asset = sum_list (map (\<lambda>a. ?T (balance_key a)) ?rows)"
    unfolding trial_balance_def using row by (intro arg_cong [of _ _ sum_list] map_cong) auto
  also have "\<dots> = (\<Sum>k\<in>balance_key ` set ?rows. ?T k)"
    using d by (simp add: sum_list_distinct_conv_sum_set sum.reindex distinct_map comp_def)
  also have "\<dots> = (\<Sum>k\<in>?K. ?T k)"
  proof (rule sum.mono_neutral_left)
    show "\<forall>k\<in>?K - balance_key ` set ?rows. ?T k = 0"
    proof
      fix k assume "k \<in> ?K - balance_key ` set ?rows"
      then obtain p where p: "p \<in> set ?ps" "k = posted_to p" and n: "k \<notin> balance_key ` set ?rows" by auto
      have "k \<notin> balance_key ` set (account_balances db)"
        using n p by (auto simp: posted_to_def balance_key_def)
      then have "find_by balance_key k (account_balances db) = None" by (simp add: find_by_None_iff)
      then have "balance_of db k = 0" by (simp add: balance_of_def)
      with parts show "?T k = 0" by (simp del: split_paired_All)
    qed
  qed auto
  also have "\<dots> = sum_list (map posting_signed (filter (\<lambda>p. posted_to p \<in> ?K) (journal_postings db)))"
    by (rule sum_total_for) simp
  also have "filter (\<lambda>p. posted_to p \<in> ?K) (journal_postings db) = ?ps"
    by (rule filter_cong) (auto simp: posted_to_def balance_key_def)
  also have "sum_list (map posting_signed ?ps) = 0"
  proof -
    let ?U = "jt_transaction_id ` set (filter (\<lambda>t. jt_book_id t = b) (journal_transactions db))"
    have eq: "?ps = filter (\<lambda>p. po_transaction_id p \<in> ?U) ?ps"
    proof (rule sym, rule filter_True, rule ballI)
      fix p assume p: "p \<in> set ?ps"
      with parts have "(po_book_id p, po_transaction_id p) \<in> transaction_key ` set (journal_transactions db)" by auto
      with p show "po_transaction_id p \<in> ?U" by (auto simp: transaction_key_def)
    qed
    have "sum_list (map posting_signed ?ps) = (\<Sum>u\<in>?U. total_for po_transaction_id posting_signed u ?ps)"
      by (subst eq) (rule sum_total_for [symmetric], simp)
    also have "\<dots> = 0"
    proof (rule sum.neutral, rule ballI)
      fix u assume "u \<in> ?U"
      then obtain t where t: "t \<in> set (journal_transactions db)" "jt_book_id t = b" "u = jt_transaction_id t" by auto
      then have m: "(b, u) \<in> transaction_key ` set (journal_transactions db)" by (auto simp: transaction_key_def)
      from bal t have "v2_validate_journal_balance db b u = Inr ()" by auto
      with balanced_total m have z: "total_for po_asset_code posting_signed asset (transaction_postings db b u) = 0" by blast
      have "filter (\<lambda>p. po_transaction_id p = u) ?ps = filter (\<lambda>p. po_asset_code p = asset) (transaction_postings db b u)"
        by (auto simp: transaction_postings_def intro: filter_cong)
      with z show "total_for po_transaction_id posting_signed u ?ps = 0" by (simp add: total_for_def)
    qed
    finally show ?thesis .
  qed
  finally show ?thesis .
qed

end
