(* ===== verification/Projection_Safety.thy ===== *)
theory Projection_Safety
  imports Journal_Projection
begin

text \<open>
  Concrete journal events that run through the projector, and what projecting guarantees as a whole:
  the balances are the sums of the postings, committed books balance, a stored event is projected
  once, and a reversal undoes its original exactly and only once.
\<close>

section \<open>Reversals\<close>

lemma fact_amount_inverse:
  "list_all2 inverse_of ps qs \<Longrightarrow> fact_amount b k qs = - fact_amount b k ps"
proof (induction rule: list_all2_induct)
  case Nil
  then show ?case by (simp add: fact_amount_def)
next
  case (Cons p ps q qs)
  from Cons(1) have "(b, jp_account_id q, jp_asset_code q) = (b, jp_account_id p, jp_asset_code p)"
    "fact_signed q = - fact_signed p"
    by (auto simp: inverse_of_def fact_signed_def split: if_splits posting_side.splits)
  with Cons.IH show ?case by (simp add: fact_amount_def)
qed

lemma validate_exact_inverse_Inr:
  "validate_exact_inverse ps qs = Inr u \<longleftrightarrow> list_all2 inverse_of ps qs
     \<and> set (map jp_posting_id ps) \<inter> set (map jp_posting_id qs) = {}"
proof -
  have "(\<forall>x\<in>set (zip ps qs). (case x of (a, b) \<Rightarrow> require (inverse_of a b)) = Inr ()) \<longleftrightarrow>
      (\<forall>(a, b)\<in>set (zip ps qs). inverse_of a b)"
    by (auto simp: require_iff)
  then show ?thesis
    unfolding validate_exact_inverse_def rbind_eq_Inr require_iff checkE_Inr_iff list_all2_iff by blast
qed

lemma apply_journal_reversed_Inr:
  assumes "apply_journal_reversed stored p db = Inr db'"
  obtains original event ps where
    "transaction_of db (le_book_id stored) (tr_reverses_transaction_id p) = Some original"
    "jt_source_event_id original = tr_original_event_id p" "jt_source_position original < le_book_position stored"
    "event \<in> set (ledger_events db)" "le_event_id event = tr_original_event_id p" "le_book_id event = le_book_id stored"
    "bytes_hex (le_event_hash event) = tr_original_event_hash p"
      "source_transaction (le_payload event) = Some (tr_reverses_transaction_id p, ps)"
    "list_all2 inverse_of ps (tr_inverse_postings p)"
    "apply_financial_transaction stored (tr_reversal_transaction_id p) (jt_transaction_kind original)
       (tr_description_ref p) (tr_inverse_postings p) db = Inr (db'\<lparr>transaction_reversals := transaction_reversals db\<rparr>)"
    "transaction_reversals db' = transaction_reversals db @ [reversal_record stored p event]"
    "admit_reversal (db'\<lparr>transaction_reversals := transaction_reversals db\<rparr>) (reversal_record stored p event) = Inr ()"
proof -
  from assms obtain original event payload t ps db1 where
    1: "transaction_of db (le_book_id stored) (tr_reverses_transaction_id p) = Some original"
    "jt_source_event_id original = tr_original_event_id p" "jt_source_position original < le_book_position stored" and
    ev: "find_by le_event_id (tr_original_event_id p) (ledger_events db) = Some event" and
    2: "le_book_id event = le_book_id stored" "bytes_hex (le_event_hash event) = tr_original_event_hash p" and
    pl: "validate_stored (le_event_type event) (le_event_schema_version event) (le_payload event) = Inr payload" and
    3: "source_transaction payload = Some (t, ps)" "t = tr_reverses_transaction_id p" and
    4: "validate_exact_inverse ps (tr_inverse_postings p) = Inr ()" and
    5: "apply_financial_transaction stored (tr_reversal_transaction_id p) (jt_transaction_kind original)
       (tr_description_ref p) (tr_inverse_postings p) db = Inr db1" and
    6: "insert_reversal (reversal_record stored p event) db1 = Inr db'"
    by (auto simp: apply_journal_reversed_def rbind_eq_Inr run_iff require_iff require_some_iff raise_as_iff)
  have payload: "payload = le_payload event" using pl by (auto simp: validate_stored_def split: if_splits sum.splits)
  have rev: "transaction_reversals db1 = transaction_reversals db"
    using apply_financial_transaction_Inr(1) [OF 5] by auto
  have adm: "admit_reversal db1 (reversal_record stored p event) = Inr ()"
    and db': "db' = add_reversal (reversal_record stored p event) db1"
    using 6 by (simp_all add: insert_reversal_def insert_one)
  have db1: "db'\<lparr>transaction_reversals := transaction_reversals db\<rparr> = db1"
    by (simp add: db' add_reversal_def flip: rev)
  show thesis
  proof (rule that [OF 1 _ _ 2])
    show "event \<in> set (ledger_events db)" "le_event_id event = tr_original_event_id p"
      using find_by_Some_D [OF ev] by simp_all
    show "source_transaction (le_payload event) = Some (tr_reverses_transaction_id p, ps)" using 3 payload by simp
    show "list_all2 inverse_of ps (tr_inverse_postings p)" using 4 by (simp only: validate_exact_inverse_Inr)
    show "apply_financial_transaction stored (tr_reversal_transaction_id p) (jt_transaction_kind original)
       (tr_description_ref p) (tr_inverse_postings p) db = Inr (db'\<lparr>transaction_reversals := transaction_reversals db\<rparr>)"
      using 5 by (simp only: db1)
    show "transaction_reversals db' = transaction_reversals db @ [reversal_record stored p event]"
      by (simp add: db' add_reversal_def rev)
    show "admit_reversal (db'\<lparr>transaction_reversals := transaction_reversals db\<rparr>) (reversal_record stored p event) = Inr ()"
      using adm by (simp only: db1)
  qed
qed

section \<open>A small journal\<close>

lemma prove_jlist: "\<forall>v\<in>set vs. prove_json_value v = Inr () \<Longrightarrow> prove_json_value (JList vs) = Inr ()"
  unfolding prove_json_value.simps by (induction vs) simp_all

lemma prove_jopt_str: "prove_json_value (jopt jstr x) = Inr ()"
  by (cases x) (simp_all add: jopt_def)

lemma prove_parts:
  "\<bar>jp_position p\<bar> < 2 ^ 64 \<Longrightarrow> prove_json_value (dump_posting p) = Inr ()"
  "prove_json_value (dump_external_reference r) = Inr ()"
  "\<bar>rl_position l\<bar> < 2 ^ 64 \<Longrightarrow> prove_json_value (dump_reporting_line l) = Inr ()"
  "\<bar>ld_position a\<bar> < 2 ^ 64 \<Longrightarrow> prove_json_value (dump_allocation a) = Inr ()"
  unfolding dump_posting_def dump_external_reference_def dump_reporting_line_def dump_allocation_def
  by (rule prove_jobj, simp add: small_int_provable del: prove_json_value.simps)+

text \<open>Payloads whose numbers are within 64 bits can always be stored.\<close>

fun payload_numbers :: "event_payload \<Rightarrow> int list" where
  "payload_numbers (JournalTransactionPosted p) = map jp_position (tp_postings p)"
| "payload_numbers (JournalTransactionReversed p) = map jp_position (tr_inverse_postings p)"
| "payload_numbers (FinancialExternalReferenceCorrected p) = []"
| "payload_numbers (CreditCardTransactionRecorded p) = map jp_position (cc_postings p)"
| "payload_numbers (ReportingLinesAssigned p) = la_classification_revision p # map rl_position (la_lines p)"
| "payload_numbers (ReportingLinesCleared p) = [lc_classification_revision p]"
| "payload_numbers (InvestmentLotAcquired p) = []"
| "payload_numbers (InvestmentLotDisposed p) = map ld_position (id_allocations p)"

lemma dump_provable:
  assumes "\<forall>n\<in>set (payload_numbers p). \<bar>n\<bar> < 2 ^ 64"
  shows "prove_json_value (model_dump p) = Inr ()"
  by (cases p; simp only: model_dump.simps dump_posted_def dump_reversed_def dump_reference_corrected_def dump_card_def
      dump_lines_assigned_def dump_lines_cleared_def dump_lot_acquired_def dump_lot_disposed_def;
      rule prove_jobj; insert assms)
    (simp_all add: prove_jlist prove_parts prove_jopt_str small_int_provable del: prove_json_value.simps)

lemma validate_stored_valid:
  assumes "validate_payload p = Inr ()" "\<forall>n\<in>set (payload_numbers p). \<bar>n\<bar> < 2 ^ 64"
  shows "validate_stored (event_type p) 1 p = Inr p"
proof -
  have "event_type p \<in> set registered_types" by (cases p) (simp_all add: registered_types_def)
  with assms dump_provable [OF assms(2)] show ?thesis
    by (simp add: validate_stored_def canonical_json_bytes_def)
qed

abbreviation demo_account :: "uuid \<Rightarrow> string \<Rightarrow> account_record" where
  "demo_account i t \<equiv> \<lparr>ac_book_id = 2, ac_account_id = i, ac_asset_code = ''CNY'', ac_account_type = t,
     ac_account_subtype = None, ac_system_role = None, ac_current_name = ''n'', ac_status = ''active'', ac_version = 1\<rparr>"

abbreviation demo_posted :: journal_transaction_posted where
  "demo_posted \<equiv> \<lparr>tp_transaction_id = 9, tp_kind = K_STANDARD, tp_original_transaction_id = None,
     tp_postings = [demo_fact 11 0 21 DEBIT ''25'', demo_fact 12 1 22 CREDIT ''25''],
     tp_description_ref = None, tp_external_references = []\<rparr>"

abbreviation demo_reversed :: journal_transaction_reversed where
  "demo_reversed \<equiv> \<lparr>tr_reversal_transaction_id = 10, tr_reverses_transaction_id = 9, tr_original_event_id = 31,
     tr_original_event_hash = bytes_hex (replicate 32 1), tr_reason_code = USER_CORRECTION,
     tr_inverse_postings = [demo_fact 13 0 21 CREDIT ''25'', demo_fact 14 1 22 DEBIT ''25''],
     tr_description_ref = None\<rparr>"

abbreviation demo_ledger_event :: "uuid \<Rightarrow> int \<Rightarrow> string \<Rightarrow> uuid \<Rightarrow> int \<Rightarrow> event_payload \<Rightarrow> ledger_event_record" where
  "demo_ledger_event i n s t v p \<equiv>
     \<lparr>le_event_id = i, le_book_id = 2, le_book_position = n, le_stream_type = s, le_stream_id = t,
      le_stream_version = v, le_event_type = event_type p, le_event_schema_version = 1, le_command_id = 4,
      le_actor_subject_id = ''a'', le_correlation_id = 5, le_causation_event_id = None, le_effective_at = 0,
      le_payload = p, le_previous_hash = ZERO_HASH, le_event_hash = replicate 32 1\<rparr>"

abbreviation demo_posted_event :: ledger_event_record where
  "demo_posted_event \<equiv> demo_ledger_event 31 1 ''journal_transaction'' 9 1 (JournalTransactionPosted demo_posted)"

abbreviation demo_reversed_event :: ledger_event_record where
  "demo_reversed_event \<equiv> demo_ledger_event 32 2 ''journal_transaction'' 10 1 (JournalTransactionReversed demo_reversed)"

abbreviation demo_journal :: db where
  "demo_journal \<equiv> demo_db\<lparr>accounts := [demo_account 21 ''asset'', demo_account 22 ''income''],
     ledger_events := [demo_posted_event, demo_reversed_event]\<rparr>"

abbreviation demo_balance :: "uuid \<Rightarrow> int \<Rightarrow> int \<Rightarrow> account_balance_record" where
  "demo_balance a u n \<equiv> \<lparr>ab_book_id = 2, ab_account_id = a, ab_asset_code = ''CNY'', ab_balance_units = u,
     ab_as_of_position = n\<rparr>"

lemma demo_payloads_valid:
  "validate_stored ''JournalTransactionPosted'' 1 (JournalTransactionPosted demo_posted) = Inr (JournalTransactionPosted demo_posted)"
  "validate_stored ''JournalTransactionReversed'' 1 (JournalTransactionReversed demo_reversed) = Inr (JournalTransactionReversed demo_reversed)"
proof -
  have "validate_posted demo_posted = Inr ()"
    by (simp add: validate_posted_def validate_ordered_records_def posting_fact_fields_ok_def pattern_simps upt_rec)
  then show "validate_stored ''JournalTransactionPosted'' 1 (JournalTransactionPosted demo_posted) = Inr (JournalTransactionPosted demo_posted)"
    using validate_stored_valid [of "JournalTransactionPosted demo_posted"] by simp
  have "CanonicalEventHash (bytes_hex (replicate 32 1))" by code_simp
  then have "validate_reversed demo_reversed = Inr ()"
    by (simp add: validate_reversed_def validate_ordered_records_def posting_fact_fields_ok_def pattern_simps upt_rec)
  then show "validate_stored ''JournalTransactionReversed'' 1 (JournalTransactionReversed demo_reversed) = Inr (JournalTransactionReversed demo_reversed)"
    using validate_stored_valid [of "JournalTransactionReversed demo_reversed"] by simp
qed

lemma demo_units_25: "units_value ''25'' = 25"
  by code_simp

abbreviation demo_marker :: "uuid \<Rightarrow> applied_event_record" where
  "demo_marker i \<equiv> \<lparr>ae_book_id = 2, ae_event_id = i, ae_projection_version = 1\<rparr>"

definition demo_posted_db :: db where
  "demo_posted_db = demo_journal\<lparr>applied_events := [demo_marker 31],
     journal_transactions := [transaction_record demo_posted_event 9 ''standard'' None],
     journal_postings := map (posting_record demo_posted_event 9) (tp_postings demo_posted),
     account_balances := [demo_balance 21 25 1, demo_balance 22 (-25) 1],
     deferred_checks := TransactionBalanceCheck (transaction_record demo_posted_event 9 ''standard'' None)
       # map PostingBalanceCheck (map (posting_record demo_posted_event 9) (tp_postings demo_posted))\<rparr>"

lemmas statement_defs = insert_transaction_def insert_postings_def insert_rows_def admit_transaction_def
  add_transaction_def transaction_refers_def admit_posting_def add_posting_def posting_refers_def
  insert_external_references_def upsert_balance_def lift_db_def run_def

lemmas record_defs = transaction_record_def posting_record_def balance_record_def transaction_key_def
  transaction_source_key_def event_book_key_def event_position_key_def sidecar_exists_def posting_key_def
  posting_position_key_def account_asset_key_def balance_key_def transaction_kinds_def applied_key_def
  reversal_key_def reversal_target_key_def transaction_with_source_def

lemmas sync_types = required_projection_def sync_required_def synchronous_projection_event_types_def

lemma demo_apply_posted:
  "apply_stored demo_posted_event demo_journal = Inr
     (\<lparr>pr_event_id = 31, pr_required = True, pr_applied = True, pr_projection_version = Some 1\<rparr>, demo_posted_db)"
proof -
  have m: "insert_marker_on_conflict_do_nothing (demo_marker 31) demo_journal
      = Inr (True, demo_journal\<lparr>applied_events := [demo_marker 31]\<rparr>)"
    by (simp add: insert_marker_on_conflict_do_nothing_def v2_validate_sync_projection_marker_def table_checks
        sync_types applied_key_def event_book_key_def)
  have "apply_journal_posted demo_posted_event demo_posted (demo_journal\<lparr>applied_events := [demo_marker 31]\<rparr>)
      = Inr demo_posted_db"
    by (simp add: apply_journal_posted_def apply_financial_transaction_def add_external_references_def statement_defs
        record_defs table_checks v2_validate_journal_source_projection_def sync_types numeric_digits_def demo_units_25
        demo_posted_db_def find_by_def Let_def)
  with m show ?thesis
    by (simp add: apply_stored_def sync_types demo_payloads_valid lift_db_def)
qed

definition demo_reversed_db :: db where
  "demo_reversed_db = demo_posted_db\<lparr>applied_events := [demo_marker 31, demo_marker 32],
     journal_transactions := [transaction_record demo_posted_event 9 ''standard'' None,
       transaction_record demo_reversed_event 10 ''standard'' None],
     journal_postings := map (posting_record demo_posted_event 9) (tp_postings demo_posted)
       @ map (posting_record demo_reversed_event 10) (tr_inverse_postings demo_reversed),
     account_balances := [demo_balance 21 0 2, demo_balance 22 0 2],
     transaction_reversals := [reversal_record demo_reversed_event demo_reversed demo_posted_event],
     deferred_checks := deferred_checks demo_posted_db
       @ TransactionBalanceCheck (transaction_record demo_reversed_event 10 ''standard'' None)
       # map PostingBalanceCheck (map (posting_record demo_reversed_event 10) (tr_inverse_postings demo_reversed))\<rparr>"

lemma demo_apply_reversed:
  "apply_stored demo_reversed_event demo_posted_db = Inr
     (\<lparr>pr_event_id = 32, pr_required = True, pr_applied = True, pr_projection_version = Some 1\<rparr>, demo_reversed_db)"
proof -
  let ?db = "demo_posted_db\<lparr>applied_events := [demo_marker 31, demo_marker 32]\<rparr>"
  let ?db1 = "demo_reversed_db\<lparr>transaction_reversals := []\<rparr>"
  have m: "insert_marker_on_conflict_do_nothing (demo_marker 32) demo_posted_db = Inr (True, ?db)"
    by (simp add: insert_marker_on_conflict_do_nothing_def v2_validate_sync_projection_marker_def table_checks
        sync_types applied_key_def event_book_key_def demo_posted_db_def)
  have fin: "apply_financial_transaction demo_reversed_event 10 ''standard'' None (tr_inverse_postings demo_reversed) ?db
      = Inr ?db1"
    by (simp add: apply_financial_transaction_def statement_defs record_defs table_checks
        v2_validate_journal_source_projection_def sync_types numeric_digits_def demo_units_25
        demo_posted_db_def demo_reversed_db_def find_by_def replace_by_def Let_def)
  have "v2_validate_credit_card_reversal ?db1 (reversal_record demo_reversed_event demo_reversed demo_posted_event) = Inr ()"
    by (simp add: v2_validate_credit_card_reversal_def reversal_record_def demo_reversed_db_def demo_posted_db_def
        find_by_def transaction_key_def transaction_record_def event_book_key_def like_credit_card_def
        touches_credit_card_def account_asset_key_def posting_record_def)
  then have rev: "insert_reversal (reversal_record demo_reversed_event demo_reversed demo_posted_event) ?db1 = Inr demo_reversed_db"
    by (simp add: insert_reversal_def insert_one admit_reversal_def add_reversal_def reversal_refers_def table_checks)
      (simp add: record_defs reversal_record_def demo_reversed_db_def)
  have tr: "transaction_of ?db 2 9 = Some (transaction_record demo_posted_event 9 ''standard'' None)"
    by (simp add: transaction_of_def demo_posted_db_def find_by_def record_defs)
  have ev: "find_by le_event_id 31 (ledger_events ?db) = Some demo_posted_event"
    by (simp add: demo_posted_db_def find_by_def)
  have inv: "validate_exact_inverse (tp_postings demo_posted) (tr_inverse_postings demo_reversed) = Inr ()"
    by (simp add: validate_exact_inverse_Inr inverse_of_def)
  have "apply_journal_reversed demo_reversed_event demo_reversed ?db = Inr demo_reversed_db"
    unfolding apply_journal_reversed_def
    using tr ev inv fin rev demo_payloads_valid(1)
    by (simp add: require_some_def require_def source_transaction_def run_def lift_db_def transaction_record_def
        raise_as_def)
  with m show ?thesis
    by (simp add: apply_stored_def sync_types demo_payloads_valid lift_db_def)
qed

lemma demo_commit: "commit demo_posted_db = Inr (demo_posted_db\<lparr>deferred_checks := []\<rparr>)"
proof -
  have "v2_validate_journal_balance demo_posted_db 2 9 = Inr ()"
    by (simp add: v2_validate_journal_balance_def table_checks demo_posted_db_def record_defs transaction_postings_def
        posting_signed_def Let_def demo_units_25)
  then show ?thesis
    by (simp add: commit_def demo_posted_db_def run_deferred_def record_defs)
qed

lemma demo_projected: "projected demo_journal" "projected demo_posted_db" "projected demo_reversed_db"
proof -
  show 1: "projected demo_journal" by (rule projected.empty) simp_all
  show 2: "projected demo_posted_db" using 1 demo_apply_posted by (rule projected.project)
  show "projected demo_reversed_db" using 2 demo_apply_reversed by (rule projected.project)
qed

section \<open>Properties\<close>

text \<open>
  Property C2: account balances are always the sums of the postings. After any sequence of projected
  events, commits and changes to other tables there is at most one balance row per account and
  asset, and it holds debits minus credits of exactly that account's postings.
\<close>

theorem balances_are_posting_sums:
  assumes "projected db"
  shows "distinct (map balance_key (account_balances db))
    \<and> balance_of db (b, account, asset) = sum_list (map posting_signed
        (filter (\<lambda>p. po_book_id p = b \<and> po_account_id p = account \<and> po_asset_code p = asset) (journal_postings db)))"
proof -
  from projected_journal_ok [OF assms] have d: "distinct (map balance_key (account_balances db))"
    and t: "balance_of db (b, account, asset) = total_for posted_to posting_signed (b, account, asset) (journal_postings db)"
    unfolding journal_ok_def by blast+
  have "filter (\<lambda>p. posted_to p = (b, account, asset)) (journal_postings db)
      = filter (\<lambda>p. po_book_id p = b \<and> po_account_id p = account \<and> po_asset_code p = asset) (journal_postings db)"
    by (simp add: posted_to_def)
  with d t show ?thesis by (simp only: total_for_def simp_thms)
qed

theorem balances_are_posting_sums_witness: "balance_of demo_posted_db (2, 22, ''CNY'') = -25"
  using balances_are_posting_sums [OF demo_projected(2), of 2 22 "''CNY''"]
  by (simp add: demo_posted_db_def posting_record_def posting_signed_def demo_units_25)

text \<open>
  Property C1: whatever is committed is in balance. When a transaction commits, every journal
  transaction in the database has at least two postings whose debits equal its credits in every
  asset, and in every Book the balances of each asset add up to zero.
\<close>

theorem committed_books_balance:
  assumes "projected db" "commit db = Inr db'"
  shows "(\<forall>t\<in>set (journal_transactions db').
            2 \<le> length (transaction_postings db' (jt_book_id t) (jt_transaction_id t))
            \<and> (\<forall>asset. total_for po_asset_code posting_signed asset
                 (transaction_postings db' (jt_book_id t) (jt_transaction_id t)) = 0))
    \<and> trial_balance db' b asset = 0"
proof -
  note c = journal_ok_commit [OF projected_journal_ok [OF assms(1)] assms(2)]
  have "2 \<le> length (transaction_postings db' (jt_book_id t) (jt_transaction_id t))
      \<and> (\<forall>asset. total_for po_asset_code posting_signed asset (transaction_postings db' (jt_book_id t) (jt_transaction_id t)) = 0)"
    if "t \<in> set (journal_transactions db')" for t
  proof (rule balanced_total)
    show "v2_validate_journal_balance db' (jt_book_id t) (jt_transaction_id t) = Inr ()" using c(2) that by blast
    show "(jt_book_id t, jt_transaction_id t) \<in> transaction_key ` set (journal_transactions db')"
      using that by (auto simp: transaction_key_def)
  qed
  with trial_balance_zero [OF c] show ?thesis by blast
qed

theorem committed_books_balance_witness:
  "trial_balance (demo_posted_db\<lparr>deferred_checks := []\<rparr>) 2 ''CNY'' = 0"
  using committed_books_balance [OF demo_projected(2) demo_commit, of 2 "''CNY''"] by blast

section \<open>What projecting leaves alone\<close>

text \<open>
  A relation between the database before and after that every statement of the appliers respects
  holds of a whole application.
\<close>

locale projection_writes =
  fixes R :: "db \<Rightarrow> db \<Rightarrow> bool"
  assumes refl: "R db db"
    and trans: "R db db' \<Longrightarrow> R db' db'' \<Longrightarrow> R db db''"
    and transaction: "insert_transaction t db = Inr db' \<Longrightarrow> R db db'"
    and postings: "insert_postings ps db = Inr db' \<Longrightarrow> R db db'"
    and balance: "upsert_balance ab db = Inr db' \<Longrightarrow> R db db'"
    and references: "insert_external_references xs db = Inr db' \<Longrightarrow> R db db'"
    and reference_update: "update_external_reference x db = Inr db' \<Longrightarrow> R db db'"
    and lines: "insert_reporting_lines ls db = Inr db' \<Longrightarrow> R db db'"
    and delete_lines: "R db (delete_current_reporting_lines book u db)"
    and reversal: "insert_reversal r db = Inr db' \<Longrightarrow> R db db'"
    and card: "insert_card c db = Inr db' \<Longrightarrow> R db db'"
    and lot: "insert_lot l db = Inr db' \<Longrightarrow> R db db'"
    and lot_update: "update_lot l l' db = Inr db' \<Longrightarrow> R db db'"
    and allocation: "insert_allocation a db = Inr db' \<Longrightarrow> R db db'"
begin

lemma loop:
  assumes "\<And>x d d'. step d x = Inr d' \<Longrightarrow> R d d'"
  shows "foldE step db xs = Inr db' \<Longrightarrow> R db db'"
proof (induction xs arbitrary: db)
  case Nil
  then show ?case by (simp add: refl)
next
  case (Cons x xs)
  then obtain d where "step db x = Inr d" "foldE step d xs = Inr db'" by (auto simp: rbind_eq_Inr)
  with assms Cons.IH show ?case by (blast intro: trans)
qed

lemma financial:
  assumes "apply_financial_transaction stored t kind ref ps db = Inr db'"
  shows "R db db'"
proof -
  let ?step = "\<lambda>db posting. run (upsert_balance (balance_record stored posting)) db"
  from assms obtain d d' where "insert_transaction (transaction_record stored t kind ref) db = Inr d"
    "insert_postings (map (posting_record stored t) ps) d = Inr d'" "foldE ?step d' ps = Inr db'"
    by (auto simp: apply_financial_transaction_def rbind_eq_Inr run_iff)
  note parts = this
  have "?step d x = Inr d' \<Longrightarrow> R d d'" for x d d' using balance by (simp add: run_iff)
  from loop [of ?step, OF this parts(3)] have "R d' db'" .
  with transaction [OF parts(1)] postings [OF parts(2)] show ?thesis by (blast intro: trans)
qed

lemma lot_allocation:
  assumes "apply_lot_allocation stored payload db a = Inr db'"
  shows "R db db'"
proof -
  from assms obtain l l' al d where "update_lot l l' db = Inr d" "insert_allocation al d = Inr db'"
    by (auto simp: apply_lot_allocation_def Let_def rbind_eq_Inr run_iff)
  then show ?thesis by (rule trans [OF lot_update allocation])
qed

lemma apply_payload:
  assumes "apply_payload stored p db = Inr db'"
  shows "R db db'"
proof (cases p)
  case (JournalTransactionPosted t)
  with assms obtain d where "R db d" "\<exists>xs. insert_external_references xs d = Inr db'"
    using financial by (fastforce simp: apply_journal_posted_def add_external_references_def rbind_eq_Inr run_iff)
  then show ?thesis using references trans by blast
next
  case (CreditCardTransactionRecorded c)
  with assms obtain d d' where "R db d" "\<exists>xs. insert_external_references xs d = Inr d'" "\<exists>c. insert_card c d' = Inr db'"
    using financial by (fastforce simp: apply_credit_card_recorded_def add_external_references_def rbind_eq_Inr run_iff)
  then show ?thesis using references card trans by blast
next
  case (JournalTransactionReversed r)
  with assms obtain d where "R db d" "\<exists>rv. insert_reversal rv d = Inr db'"
    using financial by (fastforce simp: apply_journal_reversed_def rbind_eq_Inr run_iff split: prod.splits)
  then show ?thesis using reversal trans by blast
next
  case (FinancialExternalReferenceCorrected x)
  with assms have "(\<exists>xs. insert_external_references xs db = Inr db') \<or> (\<exists>x. update_external_reference x db = Inr db')"
    by (auto simp: apply_external_reference_corrected_def Let_def rbind_eq_Inr run_iff split: option.splits)
  then show ?thesis using references reference_update by blast
next
  case (ReportingLinesAssigned l)
  with assms obtain ls where "insert_reporting_lines ls (delete_current_reporting_lines (le_book_id stored) (la_transaction_id l) db) = Inr db'"
    by (auto simp: apply_reporting_lines_assigned_def rbind_eq_Inr run_iff)
  from lines [OF this] show ?thesis by (rule trans [OF delete_lines])
next
  case (ReportingLinesCleared l)
  with assms show ?thesis by (auto simp: apply_reporting_lines_cleared_def rbind_eq_Inr delete_lines)
next
  case (InvestmentLotAcquired l)
  with assms obtain lot where "insert_lot lot db = Inr db'"
    by (auto simp: apply_investment_lot_acquired_def rbind_eq_Inr run_iff)
  then show ?thesis by (rule lot)
next
  case (InvestmentLotDisposed l)
  with assms have "foldE (apply_lot_allocation stored l) db (id_allocations l) = Inr db'"
    by (auto simp: apply_investment_lot_disposed_def rbind_eq_Inr)
  then show ?thesis by (rule loop [rotated]) (rule lot_allocation)
qed

end

text \<open>The event store, the catalog, the receipts and the markers are not written by the appliers.\<close>

definition only_projections :: "db \<Rightarrow> db \<Rightarrow> bool" where
  "only_projections db db' \<longleftrightarrow> books db' = books db \<and> assets db' = assets db \<and> accounts db' = accounts db
     \<and> category_versions db' = category_versions db \<and> description_sidecars db' = description_sidecars db \<and> book_members db' = book_members db
     \<and> book_event_heads db' = book_event_heads db \<and> ledger_events db' = ledger_events db
     \<and> event_stream_heads db' = event_stream_heads db \<and> command_receipts db' = command_receipts db
     \<and> applied_events db' = applied_events db \<and> set (deferred_checks db) \<subseteq> set (deferred_checks db')"

lemma only_projections_shape:
  "only_projections db db'" if "\<exists>bs. db' = db\<lparr>account_balances := bs\<rparr>"
  using that by (auto simp: only_projections_def)

interpretation projection_frame: projection_writes only_projections
proof unfold_locales
  show "upsert_balance b db = Inr db' \<Longrightarrow> only_projections db db'" for b db db'
    using upsert_balance_Inr(1) only_projections_shape by blast
qed (auto dest!: statement_shapes simp: only_projections_def delete_current_reporting_lines_def)

lemma apply_stored_frame:
  assumes "apply_stored stored db = Inr (r, db')"
  shows "books db' = books db" "accounts db' = accounts db" "ledger_events db' = ledger_events db"
    "book_event_heads db' = book_event_heads db" "event_stream_heads db' = event_stream_heads db"
    "command_receipts db' = command_receipts db" "set (deferred_checks db) \<subseteq> set (deferred_checks db')"
    "applied_key ` set (applied_events db') = (if pr_required r then {event_book_key stored} else {})
       \<union> applied_key ` set (applied_events db)"
  using assms by (cases rule: apply_stored_cases;
    auto dest!: projection_frame.apply_payload simp: only_projections_def)+

section \<open>Properties of one projection\<close>

text \<open>
  Property C15: projecting is idempotent. An event that was projected, or was found projected before,
  has no effect when it is projected again, and the second call reports that it was not applied.
\<close>

theorem projection_idempotent:
  assumes "apply_stored stored db = Inr (r, db')" "pr_required r"
  shows "apply_stored stored db' = Inr
    (\<lparr>pr_event_id = le_event_id stored, pr_required = True, pr_applied = False,
      pr_projection_version = required_projection (le_event_type stored) (le_event_schema_version stored)\<rparr>, db')"
proof -
  obtain v where v: "required_projection (le_event_type stored) (le_event_schema_version stored) = Some v"
    using assms by (cases "required_projection (le_event_type stored) (le_event_schema_version stored)")
      (auto simp: apply_stored_def)
  let ?m = "\<lparr>ae_book_id = le_book_id stored, ae_event_id = le_event_id stored, ae_projection_version = v\<rparr>"
  have key: "applied_key ?m = event_book_key stored" by (simp add: applied_key_def event_book_key_def)
  from assms(1) v obtain p i d where p: "validate_stored (le_event_type stored) (le_event_schema_version stored) (le_payload stored) = Inr p"
    and m: "insert_marker_on_conflict_do_nothing ?m db = Inr (i, d)"
    by (auto simp: apply_stored_def rbind_eq_Inr raise_as_iff lift_db_def split: prod.splits)
  have mem: "event_book_key stored \<in> applied_key ` set (applied_events db')"
    using apply_stored_frame(8) [OF assms(1)] assms(2) by simp
  have "v2_validate_sync_projection_marker db' ?m = v2_validate_sync_projection_marker db ?m"
    by (simp add: v2_validate_sync_projection_marker_def apply_stored_frame(3) [OF assms(1)])
  with m mem have "insert_marker_on_conflict_do_nothing ?m db' = Inr (False, db')"
    by (auto simp: insert_marker_on_conflict_do_nothing_def rbind_eq_Inr checks_Inr_iff key)
  with v p show ?thesis by (simp add: apply_stored_def lift_db_def)
qed

theorem projection_idempotent_witness:
  "apply_stored demo_posted_event demo_posted_db = Inr
     (\<lparr>pr_event_id = 31, pr_required = True, pr_applied = False, pr_projection_version = Some 1\<rparr>, demo_posted_db)"
  using projection_idempotent [OF demo_apply_posted] by (simp add: sync_types)

text \<open>
  What can happen to the database after a projection: further projections of any stored events, of
  any Book, and changes by anything else (commits, appended events, catalog writes, receipts) that
  leaves the table of reversals alone, in any order and number. Only the projector inserts into that
  table, and the application's database role may neither update nor delete its rows (the grants of
  the migration v2_0004).
\<close>

inductive later_db :: "db \<Rightarrow> db \<Rightarrow> bool" for db where
  now: "later_db db db"
| projecting: "later_db db d \<Longrightarrow> apply_stored stored d = Inr (r, d') \<Longrightarrow> later_db db d'"
| elsewhere: "later_db db d \<Longrightarrow> transaction_reversals d' = transaction_reversals d \<Longrightarrow> later_db db d'"

interpretation reversals_grow: projection_writes
  "\<lambda>db db'. set (transaction_reversals db) \<subseteq> set (transaction_reversals db')"
proof unfold_locales
  show "upsert_balance b db = Inr db' \<Longrightarrow> set (transaction_reversals db) \<subseteq> set (transaction_reversals db')" for b db db'
    using upsert_balance_Inr(1) by fastforce
qed (auto dest!: statement_shapes simp: delete_current_reporting_lines_def)

lemma later_keeps_reversals:
  "later_db db d \<Longrightarrow> set (transaction_reversals db) \<subseteq> set (transaction_reversals d)"
proof (induction rule: later_db.induct)
  case (projecting d stored r d')
  from projecting(2) have "set (transaction_reversals d) \<subseteq> set (transaction_reversals d')"
    by (cases rule: apply_stored_cases) (simp_all add: subset_iff, use reversals_grow.apply_payload in fastforce)
  with projecting.IH show ?case by (rule subset_trans)
qed simp_all

lemma reversed_only_once:
  assumes "le_payload other = JournalTransactionReversed p" "apply_stored other db = Inr (r, db')"
    and "(le_book_id other, tr_reverses_transaction_id p) \<in> reversal_target_key ` set (transaction_reversals db)"
  shows "\<not> pr_applied r"
  using assms(2)
proof (cases rule: apply_stored_cases)
  case (applied n)
  from applied(8) assms(1) have "apply_journal_reversed other p (db\<lparr>applied_events := applied_events db @ [n]\<rparr>) = Inr db'"
    by simp
  then have "\<exists>event. admit_reversal (db'\<lparr>transaction_reversals := transaction_reversals (db\<lparr>applied_events := applied_events db @ [n]\<rparr>)\<rparr>)
      (reversal_record other p event) = Inr ()" by (rule apply_journal_reversed_Inr) (rule exI)
  then obtain event where "reversal_target_key (reversal_record other p event) \<notin> reversal_target_key ` set (transaction_reversals db)"
    by (auto simp: admit_reversal_def rbind_eq_Inr checks_Inr_iff)
  with assms(3) show ?thesis by (simp add: reversal_target_key_def reversal_record_def)
qed simp_all

text \<open>
  Property C10: a reversal takes back exactly one transaction, once. When a reversal event is
  projected, the event it names is in the same Book, carries the stated hash and put the reversed
  transaction on the journal; every balance changes by exactly minus what that event had added to
  it; and in every later state of the database, whatever other events were projected and whatever
  else was written in between, no other reversal of the same transaction of the Book is projected.
\<close>

theorem reversal_exact_and_once:
  assumes "apply_stored stored db = Inr (r, db')" "pr_applied r"
    and "le_payload stored = JournalTransactionReversed p"
  shows "(\<exists>event\<in>set (ledger_events db). \<exists>postings.
            le_event_id event = tr_original_event_id p \<and> le_book_id event = le_book_id stored
            \<and> bytes_hex (le_event_hash event) = tr_original_event_hash p
            \<and> source_transaction (le_payload event) = Some (tr_reverses_transaction_id p, postings)
            \<and> (\<forall>k. balance_of db' k = balance_of db k - fact_amount (le_book_id stored) k postings))
    \<and> (\<forall>d other p' r' db''. later_db db' d \<longrightarrow> le_payload other = JournalTransactionReversed p' \<longrightarrow>
          le_book_id other = le_book_id stored \<longrightarrow>
          tr_reverses_transaction_id p' = tr_reverses_transaction_id p \<longrightarrow>
          apply_stored other d = Inr (r', db'') \<longrightarrow> \<not> pr_applied r')"
  using assms(1)
proof (cases rule: apply_stored_cases)
  case (applied m)
  let ?db = "db\<lparr>applied_events := applied_events db @ [m]\<rparr>"
  from applied(8) assms(3) have "apply_journal_reversed stored p ?db = Inr db'" by simp
  then show ?thesis
  proof (rule apply_journal_reversed_Inr)
    fix original event ps
    assume ev: "event \<in> set (ledger_events ?db)" "le_event_id event = tr_original_event_id p"
      "le_book_id event = le_book_id stored" "bytes_hex (le_event_hash event) = tr_original_event_hash p"
      "source_transaction (le_payload event) = Some (tr_reverses_transaction_id p, ps)"
    and inv: "list_all2 inverse_of ps (tr_inverse_postings p)"
    and fin: "apply_financial_transaction stored (tr_reversal_transaction_id p) (jt_transaction_kind original)
       (tr_description_ref p) (tr_inverse_postings p) ?db = Inr (db'\<lparr>transaction_reversals := transaction_reversals ?db\<rparr>)"
    and rev: "transaction_reversals db' = transaction_reversals ?db @ [reversal_record stored p event]"
    have "balance_of db' k = balance_of db k - fact_amount (le_book_id stored) k ps" for k
      using apply_financial_transaction_Inr(2) [OF fin, of k] fact_amount_inverse [OF inv]
      by (simp add: balance_of_def)
    moreover have "(le_book_id stored, tr_reverses_transaction_id p) \<in> reversal_target_key ` set (transaction_reversals d)"
      if "later_db db' d" for d
      using later_keeps_reversals [OF that] rev by (force simp: reversal_target_key_def reversal_record_def)
    ultimately show ?thesis using ev reversed_only_once by auto
  qed
qed (use assms(2) in simp_all)

theorem reversal_exact_and_once_witness:
  "balance_of demo_posted_db (2, 21, ''CNY'') = 25 \<and> balance_of demo_reversed_db (2, 21, ''CNY'') = 0
    \<and> (\<nexists>r db''. apply_stored (demo_reversed_event\<lparr>le_event_id := 77\<rparr>) (demo_reversed_db\<lparr>deferred_checks := []\<rparr>) = Inr (r, db'')
         \<and> pr_applied r)"
proof -
  have "le_payload demo_reversed_event = JournalTransactionReversed demo_reversed" by simp
  note * = reversal_exact_and_once [OF demo_apply_reversed _ this]
  have "\<exists>event\<in>set (ledger_events demo_posted_db). \<exists>postings. le_event_id event = 31
      \<and> source_transaction (le_payload event) = Some (9, postings)
      \<and> (\<forall>k. balance_of demo_reversed_db k = balance_of demo_posted_db k - fact_amount 2 k postings)"
    using * by fastforce
  then have "balance_of demo_reversed_db (2, 21, ''CNY'') = balance_of demo_posted_db (2, 21, ''CNY'') - 25"
    by (auto simp: demo_posted_db_def source_transaction_def fact_amount_def fact_signed_def demo_units_25)
  moreover have "later_db demo_reversed_db (demo_reversed_db\<lparr>deferred_checks := []\<rparr>)"
    by (rule later_db.elsewhere [OF later_db.now]) simp
  then have no: "\<not> pr_applied r" if "apply_stored (demo_reversed_event\<lparr>le_event_id := 77\<rparr>)
      (demo_reversed_db\<lparr>deferred_checks := []\<rparr>) = Inr (r, db'')" for r db''
    using *(1) [THEN conjunct2, rule_format, OF _ _ _ _ _ that, of demo_reversed] by simp
  from no have "\<nexists>r db''. apply_stored (demo_reversed_event\<lparr>le_event_id := 77\<rparr>)
      (demo_reversed_db\<lparr>deferred_checks := []\<rparr>) = Inr (r, db'') \<and> pr_applied r" by blast
  moreover have "balance_of demo_posted_db (2, 21, ''CNY'') = 25"
    by (simp add: demo_posted_db_def balance_of_def find_by_def balance_key_def)
  ultimately show ?thesis by (simp del: not_ex)
qed

end
