(* ===== verification/Monthly_Summary.thy ===== *)
theory Monthly_Summary
  imports Projection_Safety
begin

text \<open>
  The monthly category summary: infrastructure/projections/monthly\_summary.py up to the values a replay of the
  events gives, and the calendar functions of dirty\_periods.py. A \<open>date\<close> is the triple of year, month and day,
  in the order of the calendar; a financial instant outside the years 1 to 9999 cannot be a datetime. A
  Python dictionary is an association list in insertion order.
\<close>

section \<open>Dates\<close>

type_synonym date = "int \<times> int \<times> int"

datatype projection_error =
    ProjectionValueError
  | ProjectionLookupError
  | ProjectionRuntimeError
  | ProjectionStoredError registry_error
  | EventReaderValidationError
  | NoResultFound
  | ProjectionAssertionError
  | ProjectionDbError db_error

definition utc_date :: "instant \<Rightarrow> projection_error + date" where
  "utc_date value =
     (let ordinal = instant_ordinal value
      in if ordinal < 1 \<or> MAX_ORDINAL < ordinal then Inl ProjectionValueError else Inr (ord2ymd ordinal))"

definition month_start :: "date \<Rightarrow> date" where
  "month_start value = (case value of (year, month, day) \<Rightarrow> (year, month, 1))"

text \<open>\<open>datetime.date\<close> raises a ValueError for the year 10000.\<close>

definition next_month :: "date \<Rightarrow> projection_error + date" where
  "next_month value =
     (case value of (year, month, day) \<Rightarrow>
        let next_year = year + (if month = 12 then 1 else 0)
        in if 9999 < next_year then Inl ProjectionValueError
           else Inr (next_year, if month = 12 then 1 else month + 1, 1))"

section \<open>The replay of the events of a Book\<close>

record monthly_summary_value =
  mv_category_id :: uuid
  mv_category_version_id :: uuid
  mv_asset_code :: string
  mv_line_kind :: string
  mv_units :: int

record replay_state =
  mr_transaction_times :: "(uuid \<times> date) list"
  mr_reporting_signs :: "(uuid \<times> int) list"
  mr_card_intents :: "(uuid \<times> credit_card_intent) list"
  mr_reporting :: "(uuid \<times> reporting_line list) list"
  mr_reversals :: "(uuid \<times> date) list"
  mr_reversal_transaction_ids :: "uuid list"

definition empty_replay :: replay_state where
  "empty_replay = \<lparr>mr_transaction_times = [], mr_reporting_signs = [], mr_card_intents = [], mr_reporting = [],
     mr_reversals = [], mr_reversal_transaction_ids = []\<rparr>"

definition journal_reporting_sign :: "string \<Rightarrow> int" where
  "journal_reporting_sign transaction_kind = (if transaction_kind = ''refund'' then -1 else 1)"

fun credit_card_reporting_sign :: "credit_card_intent \<Rightarrow> int" where
  "credit_card_reporting_sign CHARGE = 1"
| "credit_card_reporting_sign FEE = 1"
| "credit_card_reporting_sign PAYMENT = 0"
| "credit_card_reporting_sign REFUND = -1"

definition replay_event :: "replay_state \<Rightarrow> ledger_event_record \<Rightarrow> projection_error + replay_state" where
  "replay_event st record =
     (case validate_stored (le_event_type record) (le_event_schema_version record) (le_payload record) of
        Inl e \<Rightarrow> Inl (ProjectionStoredError e)
      | Inr (JournalTransactionPosted p) \<Rightarrow>
          rbind (utc_date (le_effective_at record)) (\<lambda>effective_date.
          Inr (st\<lparr>mr_transaction_times := AList.update (tp_transaction_id p) effective_date (mr_transaction_times st),
                  mr_reporting_signs := AList.update (tp_transaction_id p)
                    (journal_reporting_sign (transaction_kind_value (tp_kind p))) (mr_reporting_signs st)\<rparr>))
      | Inr (CreditCardTransactionRecorded p) \<Rightarrow>
          rbind (utc_date (le_effective_at record)) (\<lambda>effective_date.
          Inr (st\<lparr>mr_transaction_times := AList.update (cc_transaction_id p) effective_date (mr_transaction_times st),
                  mr_card_intents := AList.update (cc_transaction_id p) (cc_intent p) (mr_card_intents st),
                  mr_reporting_signs := AList.update (cc_transaction_id p)
                    (credit_card_reporting_sign (cc_intent p)) (mr_reporting_signs st)\<rparr>))
      | Inr (JournalTransactionReversed p) \<Rightarrow>
          rbind (utc_date (le_effective_at record)) (\<lambda>effective_date.
          Inr (st\<lparr>mr_transaction_times := AList.update (tr_reversal_transaction_id p) effective_date (mr_transaction_times st),
                  mr_reversals := AList.update (tr_reverses_transaction_id p) effective_date (mr_reversals st),
                  mr_reversal_transaction_ids := tr_reversal_transaction_id p # mr_reversal_transaction_ids st\<rparr>))
      | Inr (ReportingLinesAssigned p) \<Rightarrow>
          if la_transaction_id p \<in> set (mr_reversal_transaction_ids st) then Inl ProjectionValueError
          else let card_intent = map_of (mr_card_intents st) (la_transaction_id p)
               in if card_intent = Some PAYMENT then Inl ProjectionValueError
                  else if card_intent \<in> {Some CHARGE, Some FEE, Some REFUND}
                          \<and> list_ex (\<lambda>line. reporting_line_kind_value (rl_line_kind line) \<noteq> ''expense'') (la_lines p)
                  then Inl ProjectionValueError
                  else Inr (st\<lparr>mr_reporting := AList.update (la_transaction_id p) (la_lines p) (mr_reporting st)\<rparr>)
      | Inr (ReportingLinesCleared p) \<Rightarrow>
          Inr (st\<lparr>mr_reporting := AList.delete (lc_transaction_id p) (mr_reporting st)\<rparr>)
      | Inr _ \<Rightarrow> Inr st)"

section \<open>Totals\<close>

type_synonym summary_key = "date \<times> uuid \<times> uuid \<times> string \<times> string"

definition add_lines :: "summary_key counter \<Rightarrow> date \<Rightarrow> reporting_line list \<Rightarrow> int \<Rightarrow> summary_key counter" where
  "add_lines totals period lines sign =
     foldl (\<lambda>totals line.
       case (rl_dimension line, rl_dimension_id line) of
         (D_CATEGORY, Some dimension_id) \<Rightarrow>
           cadd (period, dimension_id, rl_catalog_id line, rl_asset_code line, reporting_line_kind_value (rl_line_kind line))
             (sign * units_value (rl_units line)) totals
       | _ \<Rightarrow> totals) totals lines"

definition add_transaction_lines ::
    "replay_state \<Rightarrow> summary_key counter \<Rightarrow> uuid \<times> reporting_line list \<Rightarrow> summary_key counter" where
  "add_transaction_lines st totals item =
     (case item of (transaction_id, lines) \<Rightarrow>
        case map_of (mr_transaction_times st) transaction_id of
          None \<Rightarrow> totals
        | Some effective_date \<Rightarrow>
            let reporting_sign = (case map_of (mr_reporting_signs st) transaction_id of None \<Rightarrow> 1 | Some s \<Rightarrow> s)
            in if reporting_sign = 0 then totals
               else let totals = add_lines totals (month_start effective_date) lines reporting_sign
                    in case map_of (mr_reversals st) transaction_id of
                         None \<Rightarrow> totals
                       | Some reversed_at \<Rightarrow> add_lines totals (month_start reversed_at) lines (- reporting_sign))"

definition replay_totals :: "replay_state \<Rightarrow> summary_key counter" where
  "replay_totals st = foldl (add_transaction_lines st) [] (mr_reporting st)"

definition summary_value :: "summary_key \<times> int \<Rightarrow> monthly_summary_value" where
  "summary_value entry =
     (case entry of ((_, category_id, version_id, asset_code, line_kind), units) \<Rightarrow>
        \<lparr>mv_category_id = category_id, mv_category_version_id = version_id, mv_asset_code = asset_code,
         mv_line_kind = line_kind, mv_units = units\<rparr>)"

text \<open>The order of the dataclass: the tuple of its fields.\<close>

definition value_order :: "monthly_summary_value \<Rightarrow> uuid \<times> uuid \<times> code_points \<times> code_points \<times> int" where
  "value_order v = (mv_category_id v, mv_category_version_id v, code_points (mv_asset_code v),
     code_points (mv_line_kind v), mv_units v)"

definition values_by_period :: "summary_key counter \<Rightarrow> (date \<times> monthly_summary_value list) list" where
  "values_by_period totals =
     (let entries = filter (\<lambda>(_, units). units \<noteq> 0) totals
      in map (\<lambda>period. (period, sort_key value_order (map summary_value (filter (\<lambda>((p, _), _). p = period) entries))))
           (sort (remdups (map (\<lambda>((p, _), _). p) entries))))"

definition replay_records :: "db \<Rightarrow> uuid \<Rightarrow> int option \<Rightarrow> ledger_event_record list" where
  "replay_records db book_id through_book_position =
     sort_key le_book_position (filter (\<lambda>e. le_book_id e = book_id
       \<and> (case through_book_position of None \<Rightarrow> True | Some n \<Rightarrow> le_book_position e \<le> n)) (ledger_events db))"

definition cold_replay_monthly_summary ::
    "db \<Rightarrow> uuid \<Rightarrow> int option \<Rightarrow> projection_error + (date \<times> monthly_summary_value list) list" where
  "cold_replay_monthly_summary db book_id through_book_position =
     rbind (foldE replay_event empty_replay (replay_records db book_id through_book_position)) (\<lambda>st.
     Inr (values_by_period (replay_totals st)))"

definition period_values :: "(date \<times> monthly_summary_value list) list \<Rightarrow> date \<Rightarrow> monthly_summary_value list" where
  "period_values replay period = (case map_of replay period of None \<Rightarrow> [] | Some values \<Rightarrow> values)"

end
