(* ===== verification/Async_Tables.thy ===== *)
theory Async_Tables
  imports Monthly_Summary
begin

text \<open>
  The tables of the asynchronous projection: models/async\_projection.py and models/monthly\_summary.py with the
  constraints and triggers of alembic/versions/v2\_0005 and v2\_0007. Every statement of the code names the one projection
  \<open>monthly_category_summary\<close>, version 1, so the two columns that say so are left out; so are the lease columns, which the code only
  sets to null, and the columns the database fills in. The ledger is only read here: it is the argument \<open>db\<close>.
\<close>

record projection_checkpoint_record =
  kp_book_id :: uuid
  kp_last_book_position :: int
  kp_active_generation :: int

record projection_generation_record =
  gn_book_id :: uuid
  gn_generation :: int
  gn_state :: string
  gn_rebuild_from_position :: int
  gn_last_book_position :: int
  gn_target_book_position :: int

record projection_dirty_period_record =
  dp_book_id :: uuid
  dp_generation :: int
  dp_period_start :: date
  dp_period_end :: date
  dp_source_event_id :: uuid
  dp_source_book_position :: int

record projection_failure_record =
  pf_failure_id :: uuid
  pf_book_id :: uuid
  pf_generation :: int
  pf_source_event_id :: uuid
  pf_source_book_position :: int
  pf_event_type :: string
  pf_event_schema_version :: int
  pf_failure_kind :: string
  pf_retry_state :: string
  pf_attempt_count :: int
  pf_last_error_code :: string

record monthly_category_summary_record =
  ms_book_id :: uuid
  ms_generation :: int
  ms_period_start :: date
  ms_category_id :: uuid
  ms_category_version_id :: uuid
  ms_asset_code :: string
  ms_line_kind :: string
  ms_units :: int
  ms_as_of_book_position :: int

text \<open>The last component lists the Books whose deferred check the transaction owes.\<close>

record projections_db =
  projection_checkpoints :: "projection_checkpoint_record list"
  projection_generations :: "projection_generation_record list"
  projection_dirty_periods :: "projection_dirty_period_record list"
  projection_failures :: "projection_failure_record list"
  monthly_summaries :: "monthly_category_summary_record list"
  active_checks :: "uuid list"

definition event_at :: "db \<Rightarrow> uuid \<Rightarrow> int \<Rightarrow> bool" where
  "event_at db b n = list_ex (\<lambda>e. le_book_id e = b \<and> le_book_position e = n) (ledger_events db)"

section \<open>projection\_generations\<close>

definition generation_key :: "projection_generation_record \<Rightarrow> uuid \<times> int" where
  "generation_key g = (gn_book_id g, gn_generation g)"

text \<open>The states a state may be followed by, and what the step requires.\<close>

definition generation_transition :: "projection_generation_record \<Rightarrow> projection_generation_record \<Rightarrow> bool" where
  "generation_transition old new \<longleftrightarrow>
     (if gn_state old = ''building'' then gn_state new \<in> {''building'', ''catching_up'', ''failed''}
      else if gn_state old = ''catching_up'' then
        gn_state new \<in> {''catching_up'', ''failed''}
        \<or> gn_state new = ''active'' \<and> gn_last_book_position new = gn_target_book_position new
      else if gn_state old = ''active'' then gn_state new \<in> {''active'', ''retired''}
      else gn_state old \<notin> {''retired'', ''failed''})"

definition v2_validate_projection_generation_update ::
    "db \<Rightarrow> projection_generation_record option \<Rightarrow> projection_generation_record \<Rightarrow> db_error + unit" where
  "v2_validate_projection_generation_update db old new = checks
     [(case old of
         None \<Rightarrow> gn_state new = ''building''
       | Some previous \<Rightarrow> gn_last_book_position previous \<le> gn_last_book_position new
           \<and> gn_target_book_position previous \<le> gn_target_book_position new \<and> generation_transition previous new, CheckViolation),
      (gn_last_book_position new > 0 \<longrightarrow> event_at db (gn_book_id new) (gn_last_book_position new), CheckViolation),
      (gn_target_book_position new > 0 \<longrightarrow> event_at db (gn_book_id new) (gn_target_book_position new), CheckViolation)]"

definition generation_row_ok :: "projections_db \<Rightarrow> projection_generation_record \<Rightarrow> db_error + unit" where
  "generation_row_ok pdb new = checks
     [(bigint (gn_generation new), NumericOutOfRange), (bigint (gn_last_book_position new), NumericOutOfRange),
      (bigint (gn_target_book_position new), NumericOutOfRange),
      (0 < gn_generation new, CheckViolation),
      (gn_state new \<in> {''building'', ''catching_up'', ''active'', ''retired'', ''failed''}, CheckViolation),
      (0 < gn_rebuild_from_position new, CheckViolation), (0 \<le> gn_last_book_position new, CheckViolation),
      (0 \<le> gn_target_book_position new, CheckViolation),
      (gn_last_book_position new \<le> gn_target_book_position new, CheckViolation),
      (gn_rebuild_from_position new - 1 \<le> gn_target_book_position new, CheckViolation),
      (gn_state new = ''active'' \<longrightarrow> \<not> list_ex (\<lambda>g. gn_book_id g = gn_book_id new \<and> gn_generation g \<noteq> gn_generation new
          \<and> gn_state g = ''active'') (projection_generations pdb), UniqueViolation)]"

definition insert_generation ::
    "db \<Rightarrow> projection_generation_record \<Rightarrow> projections_db \<Rightarrow> db_error + projections_db" where
  "insert_generation db new pdb =
     rbind (v2_validate_projection_generation_update db None new) (\<lambda>_.
     rbind (generation_row_ok pdb new) (\<lambda>_.
     rbind (checks [(generation_key new \<notin> generation_key ` set (projection_generations pdb), UniqueViolation),
       (gn_book_id new \<in> bk_book_id ` set (books db), ForeignKeyViolation)]) (\<lambda>_.
     Inr (pdb\<lparr>projection_generations := projection_generations pdb @ [new],
              active_checks := active_checks pdb @ [gn_book_id new]\<rparr>))))"

definition update_generation ::
    "db \<Rightarrow> projection_generation_record \<Rightarrow> projection_generation_record \<Rightarrow> projections_db \<Rightarrow> db_error + projections_db" where
  "update_generation db old new pdb =
     rbind (v2_validate_projection_generation_update db (Some old) new) (\<lambda>_.
     rbind (generation_row_ok pdb new) (\<lambda>_.
     Inr (pdb\<lparr>projection_generations := replace_by generation_key (generation_key old) new (projection_generations pdb),
              active_checks := active_checks pdb @ [gn_book_id new]\<rparr>)))"

section \<open>projection\_checkpoints\<close>

definition checkpoint_row_ok :: "projection_checkpoint_record \<Rightarrow> db_error + unit" where
  "checkpoint_row_ok new = checks
     [(bigint (kp_last_book_position new), NumericOutOfRange), (bigint (kp_active_generation new), NumericOutOfRange),
      (0 \<le> kp_last_book_position new, CheckViolation), (0 < kp_active_generation new, CheckViolation)]"

definition insert_checkpoint ::
    "db \<Rightarrow> projection_checkpoint_record \<Rightarrow> projections_db \<Rightarrow> db_error + projections_db" where
  "insert_checkpoint db new pdb =
     rbind (checkpoint_row_ok new) (\<lambda>_.
     rbind (checks [(kp_book_id new \<notin> kp_book_id ` set (projection_checkpoints pdb), UniqueViolation),
       (kp_book_id new \<in> bk_book_id ` set (books db), ForeignKeyViolation)]) (\<lambda>_.
     Inr (pdb\<lparr>projection_checkpoints := projection_checkpoints pdb @ [new],
              active_checks := active_checks pdb @ [kp_book_id new]\<rparr>)))"

definition update_checkpoint ::
    "projection_checkpoint_record \<Rightarrow> projection_checkpoint_record \<Rightarrow> projections_db \<Rightarrow> db_error + projections_db" where
  "update_checkpoint old new pdb =
     rbind (checks [(kp_last_book_position old \<le> kp_last_book_position new, CheckViolation)]) (\<lambda>_.
     rbind (checkpoint_row_ok new) (\<lambda>_.
     Inr (pdb\<lparr>projection_checkpoints := replace_by kp_book_id (kp_book_id old) new (projection_checkpoints pdb),
              active_checks := active_checks pdb @ [kp_book_id new]\<rparr>)))"

text \<open>The deferred trigger of both tables, and the deferred foreign key of a checkpoint.\<close>

definition active_generations :: "projections_db \<Rightarrow> uuid \<Rightarrow> projection_generation_record list" where
  "active_generations pdb b = filter (\<lambda>g. gn_book_id g = b \<and> gn_state g = ''active'') (projection_generations pdb)"

definition v2_validate_active_projection_generation :: "db \<Rightarrow> projections_db \<Rightarrow> uuid \<Rightarrow> db_error + unit" where
  "v2_validate_active_projection_generation db pdb b =
     (case find_by kp_book_id b (projection_checkpoints pdb) of
        None \<Rightarrow> checks [(active_generations pdb b = [], CheckViolation)]
      | Some checkpoint \<Rightarrow>
          (case active_generations pdb b of
             [active] \<Rightarrow> checks
               [(kp_active_generation checkpoint = gn_generation active, CheckViolation),
                (kp_last_book_position checkpoint = gn_last_book_position active, CheckViolation),
                (kp_last_book_position checkpoint > 0 \<longrightarrow> event_at db b (kp_last_book_position checkpoint), CheckViolation)]
           | _ \<Rightarrow> Inl CheckViolation))"

definition fk_active_generation :: "projections_db \<Rightarrow> uuid \<Rightarrow> db_error + unit" where
  "fk_active_generation pdb b =
     (case find_by kp_book_id b (projection_checkpoints pdb) of
        None \<Rightarrow> Inr ()
      | Some checkpoint \<Rightarrow> checks [((b, kp_active_generation checkpoint) \<in> generation_key ` set (projection_generations pdb),
            ForeignKeyViolation)])"

definition commit_projections :: "db \<Rightarrow> projections_db \<Rightarrow> db_error + projections_db" where
  "commit_projections db pdb =
     rbind (checkE (\<lambda>b. rbind (fk_active_generation pdb b) (\<lambda>_. v2_validate_active_projection_generation db pdb b))
       (active_checks pdb)) (\<lambda>_. Inr (pdb\<lparr>active_checks := []\<rparr>))"

section \<open>projection\_dirty\_periods and projection\_failures\<close>

definition dirty_key :: "projection_dirty_period_record \<Rightarrow> uuid \<times> int \<times> date \<times> date" where
  "dirty_key d = (dp_book_id d, dp_generation d, dp_period_start d, dp_period_end d)"

definition v2_validate_dirty_period_source :: "db \<Rightarrow> projection_dirty_period_record \<Rightarrow> db_error + unit" where
  "v2_validate_dirty_period_source db new = checks
     [(list_ex (\<lambda>e. le_book_id e = dp_book_id new \<and> le_event_id e = dp_source_event_id new
         \<and> le_book_position e = dp_source_book_position new) (ledger_events db), CheckViolation)]"

text \<open>\<open>INSERT ... ON CONFLICT DO UPDATE ... WHERE\<close>: an older source is replaced, a newer one stays.\<close>

definition upsert_dirty_period ::
    "db \<Rightarrow> projection_dirty_period_record \<Rightarrow> projections_db \<Rightarrow> db_error + projections_db" where
  "upsert_dirty_period db new pdb =
     rbind (v2_validate_dirty_period_source db new) (\<lambda>_.
     rbind (checks [(0 < dp_generation new, CheckViolation), (dp_period_start new < dp_period_end new, CheckViolation),
       (0 < dp_source_book_position new, CheckViolation)]) (\<lambda>_.
     case find_by dirty_key (dirty_key new) (projection_dirty_periods pdb) of
       None \<Rightarrow>
         rbind (checks [((dp_book_id new, dp_generation new) \<in> generation_key ` set (projection_generations pdb),
           ForeignKeyViolation)]) (\<lambda>_.
         Inr (pdb\<lparr>projection_dirty_periods := projection_dirty_periods pdb @ [new]\<rparr>))
     | Some old \<Rightarrow>
         if dp_source_book_position old < dp_source_book_position new
         then Inr (pdb\<lparr>projection_dirty_periods := replace_by dirty_key (dirty_key new) new (projection_dirty_periods pdb)\<rparr>)
         else Inr pdb))"

definition v2_validate_projection_failure :: "db \<Rightarrow> projection_failure_record \<Rightarrow> db_error + unit" where
  "v2_validate_projection_failure db new = checks
     [(list_ex (\<lambda>e. le_book_id e = pf_book_id new \<and> le_event_id e = pf_source_event_id new
         \<and> le_book_position e = pf_source_book_position new \<and> le_event_type e = pf_event_type new
         \<and> le_event_schema_version e = pf_event_schema_version new) (ledger_events db), CheckViolation)]"

definition failure_source_key :: "projection_failure_record \<Rightarrow> uuid \<times> int \<times> uuid" where
  "failure_source_key f = (pf_book_id f, pf_generation f, pf_source_event_id f)"

definition insert_failure ::
    "db \<Rightarrow> projection_failure_record \<Rightarrow> projections_db \<Rightarrow> db_error + projections_db" where
  "insert_failure db new pdb =
     rbind (v2_validate_projection_failure db new) (\<lambda>_.
     rbind (checks [(varchar 64 (pf_event_type new), StringTooLong), (0 < pf_source_book_position new, CheckViolation),
       (0 < pf_event_schema_version new, CheckViolation),
       (pf_failure_id new \<notin> pf_failure_id ` set (projection_failures pdb), UniqueViolation),
       (failure_source_key new \<notin> failure_source_key ` set (projection_failures pdb), UniqueViolation),
       ((pf_book_id new, pf_generation new) \<in> generation_key ` set (projection_generations pdb), ForeignKeyViolation)]) (\<lambda>_.
     Inr (pdb\<lparr>projection_failures := projection_failures pdb @ [new]\<rparr>)))"

section \<open>monthly\_category\_summaries\<close>

definition summary_key_of :: "monthly_category_summary_record \<Rightarrow> uuid \<times> int \<times> date \<times> uuid \<times> uuid \<times> string \<times> string" where
  "summary_key_of m = (ms_book_id m, ms_generation m, ms_period_start m, ms_category_id m, ms_category_version_id m,
     ms_asset_code m, ms_line_kind m)"

definition admit_summary :: "projections_db \<Rightarrow> monthly_category_summary_record \<Rightarrow> db_error + unit" where
  "admit_summary pdb new = checks
     [(varchar 16 (ms_asset_code new), StringTooLong), (varchar 32 (ms_line_kind new), StringTooLong),
      (numeric_digits 48 (ms_units new), NumericOutOfRange), (0 < ms_generation new, CheckViolation),
      (month_start (ms_period_start new) = ms_period_start new, CheckViolation),
      (ms_line_kind new \<in> {''expense'', ''income'', ''transfer'', ''tax'', ''investment''}, CheckViolation),
      (ms_units new \<noteq> 0, CheckViolation), (0 < ms_as_of_book_position new, CheckViolation),
      (summary_key_of new \<notin> summary_key_of ` set (monthly_summaries pdb), UniqueViolation)]"

definition add_summary :: "monthly_category_summary_record \<Rightarrow> projections_db \<Rightarrow> projections_db" where
  "add_summary new pdb = pdb\<lparr>monthly_summaries := monthly_summaries pdb @ [new]\<rparr>"

definition category_version_key :: "category_version_record \<Rightarrow> uuid \<times> uuid \<times> uuid" where
  "category_version_key v = (cv_book_id v, cv_category_id v, cv_category_version_id v)"

definition summary_refers :: "db \<Rightarrow> projections_db \<Rightarrow> monthly_category_summary_record \<Rightarrow> db_error + unit" where
  "summary_refers db pdb new = checks
     [((ms_book_id new, ms_category_id new, ms_category_version_id new) \<in> category_version_key ` set (category_versions db),
       ForeignKeyViolation),
      (event_at db (ms_book_id new) (ms_as_of_book_position new), ForeignKeyViolation),
      ((ms_book_id new, ms_generation new) \<in> generation_key ` set (projection_generations pdb), ForeignKeyViolation)]"

definition insert_summaries ::
    "db \<Rightarrow> monthly_category_summary_record list \<Rightarrow> projections_db \<Rightarrow> db_error + projections_db" where
  "insert_summaries db = insert_rows admit_summary add_summary (summary_refers db)"

definition delete_summaries :: "(monthly_category_summary_record \<Rightarrow> bool) \<Rightarrow> projections_db \<Rightarrow> projections_db" where
  "delete_summaries matching pdb = pdb\<lparr>monthly_summaries := filter (\<lambda>m. \<not> matching m) (monthly_summaries pdb)\<rparr>"

end
