(* ===== verification/Projection_Worker.thy ===== *)
theory Projection_Worker
  imports Async_Tables
begin

text \<open>
  The asynchronous projector: event\_reader.py, checkpoints.py, dirty\_periods.py, the writers of
  monthly\_summary.py, worker.py, rebuild.py and runtime.py of infrastructure/projections. Every function reads the ledger \<open>db\<close> and
  threads the tables of the projection. A transaction that raises is rolled back: its result is the error and the tables stay. The
  advisory and row locks make the transactions of a Book serial; metrics and logging are left out.
\<close>

section \<open>Reading events\<close>

definition discover_book_ids :: "db \<Rightarrow> uuid list" where
  "discover_book_ids db = sort (map bk_book_id (books db))"

text \<open>A snapshot copies the columns of the row; it is the row here.\<close>

definition read_after :: "db \<Rightarrow> uuid \<Rightarrow> int \<Rightarrow> int \<Rightarrow> projection_error + ledger_event_record list" where
  "read_after db book_id after_book_position limit =
     (if after_book_position < 0 then Inl EventReaderValidationError
      else if limit < 1 \<or> 10000 < limit then Inl EventReaderValidationError
      else Inr (take (nat limit) (sort_key le_book_position
        (filter (\<lambda>e. le_book_id e = book_id \<and> after_book_position < le_book_position e) (ledger_events db)))))"

section \<open>Checkpoints\<close>

record locked_projection_state =
  sp_checkpoint :: "projection_checkpoint_record option"
  sp_generation :: projection_generation_record
  sp_is_new :: bool

definition next_generation :: "projections_db \<Rightarrow> uuid \<Rightarrow> int" where
  "next_generation pdb book_id =
     (case map gn_generation (filter (\<lambda>g. gn_book_id g = book_id) (projection_generations pdb)) of
        [] \<Rightarrow> 1
      | n # ns \<Rightarrow> fold max ns n + 1)"

definition lift_pdb :: "db_error + 'a \<Rightarrow> projection_error + 'a" where
  "lift_pdb r = (case r of Inl e \<Rightarrow> Inl (ProjectionDbError e) | Inr x \<Rightarrow> Inr x)"

definition building_generation :: "uuid \<Rightarrow> int \<Rightarrow> int \<Rightarrow> projection_generation_record" where
  "building_generation book_id generation target =
     \<lparr>gn_book_id = book_id, gn_generation = generation, gn_state = ''building'', gn_rebuild_from_position = 1,
      gn_last_book_position = 0, gn_target_book_position = target\<rparr>"

definition lock_projection_state ::
    "db \<Rightarrow> uuid \<Rightarrow> int \<Rightarrow> projections_db \<Rightarrow> projection_error + locked_projection_state \<times> projections_db" where
  "lock_projection_state db book_id target_book_position pdb =
     (case find_by kp_book_id book_id (projection_checkpoints pdb) of
        Some checkpoint \<Rightarrow>
          (case find_by generation_key (book_id, kp_active_generation checkpoint) (projection_generations pdb) of
             None \<Rightarrow> Inl NoResultFound
           | Some generation \<Rightarrow>
               Inr (\<lparr>sp_checkpoint = Some checkpoint, sp_generation = generation, sp_is_new = False\<rparr>, pdb))
      | None \<Rightarrow>
          let generation = building_generation book_id (next_generation pdb book_id) target_book_position
          in rbind (lift_pdb (insert_generation db generation pdb)) (\<lambda>pdb.
             Inr (\<lparr>sp_checkpoint = None, sp_generation = generation, sp_is_new = True\<rparr>, pdb)))"

definition activate_or_advance ::
    "db \<Rightarrow> locked_projection_state \<Rightarrow> int \<Rightarrow> projections_db \<Rightarrow> projection_error + projections_db" where
  "activate_or_advance db state last_book_position pdb =
     (let old = sp_generation state;
          generation = old\<lparr>gn_target_book_position := max (gn_target_book_position old) last_book_position,
                           gn_last_book_position := last_book_position\<rparr>
      in if sp_is_new state then
           rbind (lift_pdb (update_generation db old (generation\<lparr>gn_state := ''catching_up''\<rparr>) pdb)) (\<lambda>pdb.
           rbind (lift_pdb (update_generation db (generation\<lparr>gn_state := ''catching_up''\<rparr>)
                    (generation\<lparr>gn_state := ''active''\<rparr>) pdb)) (\<lambda>pdb.
           lift_pdb (insert_checkpoint db
             \<lparr>kp_book_id = gn_book_id old, kp_last_book_position = last_book_position,
              kp_active_generation = gn_generation old\<rparr> pdb)))
         else case sp_checkpoint state of
                None \<Rightarrow> Inl ProjectionAssertionError
              | Some checkpoint \<Rightarrow>
                  rbind (lift_pdb (update_generation db old generation pdb)) (\<lambda>pdb.
                  lift_pdb (update_checkpoint checkpoint (checkpoint\<lparr>kp_last_book_position := last_book_position\<rparr>) pdb)))"

section \<open>Dirty periods\<close>

definition reporting_target :: "event_payload \<Rightarrow> uuid option" where
  "reporting_target payload =
     (case payload of
        ReportingLinesAssigned p \<Rightarrow> Some (la_transaction_id p)
      | ReportingLinesCleared p \<Rightarrow> Some (lc_transaction_id p)
      | _ \<Rightarrow> None)"

definition affected_periods :: "db \<Rightarrow> ledger_event_record \<Rightarrow> projection_error + date list" where
  "affected_periods db event =
     (case validate_stored (le_event_type event) (le_event_schema_version event) (le_payload event) of
        Inl e \<Rightarrow> Inl (ProjectionStoredError e)
      | Inr payload \<Rightarrow>
          (case reporting_target payload of
             None \<Rightarrow> rbind (utc_date (le_effective_at event)) (\<lambda>day. Inr [month_start day])
           | Some transaction_id \<Rightarrow>
               (case transaction_of db (le_book_id event) transaction_id of
                  None \<Rightarrow> Inl ProjectionRuntimeError
                | Some transaction \<Rightarrow>
                    rbind (utc_date (jt_effective_at transaction)) (\<lambda>day.
                    case find_by reversal_target_key (le_book_id event, transaction_id) (transaction_reversals db) of
                      None \<Rightarrow> Inr [month_start day]
                    | Some r \<Rightarrow>
                        (case transaction_of db (le_book_id event) (rv_reversal_transaction_id r) of
                           None \<Rightarrow> Inl ProjectionRuntimeError
                         | Some reversal \<Rightarrow>
                             rbind (utc_date (jt_effective_at reversal)) (\<lambda>reversed_on.
                             Inr (sort (remdups [month_start day, month_start reversed_on]))))))))"

definition note_latest ::
    "ledger_event_record \<Rightarrow> (date \<times> ledger_event_record) list \<Rightarrow> date \<Rightarrow> (date \<times> ledger_event_record) list" where
  "note_latest event latest_by_period period =
     (case map_of latest_by_period period of
        None \<Rightarrow> AList.update period event latest_by_period
      | Some previous \<Rightarrow>
          if le_book_position previous < le_book_position event then AList.update period event latest_by_period
          else latest_by_period)"

definition latest_by_period ::
    "db \<Rightarrow> ledger_event_record list \<Rightarrow> projection_error + (date \<times> ledger_event_record) list" where
  "latest_by_period db events =
     foldE (\<lambda>latest event. rbind (affected_periods db event) (\<lambda>periods. Inr (foldl (note_latest event) latest periods)))
       [] events"

definition mark_dirty_period ::
    "db \<Rightarrow> locked_projection_state \<Rightarrow> projections_db \<Rightarrow> date \<times> ledger_event_record \<Rightarrow> projection_error + projections_db" where
  "mark_dirty_period db state pdb item =
     (case item of (period, event) \<Rightarrow>
        rbind (next_month period) (\<lambda>period_end.
        lift_pdb (upsert_dirty_period db
          \<lparr>dp_book_id = le_book_id event, dp_generation = gn_generation (sp_generation state), dp_period_start = period,
           dp_period_end = period_end, dp_source_event_id = le_event_id event,
           dp_source_book_position = le_book_position event\<rparr> pdb)))"

definition mark_dirty_periods ::
    "db \<Rightarrow> locked_projection_state \<Rightarrow> ledger_event_record list \<Rightarrow> projections_db
      \<Rightarrow> projection_error + date list \<times> projections_db" where
  "mark_dirty_periods db state events pdb =
     rbind (latest_by_period db events) (\<lambda>latest.
     rbind (foldE (mark_dirty_period db state) pdb latest) (\<lambda>pdb.
     Inr (sort (map fst latest), pdb)))"

definition clear_dirty_periods :: "locked_projection_state \<Rightarrow> date list \<Rightarrow> projections_db \<Rightarrow> projections_db" where
  "clear_dirty_periods state periods pdb =
     (if periods = [] then pdb
      else pdb\<lparr>projection_dirty_periods := filter (\<lambda>d. \<not> (dp_book_id d = gn_book_id (sp_generation state)
          \<and> dp_generation d = gn_generation (sp_generation state) \<and> dp_period_start d \<in> set periods))
        (projection_dirty_periods pdb)\<rparr>)"

section \<open>Writing and reading summaries\<close>

definition summary_record ::
    "uuid \<Rightarrow> int \<Rightarrow> int \<Rightarrow> date \<Rightarrow> monthly_summary_value \<Rightarrow> monthly_category_summary_record" where
  "summary_record book_id generation through_book_position period v =
     \<lparr>ms_book_id = book_id, ms_generation = generation, ms_period_start = period, ms_category_id = mv_category_id v,
      ms_category_version_id = mv_category_version_id v, ms_asset_code = mv_asset_code v, ms_line_kind = mv_line_kind v,
      ms_units = mv_units v, ms_as_of_book_position = through_book_position\<rparr>"

definition replace_period ::
    "db \<Rightarrow> uuid \<Rightarrow> int \<Rightarrow> int \<Rightarrow> (date \<times> monthly_summary_value list) list \<Rightarrow> projections_db \<Rightarrow> date
      \<Rightarrow> projection_error + projections_db" where
  "replace_period db book_id generation through_book_position replay pdb period =
     lift_pdb (insert_summaries db
       (map (summary_record book_id generation through_book_position period) (period_values replay period))
       (delete_summaries (\<lambda>m. ms_book_id m = book_id \<and> ms_generation m = generation \<and> ms_period_start m = period) pdb))"

definition replace_periods ::
    "db \<Rightarrow> uuid \<Rightarrow> int \<Rightarrow> date list \<Rightarrow> int \<Rightarrow> projections_db \<Rightarrow> projection_error + projections_db" where
  "replace_periods db book_id generation periods through_book_position pdb =
     rbind (cold_replay_monthly_summary db book_id (Some through_book_position)) (\<lambda>replay.
     foldE (replace_period db book_id generation through_book_position replay) pdb periods)"

definition replace_generation ::
    "db \<Rightarrow> uuid \<Rightarrow> int \<Rightarrow> int \<Rightarrow> projections_db \<Rightarrow> projection_error + projections_db" where
  "replace_generation db book_id generation through_book_position pdb =
     rbind (cold_replay_monthly_summary db book_id (Some through_book_position)) (\<lambda>replay.
     lift_pdb (insert_summaries db
       (concat (map (\<lambda>(period, values). map (summary_record book_id generation through_book_position period) values) replay))
       (delete_summaries (\<lambda>m. ms_book_id m = book_id \<and> ms_generation m = generation) pdb)))"

definition value_of_summary :: "monthly_category_summary_record \<Rightarrow> monthly_summary_value" where
  "value_of_summary row =
     \<lparr>mv_category_id = ms_category_id row, mv_category_version_id = ms_category_version_id row,
      mv_asset_code = ms_asset_code row, mv_line_kind = ms_line_kind row, mv_units = ms_units row\<rparr>"

text \<open>Text columns are compared by the collation of the database.\<close>

definition read_monthly_summary ::
    "(string \<Rightarrow> nat list) \<Rightarrow> uuid \<Rightarrow> date \<Rightarrow> projections_db \<Rightarrow> monthly_summary_value list" where
  "read_monthly_summary collate book_id period_start pdb =
     (case find_by kp_book_id book_id (projection_checkpoints pdb) of
        None \<Rightarrow> []
      | Some checkpoint \<Rightarrow> map value_of_summary
          (sort_key (\<lambda>m. (ms_category_id m, ms_category_version_id m, collate (ms_asset_code m), collate (ms_line_kind m)))
            (filter (\<lambda>m. ms_book_id m = book_id \<and> ms_generation m = kp_active_generation checkpoint
                \<and> ms_period_start m = period_start) (monthly_summaries pdb))))"

section \<open>The worker\<close>

record projection_run_result =
  rp_processed_events :: int
  rp_last_book_position :: int
  rp_paused :: bool

definition is_registered_event :: "ledger_event_record \<Rightarrow> bool" where
  "is_registered_event event =
     (case validate_stored (le_event_type event) (le_event_schema_version event) (le_payload event) of
        Inl _ \<Rightarrow> False | Inr _ \<Rightarrow> True)"

definition unknown_event_failure :: "uuid \<Rightarrow> uuid \<Rightarrow> int \<Rightarrow> ledger_event_record \<Rightarrow> projection_failure_record" where
  "unknown_event_failure failure_id book_id generation event =
     \<lparr>pf_failure_id = failure_id, pf_book_id = book_id, pf_generation = generation,
      pf_source_event_id = le_event_id event, pf_source_book_position = le_book_position event,
      pf_event_type = le_event_type event, pf_event_schema_version = le_event_schema_version event,
      pf_failure_kind = ''unknown_event'', pf_retry_state = ''paused'', pf_attempt_count = 1,
      pf_last_error_code = ''unknown_event_contract''\<rparr>"

definition paused_failure :: "projections_db \<Rightarrow> uuid \<Rightarrow> bool" where
  "paused_failure pdb book_id =
     list_ex (\<lambda>f. pf_book_id f = book_id \<and> pf_retry_state f = ''paused'') (projection_failures pdb)"

definition checkpoint_position :: "projections_db \<Rightarrow> uuid \<Rightarrow> int" where
  "checkpoint_position pdb book_id =
     (case find_by kp_book_id book_id (projection_checkpoints pdb) of
        None \<Rightarrow> 0 | Some checkpoint \<Rightarrow> kp_last_book_position checkpoint)"

text \<open>The batch of events that were read, projected in the transaction that moves the checkpoint.\<close>

definition project_batch ::
    "uuid \<Rightarrow> db \<Rightarrow> uuid \<Rightarrow> int \<Rightarrow> ledger_event_record list \<Rightarrow> projections_db
      \<Rightarrow> projection_error + projection_run_result \<times> projections_db" where
  "project_batch failure_id db book_id after events pdb =
     (let final_position = le_book_position (last events) in
      rbind (lock_projection_state db book_id final_position pdb) (\<lambda>(state, pdb).
      let generation = gn_generation (sp_generation state) in
      case find (\<lambda>event. \<not> is_registered_event event) events of
        Some invalid_event \<Rightarrow>
          rbind (lift_pdb (insert_failure db (unknown_event_failure failure_id book_id generation invalid_event) pdb)) (\<lambda>pdb.
          Inr (\<lparr>rp_processed_events = 0, rp_last_book_position = after, rp_paused = True\<rparr>, pdb))
      | None \<Rightarrow>
          rbind (mark_dirty_periods db state events pdb) (\<lambda>(periods, pdb).
          rbind (replace_periods db book_id generation periods final_position pdb) (\<lambda>pdb.
          rbind (activate_or_advance db state final_position pdb) (\<lambda>pdb.
          Inr (\<lparr>rp_processed_events = int (length events), rp_last_book_position = final_position, rp_paused = False\<rparr>,
               clear_dirty_periods state periods pdb))))))"

definition run_once ::
    "int \<Rightarrow> uuid \<Rightarrow> db \<Rightarrow> uuid \<Rightarrow> projections_db \<Rightarrow> projection_error + projection_run_result \<times> projections_db" where
  "run_once batch_size failure_id db book_id pdb =
     (let after = checkpoint_position pdb book_id in
      case find_by hd_book_id book_id (book_event_heads db) of
        None \<Rightarrow> Inl ProjectionLookupError
      | Some head \<Rightarrow>
          rbind (if paused_failure pdb book_id
                 then Inr (\<lparr>rp_processed_events = 0, rp_last_book_position = after, rp_paused = True\<rparr>, pdb)
                 else rbind (read_after db book_id after batch_size) (\<lambda>events.
                   if events = []
                   then Inr (\<lparr>rp_processed_events = 0, rp_last_book_position = after, rp_paused = False\<rparr>, pdb)
                   else project_batch failure_id db book_id after events pdb)) (\<lambda>(result, pdb).
          rbind (lift_pdb (commit_projections db pdb)) (\<lambda>pdb. Inr (result, pdb))))"

section \<open>The rebuilder\<close>

record projection_rebuild_result =
  rb_previous_generation :: int
  rb_active_generation :: int
  rb_last_book_position :: int

definition open_shadow :: "projections_db \<Rightarrow> uuid \<Rightarrow> projection_generation_record option" where
  "open_shadow pdb book_id =
     (case sort_key (\<lambda>g. - gn_generation g)
        (filter (\<lambda>g. gn_book_id g = book_id \<and> gn_state g \<in> {''building'', ''catching_up''}) (projection_generations pdb)) of
        [] \<Rightarrow> None | g # _ \<Rightarrow> Some g)"

text \<open>A shadow generation is filled from a replay and left catching up.\<close>

definition fill_shadow ::
    "db \<Rightarrow> uuid \<Rightarrow> projection_generation_record \<Rightarrow> int \<Rightarrow> projections_db \<Rightarrow> projection_error + int \<times> projections_db" where
  "fill_shadow db book_id shadow head_position pdb =
     rbind (replace_generation db book_id (gn_generation shadow) head_position pdb) (\<lambda>pdb.
     rbind (lift_pdb (update_generation db shadow (shadow\<lparr>gn_target_book_position := head_position,
        gn_last_book_position := head_position, gn_state := ''catching_up''\<rparr>) pdb)) (\<lambda>pdb.
     Inr (gn_generation shadow, pdb)))"

definition build_or_resume_shadow ::
    "db \<Rightarrow> uuid \<Rightarrow> projections_db \<Rightarrow> projection_error + int \<times> projections_db" where
  "build_or_resume_shadow db book_id pdb =
     (if find_by kp_book_id book_id (projection_checkpoints pdb) = None then Inl ProjectionRuntimeError
      else if map_option gn_state (open_shadow pdb book_id) = Some ''catching_up''
      then Inr (gn_generation (the (open_shadow pdb book_id)), pdb)
      else case find_by hd_book_id book_id (book_event_heads db) of
        None \<Rightarrow> Inl ProjectionLookupError
      | Some head \<Rightarrow>
          rbind (case open_shadow pdb book_id of
              Some shadow \<Rightarrow> fill_shadow db book_id shadow (hd_last_position head) pdb
            | None \<Rightarrow>
                let shadow = building_generation book_id (next_generation pdb book_id) (hd_last_position head)
                in rbind (lift_pdb (insert_generation db shadow pdb)) (\<lambda>pdb.
                   fill_shadow db book_id shadow (hd_last_position head) pdb)) (\<lambda>(generation, pdb).
          rbind (lift_pdb (commit_projections db pdb)) (\<lambda>pdb. Inr (generation, pdb))))"

definition catch_up_and_swap ::
    "db \<Rightarrow> uuid \<Rightarrow> int \<Rightarrow> projections_db \<Rightarrow> projection_error + projection_rebuild_result \<times> projections_db" where
  "catch_up_and_swap db book_id shadow_generation pdb =
     (case find_by kp_book_id book_id (projection_checkpoints pdb) of
        None \<Rightarrow> Inl NoResultFound
      | Some checkpoint \<Rightarrow>
     (case find_by generation_key (book_id, kp_active_generation checkpoint) (projection_generations pdb) of
        None \<Rightarrow> Inl NoResultFound
      | Some active \<Rightarrow>
     (case find_by generation_key (book_id, shadow_generation) (projection_generations pdb) of
        None \<Rightarrow> Inl NoResultFound
      | Some shadow \<Rightarrow>
          if gn_state shadow \<noteq> ''catching_up'' then Inl ProjectionRuntimeError
          else (case find_by hd_book_id book_id (book_event_heads db) of
             None \<Rightarrow> Inl ProjectionLookupError
           | Some head \<Rightarrow>
               let caught_up = shadow\<lparr>gn_target_book_position := hd_last_position head,
                                      gn_last_book_position := hd_last_position head\<rparr>
               in rbind (replace_generation db book_id shadow_generation (hd_last_position head) pdb) (\<lambda>pdb.
                  rbind (lift_pdb (update_generation db shadow caught_up pdb)) (\<lambda>pdb.
                  rbind (lift_pdb (update_generation db active (active\<lparr>gn_state := ''retired''\<rparr>) pdb)) (\<lambda>pdb.
                  rbind (lift_pdb (update_generation db caught_up (caught_up\<lparr>gn_state := ''active''\<rparr>) pdb)) (\<lambda>pdb.
                  rbind (lift_pdb (update_checkpoint checkpoint (checkpoint\<lparr>kp_active_generation := shadow_generation,
                           kp_last_book_position := hd_last_position head\<rparr>) pdb)) (\<lambda>pdb.
                  rbind (lift_pdb (commit_projections db pdb)) (\<lambda>pdb.
                  Inr (\<lparr>rb_previous_generation = kp_active_generation checkpoint, rb_active_generation = shadow_generation,
                        rb_last_book_position = hd_last_position head\<rparr>, pdb)))))))))))"

text \<open>Between the two transactions others may commit: \<open>between\<close> is the database as the second one finds it.\<close>

definition rebuild_book ::
    "db \<Rightarrow> uuid \<Rightarrow> (projections_db \<Rightarrow> db \<times> projections_db) \<Rightarrow> projections_db
      \<Rightarrow> projection_error + projection_rebuild_result \<times> projections_db" where
  "rebuild_book db book_id between pdb =
     rbind (build_or_resume_shadow db book_id pdb) (\<lambda>(shadow_generation, pdb).
     case between pdb of (db', pdb') \<Rightarrow> catch_up_and_swap db' book_id shadow_generation pdb')"

section \<open>The runtime\<close>

definition pending_book_ids :: "db \<Rightarrow> projections_db \<Rightarrow> uuid list" where
  "pending_book_ids db pdb =
     sort (map hd_book_id (filter (\<lambda>head. checkpoint_position pdb (hd_book_id head) < hd_last_position head
         \<and> \<not> paused_failure pdb (hd_book_id head)) (book_event_heads db)))"

text \<open>One cycle: an exception of a Book is logged and the next Book is taken.\<close>

definition cycle_step ::
    "int \<Rightarrow> (uuid \<Rightarrow> uuid) \<Rightarrow> db \<Rightarrow> int \<times> projections_db \<Rightarrow> uuid \<Rightarrow> int \<times> projections_db" where
  "cycle_step batch_size failure_id db st book_id =
     (case run_once batch_size (failure_id book_id) db book_id (snd st) of
        Inl _ \<Rightarrow> st
      | Inr (result, pdb) \<Rightarrow> (fst st + rp_processed_events result, pdb))"

definition run_cycle ::
    "int \<Rightarrow> (uuid \<Rightarrow> uuid) \<Rightarrow> bool \<Rightarrow> db \<Rightarrow> projections_db \<Rightarrow> int \<times> projections_db" where
  "run_cycle batch_size failure_id acquired db pdb =
     (if \<not> acquired then (0, pdb)
      else foldl (cycle_step batch_size failure_id db) (0, pdb) (pending_book_ids db pdb))"

end
