(* ===== verification/Summary_Replay.thy ===== *)
theory Summary_Replay
  imports Projection_Worker
begin

text \<open>
  Why the projector may replace single months. An event changes the summary of a replay only in the months
  \<open>affected_periods\<close> names, because the journal has one row per transaction, with the effective time of the event that
  created it, and one reversal per transaction, later than its original. The first section draws these facts from the synchronous
  projection, the second states what a transaction contributes to a total, and the third compares two replays.
\<close>

section \<open>The journal remembers the events\<close>

inductive journal_written :: "db \<Rightarrow> bool" where
  start: "journal_transactions db = [] \<Longrightarrow> transaction_reversals db = [] \<Longrightarrow> applied_events db = [] \<Longrightarrow> journal_written db"
| project: "journal_written db \<Longrightarrow> e \<in> set (ledger_events db) \<Longrightarrow> apply_stored e db = Inr (r, db') \<Longrightarrow> journal_written db'"
| elsewhere: "journal_written db \<Longrightarrow> journal_transactions db' = journal_transactions db \<Longrightarrow>
    transaction_reversals db' = transaction_reversals db \<Longrightarrow> applied_events db' = applied_events db \<Longrightarrow>
    set (ledger_events db) \<subseteq> set (ledger_events db') \<Longrightarrow> journal_written db'"

definition reversal_of :: "db \<Rightarrow> uuid \<Rightarrow> uuid \<Rightarrow> transaction_reversal_record option" where
  "reversal_of db b t = find_by reversal_target_key (b, t) (transaction_reversals db)"

definition creates :: "ledger_event_record \<Rightarrow> uuid \<Rightarrow> bool" where
  "creates e t \<longleftrightarrow> map_option fst (source_transaction (le_payload e)) = Some t"

definition reverses :: "ledger_event_record \<Rightarrow> uuid \<Rightarrow> uuid \<Rightarrow> bool" where
  "reverses e t r \<longleftrightarrow> (\<exists>p. le_payload e = JournalTransactionReversed p
     \<and> tr_reverses_transaction_id p = t \<and> tr_reversal_transaction_id p = r)"

definition row_of :: "db \<Rightarrow> ledger_event_record \<Rightarrow> uuid \<Rightarrow> journal_transaction_record \<Rightarrow> bool" where
  "row_of db e t row \<longleftrightarrow> transaction_of db (le_book_id e) t = Some row
     \<and> jt_source_position row = le_book_position e \<and> jt_effective_at row = le_effective_at e"

definition remembered :: "db \<Rightarrow> ledger_event_record \<Rightarrow> bool" where
  "remembered db e \<longleftrightarrow> (\<forall>t. creates e t \<longrightarrow> (\<exists>row. row_of db e t row))
     \<and> (\<forall>t r. reverses e t r \<longrightarrow> (\<exists>rv original. reversal_of db (le_book_id e) t = Some rv
          \<and> rv_reversal_transaction_id rv = r \<and> transaction_of db (le_book_id e) t = Some original
          \<and> jt_source_position original < le_book_position e))"

definition journal_grows :: "db \<Rightarrow> db \<Rightarrow> bool" where
  "journal_grows db db' \<longleftrightarrow> (\<exists>ts rs. journal_transactions db' = journal_transactions db @ ts
     \<and> transaction_reversals db' = transaction_reversals db @ rs)"

lemma grows_same:
  "journal_transactions db' = journal_transactions db \<Longrightarrow> transaction_reversals db' = transaction_reversals db \<Longrightarrow> journal_grows db db'"
  unfolding journal_grows_def by (intro exI [of _ "[]"]) simp

interpretation journal_growth: projection_writes journal_grows
proof unfold_locales
  show "journal_grows db db'' " if "journal_grows db db'" "journal_grows db' db''" for db db' db''
    using that by (auto simp: journal_grows_def)
  show "upsert_balance b db = Inr db' \<Longrightarrow> journal_grows db db'" for b db db'
    using upsert_balance_Inr(1) by (fastforce intro: grows_same)
qed (auto dest!: statement_shapes simp: journal_grows_def delete_current_reporting_lines_def)

lemma apply_stored_grows:
  assumes "apply_stored e db = Inr (r, db')"
  shows "journal_grows db db'"
  using assms
proof (cases rule: apply_stored_cases)
  case (applied m)
  from journal_growth.apply_payload [OF applied(8)] show ?thesis by (simp add: journal_grows_def)
qed (simp_all add: journal_growth.refl)

lemma find_by_grows: "find_by f k xs = Some x \<Longrightarrow> find_by f k (xs @ ys) = Some x"
  by (induction xs) (auto simp: find_by_def)

lemma find_by_added: "k \<notin> f ` set xs \<Longrightarrow> f x = k \<Longrightarrow> find_by f k (xs @ [x]) = Some x"
  by (induction xs) (auto simp: find_by_def)

lemma remembered_grows:
  assumes "journal_grows db db'" "remembered db e"
  shows "remembered db' e"
proof -
  have t: "transaction_of db' b t = Some row" if "transaction_of db b t = Some row" for b t row
    using assms(1) find_by_grows that by (auto simp: journal_grows_def transaction_of_def)
  have r: "reversal_of db' b t = Some row" if "reversal_of db b t = Some row" for b t row
    using assms(1) find_by_grows that by (auto simp: journal_grows_def reversal_of_def)
  show ?thesis using assms(2) t r unfolding remembered_def row_of_def by meson
qed

lemma applied_remembered:
  assumes "apply_stored e db = Inr (r, db')" "pr_applied r"
  shows "remembered db' e"
  unfolding remembered_def
proof (intro conjI allI impI)
  fix t assume "creates e t"
  then obtain ps where "source_transaction (le_payload e) = Some (t, ps)" by (auto simp: creates_def)
  with apply_stored_journal [OF assms(1)] assms(2) obtain kind ref where
    "journal_transactions db' = journal_transactions db @ [transaction_record e t kind ref]"
    and adm: "admit_transaction db (transaction_record e t kind ref) = Inr ()"
    by (auto simp: records_transaction_def)
  moreover have key: "transaction_key (transaction_record e t kind ref) = (le_book_id e, t)"
    by (simp add: transaction_key_def transaction_record_def)
  have "(le_book_id e, t) \<notin> transaction_key ` set (journal_transactions db)"
    using adm by (simp add: admit_transaction_def checks_Inr_iff key)
  from find_by_added [OF this key] calculation(1)
  have "transaction_of db' (le_book_id e) t = Some (transaction_record e t kind ref)"
    by (simp add: transaction_of_def)
  then show "\<exists>row. row_of db' e t row" by (auto simp: row_of_def transaction_record_def)
next
  fix t rid assume "reverses e t rid"
  then obtain p where p: "le_payload e = JournalTransactionReversed p" "tr_reverses_transaction_id p = t"
    "tr_reversal_transaction_id p = rid" by (auto simp: reverses_def)
  note app = assms(1)
  from app assms(2) p(1) obtain m where "apply_journal_reversed e p (db\<lparr>applied_events := applied_events db @ [m]\<rparr>) = Inr db'"
    by (auto elim: apply_stored_cases)
  then show "\<exists>rv original. reversal_of db' (le_book_id e) t = Some rv
      \<and> rv_reversal_transaction_id rv = rid \<and> transaction_of db' (le_book_id e) t = Some original
      \<and> jt_source_position original < le_book_position e"
  proof (rule apply_journal_reversed_Inr)
    fix original event ps
    let ?db = "db\<lparr>applied_events := applied_events db @ [m]\<rparr>"
    assume orig: "transaction_of ?db (le_book_id e) (tr_reverses_transaction_id p) = Some original"
      "jt_source_position original < le_book_position e"
    and rev: "transaction_reversals db' = transaction_reversals ?db @ [reversal_record e p event]"
    and adm: "admit_reversal (db'\<lparr>transaction_reversals := transaction_reversals ?db\<rparr>) (reversal_record e p event) = Inr ()"
    have "reversal_target_key (reversal_record e p event) \<notin> reversal_target_key ` set (transaction_reversals db)"
      using adm by (auto simp: admit_reversal_def rbind_eq_Inr checks_Inr_iff)
    then have "reversal_of db' (le_book_id e) t = Some (reversal_record e p event)"
      using rev p by (simp add: reversal_of_def find_by_added reversal_record_def reversal_target_key_def)
    moreover have "transaction_of db' (le_book_id e) t = Some original"
      using orig(1) apply_stored_grows [OF app] p(2) by (auto simp: journal_grows_def transaction_of_def find_by_grows)
    ultimately show ?thesis using orig(2) p(3) by (auto simp: reversal_record_def)
  qed
qed

lemma marked_remembered:
  "journal_written db \<Longrightarrow> k \<in> applied_key ` set (applied_events db) \<Longrightarrow>
     \<exists>e\<in>set (ledger_events db). event_book_key e = k \<and> remembered db e"
proof (induction rule: journal_written.induct)
  case (project db e r db')
  note frame = apply_stored_frame [OF project.hyps(3)]
  note keep = remembered_grows [OF apply_stored_grows [OF project.hyps(3)]]
  show ?case
  proof (cases "k \<in> applied_key ` set (applied_events db)")
    case True
    with project.IH keep show ?thesis by (auto simp: frame(3))
  next
    case False
    with project.prems frame(8) have k: "k = event_book_key e" "pr_required r" by (auto split: if_splits)
    from project.hyps(3) have "pr_applied r"
    proof (cases rule: apply_stored_cases)
      case already
      with False k show ?thesis by simp
    qed (use k in simp_all)
    with applied_remembered [OF project.hyps(3)] k project.hyps(2) show ?thesis by (auto simp: frame(3))
  qed
next
  case (elsewhere db db')
  then obtain e where "e \<in> set (ledger_events db)" "event_book_key e = k" "remembered db e" by auto
  with elsewhere.hyps(5) remembered_grows [OF grows_same [OF elsewhere.hyps(2,3)]] show ?case by blast
qed simp

lemma written_remembers:
  assumes "journal_written db" "distinct (map le_event_id (ledger_events db))"
    and "e \<in> set (ledger_events db)" "event_book_key e \<in> applied_key ` set (applied_events db)"
  shows "remembered db e"
proof -
  from marked_remembered [OF assms(1,4)] obtain x where x: "x \<in> set (ledger_events db)" "event_book_key x = event_book_key e" "remembered db x"
    by blast
  have "le_event_id x = le_event_id e" using x(2) by (simp add: event_book_key_def)
  moreover have "inj_on le_event_id (set (ledger_events db))" using assms(2) by (simp add: distinct_map)
  ultimately have "x = e" using inj_onD x(1) assms(3) by metis
  with x(3) show ?thesis by simp
qed

section \<open>What a transaction adds to a total\<close>

definition line_units :: "date \<Rightarrow> summary_key \<Rightarrow> reporting_line \<Rightarrow> int" where
  "line_units period k line =
     (case (rl_dimension line, rl_dimension_id line) of
        (D_CATEGORY, Some dimension_id) \<Rightarrow>
          if k = (period, dimension_id, rl_catalog_id line, rl_asset_code line, reporting_line_kind_value (rl_line_kind line))
          then units_value (rl_units line) else 0
      | _ \<Rightarrow> 0)"

definition lines_total :: "date \<Rightarrow> reporting_line list \<Rightarrow> summary_key \<Rightarrow> int" where
  "lines_total period lines k = sum_list (map (line_units period k) lines)"

lemma line_elsewhere: "fst k \<noteq> period \<Longrightarrow> line_units period k line = 0"
  by (cases "rl_dimension line"; cases "rl_dimension_id line") (auto simp: line_units_def)

lemma lines_elsewhere: "fst k \<noteq> period \<Longrightarrow> lines_total period lines k = 0"
  by (induction lines) (auto simp: lines_total_def line_elsewhere)

lemma add_lines_total: "cget (add_lines totals period lines sign) k = cget totals k + sign * lines_total period lines k"
proof (induction lines arbitrary: totals)
  case Nil
  then show ?case by (simp add: add_lines_def lines_total_def)
next
  case (Cons line lines)
  have "add_lines totals period (line # lines) sign = add_lines (add_lines totals period [line] sign) period lines sign"
    by (simp add: add_lines_def)
  moreover have "cget (add_lines totals period [line] sign) k = cget totals k + sign * line_units period k line"
    by (cases "rl_dimension line"; cases "rl_dimension_id line") (auto simp: add_lines_def line_units_def cget_cadd)
  ultimately show ?case by (simp add: Cons.IH lines_total_def distrib_left)
qed

lemma distinct_add_lines: "distinct (map fst totals) \<Longrightarrow> distinct (map fst (add_lines totals period lines sign))"
proof (induction lines arbitrary: totals)
  case Nil
  then show ?case by (simp add: add_lines_def)
next
  case (Cons line lines)
  have "distinct (map fst (add_lines totals period [line] sign))" using Cons.prems
    by (cases "rl_dimension line"; cases "rl_dimension_id line") (simp_all add: add_lines_def distinct_cadd)
  from Cons.IH [OF this] show ?case by (simp add: add_lines_def)
qed

text \<open>The share of a transaction: its lines in its own month, taken back in the month of its reversal.\<close>

definition share :: "replay_state \<Rightarrow> uuid \<Rightarrow> summary_key \<Rightarrow> int" where
  "share st t k =
     (case (map_of (mr_reporting st) t, map_of (mr_transaction_times st) t) of
        (Some lines, Some day) \<Rightarrow>
          (let sign = (case map_of (mr_reporting_signs st) t of None \<Rightarrow> 1 | Some s \<Rightarrow> s)
           in sign * lines_total (month_start day) lines k
              - (case map_of (mr_reversals st) t of
                   None \<Rightarrow> 0 | Some reversed_on \<Rightarrow> sign * lines_total (month_start reversed_on) lines k))
      | _ \<Rightarrow> 0)"

lemma add_transaction_share:
  assumes "map_of (mr_reporting st) t = Some lines"
  shows "cget (add_transaction_lines st totals (t, lines)) k = cget totals k + share st t k"
  using assms
  by (auto simp: add_transaction_lines_def share_def add_lines_total Let_def split: option.splits)

lemma add_transaction_distinct:
  "distinct (map fst totals) \<Longrightarrow> distinct (map fst (add_transaction_lines st totals item))"
  by (cases item) (auto simp: add_transaction_lines_def distinct_add_lines Let_def split: option.splits)

lemma add_transactions_total:
  "\<forall>(t, lines)\<in>set items. map_of (mr_reporting st) t = Some lines \<Longrightarrow>
    cget (foldl (add_transaction_lines st) totals items) k = cget totals k + (\<Sum>(t, _)\<leftarrow>items. share st t k)"
proof (induction items arbitrary: totals)
  case (Cons item items)
  then show ?case using add_transaction_share by (cases item) simp
qed simp

lemma distinct_replay_totals: "distinct (map fst (replay_totals st))"
proof -
  have "distinct (map fst totals) \<Longrightarrow> distinct (map fst (foldl (add_transaction_lines st) totals items))" for totals items
    by (induction items arbitrary: totals) (simp_all add: add_transaction_distinct)
  then show ?thesis by (simp add: replay_totals_def)
qed

lemma share_unreported: "t \<notin> fst ` set (mr_reporting st) \<Longrightarrow> share st t k = 0"
  by (simp add: share_def map_of_eq_None_iff [THEN iffD2])

lemma replay_totals_sum:
  assumes "distinct (map fst (mr_reporting st))" "finite A" "fst ` set (mr_reporting st) \<subseteq> A"
  shows "cget (replay_totals st) k = (\<Sum>t\<in>A. share st t k)"
proof -
  have "cget (replay_totals st) k = (\<Sum>(t, _)\<leftarrow>mr_reporting st. share st t k)"
    using assms(1) by (subst replay_totals_def, subst add_transactions_total) auto
  also have "\<dots> = (\<Sum>t\<leftarrow>map fst (mr_reporting st). share st t k)" by (simp add: split_def comp_def)
  also have "\<dots> = (\<Sum>t\<in>fst ` set (mr_reporting st). share st t k)"
    using sum_list_distinct_conv_sum_set [OF assms(1)] by simp
  also have "\<dots> = (\<Sum>t\<in>A. share st t k)"
    using assms(2,3) by (rule sum.mono_neutral_left) (auto simp: share_unreported)
  finally show ?thesis .
qed

lemma same_shares_same_totals:
  assumes "distinct (map fst (mr_reporting st))" "distinct (map fst (mr_reporting st'))"
    and "\<And>t. share st' t k = share st t k"
  shows "cget (replay_totals st') k = cget (replay_totals st) k"
  using replay_totals_sum [OF assms(1), of "fst ` set (mr_reporting st) \<union> fst ` set (mr_reporting st')"]
    replay_totals_sum [OF assms(2), of "fst ` set (mr_reporting st) \<union> fst ` set (mr_reporting st')"] assms(3) by simp

section \<open>What an event changes\<close>

lemma stored_payload: "validate_stored n v p = Inr q \<Longrightarrow> q = p"
  by (auto simp: validate_stored_def split: if_splits sum.splits)

lemma replay_event_cases:
  assumes "replay_event st e = Inr st'"
  obtains (Posted) p day where "le_payload e = JournalTransactionPosted p" "utc_date (le_effective_at e) = Inr day"
      "st' = st\<lparr>mr_transaction_times := AList.update (tp_transaction_id p) day (mr_transaction_times st),
                mr_reporting_signs := AList.update (tp_transaction_id p)
                  (journal_reporting_sign (transaction_kind_value (tp_kind p))) (mr_reporting_signs st)\<rparr>"
  | (Recorded) p day where "le_payload e = CreditCardTransactionRecorded p" "utc_date (le_effective_at e) = Inr day"
      "st' = st\<lparr>mr_transaction_times := AList.update (cc_transaction_id p) day (mr_transaction_times st),
                mr_card_intents := AList.update (cc_transaction_id p) (cc_intent p) (mr_card_intents st),
                mr_reporting_signs := AList.update (cc_transaction_id p)
                  (credit_card_reporting_sign (cc_intent p)) (mr_reporting_signs st)\<rparr>"
  | (Reversed) p day where "le_payload e = JournalTransactionReversed p" "utc_date (le_effective_at e) = Inr day"
      "st' = st\<lparr>mr_transaction_times := AList.update (tr_reversal_transaction_id p) day (mr_transaction_times st),
                mr_reversals := AList.update (tr_reverses_transaction_id p) day (mr_reversals st),
                mr_reversal_transaction_ids := tr_reversal_transaction_id p # mr_reversal_transaction_ids st\<rparr>"
  | (Assigned) p where "le_payload e = ReportingLinesAssigned p"
      "st' = st\<lparr>mr_reporting := AList.update (la_transaction_id p) (la_lines p) (mr_reporting st)\<rparr>"
  | (Cleared) p where "le_payload e = ReportingLinesCleared p"
      "st' = st\<lparr>mr_reporting := AList.delete (lc_transaction_id p) (mr_reporting st)\<rparr>"
  | (Other) "st' = st" "reporting_target (le_payload e) = None" "source_transaction (le_payload e) = None"
proof -
  from assms have v: "validate_stored (le_event_type e) (le_event_schema_version e) (le_payload e) = Inr (le_payload e)"
    using stored_payload by (fastforce simp: replay_event_def split: sum.splits)
  show thesis
  proof (cases "le_payload e")
    case (JournalTransactionPosted p)
    then show thesis using assms v that(1) by (auto simp: replay_event_def rbind_eq_Inr)
  next
    case (CreditCardTransactionRecorded p)
    then show thesis using assms v that(2) by (auto simp: replay_event_def rbind_eq_Inr)
  next
    case (JournalTransactionReversed p)
    then show thesis using assms v that(3) by (auto simp: replay_event_def rbind_eq_Inr)
  next
    case (ReportingLinesAssigned p)
    then show thesis using assms v that(4) by (auto simp: replay_event_def Let_def split: if_splits)
  next
    case (ReportingLinesCleared p)
    then show thesis using assms v that(5) by (auto simp: replay_event_def)
  qed (use assms v that(6) in \<open>auto simp: replay_event_def reporting_target_def source_transaction_def\<close>)
qed

lemma replay_origin:
  "foldE replay_event empty_replay es = Inr st \<Longrightarrow>
     distinct (map fst (mr_reporting st))
     \<and> (\<forall>t day. map_of (mr_transaction_times st) t = Some day \<longrightarrow>
          (\<exists>e\<in>set es. creates e t \<and> utc_date (le_effective_at e) = Inr day))
     \<and> (\<forall>t day. map_of (mr_reversals st) t = Some day \<longrightarrow>
          (\<exists>e\<in>set es. (\<exists>r. reverses e t r) \<and> utc_date (le_effective_at e) = Inr day))"
proof (induction es arbitrary: st rule: rev_induct)
  case Nil
  then show ?case by (auto simp: empty_replay_def)
next
  case (snoc e es)
  from snoc.prems obtain s where s: "foldE replay_event empty_replay es = Inr s" and step: "replay_event s e = Inr st"
    by (auto simp: foldE_snoc rbind_eq_Inr)
  note ih = snoc.IH [OF s]
  from step show ?case
  proof (cases rule: replay_event_cases)
    case (Posted p day)
    then show ?thesis using ih by (auto simp: update_conv' creates_def source_transaction_def)
  next
    case (Recorded p day)
    then show ?thesis using ih by (auto simp: update_conv' creates_def source_transaction_def)
  next
    case (Reversed p day)
    then show ?thesis using ih by (auto simp: update_conv' creates_def source_transaction_def reverses_def)
  next
    case (Assigned p)
    then show ?thesis using ih by (auto simp: distinct_update)
  next
    case (Cleared p)
    then show ?thesis using ih by (auto simp: distinct_delete)
  next
    case Other
    then show ?thesis using ih by auto
  qed
qed

text \<open>The event changes the share of a transaction only in the months of \<open>P\<close>.\<close>

lemma replay_event_local:
  assumes "replay_event st e = Inr st'"
    and own: "\<And>day. reporting_target (le_payload e) = None \<Longrightarrow> utc_date (le_effective_at e) = Inr day \<Longrightarrow> month_start day \<in> P"
    and created: "\<And>t. creates e t \<Longrightarrow> map_of (mr_transaction_times st) t = None \<and> map_of (mr_reversals st) t = None"
    and reversed: "\<And>t r. reverses e t r \<Longrightarrow> map_of (mr_reversals st) t = None"
    and times: "\<And>t day. reporting_target (le_payload e) = Some t \<Longrightarrow> map_of (mr_transaction_times st) t = Some day \<Longrightarrow>
      month_start day \<in> P"
    and reversals: "\<And>t day. reporting_target (le_payload e) = Some t \<Longrightarrow> map_of (mr_reversals st) t = Some day \<Longrightarrow>
      month_start day \<in> P"
    and k: "fst k \<notin> P"
  shows "share st' t k = share st t k"
  using assms(1)
proof (cases rule: replay_event_cases)
  case (Posted p day)
  have "fst k \<noteq> month_start day" using own Posted k by (auto simp: reporting_target_def)
  then show ?thesis using Posted created [of "tp_transaction_id p"]
    by (auto simp: share_def update_conv' creates_def source_transaction_def lines_elsewhere split: option.split)
next
  case (Recorded p day)
  have "fst k \<noteq> month_start day" using own Recorded k by (auto simp: reporting_target_def)
  then show ?thesis using Recorded created [of "cc_transaction_id p"]
    by (auto simp: share_def update_conv' creates_def source_transaction_def lines_elsewhere split: option.split)
next
  case (Reversed p day)
  have "fst k \<noteq> month_start day" using own Reversed k by (auto simp: reporting_target_def)
  then show ?thesis
    using Reversed created [of "tr_reversal_transaction_id p"]
      reversed [of "tr_reverses_transaction_id p" "tr_reversal_transaction_id p"]
    by (auto simp: share_def update_conv' creates_def reverses_def source_transaction_def lines_elsewhere Let_def split: option.split)
next
  case (Assigned p)
  have "fst k \<noteq> month_start day" if "map_of (mr_transaction_times st) (la_transaction_id p) = Some day
      \<or> map_of (mr_reversals st) (la_transaction_id p) = Some day" for day
    using that times [of "la_transaction_id p" day] reversals [of "la_transaction_id p" day] Assigned(1) k
    by (auto simp: reporting_target_def)
  with Assigned show ?thesis
    by (auto simp: share_def update_conv' lines_elsewhere Let_def split: option.split)
next
  case (Cleared p)
  have "fst k \<noteq> month_start day" if "map_of (mr_transaction_times st) (lc_transaction_id p) = Some day
      \<or> map_of (mr_reversals st) (lc_transaction_id p) = Some day" for day
    using that times [of "lc_transaction_id p" day] reversals [of "lc_transaction_id p" day] Cleared(1) k
    by (auto simp: reporting_target_def)
  with Cleared show ?thesis
    by (auto simp: share_def delete_conv' lines_elsewhere Let_def split: option.split)
next
  case Other
  then show ?thesis by simp
qed

section \<open>Two replays of one log\<close>

lemma affected_valid:
  assumes "affected_periods db e = Inr periods"
  shows "validate_stored (le_event_type e) (le_event_schema_version e) (le_payload e) = Inr (le_payload e)"
proof (cases "validate_stored (le_event_type e) (le_event_schema_version e) (le_payload e)")
  case (Inl x)
  with assms show ?thesis by (simp add: affected_periods_def)
next
  case (Inr q)
  with stored_payload [OF Inr] show ?thesis by simp
qed

lemma affected_own:
  assumes "affected_periods db e = Inr periods" "reporting_target (le_payload e) = None" "utc_date (le_effective_at e) = Inr day"
  shows "month_start day \<in> set periods"
  using assms affected_valid [OF assms(1)] by (auto simp: affected_periods_def rbind_eq_Inr)

lemma affected_target:
  assumes "affected_periods db e = Inr periods" "reporting_target (le_payload e) = Some t"
  obtains row day where "transaction_of db (le_book_id e) t = Some row" "utc_date (jt_effective_at row) = Inr day"
    "month_start day \<in> set periods"
    "\<And>rv reversal reversed_on. reversal_of db (le_book_id e) t = Some rv \<Longrightarrow>
       transaction_of db (le_book_id e) (rv_reversal_transaction_id rv) = Some reversal \<Longrightarrow>
       utc_date (jt_effective_at reversal) = Inr reversed_on \<Longrightarrow> month_start reversed_on \<in> set periods"
proof -
  note v = affected_valid [OF assms(1)]
  show thesis
  proof (cases "transaction_of db (le_book_id e) t")
    case None
    then show thesis using assms v by (simp add: affected_periods_def)
  next
    case (Some row)
    with assms v obtain day where day: "utc_date (jt_effective_at row) = Inr day" by (auto simp: affected_periods_def rbind_eq_Inr)
    show thesis
    proof (rule that [OF Some day])
      show "month_start day \<in> set periods"
        using assms v Some day by (auto simp: affected_periods_def rbind_eq_Inr reversal_of_def split: option.splits)
      show "month_start reversed_on \<in> set periods" if "reversal_of db (le_book_id e) t = Some rv"
        "transaction_of db (le_book_id e) (rv_reversal_transaction_id rv) = Some reversal"
        "utc_date (jt_effective_at reversal) = Inr reversed_on" for rv reversal reversed_on
        using assms v Some day that by (auto simp: affected_periods_def rbind_eq_Inr reversal_of_def split: option.splits)
    qed
  qed
qed

text \<open>The events of a Book in their order, each remembered by the journal.\<close>

definition book_story :: "db \<Rightarrow> uuid \<Rightarrow> ledger_event_record list \<Rightarrow> bool" where
  "book_story db b es \<longleftrightarrow> sorted_wrt (<) (map le_book_position es) \<and> (\<forall>e\<in>set es. le_book_id e = b \<and> remembered db e)"

lemma story_position:
  assumes "book_story db b (es @ e # later)" "e' \<in> set es"
  shows "le_book_position e' < le_book_position e"
  using assms by (auto simp: book_story_def sorted_wrt_append)

lemma event_local:
  assumes story: "book_story db b (es @ e # later)"
    and st: "foldE replay_event empty_replay es = Inr st" and step: "replay_event st e = Inr st'"
    and affected: "affected_periods db e = Inr periods" and k: "fst k \<notin> set periods"
  shows "share st' t k = share st t k"
proof (rule replay_event_local [OF step])
  note origin = conjunct2 [OF replay_origin [OF st]]
  have mem: "le_book_id x = b" "remembered db x" if "x \<in> set es \<or> x = e" for x
    using story that by (auto simp: book_story_def)
  have book: "le_book_id e = b" by (rule mem) simp
  have row: "\<exists>row. transaction_of db b u = Some row \<and> jt_source_position row = le_book_position x
      \<and> jt_effective_at row = le_effective_at x" if "x \<in> set es \<or> x = e" "creates x u" for x u
    using mem [OF that(1)] that(2) by (auto simp: remembered_def row_of_def)
  have rev: "\<exists>rv original. reversal_of db b u = Some rv \<and> rv_reversal_transaction_id rv = r
      \<and> transaction_of db b u = Some original \<and> jt_source_position original < le_book_position x"
    if "x \<in> set es \<or> x = e" "reverses x u r" for x u r
    using mem [OF that(1)] that(2) by (auto simp: remembered_def)
  have rev_creates: "creates x r" if "reverses x u r" for x u r
    using that by (auto simp: reverses_def creates_def source_transaction_def)
  have once: False if "x \<in> set es" "creates x u" "creates e u" for x u
    using row [of x u] row [of e u] that story_position [OF story that(1)] by auto
  show "month_start day \<in> set periods" if "reporting_target (le_payload e) = None" "utc_date (le_effective_at e) = Inr day" for day
    using affected_own [OF affected that] .
  show "map_of (mr_transaction_times st) u = None \<and> map_of (mr_reversals st) u = None" if c: "creates e u" for u
  proof (intro conjI; rule ccontr)
    assume "map_of (mr_transaction_times st) u \<noteq> None"
    then obtain x where "x \<in> set es" "creates x u" using origin by blast
    from once [OF this c] show False .
  next
    assume "map_of (mr_reversals st) u \<noteq> None"
    then obtain x r where x: "x \<in> set es" "reverses x u r" using origin by blast
    from rev [of x u r] row [of e u] c x story_position [OF story x(1)] show False by auto
  qed
  show "map_of (mr_reversals st) u = None" if r: "reverses e u r" for u r
  proof (rule ccontr)
    assume "map_of (mr_reversals st) u \<noteq> None"
    then obtain x q where x: "x \<in> set es" "reverses x u q" using origin by blast
    from rev [of x u q] rev [of e u r] x r have "q = r" by auto
    with once [OF x(1) rev_creates [OF x(2)]] rev_creates [OF r] show False by simp
  qed
  show "month_start day \<in> set periods"
    if u: "reporting_target (le_payload e) = Some u" "map_of (mr_transaction_times st) u = Some day" for u day
  proof -
    from origin u(2) obtain x where x: "x \<in> set es" "creates x u" "utc_date (le_effective_at x) = Inr day" by blast
    with row [of x u] obtain row where "transaction_of db b u = Some row" "jt_effective_at row = le_effective_at x" by blast
    then show ?thesis using affected_target [OF affected u(1)] x(3) unfolding book
      by (metis sum.inject(2) option.inject)
  qed
  show "month_start day \<in> set periods"
    if u: "reporting_target (le_payload e) = Some u" "map_of (mr_reversals st) u = Some day" for u day
  proof -
    from origin u(2) obtain x r where x: "x \<in> set es" "reverses x u r" "utc_date (le_effective_at x) = Inr day" by blast
    with rev [of x u r] row [of x r] rev_creates obtain rv row where
      "reversal_of db b u = Some rv" "rv_reversal_transaction_id rv = r"
      "transaction_of db b r = Some row" "jt_effective_at row = le_effective_at x" by blast
    with affected_target [OF affected u(1)] x(3) show ?thesis unfolding book by metis
  qed
qed (rule k)

lemma story_prefix: "book_story db b (es @ later) \<Longrightarrow> book_story db b es"
  by (auto simp: book_story_def sorted_wrt_append)

lemma batch_local:
  assumes "book_story db b (es @ batch @ later)" "foldE replay_event empty_replay es = Inr st"
    "foldE replay_event st batch = Inr st'" "\<forall>e\<in>set batch. \<exists>periods. affected_periods db e = Inr periods \<and> fst k \<notin> set periods"
  shows "share st' t k = share st t k"
  using assms
proof (induction batch arbitrary: es st)
  case Nil
  then show ?case by simp
next
  case (Cons e batch)
  from Cons.prems(3) obtain s where step: "replay_event st e = Inr s" and rest: "foldE replay_event s batch = Inr st'"
    by (auto simp: rbind_eq_Inr)
  from Cons.prems(4) obtain periods where "affected_periods db e = Inr periods" "fst k \<notin> set periods" by auto
  with Cons.prems(1,2) step have "share s t k = share st t k" by (intro event_local) simp_all
  moreover have "share st' t k = share s t k"
    using Cons.prems(1,2,4) step rest by (intro Cons.IH [of "es @ [e]"]) (simp_all add: foldE_snoc rbind_def)
  ultimately show ?case by simp
qed

section \<open>The values of a month\<close>

lemma period_values_by_period:
  "period_values (values_by_period totals) p =
     sort_key value_order (map summary_value (filter (\<lambda>(k, units). units \<noteq> 0 \<and> fst k = p) totals))"
proof -
  let ?entries = "filter (\<lambda>(_, units). units \<noteq> 0) totals"
  let ?sorted_values = "\<lambda>p. sort_key value_order (map summary_value (filter (\<lambda>((q, _), _). q = p) ?entries))"
  have eq: "filter (\<lambda>((q, _), _). q = p) ?entries = filter (\<lambda>(k, units). units \<noteq> 0 \<and> fst k = p) totals"
    by (auto intro!: filter_cong)
  have "map_of (values_by_period totals) p = (if p \<in> (\<lambda>((q, _), _). q) ` set ?entries then Some (?sorted_values p) else None)"
    by (simp add: values_by_period_def Let_def map_of_map_restrict restrict_map_def)
  moreover have "?sorted_values p = []" if "p \<notin> (\<lambda>((q, _), _). q) ` set ?entries"
  proof -
    have "filter (\<lambda>((q, _), _). q = p) ?entries = []" using that by (force simp: filter_empty_conv)
    then show ?thesis by simp
  qed
  ultimately have "period_values (values_by_period totals) p = ?sorted_values p"
    unfolding period_values_def by (simp only: split: if_split option.split) simp
  then show ?thesis unfolding eq .
qed

lemma month_multiset:
  assumes "distinct (map fst totals)"
  shows "mset (filter (\<lambda>(k, units). units \<noteq> 0 \<and> fst k = p) totals)
    = mset_set {(k, units). units \<noteq> 0 \<and> fst k = p \<and> units = cget totals k}"
proof -
  let ?xs = "filter (\<lambda>(k, units). units \<noteq> 0 \<and> fst k = p) totals"
  have d: "distinct ?xs" using assms by (simp add: distinct_map)
  have s: "set ?xs = {(k, units). units \<noteq> 0 \<and> fst k = p \<and> units = cget totals k}"
  proof (intro set_eqI)
    fix x show "x \<in> set ?xs \<longleftrightarrow> x \<in> {(k, units). units \<noteq> 0 \<and> fst k = p \<and> units = cget totals k}"
    proof (cases x)
      case (Pair k units)
      have "(k, units) \<in> set totals \<and> units \<noteq> 0 \<longleftrightarrow> units \<noteq> 0 \<and> units = cget totals k"
        unfolding mem_cget [OF assms] using cget_notin [of k totals] by blast
      then show ?thesis unfolding Pair set_filter mem_Collect_eq prod.case by blast
    qed
  qed
  show ?thesis unfolding s [symmetric] using mset_set_set [OF d] by (rule sym)
qed

lemma same_totals_same_values:
  assumes "distinct (map fst totals)" "distinct (map fst totals')" "\<And>k. fst k = p \<Longrightarrow> cget totals' k = cget totals k"
  shows "mset (period_values (values_by_period totals') p) = mset (period_values (values_by_period totals) p)"
proof -
  have "{(k, units). units \<noteq> 0 \<and> fst k = p \<and> units = cget totals' k}
      = {(k, units). units \<noteq> 0 \<and> fst k = p \<and> units = cget totals k}" using assms(3) by auto
  then show ?thesis unfolding period_values_by_period mset_sort mset_map month_multiset [OF assms(1)] month_multiset [OF assms(2)]
    by simp
qed

text \<open>Events that do not affect a month leave its values.\<close>

lemma unaffected_month:
  assumes "book_story db b (es @ batch @ later)"
    and "foldE replay_event empty_replay es = Inr st" "foldE replay_event empty_replay (es @ batch) = Inr st'"
    and "\<forall>e\<in>set batch. \<exists>periods. affected_periods db e = Inr periods \<and> p \<notin> set periods"
  shows "mset (period_values (values_by_period (replay_totals st')) p)
    = mset (period_values (values_by_period (replay_totals st)) p)"
proof (rule same_totals_same_values [OF distinct_replay_totals distinct_replay_totals])
  fix k :: summary_key assume k: "fst k = p"
  have "foldE replay_event st batch = Inr st'" using assms(2,3) by (simp add: foldE_append rbind_def)
  from batch_local [OF assms(1,2) this, of k] assms(4) k have "share st' t k = share st t k" for t by simp
  then show "cget (replay_totals st') k = cget (replay_totals st) k"
    using replay_origin [OF assms(2)] replay_origin [OF assms(3)] by (intro same_shares_same_totals) simp_all
qed

end
