(* ===== verification/Idempotency.thy ===== *)
theory Idempotency
  imports Ledger_Db
begin

text \<open>
  \<open>application/idempotency.py\<close>: the actor and the authorization of a command, its result, and the
  two SHA-256 hashes of its idempotency key and of its request. A command is the four values the
  \<open>IdempotencyCommand\<close> protocol asks of it; its payload is what \<open>idempotency_payload\<close> returns.
\<close>

section \<open>Values\<close>

record command =
  cm_book_id :: uuid
  cm_command_id :: uuid
  cm_operation :: string
  cm_payload :: json

record command_actor =
  ca_subject_id :: string

definition require_valid :: "bool \<Rightarrow> ledger_error + unit" where
  "require_valid c = (if c then Inr () else Inl IdempotencyValidationError)"

lemma require_valid_iff [result_simps]:
  "require_valid c = Inr u \<longleftrightarrow> c" "require_valid c = Inl e \<longleftrightarrow> \<not> c \<and> e = IdempotencyValidationError"
  by (auto simp: require_valid_def)

definition subject_ok :: "string \<Rightarrow> bool" where
  "subject_ok subject_id \<longleftrightarrow> subject_id \<noteq> [] \<and> length subject_id \<le> 128"

definition CommandActor :: "command_actor \<Rightarrow> ledger_error + command_actor" where
  "CommandActor self = rbind (require_valid (subject_ok (ca_subject_id self))) (\<lambda>_. Inr self)"

record authorization_scope =
  az_book_id :: uuid
  az_actor_subject_id :: string
  az_role :: string
  az_scopes :: "string list"

definition AuthorizationScope :: "authorization_scope \<Rightarrow> ledger_error + authorization_scope" where
  "AuthorizationScope self =
     rbind (require_valid (subject_ok (az_actor_subject_id self))) (\<lambda>_.
     rbind (require_valid (az_role self \<noteq> [])) (\<lambda>_.
     rbind (require_valid (list_all (\<lambda>s. s \<noteq> []) (az_scopes self))) (\<lambda>_. Inr self)))"

text \<open>\<open>sorted(set(self.scopes))\<close> orders the strings by their code points.\<close>

definition sorted_scopes :: "string list \<Rightarrow> code_points list" where
  "sorted_scopes scopes = sort (remdups (map code_points scopes))"

definition canonical_value :: "authorization_scope \<Rightarrow> json" where
  "canonical_value self = jobj
     [(''actor_subject_id'', jstr (az_actor_subject_id self)),
      (''book_id'', juuid (az_book_id self)),
      (''role'', jstr (az_role self)),
      (''scopes'', JList (map JStr (sorted_scopes (az_scopes self))))]"

record command_result =
  re_response_schema_version :: int
  re_status_code :: int
  re_body :: json
  re_first_book_position :: "int option"
  re_last_book_position :: "int option"

definition is_container :: "json \<Rightarrow> bool" where
  "is_container v \<longleftrightarrow> (case v of JObj _ \<Rightarrow> True | JList _ \<Rightarrow> True | _ \<Rightarrow> False)"

definition CommandResult :: "command_result \<Rightarrow> ledger_error + command_result" where
  "CommandResult self =
     rbind (require_valid (1 \<le> re_response_schema_version self \<and> re_response_schema_version self \<le> 32767)) (\<lambda>_.
     rbind (require_valid (100 \<le> re_status_code self \<and> re_status_code self \<le> 599)) (\<lambda>_.
     rbind (require_valid (is_container (re_body self))) (\<lambda>_.
     rbind (raise_as PayloadJsonError (canonical_json_bytes (re_body self))) (\<lambda>_.
     rbind (require_valid ((re_first_book_position self = None) = (re_last_book_position self = None))) (\<lambda>_.
     rbind (require_valid (case (re_first_book_position self, re_last_book_position self) of
              (Some f, Some l) \<Rightarrow> 1 \<le> f \<and> f \<le> l | _ \<Rightarrow> True)) (\<lambda>_. Inr self))))))"

record command_outcome =
  co_result :: command_result
  co_replayed :: bool

section \<open>Hashes\<close>

definition hash_idempotency_key :: "(byte list \<Rightarrow> byte list) \<Rightarrow> string \<Rightarrow> ledger_error + byte list" where
  "hash_idempotency_key sha256 raw_key =
     rbind (require_valid (raw_key \<noteq> [])) (\<lambda>_. Inr (sha256 (utf8 (code_points raw_key))))"

definition REQUEST_HASH_DOMAIN :: "byte list" where
  "REQUEST_HASH_DOMAIN = utf8 (code_points ''track-anywhere:v2:command-request:sha256:v1'') @ [0]"

definition operation_ok :: "string \<Rightarrow> bool" where
  "operation_ok operation \<longleftrightarrow> operation \<noteq> [] \<and> length operation \<le> 96"

definition frozen_request :: "command \<Rightarrow> authorization_scope \<Rightarrow> json" where
  "frozen_request command authorization = jobj
     [(''authorization'', canonical_value authorization), (''book_id'', juuid (cm_book_id command)),
      (''operation'', jstr (cm_operation command)), (''payload'', cm_payload command)]"

definition hash_command_request ::
    "(byte list \<Rightarrow> byte list) \<Rightarrow> command \<Rightarrow> authorization_scope \<Rightarrow> ledger_error + byte list" where
  "hash_command_request sha256 command authorization =
     rbind (require_valid (cm_book_id command = az_book_id authorization)) (\<lambda>_.
     rbind (require_valid (operation_ok (cm_operation command))) (\<lambda>_.
     rbind (require_valid (case cm_payload command of JObj _ \<Rightarrow> True | _ \<Rightarrow> False)) (\<lambda>_.
     rbind (raise_as PayloadJsonError (canonical_json_bytes (frozen_request command authorization))) (\<lambda>encoded.
     Inr (sha256 (REQUEST_HASH_DOMAIN @ encoded))))))"

section \<open>What the request hash fixes\<close>

lemma canonical_json_bytes_inj:
  assumes "canonical_json_bytes v = Inr b" "canonical_json_bytes w = Inr b" "json_ok v" "json_ok w"
  shows "normal v = normal w"
proof -
  from assms(1,2) have "utf8 (dumps v) = utf8 (dumps w)" by (auto simp: canonical_json_bytes_def result_simps)
  moreover have "text_ok (dumps v)" "text_ok (dumps w)" using text_ok_dumps assms(3,4) by blast+
  ultimately have "dumps v = dumps w" using utf8_inj by blast
  then show ?thesis using emit_inj by (simp add: dumps_normal)
qed

lemma normal_texts: "map normal (map JStr ss) = map JStr ss"
  by simp

lemma sorted_scopes_eq: "sorted_scopes s = sorted_scopes t \<longleftrightarrow> set s = set t"
proof
  assume "sorted_scopes s = sorted_scopes t"
  then have "set (sorted_scopes s) = set (sorted_scopes t)" by simp
  then have "code_points ` set s = code_points ` set t" by (simp add: sorted_scopes_def)
  moreover have "inj code_points" using code_points_inj by (blast intro: injI)
  ultimately show "set s = set t" by (simp add: inj_image_eq_iff)
next
  assume "set s = set t"
  then show "sorted_scopes s = sorted_scopes t"
    unfolding sorted_scopes_def by (intro sorted_distinct_set_unique) simp_all
qed

lemma inj_JStr: "map JStr xs = map JStr ys \<longleftrightarrow> xs = ys"
  by (rule inj_map_eq_map) (simp add: inj_def)

lemma canonical_value_eq: "normal (canonical_value a) = normal (canonical_value b) \<longleftrightarrow>
    az_actor_subject_id a = az_actor_subject_id b \<and> az_book_id a = az_book_id b \<and> az_role a = az_role b
    \<and> set (az_scopes a) = set (az_scopes b)"
  unfolding canonical_value_def by (subst normal_jobj_eq) (auto simp: inj_JStr sorted_scopes_eq comp_def)

lemma json_ok_canonical_value [simp]: "json_ok (canonical_value a)"
  unfolding canonical_value_def json_ok_jobj by (auto simp: list_all_iff sorted_scopes_def)

lemma json_ok_frozen: "json_ok (cm_payload c) \<Longrightarrow> json_ok (frozen_request c a)"
  unfolding frozen_request_def json_ok_jobj by simp

text \<open>Two requests say the same, as Python compares the values.\<close>

definition same_request :: "command \<Rightarrow> authorization_scope \<Rightarrow> command \<Rightarrow> authorization_scope \<Rightarrow> bool" where
  "same_request c a d b \<longleftrightarrow> cm_book_id c = cm_book_id d \<and> cm_operation c = cm_operation d
     \<and> normal (cm_payload c) = normal (cm_payload d)
     \<and> az_actor_subject_id a = az_actor_subject_id b \<and> az_book_id a = az_book_id b
     \<and> az_role a = az_role b \<and> set (az_scopes a) = set (az_scopes b)"

definition request_preimage :: "command \<Rightarrow> authorization_scope \<Rightarrow> byte list" where
  "request_preimage c a = REQUEST_HASH_DOMAIN @ utf8 (dumps (frozen_request c a))"

lemma frozen_request_eq: "normal (frozen_request c a) = normal (frozen_request d b) \<longleftrightarrow> same_request c a d b"
  unfolding frozen_request_def by (subst normal_jobj_eq) (auto simp: same_request_def canonical_value_eq)

lemma hash_command_request_Inr:
  assumes "hash_command_request sha256 c a = Inr h"
  shows "h = sha256 (request_preimage c a)" "canonical_json_bytes (frozen_request c a) = Inr (utf8 (dumps (frozen_request c a)))"
  using assms by (auto simp: hash_command_request_def result_simps canonical_json_bytes_def request_preimage_def)

lemma request_preimage_eq:
  assumes "json_ok (cm_payload c)" "json_ok (cm_payload d)"
  shows "request_preimage c a = request_preimage d b \<longleftrightarrow> same_request c a d b"
proof
  assume "request_preimage c a = request_preimage d b"
  then have "utf8 (dumps (frozen_request c a)) = utf8 (dumps (frozen_request d b))" by (simp add: request_preimage_def)
  then have "dumps (frozen_request c a) = dumps (frozen_request d b)"
    using utf8_inj text_ok_dumps json_ok_frozen assms by blast
  then have "normal (frozen_request c a) = normal (frozen_request d b)" by (intro emit_inj) (simp add: dumps_normal)
  then show "same_request c a d b" by (simp add: frozen_request_eq)
next
  assume "same_request c a d b"
  then have "normal (frozen_request c a) = normal (frozen_request d b)" by (simp add: frozen_request_eq)
  then show "request_preimage c a = request_preimage d b" by (simp add: request_preimage_def dumps_normal)
qed

text \<open>
  Property C31: the request hash identifies a request. Two requests that are hashed get the same hash
  exactly when they agree on Book, operation, payload, actor, role and set of scopes, unless the
  two preimages are an explicit SHA-256 collision.
\<close>

theorem request_hash_pins_request:
  assumes "hash_command_request sha256 c a = Inr h" "hash_command_request sha256 d b = Inr h'"
    and "json_ok (cm_payload c)" "json_ok (cm_payload d)"
  shows "(h = h' \<longleftrightarrow> same_request c a d b)
    \<or> request_preimage c a \<noteq> request_preimage d b \<and> sha256 (request_preimage c a) = sha256 (request_preimage d b)"
  using hash_command_request_Inr(1) [OF assms(1)] hash_command_request_Inr(1) [OF assms(2)]
    request_preimage_eq [OF assms(3,4), of a b] by metis

definition demo_command :: command where
  "demo_command = \<lparr>cm_book_id = 2, cm_command_id = 40, cm_operation = ''journal.post'', cm_payload = JObj []\<rparr>"

definition demo_scope :: "string list \<Rightarrow> authorization_scope" where
  "demo_scope scopes = \<lparr>az_book_id = 2, az_actor_subject_id = ''a'', az_role = ''owner'', az_scopes = scopes\<rparr>"

lemma prove_JObj_Nil [simp]: "prove_json_value (JObj []) = Inr ()"
  by simp

lemma demo_request_hash:
  assumes "list_all (\<lambda>s. validate_text (code_points s) = Inr ()) scopes"
  shows "\<exists>h. hash_command_request sha256 demo_command (demo_scope scopes) = Inr h"
proof -
  have items: "prove_items (map JStr ss) = Inr ()" if "list_all (\<lambda>s. validate_text s = Inr ()) ss" for ss
    using that by (induction ss) auto
  have "list_all (\<lambda>s. validate_text s = Inr ()) (sorted_scopes scopes)"
    using assms by (auto simp: list_all_iff sorted_scopes_def)
  then have "prove_json_value (canonical_value (demo_scope scopes)) = Inr ()"
    unfolding canonical_value_def by (intro prove_jobj) (auto simp: items jstr_def juuid_def validate_key demo_scope_def)
  then have "prove_json_value (frozen_request demo_command (demo_scope scopes)) = Inr ()"
    unfolding frozen_request_def by (intro prove_jobj) (auto simp: demo_command_def jstr_def juuid_def validate_key)
  then show ?thesis
    by (simp add: hash_command_request_def canonical_json_bytes_def demo_command_def demo_scope_def operation_ok_def require_valid_def)
qed

theorem request_hash_pins_request_witness:
  "hash_command_request (\<lambda>x. x) demo_command (demo_scope [''r'', ''w''])
     = hash_command_request (\<lambda>x. x) demo_command (demo_scope [''w'', ''r'', ''w''])"
proof -
  have "list_all (\<lambda>s. validate_text (code_points s) = Inr ()) [''r'', ''w'']"
    "list_all (\<lambda>s. validate_text (code_points s) = Inr ()) [''w'', ''r'', ''w'']" by (simp_all add: validate_key)
  then obtain h h' where h: "hash_command_request (\<lambda>x. x) demo_command (demo_scope [''r'', ''w'']) = Inr h"
    "hash_command_request (\<lambda>x. x) demo_command (demo_scope [''w'', ''r'', ''w'']) = Inr h'" using demo_request_hash by blast
  have "json_ok (cm_payload demo_command)" by (simp add: demo_command_def)
  moreover have "same_request demo_command (demo_scope [''r'', ''w'']) demo_command (demo_scope [''w'', ''r'', ''w''])"
    by (auto simp: same_request_def demo_scope_def)
  ultimately show ?thesis using request_hash_pins_request [OF h] h by auto
qed

end
