(* ===== verification/Command_Receipts.thy ===== *)
theory Command_Receipts
  imports Idempotency Event_Store
begin

text \<open>
  \<open>infrastructure/db/command_receipts.py\<close>: reserving, completing and replaying the receipt of a
  command. \<open>deepcopy\<close> is the identity on values, and \<open>with_for_update\<close> makes the commands of one
  scope run one after the other.
\<close>

record receipt_scope =
  rs_actor_subject_id :: string
  rs_book_id :: uuid
  rs_operation :: string
  rs_idempotency_key_hash :: "byte list"

record receipt_snapshot =
  rp_scope :: receipt_scope
  rp_request_hash :: "byte list"
  rp_command_id :: uuid
  rp_status :: receipt_status
  rp_response_schema_version :: "int option"
  rp_result_status :: "int option"
  rp_result_body :: "json option"
  rp_first_book_position :: "int option"
  rp_last_book_position :: "int option"
  rp_completed_at :: "instant option"

record receipt_reservation =
  rn_created :: bool
  rn_receipt :: receipt_snapshot

definition replay_result :: "receipt_snapshot \<Rightarrow> ledger_error + command_result" where
  "replay_result self =
     (case (rp_status self, rp_response_schema_version self, rp_result_status self, rp_result_body self) of
        (COMPLETED, Some version, Some status, Some body) \<Rightarrow> CommandResult
          \<lparr>re_response_schema_version = version, re_status_code = status, re_body = body,
           re_first_book_position = rp_first_book_position self,
           re_last_book_position = rp_last_book_position self\<rparr>
      | _ \<Rightarrow> Inl ReceiptStateError)"

definition replay_or_conflict :: "receipt_reservation \<Rightarrow> byte list \<Rightarrow> ledger_error + command_result" where
  "replay_or_conflict self request_hash =
     (if rn_created self then Inl ReceiptStateError
      else if rp_request_hash (rn_receipt self) \<noteq> request_hash then Inl IdempotencyConflict
      else replay_result (rn_receipt self))"

definition scope_key :: "receipt_scope \<Rightarrow> string \<times> uuid \<times> string \<times> byte list" where
  "scope_key s = (rs_actor_subject_id s, rs_book_id s, rs_operation s, rs_idempotency_key_hash s)"

definition lock_receipt :: "receipt_scope \<Rightarrow> db \<Rightarrow> command_receipt_record option" where
  "lock_receipt scope db = find_by receipt_key (scope_key scope) (command_receipts db)"

definition snapshot :: "command_receipt_record \<Rightarrow> receipt_snapshot" where
  "snapshot r =
     \<lparr>rp_scope = \<lparr>rs_actor_subject_id = cr_actor_subject_id r, rs_book_id = cr_book_id r,
                rs_operation = cr_operation r, rs_idempotency_key_hash = cr_idempotency_key_hash r\<rparr>,
      rp_request_hash = cr_request_hash r, rp_command_id = cr_command_id r, rp_status = cr_status r,
      rp_response_schema_version = cr_response_schema_version r, rp_result_status = cr_result_status r,
      rp_result_body = cr_result_body r, rp_first_book_position = cr_first_book_position r,
      rp_last_book_position = cr_last_book_position r, rp_completed_at = cr_completed_at r\<rparr>"

definition new_receipt :: "receipt_scope \<Rightarrow> byte list \<Rightarrow> uuid \<Rightarrow> command_receipt_record" where
  "new_receipt scope request_hash command_id =
     \<lparr>cr_actor_subject_id = rs_actor_subject_id scope, cr_book_id = rs_book_id scope,
      cr_operation = rs_operation scope, cr_idempotency_key_hash = rs_idempotency_key_hash scope,
      cr_request_hash = request_hash, cr_command_id = command_id, cr_status = PROCESSING,
      cr_response_schema_version = None, cr_result_status = None, cr_result_body = None,
      cr_first_book_position = None, cr_last_book_position = None, cr_completed_at = None\<rparr>"

definition reserve_or_lock ::
    "receipt_scope \<Rightarrow> byte list \<Rightarrow> uuid \<Rightarrow> db \<Rightarrow> ledger_error + receipt_reservation \<times> db" where
  "reserve_or_lock scope request_hash command_id db =
     rbind (lift_db (insert_receipt_on_conflict_do_nothing (new_receipt scope request_hash command_id)) db)
       (\<lambda>(inserted, db).
     case lock_receipt scope db of
       None \<Rightarrow> Inl ReceiptStateError
     | Some r \<Rightarrow>
       let created = inserted \<noteq> None in
       if created \<and> cr_status r \<noteq> PROCESSING then Inl ReceiptStateError
       else if \<not> created \<and> cr_status r \<noteq> COMPLETED then Inl ReceiptStateError
       else Inr (\<lparr>rn_created = created, rn_receipt = snapshot r\<rparr>, db))"

definition completed_receipt :: "instant \<Rightarrow> command_result \<Rightarrow> command_receipt_record \<Rightarrow> command_receipt_record" where
  "completed_receipt clock_timestamp result r =
     r\<lparr>cr_status := COMPLETED, cr_response_schema_version := Some (re_response_schema_version result),
       cr_result_status := Some (re_status_code result), cr_result_body := Some (re_body result),
       cr_first_book_position := re_first_book_position result,
       cr_last_book_position := re_last_book_position result, cr_completed_at := Some clock_timestamp\<rparr>"

definition complete ::
    "instant \<Rightarrow> receipt_scope \<Rightarrow> command_result \<Rightarrow> db \<Rightarrow> ledger_error + receipt_snapshot \<times> db" where
  "complete clock_timestamp scope result db =
     (case lock_receipt scope db of
        None \<Rightarrow> Inl ReceiptStateError
      | Some r \<Rightarrow>
        if cr_status r \<noteq> PROCESSING then Inl ReceiptStateError
        else rbind (lift_db (update_receipt r (completed_receipt clock_timestamp result r)) db) (\<lambda>db.
          Inr (snapshot (completed_receipt clock_timestamp result r), db)))"

section \<open>A store of receipts\<close>

text \<open>
  What a command relies on: reserving a scope creates a receipt in progress when there is none and
  otherwise finds the completed one, untouched; completing fills in the result; and whoever could
  reserve a scope can ask for it again. Receipts are seen through \<open>receipt\<close>.
\<close>

definition completes :: "receipt_snapshot \<Rightarrow> command_result \<Rightarrow> bool" where
  "completes p result \<longleftrightarrow> rp_status p = COMPLETED
     \<and> rp_response_schema_version p = Some (re_response_schema_version result)
     \<and> rp_result_status p = Some (re_status_code result) \<and> rp_result_body p = Some (re_body result)
     \<and> rp_first_book_position p = re_first_book_position result
     \<and> rp_last_book_position p = re_last_book_position result"

lemma completes_replay: "completes p result \<Longrightarrow> replay_result p = CommandResult result"
  by (cases result) (simp add: completes_def replay_result_def)

locale receipt_store =
  fixes reserve :: "receipt_scope \<Rightarrow> byte list \<Rightarrow> uuid \<Rightarrow> 'db \<Rightarrow> ledger_error + receipt_reservation \<times> 'db"
    and finish :: "instant \<Rightarrow> receipt_scope \<Rightarrow> command_result \<Rightarrow> 'db \<Rightarrow> ledger_error + receipt_snapshot \<times> 'db"
    and receipt :: "'db \<Rightarrow> receipt_scope \<Rightarrow> receipt_snapshot option"
  assumes reserve_created: "reserve s h c db = Inr (rn, db') \<Longrightarrow> rn_created rn \<Longrightarrow>
      receipt db s = None \<and> (\<exists>p. receipt db' s = Some p \<and> rp_request_hash p = h)"
    and reserve_found: "reserve s h c db = Inr (rn, db') \<Longrightarrow> \<not> rn_created rn \<Longrightarrow>
      db' = db \<and> receipt db s = Some (rn_receipt rn)"
    and reserve_again: "reserve s h c db = Inr (rn, db') \<Longrightarrow> receipt db2 s = Some p \<Longrightarrow> rp_status p = COMPLETED \<Longrightarrow>
      reserve s h c' db2 = Inr (\<lparr>rn_created = False, rn_receipt = p\<rparr>, db2)"
    and finish_completes: "finish now s result db = Inr (p, db') \<Longrightarrow>
      receipt db' s = Some p \<and> completes p result \<and> map_option rp_request_hash (receipt db s) = Some (rp_request_hash p)"
begin

text \<open>A scope that was reserved, worked for and completed replays its result, and only to its own request.\<close>

lemma replays:
  assumes r: "reserve s h c db = Inr (rn, db1)" "rn_created rn"
    and work: "receipt db2 s = receipt db1 s"
    and f: "finish now s result db2 = Inr (p, db3)"
    and later: "receipt db4 s = receipt db3 s"
  shows "reserve s h c' db4 = Inr (\<lparr>rn_created = False, rn_receipt = p\<rparr>, db4)"
    "replay_or_conflict \<lparr>rn_created = False, rn_receipt = p\<rparr> h' = (if h' = h then CommandResult result else Inl IdempotencyConflict)"
proof -
  from finish_completes [OF f] have p: "receipt db3 s = Some p" "completes p result"
    "map_option rp_request_hash (receipt db2 s) = Some (rp_request_hash p)" by auto
  from reserve_created [OF r] p(3) work have h: "rp_request_hash p = h" by auto
  from p(2) have "rp_status p = COMPLETED" by (simp add: completes_def)
  with r(1) later p(1) show "reserve s h c' db4 = Inr (\<lparr>rn_created = False, rn_receipt = p\<rparr>, db4)"
    by (intro reserve_again) simp_all
  show "replay_or_conflict \<lparr>rn_created = False, rn_receipt = p\<rparr> h' = (if h' = h then CommandResult result else Inl IdempotencyConflict)"
    using completes_replay [OF p(2)] h by (simp add: replay_or_conflict_def)
qed

end

definition receipt_of :: "db \<Rightarrow> receipt_scope \<Rightarrow> receipt_snapshot option" where
  "receipt_of db scope = map_option snapshot (lock_receipt scope db)"

lemma scope_key_new [simp]: "receipt_key (new_receipt s h c) = scope_key s"
  by (simp add: receipt_key_def new_receipt_def scope_key_def)

lemma receipt_key_completed [simp]: "receipt_key (completed_receipt now result r) = receipt_key r"
  by (simp add: receipt_key_def completed_receipt_def)

lemma insert_receipt_Inr:
  "insert_receipt_on_conflict_do_nothing new db = Inr (inserted, db') \<Longrightarrow>
     inserted = None \<and> db' = db
     \<or> inserted = Some (cr_command_id new) \<and> receipt_key new \<notin> receipt_key ` set (command_receipts db)
       \<and> db' = db\<lparr>command_receipts := command_receipts db @ [new],
                  deferred_checks := deferred_checks db @ [ReceiptCheck new]\<rparr>"
  by (auto simp: insert_receipt_on_conflict_do_nothing_def rbind_eq_Inr split: if_splits)

lemma reserve_or_lock_Inr:
  assumes "reserve_or_lock s h c db = Inr (rn, db')"
  obtains (created) "rn_created rn" "lock_receipt s db = None" "lock_receipt s db' = Some (new_receipt s h c)"
      "db' = db\<lparr>command_receipts := command_receipts db @ [new_receipt s h c],
                deferred_checks := deferred_checks db @ [ReceiptCheck (new_receipt s h c)]\<rparr>"
  | (found) r where "\<not> rn_created rn" "db' = db" "lock_receipt s db = Some r" "cr_status r = COMPLETED"
      "rn_receipt rn = snapshot r"
proof -
  from assms obtain inserted r where ins: "insert_receipt_on_conflict_do_nothing (new_receipt s h c) db = Inr (inserted, db')"
    and r: "lock_receipt s db' = Some r" and st: "inserted = None \<longrightarrow> cr_status r = COMPLETED"
    and rn: "rn = \<lparr>rn_created = inserted \<noteq> None, rn_receipt = snapshot r\<rparr>"
    by (auto simp: reserve_or_lock_def lift_db_def result_simps Let_def split: option.splits if_splits)
  from insert_receipt_Inr [OF ins] show thesis
  proof
    assume none: "inserted = None \<and> db' = db"
    show thesis by (rule found [of r]) (use none r st rn in simp_all)
  next
    assume some: "inserted = Some (cr_command_id (new_receipt s h c))
      \<and> receipt_key (new_receipt s h c) \<notin> receipt_key ` set (command_receipts db)
      \<and> db' = db\<lparr>command_receipts := command_receipts db @ [new_receipt s h c],
                 deferred_checks := deferred_checks db @ [ReceiptCheck (new_receipt s h c)]\<rparr>"
    have none: "find_by receipt_key (scope_key s) (command_receipts db) = None"
      using some by (simp add: find_by_None_iff)
    have new: "lock_receipt s db' = Some (new_receipt s h c)"
      using some none by (simp add: lock_receipt_def find_by_append) (simp add: find_by_def)
    show thesis by (rule created) (use some none new rn in \<open>simp_all add: lock_receipt_def\<close>)
  qed
qed

lemma complete_Inr:
  assumes "complete now s result db = Inr (p, db')"
  obtains r where "lock_receipt s db = Some r" "cr_status r = PROCESSING"
    "p = snapshot (completed_receipt now result r)" "lock_receipt s db' = Some (completed_receipt now result r)"
    "db' = db\<lparr>command_receipts := replace_by receipt_key (scope_key s) (completed_receipt now result r) (command_receipts db),
              deferred_checks := deferred_checks db @ [ReceiptCheck (completed_receipt now result r)]\<rparr>"
proof -
  from assms obtain r where r: "lock_receipt s db = Some r" "cr_status r = PROCESSING"
    and p: "p = snapshot (completed_receipt now result r)"
    and upd: "update_receipt r (completed_receipt now result r) db = Inr db'"
    by (auto simp: complete_def lift_db_def result_simps split: option.splits if_splits)
  from r(1) have key: "r \<in> set (command_receipts db)" "receipt_key r = scope_key s"
    unfolding lock_receipt_def by (auto dest: find_by_Some_D)
  from upd key(2) have db': "db' = db\<lparr>command_receipts := replace_by receipt_key (scope_key s) (completed_receipt now result r) (command_receipts db),
        deferred_checks := deferred_checks db @ [ReceiptCheck (completed_receipt now result r)]\<rparr>"
    by (auto simp: update_receipt_def rbind_eq_Inr)
  have mem: "scope_key s \<in> receipt_key ` set (command_receipts db)" using key by (metis imageI)
  have "lock_receipt s db' = Some (completed_receipt now result r)"
    unfolding lock_receipt_def db' using key mem by (simp add: find_by_replace_by)
  with r p db' show thesis by (intro that)
qed

interpretation receipts: receipt_store reserve_or_lock complete receipt_of
proof unfold_locales
  fix s h c db rn db'
  assume "reserve_or_lock s h c db = Inr (rn, db')" and created: "rn_created rn"
  then show "receipt_of db s = None \<and> (\<exists>p. receipt_of db' s = Some p \<and> rp_request_hash p = h)"
    by (cases rule: reserve_or_lock_Inr) (simp_all add: receipt_of_def snapshot_def new_receipt_def)
next
  fix s h c db rn db'
  assume "reserve_or_lock s h c db = Inr (rn, db')" and "\<not> rn_created rn"
  then show "db' = db \<and> receipt_of db s = Some (rn_receipt rn)"
    by (cases rule: reserve_or_lock_Inr) (simp_all add: receipt_of_def)
next
  fix s h c db rn db' db2 p c'
  assume again: "reserve_or_lock s h c db = Inr (rn, db')" and p: "receipt_of db2 s = Some p" "rp_status p = COMPLETED"
  from p obtain r where r: "lock_receipt s db2 = Some r" "p = snapshot r" "cr_status r = COMPLETED"
    by (auto simp: receipt_of_def snapshot_def)
  from again have "receipt_types_ok (new_receipt s h c) = Inr ()" "receipt_row_ok (new_receipt s h c) = Inr ()"
    by (auto simp: reserve_or_lock_def lift_db_def result_simps insert_receipt_on_conflict_do_nothing_def)
  then have ok: "receipt_types_ok (new_receipt s h c') = Inr ()" "receipt_row_ok (new_receipt s h c') = Inr ()"
    by (simp_all add: receipt_types_ok_def receipt_row_ok_def receipt_lifecycle_shape_def new_receipt_def)
  have guard: "v2_guard_command_receipt_lifecycle None (new_receipt s h c') = Inr ()"
    by (simp add: v2_guard_command_receipt_lifecycle_def new_receipt_def)
  have "scope_key s \<in> receipt_key ` set (command_receipts db2)"
    using r(1) find_by_None_iff [of receipt_key "scope_key s" "command_receipts db2"] by (auto simp: lock_receipt_def)
  with ok guard have "insert_receipt_on_conflict_do_nothing (new_receipt s h c') db2 = Inr (None, db2)"
    by (simp add: insert_receipt_on_conflict_do_nothing_def)
  with r show "reserve_or_lock s h c' db2 = Inr (\<lparr>rn_created = False, rn_receipt = p\<rparr>, db2)"
    by (simp add: reserve_or_lock_def lift_db_def)
next
  fix now s result db p db'
  assume "complete now s result db = Inr (p, db')"
  then show "receipt_of db' s = Some p \<and> completes p result
      \<and> map_option rp_request_hash (receipt_of db s) = Some (rp_request_hash p)"
    by (elim complete_Inr) (simp add: receipt_of_def completes_def snapshot_def completed_receipt_def)
qed

end
