(* ===== verification/Ledger_Committer.thy ===== *)
theory Ledger_Committer
  imports Command_Receipts Projection_Safety
begin

text \<open>
  \<open>application/ledger_committer.py\<close>: the lock on a Book, the capability it leaves in the session,
  and the append of a batch with its projections in one transaction. The session is the database as
  the transaction sees it, the transaction it is in, and \<open>session.info\<close>; the value \<open>uuid4\<close> returns
  is an argument.
\<close>

section \<open>The session\<close>

record session =
  se_db :: db
  se_transaction :: "nat option"
  se_capabilities :: "(uuid \<times> uuid \<times> nat) list"

definition on_db :: "(db \<Rightarrow> ledger_error + 'a \<times> db) \<Rightarrow> session \<Rightarrow> ledger_error + 'a \<times> session" where
  "on_db f session = rbind (f (se_db session)) (\<lambda>(x, db). Inr (x, session\<lparr>se_db := db\<rparr>))"

lemma on_db_Inr [result_simps]:
  "on_db f s = Inr (x, s') \<longleftrightarrow> (\<exists>db. f (se_db s) = Inr (x, db) \<and> s' = s\<lparr>se_db := db\<rparr>)"
  by (auto simp: on_db_def result_simps)

section \<open>Locking a Book\<close>

record locked_book_head =
  lk_book_id :: uuid
  lk_last_position :: int
  lk_last_hash :: "byte list"
  lk_lock_token :: uuid

definition require_boundary :: "bool \<Rightarrow> ledger_error + unit" where
  "require_boundary c = (if c then Inr () else Inl LedgerWriteBoundaryError)"

lemma require_boundary_iff [result_simps]:
  "require_boundary c = Inr u \<longleftrightarrow> c" "require_boundary c = Inl e \<longleftrightarrow> \<not> c \<and> e = LedgerWriteBoundaryError"
  by (auto simp: require_boundary_def)

definition execute_under_book_lock :: "uuid \<Rightarrow> uuid \<Rightarrow> session \<Rightarrow> ledger_error + locked_book_head \<times> session" where
  "execute_under_book_lock lock_token book_id session =
     (case find_by hd_book_id book_id (book_event_heads (se_db session)) of
        None \<Rightarrow> Inl BookEventHeadNotFound
      | Some head \<Rightarrow>
        (case find_by bk_book_id book_id (books (se_db session)) of
           None \<Rightarrow> Inl BookEventHeadNotFound
         | Some book \<Rightarrow>
           if bk_write_state book \<noteq> ''active'' then Inl BookWritePaused
           else (case se_transaction session of
                   None \<Rightarrow> Inl LedgerWriteBoundaryError
                 | Some current \<Rightarrow> Inr
                   (\<lparr>lk_book_id = hd_book_id head, lk_last_position = hd_last_position head,
                     lk_last_hash = hd_last_hash head, lk_lock_token = lock_token\<rparr>,
                    session\<lparr>se_capabilities := AList.update book_id (lock_token, current) (se_capabilities session)\<rparr>))))"

section \<open>Appending and projecting\<close>

text \<open>The events of the batch as the query reads them back, in the order of their positions.\<close>

definition reload_events :: "uuid \<Rightarrow> uuid list \<Rightarrow> db \<Rightarrow> ledger_event_record list" where
  "reload_events book_id event_ids db =
     sort_key le_book_position
       (filter (\<lambda>e. le_book_id e = book_id \<and> le_event_id e \<in> set event_ids) (ledger_events db))"

definition project_all :: "ledger_event_record list \<Rightarrow> db \<Rightarrow> ledger_error + db" where
  "project_all stored_events db =
     foldE (\<lambda>db stored. rbind (apply_stored stored db) (\<lambda>(_, db). Inr db)) db stored_events"

definition capability_valid :: "session \<Rightarrow> locked_book_head \<Rightarrow> bool" where
  "capability_valid session locked_head \<longleftrightarrow>
     (case (se_transaction session, map_of (se_capabilities session) (lk_book_id locked_head)) of
        (Some current, Some (token, owner)) \<Rightarrow> token = lk_lock_token locked_head \<and> owner = current
      | _ \<Rightarrow> False)"

definition append_and_project ::
    "(byte list \<Rightarrow> byte list) \<Rightarrow> locked_book_head \<Rightarrow> (stream_key \<times> int) list \<Rightarrow> pending_event list \<Rightarrow> session
      \<Rightarrow> ledger_error + append_batch_result \<times> session" where
  "append_and_project sha256 locked_head expected_stream_versions events session =
     rbind (require_boundary (capability_valid session locked_head)) (\<lambda>_.
     rbind (require_boundary
              (case find_by hd_book_id (lk_book_id locked_head) (book_event_heads (se_db session)) of
                 None \<Rightarrow> False
               | Some current_head \<Rightarrow> hd_last_position current_head = lk_last_position locked_head
                   \<and> hd_last_hash current_head = lk_last_hash locked_head)) (\<lambda>_.
     rbind (append_batch sha256 (lk_book_id locked_head) expected_stream_versions events (se_db session))
       (\<lambda>(appended, db).
     let stored_events = reload_events (lk_book_id locked_head) (ar_event_ids appended) db in
     rbind (require_boundary (map le_event_id stored_events = ar_event_ids appended)) (\<lambda>_.
     rbind (project_all stored_events db) (\<lambda>db.
     Inr (appended, session\<lparr>se_db := db,
       se_capabilities := AList.delete (lk_book_id locked_head) (se_capabilities session)\<rparr>))))))"

section \<open>Write plans\<close>

record ledger_write_plan =
  lp_expected_stream_versions :: "(stream_key \<times> int) list"
  lp_events :: "pending_event list"
  lp_response_schema_version :: int
  lp_status_code :: int
  lp_body :: json
  lp_post_projection_finalizer :: "(append_batch_result \<Rightarrow> session \<Rightarrow> ledger_error + session) option"

definition plan_result :: "ledger_write_plan \<Rightarrow> (int \<times> int) option \<Rightarrow> command_result" where
  "plan_result self positions =
     \<lparr>re_response_schema_version = lp_response_schema_version self, re_status_code = lp_status_code self,
      re_body = lp_body self, re_first_book_position = map_option fst positions,
      re_last_book_position = map_option snd positions\<rparr>"

definition LedgerWritePlan :: "ledger_write_plan \<Rightarrow> ledger_error + ledger_write_plan" where
  "LedgerWritePlan self =
     rbind (require_valid (lp_events self \<noteq> [])) (\<lambda>_.
     rbind (CommandResult (plan_result self None)) (\<lambda>_. Inr self))"

definition to_result :: "ledger_write_plan \<Rightarrow> append_batch_result \<Rightarrow> ledger_error + command_result" where
  "to_result self appended = CommandResult (plan_result self (Some (ar_start appended, ar_stop appended - 1)))"

section \<open>What a committed batch is\<close>

lemma project_all_frame:
  "project_all stored db = Inr db' \<Longrightarrow>
     books db' = books db \<and> accounts db' = accounts db \<and> ledger_events db' = ledger_events db
     \<and> book_event_heads db' = book_event_heads db \<and> event_stream_heads db' = event_stream_heads db
     \<and> command_receipts db' = command_receipts db \<and> set (deferred_checks db) \<subseteq> set (deferred_checks db')
     \<and> applied_key ` set (applied_events db)
         \<union> event_book_key ` set (filter sync_required stored) \<subseteq> applied_key ` set (applied_events db')"
proof (induction stored arbitrary: db)
  case Nil
  then show ?case by (simp add: project_all_def)
next
  case (Cons e stored)
  then obtain r d where one: "apply_stored e db = Inr (r, d)" and rest: "project_all stored d = Inr db'"
    by (auto simp: project_all_def result_simps)
  note f = apply_stored_frame [OF one]
  have req: "sync_required e \<longleftrightarrow> pr_required r"
    using one by (auto simp: sync_required_def apply_stored_def result_simps split: option.splits if_splits)
  from Cons.IH [OF rest] f(7) show ?case by (auto simp: f(1-6,8) req)
qed

lemma project_all_journal: "project_all stored db = Inr db' \<Longrightarrow> projected db \<Longrightarrow> projected db'"
proof (induction stored arbitrary: db)
  case Nil
  then show ?case by (simp add: project_all_def)
next
  case (Cons e stored)
  then obtain r d where one: "apply_stored e db = Inr (r, d)" and rest: "project_all stored d = Inr db'"
    by (auto simp: project_all_def result_simps)
  from Cons.IH [OF rest projected.project [OF Cons.prems(2) one]] show ?case .
qed

lemma append_and_project_Inr:
  assumes "append_and_project sha256 locked expected events s = Inr (res, s')"
  obtains db1 db2 where "capability_valid s locked"
    "append_batch sha256 (lk_book_id locked) expected events (se_db s) = Inr (res, db1)"
    "map le_event_id (reload_events (lk_book_id locked) (ar_event_ids res) db1) = ar_event_ids res"
    "project_all (reload_events (lk_book_id locked) (ar_event_ids res) db1) db1 = Inr db2"
    "s' = s\<lparr>se_db := db2, se_capabilities := AList.delete (lk_book_id locked) (se_capabilities s)\<rparr>"
  using assms by (auto simp: append_and_project_def Let_def result_simps)

lemma append_and_project_reachable:
  assumes "ledger_reachable sha256 (se_db s)" "append_and_project sha256 locked expected events s = Inr (res, s')"
  shows "ledger_reachable sha256 (se_db s')"
  using assms(2)
proof (rule append_and_project_Inr)
  fix db1 db2
  assume app: "append_batch sha256 (lk_book_id locked) expected events (se_db s) = Inr (res, db1)"
    and proj: "project_all (reload_events (lk_book_id locked) (ar_event_ids res) db1) db1 = Inr db2"
    and s': "s' = s\<lparr>se_db := db2, se_capabilities := AList.delete (lk_book_id locked) (se_capabilities s)\<rparr>"
  from ledger_reachable.append [OF assms(1) app] have "ledger_reachable sha256 db1" .
  moreover have "same_ledger db1 db2" using project_all_frame [OF proj] by (simp add: same_ledger_def)
  ultimately show ?thesis using s' ledger_reachable.elsewhere by simp
qed

lemma append_batch_same_journal:
  assumes "append_batch sha256 b expected events db = Inr (res, db')"
  shows "same_journal db db'" "command_receipts db' = command_receipts db" "books db' = books db"
  using assms by (auto elim!: append_batch_Inr simp: same_journal_def)

lemma append_and_project_projected:
  assumes "projected (se_db s)" "append_and_project sha256 locked expected events s = Inr (res, s')"
  shows "projected (se_db s')"
  using assms(2)
  by (rule append_and_project_Inr)
    (use projected.elsewhere [OF assms(1) append_batch_same_journal(1)] project_all_journal in fastforce)

lemma append_and_project_receipts:
  assumes "append_and_project sha256 locked expected events s = Inr (res, s')"
  shows "command_receipts (se_db s') = command_receipts (se_db s)"
  using assms
  by (rule append_and_project_Inr) (use append_batch_same_journal(2) project_all_frame in fastforce)

lemma append_batch_log:
  assumes "append_batch sha256 b expected events db = Inr (res, db')"
  shows "book_log db' b' = book_log db b' @ (if b' = b then events else [])"
  using assms
proof (rule append_batch_Inr)
  fix head new
  assume rec: "list_all2 (records_pending b) events new" and evs: "ledger_events db' = ledger_events db @ new"
    and bk: "list_all (\<lambda>e. le_book_id e = b) new"
  show ?thesis
    using list_records_pending_of [OF rec] by (simp add: book_log_def book_events_append [OF evs bk])
qed

lemma sealed_sync_required: "sealed sha256 e \<Longrightarrow> sync_required e"
  by (cases "le_payload e") (simp_all add: sealed_def sync_required_def required_projection_def
      synchronous_projection_event_types_def schema_version_def)

lemma append_and_project_marks:
  assumes "append_and_project sha256 locked expected events s = Inr (res, s')"
    and new: "e \<in> set (ledger_events (se_db s'))" "e \<notin> set (ledger_events (se_db s))"
  shows "event_book_key e \<in> applied_key ` set (applied_events (se_db s'))"
    "v2_require_sync_projection (se_db s') e = Inr ()"
proof -
  from assms(1) obtain db1 db2 where
    app: "append_batch sha256 (lk_book_id locked) expected events (se_db s) = Inr (res, db1)"
    and proj: "project_all (reload_events (lk_book_id locked) (ar_event_ids res) db1) db1 = Inr db2"
    and s': "s' = s\<lparr>se_db := db2, se_capabilities := AList.delete (lk_book_id locked) (se_capabilities s)\<rparr>"
    by (rule append_and_project_Inr)
  note f = project_all_frame [OF proj]
  have e: "e \<in> set (ledger_events db1)" "e \<notin> set (ledger_events (se_db s))" using new f by (simp_all add: s')
  from app obtain added where added: "ledger_events db1 = ledger_events (se_db s) @ added"
    "list_all2 (records_pending (lk_book_id locked)) events added" "ar_event_ids res = map pe_event_id events"
    "list_all (sealed sha256) added"
    by (rule append_batch_Inr) simp
  have req: "sync_required e" using e added(1,4) sealed_sync_required by (auto simp: list_all_iff)
  from e added(1) have "e \<in> set added" by simp
  with added(2) obtain pe where "pe \<in> set events" "records_pending (lk_book_id locked) pe e"
    by (induction rule: list_all2_induct) auto
  with e(1) added(3) have "e \<in> set (reload_events (lk_book_id locked) (ar_event_ids res) db1)"
    by (auto simp: reload_events_def records_pending_def)
  with req show mark: "event_book_key e \<in> applied_key ` set (applied_events (se_db s'))"
    using f by (auto simp: s')
  show "v2_require_sync_projection (se_db s') e = Inr ()"
    using req mark by (simp add: v2_require_sync_projection_def)
qed

text \<open>
  Property C18: what is appended is projected in the same transaction. When a batch is appended under
  a Book lock, the log of that Book grows by exactly the batch, no other log changes, and every
  event the ledger did not hold before has its projection marker, so that the check the commit owes
  for it passes.
\<close>

theorem appended_is_projected:
  assumes "append_and_project sha256 locked expected events s = Inr (res, s')"
  shows "book_log (se_db s') b = book_log (se_db s) b @ (if b = lk_book_id locked then events else [])
    \<and> (\<forall>e\<in>set (ledger_events (se_db s')) - set (ledger_events (se_db s)).
         event_book_key e \<in> applied_key ` set (applied_events (se_db s'))
         \<and> v2_require_sync_projection (se_db s') e = Inr ())"
  using assms
proof (rule append_and_project_Inr)
  fix db1 db2
  assume app: "append_batch sha256 (lk_book_id locked) expected events (se_db s) = Inr (res, db1)"
    and proj: "project_all (reload_events (lk_book_id locked) (ar_event_ids res) db1) db1 = Inr db2"
    and s': "s' = s\<lparr>se_db := db2, se_capabilities := AList.delete (lk_book_id locked) (se_capabilities s)\<rparr>"
  note f = project_all_frame [OF proj]
  have log: "book_log (se_db s') b = book_log db1 b" using f by (simp add: s' book_log_def book_events_def)
  show ?thesis
  proof (intro conjI ballI)
    show "book_log (se_db s') b = book_log (se_db s) b @ (if b = lk_book_id locked then events else [])"
      unfolding log using append_batch_log [OF app] .
    fix e assume "e \<in> set (ledger_events (se_db s')) - set (ledger_events (se_db s))"
    then have e: "e \<in> set (ledger_events (se_db s'))" "e \<notin> set (ledger_events (se_db s))" by simp_all
    show "event_book_key e \<in> applied_key ` set (applied_events (se_db s'))"
      by (rule append_and_project_marks(1) [OF assms e])
    show "v2_require_sync_projection (se_db s') e = Inr ()"
      by (rule append_and_project_marks(2) [OF assms e])
  qed
qed

section \<open>A first batch\<close>

text \<open>One transaction posted in an empty Book, from the lock to its projections.\<close>

abbreviation first_posted :: journal_transaction_posted where
  "first_posted \<equiv> \<lparr>tp_transaction_id = 9, tp_kind = K_ADJUSTMENT, tp_original_transaction_id = None,
     tp_postings = [demo_fact 11 0 21 DEBIT ''25'', demo_fact 12 1 22 CREDIT ''25''],
     tp_description_ref = None, tp_external_references = []\<rparr>"

abbreviation first_pending :: pending_event where
  "first_pending \<equiv> \<lparr>pe_event_id = 31, pe_stream_type = ''journal_transaction'', pe_stream_id = 9,
     pe_payload = JournalTransactionPosted first_posted, pe_command_id = 40, pe_actor_subject_id = ''a'',
     pe_correlation_id = 40, pe_causation_event_id = None, pe_effective_at = 0\<rparr>"

definition first_event :: ledger_event_record where
  "first_event = (demo_ledger_event 31 1 ''journal_transaction'' 9 1 (JournalTransactionPosted first_posted))
     \<lparr>le_command_id := 40, le_correlation_id := 40\<rparr>"

definition demo_asset :: asset_record where
  "demo_asset = \<lparr>sa_asset_code = ''CNY'', sa_kind = ''fiat'', sa_ledger_scale = 2, sa_input_scale = 2,
     sa_display_scale = 2, sa_current_name = ''yuan'', sa_status = ''active''\<rparr>"

definition demo_member :: book_member_record where
  "demo_member = \<lparr>bm_book_id = 2, bm_user_id = ''a'', bm_role = ''owner'', bm_status = ''active'',
     bm_scopes = [''ledger:write''], bm_revoked_at = None\<rparr>"

abbreviation demo_system_account :: account_record where
  "demo_system_account \<equiv> \<lparr>ac_book_id = 2, ac_account_id = 22, ac_asset_code = ''CNY'', ac_account_type = ''system'',
     ac_account_subtype = Some ''system_adjustment'', ac_system_role = Some ''balance_adjustment'', ac_current_name = ''n'',
     ac_status = ''active'', ac_version = 1\<rparr>"

definition first_db :: db where
  "first_db = demo_db\<lparr>accounts := [demo_account 21 ''asset'', demo_system_account], assets := [demo_asset],
     book_members := [demo_member]\<rparr>"

lemma first_valid:
  "validate_stored ''JournalTransactionPosted'' 1 (JournalTransactionPosted first_posted) = Inr (JournalTransactionPosted first_posted)"
proof -
  have "validate_posted first_posted = Inr ()"
    by (simp add: validate_posted_def validate_ordered_records_def posting_fact_fields_ok_def pattern_simps upt_rec)
  then show ?thesis using validate_stored_valid [of "JournalTransactionPosted first_posted"] by simp
qed

lemma first_dump: "prove_json_value (model_dump (JournalTransactionPosted first_posted)) = Inr ()"
  by (rule dump_provable) simp

lemma first_stored: "stored_event demo_sha 2 1 1 ZERO_HASH first_pending = Inr first_event"
proof -
  obtain t where t: "require_timestamp 0 = Inr t" using demo_timestamp by blast
  have e: "EventHashEnvelope (pending_envelope 2 1 1 ZERO_HASH first_pending) = Inr (pending_envelope 2 1 1 ZERO_HASH first_pending)"
    by (simp add: EventHashEnvelope_def pending_envelope_def require_positive_integer_def require_bounded_string_def
        BIGINT_MAX_def INTEGER_MAX_def SMALLINT_MAX_def schema_version_def HASH_PLACEHOLDER_RECORDED_AT_def t ZERO_HASH_def)
  from event_hash_total [OF e first_dump exact_dict_dump] obtain x where
    "event_hash demo_sha (pending_envelope 2 1 1 ZERO_HASH first_pending) (model_dump (JournalTransactionPosted first_posted)) = Inr (replicate 32 1)"
    by blast
  moreover have "dump_registered (JournalTransactionPosted first_posted) = Inr (model_dump (JournalTransactionPosted first_posted))"
    using first_dump by (simp add: dump_registered_def canonical_json_bytes_def Let_def del: model_dump.simps)
  ultimately show ?thesis
    unfolding stored_event_def
    by (simp add: e first_event_def schema_version_def del: model_dump.simps replicate.simps)
qed

definition first_appended :: "db \<Rightarrow> db" where
  "first_appended db = db\<lparr>ledger_events := [first_event],
     deferred_checks := deferred_checks db @ [SyncProjectionCheck first_event],
     event_stream_heads := [terminal_head 2 (''journal_transaction'', 9) first_event],
     book_event_heads := [\<lparr>hd_book_id = 2, hd_last_position = 1, hd_last_hash = replicate 32 1\<rparr>]\<rparr>"

lemma first_append:
  assumes db: "books db = books first_db" "ledger_events db = []" "event_stream_heads db = []"
    "book_event_heads db = [\<lparr>hd_book_id = 2, hd_last_position = 0, hd_last_hash = ZERO_HASH\<rparr>]"
  shows "append_batch demo_sha 2 [((''journal_transaction'', 9), 0)] [first_pending] db =
     Inr (\<lparr>ar_start = 1, ar_stop = 2, ar_terminal_hash = replicate 32 1, ar_event_ids = [31]\<rparr>, first_appended db)"
proof -
  let ?k = "(''journal_transaction'', 9) :: stream_key"
  let ?db1 = "db\<lparr>ledger_events := [first_event], deferred_checks := deferred_checks db @ [SyncProjectionCheck first_event]\<rparr>"
  have v: "validate_batch [(?k, 0)] [first_pending] = Inr ()"
    by (simp add: validate_batch_def checks_Inr_iff stream_key_def)
  have none: "stream_head_of db 2 ?k = None" by (simp add: stream_head_of_def find_by_def db)
  have c: "check_stream_version db 2 [(?k, 0)] ?k = Inr ()"
    by (simp add: check_stream_version_def cget_def current_version_def none)
  have one: "cadd ?k 1 [(?k, 0)] = [(?k, 1)]" "cget [(?k, 1)] ?k = 1"
    by (simp_all add: cadd_def cget_def)
  have step: "append_step demo_sha 2 \<lparr>aq_next_position = 0, aq_previous_hash = ZERO_HASH,
      aq_next_versions = [(?k, 0)], aq_stored_events = [], aq_terminal_by_stream = []\<rparr> first_pending
    = Inr \<lparr>aq_next_position = 1, aq_previous_hash = replicate 32 1, aq_next_versions = [(?k, 1)],
        aq_stored_events = [first_event], aq_terminal_by_stream = [(?k, first_event)]\<rparr>"
    by (simp add: append_step_def stream_key_def one first_stored Let_def del: replicate.simps) (simp add: first_event_def)
  have ins: "insert_events [first_event] db = Inr ?db1"
    using db by (simp add: insert_events_def insert_rows_def admit_event_def add_event_def event_refers_def table_checks
        first_event_def ZERO_HASH_def first_db_def)
  have st: "insert_stream_head (terminal_head 2 ?k first_event) ?db1
      = Inr (?db1\<lparr>event_stream_heads := [terminal_head 2 ?k first_event]\<rparr>)"
    using db by (simp add: insert_stream_head_def stream_head_types_ok_def v2_guard_event_stream_head_def stream_head_row_ok_def
        stream_head_refers_def table_checks terminal_head_def first_event_def event_stream_key_def first_db_def)
  have hd: "update_book_event_head \<lparr>hd_book_id = 2, hd_last_position = 0, hd_last_hash = ZERO_HASH\<rparr>
      \<lparr>hd_book_id = 2, hd_last_position = 1, hd_last_hash = replicate 32 1\<rparr>
      (?db1\<lparr>event_stream_heads := [terminal_head 2 ?k first_event]\<rparr>) = Inr (first_appended db)"
    using db by (simp add: update_book_event_head_def v2_guard_book_event_head_def head_row_ok_def table_checks
        first_event_def first_appended_def replace_by_def)
  have keys: "dict_fromkeys (map stream_key [first_pending]) = [?k]" by (simp add: dict_fromkeys_def stream_key_def)
  have head: "find_by hd_book_id 2 (book_event_heads db) = Some \<lparr>hd_book_id = 2, hd_last_position = 0, hd_last_hash = ZERO_HASH\<rparr>"
    by (simp add: find_by_def db)
  have cur: "current_version db 2 ?k = 0" by (simp add: current_version_def none)
  show ?thesis
    unfolding append_batch_def v rbind_Inr head option.case keys Let_def
    by (simp add: c cur step ins lift_db_def advance_stream_head_def none st hd del: replicate.simps)
qed

definition first_projected :: "db \<Rightarrow> db" where
  "first_projected db = (first_appended db)\<lparr>applied_events := [demo_marker 31],
     journal_transactions := [transaction_record first_event 9 ''adjustment'' None],
     journal_postings := map (posting_record first_event 9) (tp_postings first_posted),
     account_balances := [demo_balance 21 25 1, demo_balance 22 (-25) 1],
     deferred_checks := deferred_checks db @ SyncProjectionCheck first_event
       # TransactionBalanceCheck (transaction_record first_event 9 ''adjustment'' None)
       # map PostingBalanceCheck (map (posting_record first_event 9) (tp_postings first_posted))\<rparr>"

lemma first_apply:
  assumes db: "accounts db = accounts first_db" "journal_transactions db = []" "journal_postings db = []"
    "account_balances db = []" "applied_events db = []"
  shows "apply_stored first_event (first_appended db) = Inr
     (\<lparr>pr_event_id = 31, pr_required = True, pr_applied = True, pr_projection_version = Some 1\<rparr>, first_projected db)"
proof -
  let ?db = "(first_appended db)\<lparr>applied_events := [demo_marker 31]\<rparr>"
  have m: "insert_marker_on_conflict_do_nothing (demo_marker 31) (first_appended db) = Inr (True, ?db)"
    by (simp add: insert_marker_on_conflict_do_nothing_def v2_validate_sync_projection_marker_def table_checks
        sync_types applied_key_def event_book_key_def first_appended_def first_event_def db)
  have "apply_journal_posted first_event first_posted ?db = Inr (first_projected db)"
    by (simp add: apply_journal_posted_def apply_financial_transaction_def add_external_references_def statement_defs
        record_defs table_checks v2_validate_journal_source_projection_def sync_types numeric_digits_def demo_units_25
        first_appended_def first_projected_def first_event_def find_by_def Let_def db first_db_def)
  with m show ?thesis
    by (simp add: apply_stored_def sync_types first_valid lift_db_def first_event_def)
qed

definition first_session :: "uuid \<Rightarrow> session" where
  "first_session token = \<lparr>se_db = first_db, se_transaction = Some 1, se_capabilities = [(2, token, 1)]\<rparr>"

abbreviation first_head :: "uuid \<Rightarrow> locked_book_head" where
  "first_head token \<equiv> \<lparr>lk_book_id = 2, lk_last_position = 0, lk_last_hash = ZERO_HASH, lk_lock_token = token\<rparr>"

abbreviation first_range :: append_batch_result where
  "first_range \<equiv> \<lparr>ar_start = 1, ar_stop = 2, ar_terminal_hash = replicate 32 1, ar_event_ids = [31]\<rparr>"

lemma first_append_and_project:
  assumes "se_transaction s = Some i" "map_of (se_capabilities s) 2 = Some (token, i)"
    "books (se_db s) = books first_db" "accounts (se_db s) = accounts first_db" "ledger_events (se_db s) = []"
    "event_stream_heads (se_db s) = []" "journal_transactions (se_db s) = []" "journal_postings (se_db s) = []"
    "account_balances (se_db s) = []" "applied_events (se_db s) = []"
    "book_event_heads (se_db s) = [\<lparr>hd_book_id = 2, hd_last_position = 0, hd_last_hash = ZERO_HASH\<rparr>]"
  shows "append_and_project demo_sha (first_head token) [((''journal_transaction'', 9), 0)] [first_pending] s =
    Inr (first_range, s\<lparr>se_db := first_projected (se_db s), se_capabilities := AList.delete 2 (se_capabilities s)\<rparr>)"
proof -
  have re: "reload_events 2 [31] (first_appended (se_db s)) = [first_event]"
    by (simp add: reload_events_def first_appended_def) (simp add: first_event_def)
  have id: "le_event_id first_event = 31" by (simp add: first_event_def)
  have "project_all [first_event] (first_appended (se_db s)) = Inr (first_projected (se_db s))"
    using first_apply [of "se_db s"] assms by (simp add: project_all_def)
  then show ?thesis
    using first_append [of "se_db s"] assms
    by (simp add: append_and_project_def capability_valid_def find_by_def re id Let_def require_boundary_def)
qed

theorem appended_is_projected_witness:
  "event_book_key first_event \<in> applied_key ` set (applied_events (first_projected first_db))"
proof -
  have "append_and_project demo_sha (first_head 50) [((''journal_transaction'', 9), 0)] [first_pending] (first_session 50) =
    Inr (first_range, (first_session 50)\<lparr>se_db := first_projected first_db, se_capabilities := []\<rparr>)"
    using first_append_and_project [of "first_session 50" 1 50]
    by (simp add: first_session_def first_db_def)
  from appended_is_projected [OF this, of 2] show ?thesis
    by (simp add: first_session_def first_projected_def first_appended_def first_db_def)
qed

section \<open>The lock is used once\<close>

text \<open>
  Property C32: the lock on a Book is good for one append, in its own transaction. Taking it succeeds
  only for an active Book and hands out its head; the head lets one batch through; after that, and
  in any other transaction, the same head is refused before anything is read or written.
\<close>

theorem book_lock_single_use:
  assumes "execute_under_book_lock token b s = Inr (locked, s1)"
    and "append_and_project sha256 locked expected events s1 = Inr (res, s2)"
  shows "lk_book_id locked = b \<and> se_db s1 = se_db s
    \<and> (\<exists>book\<in>set (books (se_db s)). bk_book_id book = b \<and> bk_write_state book = ''active'')
    \<and> append_and_project sha256 locked expected' events' s2 = Inl LedgerWriteBoundaryError
    \<and> append_and_project sha256 locked expected' events' (s1\<lparr>se_transaction := Some (other + the (se_transaction s1) + 1)\<rparr>)
        = Inl LedgerWriteBoundaryError"
proof -
  from assms(1) obtain hd book current where hd: "find_by hd_book_id b (book_event_heads (se_db s)) = Some hd"
    and book: "find_by bk_book_id b (books (se_db s)) = Some book" "bk_write_state book = ''active''"
    and tx: "se_transaction s = Some current"
    and locked: "locked = \<lparr>lk_book_id = hd_book_id hd, lk_last_position = hd_last_position hd,
        lk_last_hash = hd_last_hash hd, lk_lock_token = token\<rparr>"
    and s1: "s1 = s\<lparr>se_capabilities := AList.update b (token, current) (se_capabilities s)\<rparr>"
    by (auto simp: execute_under_book_lock_def split: option.splits if_splits)
  from find_by_Some_D [OF hd] have b: "lk_book_id locked = b" by (simp add: locked)
  from assms(2) have s2: "\<exists>db. s2 = s1\<lparr>se_db := db, se_capabilities := AList.delete b (se_capabilities s1)\<rparr>"
    by (rule append_and_project_Inr) (use b in blast)
  have "\<not> capability_valid s2 locked"
    using s2 by (auto simp: capability_valid_def b delete_conv' split: option.splits)
  moreover have "\<not> capability_valid (s1\<lparr>se_transaction := Some (other + the (se_transaction s1) + 1)\<rparr>) locked"
    by (simp add: capability_valid_def b s1 tx update_conv')
  ultimately show ?thesis
    using b s1 find_by_Some_D [OF book(1)] book(2) by (auto simp: append_and_project_def require_boundary_def)
qed

theorem book_lock_single_use_witness:
  "append_and_project demo_sha (first_head 50) [((''journal_transaction'', 9), 0)] [first_pending]
     (\<lparr>se_db = first_db, se_transaction = Some 2, se_capabilities = [(2, 50, 1)]\<rparr>) = Inl LedgerWriteBoundaryError"
proof -
  have lock: "execute_under_book_lock 50 2 \<lparr>se_db = first_db, se_transaction = Some 1, se_capabilities = []\<rparr>
      = Inr (first_head 50, first_session 50)"
    by (simp add: execute_under_book_lock_def find_by_def first_db_def first_session_def)
  have app: "append_and_project demo_sha (first_head 50) [((''journal_transaction'', 9), 0)] [first_pending] (first_session 50) =
    Inr (first_range, (first_session 50)\<lparr>se_db := first_projected first_db, se_capabilities := []\<rparr>)"
    using first_append_and_project [of "first_session 50" 1 50]
    by (simp add: first_session_def first_db_def)
  from book_lock_single_use [OF lock app, of "[((''journal_transaction'', 9), 0)]" "[first_pending]" 0]
  have "append_and_project demo_sha (first_head 50) [((''journal_transaction'', 9), 0)] [first_pending]
      ((first_session 50)\<lparr>se_transaction := Some (0 + the (se_transaction (first_session 50)) + 1)\<rparr>) = Inl LedgerWriteBoundaryError"
    by blast
  moreover have "(first_session 50)\<lparr>se_transaction := Some (0 + the (se_transaction (first_session 50)) + 1)\<rparr>
      = \<lparr>se_db = first_db, se_transaction = Some 2, se_capabilities = [(2, 50, 1)]\<rparr>"
    by (simp add: first_session_def)
  ultimately show ?thesis by (simp only:)
qed

end
