(* ===== verification/Command_Bus.thy ===== *)
theory Command_Bus
  imports Ledger_Committer
begin

text \<open>
  \<open>application/command_bus.py\<close> and \<open>infrastructure/db/unit_of_work.py\<close>: running a command in one
  database transaction under its receipt, and retrying it a bounded number of times.
\<close>

section \<open>The unit of work\<close>

text \<open>
  What the database does to an attempt from outside: it may abort the transaction with an error, or
  commit it and lose the reply, so that the client sees an error although the changes are durable.
\<close>

datatype fault = Aborted db_error | Unacknowledged db_error

definition open_session :: "nat \<Rightarrow> db \<Rightarrow> session" where
  "open_session transaction db = \<lparr>se_db = db, se_transaction = Some transaction, se_capabilities = []\<rparr>"

text \<open>
  \<open>with uow_factory() as uow\<close>: the block runs on the transaction's view of the database; when it
  returns the transaction commits, with its deferred checks, and when anything raises it rolls back.
  The result is what the caller sees, and the database that is left.
\<close>

definition unit_of_work ::
    "nat \<Rightarrow> fault option \<Rightarrow> (session \<Rightarrow> ledger_error + 'a \<times> session) \<Rightarrow> db \<Rightarrow> (ledger_error + 'a) \<times> db" where
  "unit_of_work transaction fault block db =
     (case fault of
        Some (Aborted e) \<Rightarrow> (Inl (DBError e), db)
      | _ \<Rightarrow>
        (case block (open_session transaction db) of
           Inl e \<Rightarrow> (Inl e, db)
         | Inr (x, session) \<Rightarrow>
           (case commit (se_db session) of
              Inl e \<Rightarrow> (Inl (DBError e), db)
            | Inr db' \<Rightarrow>
              (case fault of Some (Unacknowledged e) \<Rightarrow> (Inl (DBError e), db') | _ \<Rightarrow> (Inr x, db')))))"

section \<open>Commands\<close>

type_synonym authorize = "db \<Rightarrow> command_actor \<Rightarrow> uuid \<Rightarrow> ledger_error + authorization_scope"
type_synonym handler = "command \<Rightarrow> session \<Rightarrow> ledger_error + command_result \<times> session"
type_synonym financial_handler =
  "command \<Rightarrow> session \<Rightarrow> locked_book_head \<Rightarrow> ledger_error + ledger_write_plan \<times> session"

definition receipt_scope_of :: "command_actor \<Rightarrow> byte list \<Rightarrow> command \<Rightarrow> receipt_scope" where
  "receipt_scope_of actor key_hash command =
     \<lparr>rs_actor_subject_id = ca_subject_id actor, rs_book_id = cm_book_id command,
      rs_operation = cm_operation command, rs_idempotency_key_hash = key_hash\<rparr>"

text \<open>The part the two kinds of commands share: authorize, hash the request, reserve the receipt.\<close>

definition reserve_command ::
    "(byte list \<Rightarrow> byte list) \<Rightarrow> authorize \<Rightarrow> command_actor \<Rightarrow> byte list \<Rightarrow> command \<Rightarrow> session
      \<Rightarrow> ledger_error + (byte list \<times> receipt_reservation) \<times> session" where
  "reserve_command sha256 authorize actor key_hash command session =
     rbind (authorize (se_db session) actor (cm_book_id command)) (\<lambda>returned.
     rbind (AuthorizationScope returned) (\<lambda>authorization_scope.
     rbind (require_valid (az_actor_subject_id authorization_scope = ca_subject_id actor)) (\<lambda>_.
     rbind (hash_command_request sha256 command authorization_scope) (\<lambda>request_hash.
     rbind (on_db (reserve_or_lock (receipt_scope_of actor key_hash command) request_hash (cm_command_id command)) session)
       (\<lambda>(reservation, session). Inr ((request_hash, reservation), session))))))"

text \<open>
  A handler returns a \<open>CommandResult\<close> or a \<open>LedgerWritePlan\<close>, values that exist only when their
  constructors accepted them: the model runs the constructor on what the handler gives.
\<close>

definition execute_once ::
    "(byte list \<Rightarrow> byte list) \<Rightarrow> authorize \<Rightarrow> handler \<Rightarrow> command_actor \<Rightarrow> byte list \<Rightarrow> command \<Rightarrow> instant \<Rightarrow> session
      \<Rightarrow> ledger_error + command_outcome \<times> session" where
  "execute_once sha256 authorize handler actor key_hash command clock_timestamp session =
     rbind (reserve_command sha256 authorize actor key_hash command session)
       (\<lambda>((request_hash, reservation), session).
     if \<not> rn_created reservation then
       rbind (replay_or_conflict reservation request_hash) (\<lambda>result.
         Inr (\<lparr>co_result = result, co_replayed = True\<rparr>, session))
     else
       rbind (handler command session) (\<lambda>(returned, session).
       rbind (CommandResult returned) (\<lambda>result.
       rbind (on_db (complete clock_timestamp (receipt_scope_of actor key_hash command) result) session) (\<lambda>(_, session).
       Inr (\<lparr>co_result = result, co_replayed = False\<rparr>, session)))))"

definition execute_financial_once ::
    "(byte list \<Rightarrow> byte list) \<Rightarrow> authorize \<Rightarrow> financial_handler \<Rightarrow> command_actor \<Rightarrow> byte list \<Rightarrow> command \<Rightarrow> instant
      \<Rightarrow> uuid \<Rightarrow> session \<Rightarrow> ledger_error + command_outcome \<times> session" where
  "execute_financial_once sha256 authorize handler actor key_hash command clock_timestamp lock_token session =
     rbind (reserve_command sha256 authorize actor key_hash command session)
       (\<lambda>((request_hash, reservation), session).
     if \<not> rn_created reservation then
       rbind (replay_or_conflict reservation request_hash) (\<lambda>result.
         Inr (\<lparr>co_result = result, co_replayed = True\<rparr>, session))
     else
       rbind (execute_under_book_lock lock_token (cm_book_id command) session) (\<lambda>(locked_head, session).
       rbind (handler command session locked_head) (\<lambda>(returned, session).
       rbind (LedgerWritePlan returned) (\<lambda>plan.
       rbind (require_valid (\<not> list_ex (\<lambda>event. pe_command_id event \<noteq> cm_command_id command
                \<or> pe_actor_subject_id event \<noteq> ca_subject_id actor) (lp_events plan))) (\<lambda>_.
       rbind (append_and_project sha256 locked_head (lp_expected_stream_versions plan) (lp_events plan) session)
         (\<lambda>(appended, session).
       rbind (case lp_post_projection_finalizer plan of
                None \<Rightarrow> Inr session | Some finalizer \<Rightarrow> finalizer appended session) (\<lambda>session.
       rbind (to_result plan appended) (\<lambda>result.
       rbind (on_db (complete clock_timestamp (receipt_scope_of actor key_hash command) result) session) (\<lambda>(_, session).
       Inr (\<lparr>co_result = result, co_replayed = False\<rparr>, session))))))))))"

section \<open>Retries\<close>

definition is_retryable :: "db_error \<Rightarrow> bool" where
  "is_retryable error \<longleftrightarrow> connection_invalidated error \<or> sqlstate error \<in> set [''40001'', ''40P01'']"

function retry :: "(nat \<Rightarrow> db \<Rightarrow> (ledger_error + 'a) \<times> db) \<Rightarrow> nat \<Rightarrow> nat \<Rightarrow> db \<Rightarrow> (ledger_error + 'a) \<times> db" where
  "retry once max_attempts attempt db =
     (if max_attempts \<le> attempt then (Inl AssertionError, db)
      else case once attempt db of
        (Inr outcome, db') \<Rightarrow> (Inr outcome, db')
      | (Inl (DBError error), db') \<Rightarrow>
          if max_attempts \<le> attempt + 1 \<or> \<not> is_retryable error then (Inl (DBError error), db')
          else retry once max_attempts (attempt + 1) db'
      | (Inl e, db') \<Rightarrow> (Inl e, db'))"
  by pat_completeness auto
termination by (relation "measure (\<lambda>(once, max_attempts, attempt, db). max_attempts - attempt)") auto

declare retry.simps [simp del]

text \<open>
  What happens around an attempt: the transactions of others that commit before it begins, the fault
  the database causes, the clock, and the token \<open>uuid4\<close> gives.
\<close>

record attempt =
  at_others :: "db \<Rightarrow> db"
  at_fault :: "fault option"
  at_clock :: instant
  at_lock_token :: uuid

text \<open>An attempt checks the operation, then runs its block in a unit of work of its own.\<close>

definition attempt_once ::
    "command \<Rightarrow> (attempt \<Rightarrow> session \<Rightarrow> ledger_error + 'a \<times> session) \<Rightarrow> (nat \<Rightarrow> attempt) \<Rightarrow> nat \<Rightarrow> db
      \<Rightarrow> (ledger_error + 'a) \<times> db" where
  "attempt_once command block attempts i db =
     (if \<not> operation_ok (cm_operation command) then (Inl IdempotencyValidationError, at_others (attempts i) db)
      else unit_of_work i (at_fault (attempts i)) (block (attempts i)) (at_others (attempts i) db))"

definition run_command ::
    "(byte list \<Rightarrow> byte list) \<Rightarrow> string \<Rightarrow> command_actor \<Rightarrow> int \<Rightarrow> command
      \<Rightarrow> (byte list \<Rightarrow> attempt \<Rightarrow> session \<Rightarrow> ledger_error + command_outcome \<times> session) \<Rightarrow> (nat \<Rightarrow> attempt) \<Rightarrow> db
      \<Rightarrow> (ledger_error + command_outcome) \<times> db" where
  "run_command sha256 raw_key actor max_attempts command block attempts db =
     (case rbind (CommandActor actor) (\<lambda>_.
           rbind (require_valid (1 \<le> max_attempts \<and> max_attempts \<le> 10)) (\<lambda>_.
           hash_idempotency_key sha256 raw_key)) of
        Inl e \<Rightarrow> (Inl e, db)
      | Inr key_hash \<Rightarrow> retry (attempt_once command (block key_hash) attempts) (nat max_attempts) 0 db)"

definition execute ::
    "(byte list \<Rightarrow> byte list) \<Rightarrow> authorize \<Rightarrow> handler \<Rightarrow> string \<Rightarrow> command_actor \<Rightarrow> int \<Rightarrow> command \<Rightarrow> (nat \<Rightarrow> attempt) \<Rightarrow> db
      \<Rightarrow> (ledger_error + command_outcome) \<times> db" where
  "execute sha256 authorize handler raw_key actor max_attempts command =
     run_command sha256 raw_key actor max_attempts command (\<lambda>key_hash attempt.
       execute_once sha256 authorize handler actor key_hash command (at_clock attempt))"

definition execute_financial ::
    "(byte list \<Rightarrow> byte list) \<Rightarrow> authorize \<Rightarrow> financial_handler \<Rightarrow> string \<Rightarrow> command_actor \<Rightarrow> int \<Rightarrow> command
      \<Rightarrow> (nat \<Rightarrow> attempt) \<Rightarrow> db \<Rightarrow> (ledger_error + command_outcome) \<times> db" where
  "execute_financial sha256 authorize handler raw_key actor max_attempts command =
     run_command sha256 raw_key actor max_attempts command (\<lambda>key_hash attempt.
       execute_financial_once sha256 authorize handler actor key_hash command (at_clock attempt) (at_lock_token attempt))"

end
