(* ===== verification/Catalog_Reads.thy ===== *)
theory Catalog_Reads
  imports Command_Bus
begin

text \<open>
  What every command handler reads and checks first: \<open>infrastructure/db/repositories/catalogs.py\<close>,
  the membership behind \<open>authorize_journal_write\<close>, the literals of the commands, and the closure each
  \<open>execute_*\<close> function passes to the bus. A row lock does not change what is read: transactions are
  serial. The name-based \<open>uuid5\<close> of the standard library is an argument.
\<close>

section \<open>UUIDs by name and by text\<close>

type_synonym name_uuid = "uuid \<Rightarrow> string \<Rightarrow> uuid"

definition NAMESPACE_URL :: uuid where
  "NAMESPACE_URL = 0x6ba7b8119dad11d180b400c04fd430c8"

definition event_namespace :: "name_uuid \<Rightarrow> string \<Rightarrow> uuid" where
  "event_namespace uuid5 name = uuid5 NAMESPACE_URL (''https://track-anywhere.dev/v2/events/'' @ name)"

abbreviation fail :: "handler_error \<Rightarrow> ledger_error + 'a" where
  "fail e \<equiv> Inl (HandlerError e)"

definition demand :: "handler_error \<Rightarrow> bool \<Rightarrow> ledger_error + unit" where
  "demand e c = (if c then Inr () else fail e)"

lemma demand_iff [result_simps]:
  "demand e c = Inr u \<longleftrightarrow> c" "demand e c = Inl d \<longleftrightarrow> \<not> c \<and> d = HandlerError e"
  by (auto simp: demand_def)

definition found :: "handler_error \<Rightarrow> 'a option \<Rightarrow> ledger_error + 'a" where
  "found e x = (case x of None \<Rightarrow> fail e | Some y \<Rightarrow> Inr y)"

lemma found_iff [result_simps]:
  "found e x = Inr y \<longleftrightarrow> x = Some y" "found e x = Inl d \<longleftrightarrow> x = None \<and> d = HandlerError e"
  by (auto simp: found_def split: option.splits)

abbreviation rejects :: "('e \<Rightarrow> handler_error) \<Rightarrow> 'e + 'a \<Rightarrow> ledger_error + 'a" where
  "rejects f \<equiv> raise_as (\<lambda>e. HandlerError (f e))"

text \<open>\<open>UUID(text)\<close>: the dashes are dropped and 32 hexadecimal digits must be left.\<close>

definition hex_digit_value :: "char \<Rightarrow> nat option" where
  "hex_digit_value c = (let n = of_char c in
     if 48 \<le> n \<and> n \<le> 57 then Some (n - 48)
     else if 97 \<le> n \<and> n \<le> 102 then Some (n - 87)
     else if 65 \<le> n \<and> n \<le> 70 then Some (n - 55) else None)"

definition UUID :: "string \<Rightarrow> ledger_error + uuid" where
  "UUID text =
     (let digits = map hex_digit_value (filter (\<lambda>c. c \<noteq> CHR ''-'') text)
      in if length digits \<noteq> 32 \<or> None \<in> set digits then fail PlainValueError
         else Inr (of_nat (foldl (\<lambda>n d. 16 * n + the d) 0 digits)))"

lemma hex_digit_value_chr: "n < 16 \<Longrightarrow> hex_digit_value (hex_chr n) = Some n"
  by (auto simp: hex_digit_value_def hex_chr_def Let_def)

lemma hex_fixed_values: "n < 16 ^ w \<Longrightarrow>
    list_all (\<lambda>d. d \<noteq> None) (map hex_digit_value (hex_fixed w n))
    \<and> foldl (\<lambda>n d. 16 * n + the d) 0 (map hex_digit_value (hex_fixed w n)) = n"
proof (induction w arbitrary: n)
  case (Suc w)
  then have "n div 16 < 16 ^ w" by (simp add: div_less_iff_less_mult mult.commute)
  from Suc.IH [OF this] show ?case by (simp add: hex_digit_value_chr)
qed simp

lemma hex_chr_not_dash: "n < 16 \<Longrightarrow> hex_chr n \<noteq> CHR ''-''"
  using hex_digit_value_chr [of n] by (auto simp: hex_digit_value_def)

lemma hex_fixed_no_dash: "CHR ''-'' \<notin> set (hex_fixed w n)"
proof (induction w arbitrary: n)
  case (Suc w)
  then show ?case using hex_chr_not_dash [of "n mod 16"] by auto
qed simp

lemma filter_uuid_str: "filter (\<lambda>c. c \<noteq> CHR ''-'') (uuid_str u) = hex_fixed 32 (unat u)"
proof -
  let ?h = "hex_fixed 32 (unat u)"
  have keep: "filter (\<lambda>c. c \<noteq> CHR ''-'') (take n (drop m ?h)) = take n (drop m ?h)"
    "filter (\<lambda>c. c \<noteq> CHR ''-'') (drop m ?h) = drop m ?h" for n m
    using hex_fixed_no_dash [of 32 "unat u"] by (auto intro!: filter_True dest: in_set_takeD in_set_dropD)
  have "filter (\<lambda>c. c \<noteq> CHR ''-'') (uuid_str u)
      = take 8 ?h @ take 4 (drop 8 ?h) @ take 4 (drop 12 ?h) @ take 4 (drop 16 ?h) @ drop 20 ?h"
    using keep(1) [of 8 0] by (simp add: uuid_str_def Let_def keep)
  also have "\<dots> = ?h"
    using append_take_drop_id [of 8 ?h] append_take_drop_id [of 4 "drop 8 ?h"]
      append_take_drop_id [of 4 "drop 12 ?h"] append_take_drop_id [of 4 "drop 16 ?h"] by simp
  finally show ?thesis .
qed

lemma UUID_uuid_str [simp]: "UUID (uuid_str u) = Inr u"
proof -
  have b: "unat u < 16 ^ 32" using unsigned_less [of u] by simp
  note v = hex_fixed_values [OF b]
  have "None \<notin> set (map hex_digit_value (hex_fixed 32 (unat u)))" using v unfolding list_all_iff by blast
  with v show ?thesis unfolding UUID_def filter_uuid_str by (simp add: Let_def)
qed

section \<open>Literals\<close>

definition asset_code_literal :: "string \<Rightarrow> bool" where
  "asset_code_literal value \<longleftrightarrow> value \<noteq> [] \<and> length value \<le> 16 \<and> upper_stable value"

definition rstrip_dot :: "string \<Rightarrow> string" where
  "rstrip_dot s = rev (dropWhile (\<lambda>c. c = CHR ''.'') (rev s))"

definition positive_amount_literal :: "string \<Rightarrow> bool" where
  "positive_amount_literal amount \<longleftrightarrow>
     AMOUNT_PATTERN amount \<and> rstrip_dot (rstrip0 amount) \<notin> {'''', ''0''}"

definition instant_literal :: "instant \<Rightarrow> bool" where
  "instant_literal value \<longleftrightarrow> (case format_utc_microseconds value of Inl _ \<Rightarrow> False | Inr _ \<Rightarrow> True)"

text \<open>The timestamp in a payload; a command exists only when its constructor could format it.\<close>

definition jinstant :: "instant \<Rightarrow> json" where
  "jinstant value = (case format_utc_microseconds value of Inl _ \<Rightarrow> JNull | Inr s \<Rightarrow> jstr s)"

section \<open>The catalog repository\<close>

definition account_key :: "account_record \<Rightarrow> uuid \<times> uuid" where
  "account_key a = (ac_book_id a, ac_account_id a)"

definition get_account :: "db \<Rightarrow> uuid \<Rightarrow> uuid \<Rightarrow> ledger_error + account_record" where
  "get_account db book_id account_id =
     found CatalogNotFound (find_by account_key (book_id, account_id) (accounts db))"

definition get_asset :: "db \<Rightarrow> string \<Rightarrow> ledger_error + asset_record" where
  "get_asset db asset_code = found CatalogNotFound (find_by sa_asset_code asset_code (assets db))"

definition get_category_version :: "db \<Rightarrow> uuid \<Rightarrow> uuid \<Rightarrow> uuid \<Rightarrow> ledger_error + category_version_record" where
  "get_category_version db book_id category_id category_version_id =
     found CatalogNotFound (find_by (\<lambda>v. (cv_book_id v, cv_category_id v, cv_category_version_id v))
       (book_id, category_id, category_version_id) (category_versions db))"

section \<open>Authorization\<close>

definition get_membership :: "db \<Rightarrow> uuid \<Rightarrow> string \<Rightarrow> book_member_record option" where
  "get_membership db book_id user_id =
     find_by (\<lambda>m. (bm_book_id m, bm_user_id m)) (book_id, user_id) (book_members db)"

definition authorize_journal_write :: authorize where
  "authorize_journal_write db actor book_id =
     rbind (found JournalWriteForbidden (get_membership db book_id (ca_subject_id actor))) (\<lambda>membership.
     rbind (demand JournalWriteForbidden
       (\<not> (bm_status membership \<noteq> ''active'' \<or> bm_revoked_at membership \<noteq> None
           \<or> ''ledger:write'' \<notin> set (bm_scopes membership)))) (\<lambda>_.
     AuthorizationScope \<lparr>az_book_id = book_id, az_actor_subject_id = ca_subject_id actor,
       az_role = bm_role membership, az_scopes = bm_scopes membership\<rparr>))"

section \<open>Handlers that plan\<close>

text \<open>
  The closure of an \<open>execute_*\<close> function: it refuses any command but the one it closes over, and
  builds a plan from what it reads.
\<close>

definition plan_handler ::
    "command \<Rightarrow> (db \<Rightarrow> locked_book_head \<Rightarrow> ledger_error + ledger_write_plan) \<Rightarrow> financial_handler" where
  "plan_handler command build received session locked_head =
     rbind (require_valid (received = command)) (\<lambda>_.
     rbind (build (se_db session) locked_head) (\<lambda>plan. Inr (plan, session)))"

lemma plan_handler_Inr [result_simps]:
  "plan_handler command build received s head = Inr (plan, s') \<longleftrightarrow>
     received = command \<and> build (se_db s) head = Inr plan \<and> s' = s"
  by (auto simp: plan_handler_def result_simps)

text \<open>A response: status 201 and a body, schema version 1, no finalizer.\<close>

definition created_plan :: "(stream_key \<times> int) list \<Rightarrow> pending_event list \<Rightarrow> (string \<times> json) list \<Rightarrow> ledger_write_plan" where
  "created_plan expected events body =
     \<lparr>lp_expected_stream_versions = expected, lp_events = events, lp_response_schema_version = 1,
      lp_status_code = 201, lp_body = jobj body, lp_post_projection_finalizer = None\<rparr>"

lemma created_plan_simps [simp]:
  "lp_expected_stream_versions (created_plan expected events body) = expected"
  "lp_events (created_plan expected events body) = events"
  "lp_post_projection_finalizer (created_plan expected events body) = None"
  by (simp_all add: created_plan_def)

end
