(* ===== verification/Journal_Commands.thy ===== *)
theory Journal_Commands
  imports Catalog_Reads
begin

text \<open>
  \<open>application/journal/post_transaction.py\<close> and the two semantic commands that go through it,
  \<open>record_simple.py\<close> and \<open>record_adjustment.py\<close>: the commands with their constructor checks and request
  payloads, and the plans their handlers build from the catalog.
\<close>

section \<open>Posting a transaction\<close>

record post_transaction_posting =
  pp_posting_id :: uuid
  pp_account_id :: uuid
  pp_asset_code :: string
  pp_side :: posting_side
  pp_amount :: string

definition PostTransactionPosting :: "post_transaction_posting \<Rightarrow> ledger_error + post_transaction_posting" where
  "PostTransactionPosting self =
     rbind (require_valid (asset_code_literal (pp_asset_code self))) (\<lambda>_.
     rbind (require_valid (AMOUNT_PATTERN (pp_amount self))) (\<lambda>_. Inr self))"

definition posting_canonical_value :: "post_transaction_posting \<Rightarrow> json" where
  "posting_canonical_value self = jobj
     [(''account_id'', juuid (pp_account_id self)), (''amount'', jstr (pp_amount self)),
      (''asset_code'', jstr (pp_asset_code self)), (''posting_id'', juuid (pp_posting_id self)),
      (''side'', jstr (posting_side_value (pp_side self)))]"

record post_transaction_command =
  pc_book_id :: uuid
  pc_command_id :: uuid
  pc_transaction_id :: uuid
  pc_expected_stream_version :: int
  pc_kind :: transaction_kind
  pc_postings :: "post_transaction_posting list"
  pc_effective_at :: instant
  pc_description_ref :: "uuid option"
  pc_external_references :: "financial_external_reference list"

definition GENERAL_JOURNAL_KINDS :: "transaction_kind set" where
  "GENERAL_JOURNAL_KINDS = {K_STANDARD, K_OPENING, K_ADJUSTMENT, K_TRANSFER}"

definition PostTransactionCommand :: "post_transaction_command \<Rightarrow> ledger_error + post_transaction_command" where
  "PostTransactionCommand self =
     rbind (require_valid (0 \<le> pc_expected_stream_version self)) (\<lambda>_.
     rbind (require_valid (pc_kind self \<in> GENERAL_JOURNAL_KINDS)) (\<lambda>_.
     rbind (require_valid (2 \<le> length (pc_postings self))) (\<lambda>_.
     rbind (require_valid (instant_literal (pc_effective_at self))) (\<lambda>_. Inr self))))"

definition post_payload :: "post_transaction_command \<Rightarrow> json" where
  "post_payload self = jobj
     [(''description_ref'', jopt juuid (pc_description_ref self)),
      (''effective_at'', jinstant (pc_effective_at self)),
      (''expected_stream_version'', JInt (pc_expected_stream_version self)),
      (''external_references'', JList (map dump_external_reference (pc_external_references self))),
      (''kind'', jstr (transaction_kind_value (pc_kind self))),
      (''postings'', JList (map posting_canonical_value (pc_postings self))),
      (''transaction_id'', juuid (pc_transaction_id self))]"

definition post_command :: "post_transaction_command \<Rightarrow> command" where
  "post_command self = \<lparr>cm_book_id = pc_book_id self, cm_command_id = pc_command_id self,
     cm_operation = ''journal.post'', cm_payload = post_payload self\<rparr>"

section \<open>The posted payload\<close>

text \<open>\<open>sorted({...}, key=str)\<close> of account ids, and \<open>sorted({...})\<close> of asset codes.\<close>

definition sorted_ids :: "uuid list \<Rightarrow> uuid list" where
  "sorted_ids ids = sort_key (\<lambda>i. code_points (uuid_str i)) (remdups ids)"

definition sorted_codes :: "string list \<Rightarrow> string list" where
  "sorted_codes codes = sort_key code_points (remdups codes)"

text \<open>The accounts that exist, by id, in the order they were looked up.\<close>

definition known_accounts :: "db \<Rightarrow> uuid \<Rightarrow> uuid list \<Rightarrow> account_record list" where
  "known_accounts db book_id ids =
     List.map_filter (\<lambda>i. find_by account_key (book_id, i) (accounts db)) ids"

definition reject_credit_card_accounts :: "account_record list \<Rightarrow> ledger_error + unit" where
  "reject_credit_card_accounts rows =
     demand CreditCardSemanticWriteRequired (\<not> list_ex (\<lambda>a. ac_account_subtype a = Some ''credit_card'') rows)"

definition asset_policy_of :: "asset_record \<Rightarrow> ledger_error + asset_policy" where
  "asset_policy_of asset = rejects MoneyRejected (AssetPolicy (sa_input_scale asset) (sa_ledger_scale asset))"

definition active_policy :: "db \<Rightarrow> string \<Rightarrow> ledger_error + string \<times> asset_policy" where
  "active_policy db asset_code =
     (case find_by sa_asset_code asset_code (assets db) of
        None \<Rightarrow> fail (AssetUnavailable asset_code)
      | Some asset \<Rightarrow>
          if sa_status asset \<noteq> ''active'' then fail (AssetUnavailable asset_code)
          else rbind (asset_policy_of asset) (\<lambda>policy. Inr (asset_code, policy)))"

definition parse_units :: "asset_policy \<Rightarrow> string \<Rightarrow> ledger_error + int" where
  "parse_units policy amount =
     rbind (rejects MoneyRejected (parse_online policy amount)) (\<lambda>parsed. Inr (su_units parsed))"

text \<open>\<open>AccountType(value)\<close> and \<open>AccountSystemRole(value)\<close>: the member with that value.\<close>

fun account_system_role_value :: "account_system_role \<Rightarrow> string" where
  "account_system_role_value R_STANDARD = ''standard''"
| "account_system_role_value R_EXPENSE_CLEARING = ''expense_clearing''"
| "account_system_role_value R_INCOME_CLEARING = ''income_clearing''"
| "account_system_role_value R_BALANCE_ADJUSTMENT = ''balance_adjustment''"
| "account_system_role_value R_FX_TRADING = ''fx_trading''"

definition AccountType :: "string \<Rightarrow> ledger_error + account_type" where
  "AccountType value = found PlainValueError (find (\<lambda>t. account_type_value t = value)
     [T_ASSET, T_LIABILITY, T_EQUITY, T_INCOME, T_EXPENSE, T_FUND, T_SYSTEM])"

definition AccountSystemRole :: "string \<Rightarrow> ledger_error + account_system_role" where
  "AccountSystemRole value = found PlainValueError (find (\<lambda>r. account_system_role_value r = value)
     [R_STANDARD, R_EXPENSE_CLEARING, R_INCOME_CLEARING, R_BALANCE_ADJUSTMENT, R_FX_TRADING])"

text \<open>\<open>snapshot.system_role or "standard"\<close>.\<close>

definition role_or_standard :: "string option \<Rightarrow> string" where
  "role_or_standard role = (case role of None \<Rightarrow> ''standard'' | Some r \<Rightarrow> if r = [] then ''standard'' else r)"

definition domain_account :: "account_record \<Rightarrow> ledger_error + account_snapshot" where
  "domain_account row =
     rbind (AccountType (ac_account_type row)) (\<lambda>account_type.
     rbind (AccountSystemRole (role_or_standard (ac_system_role row))) (\<lambda>system_role. Inr
       \<lparr>as_account_id = uuid_str (ac_account_id row), as_book_id = uuid_str (ac_book_id row),
        as_asset_code = ac_asset_code row, as_account_type = account_type,
        as_account_subtype = ac_account_subtype row, as_system_role = system_role,
        as_status = ac_status row\<rparr>))"

definition posting_fact :: "posting_draft \<Rightarrow> ledger_error + journal_posting_fact" where
  "posting_fact posting =
     rbind (UUID (pd_posting_id posting)) (\<lambda>posting_id.
     rbind (UUID (pd_account_id posting)) (\<lambda>account_id. Inr
       \<lparr>jp_posting_id = posting_id, jp_position = pd_position posting, jp_account_id = account_id,
        jp_asset_code = pd_asset_code posting, jp_side = pd_side posting,
        jp_units = int_str (pd_units posting)\<rparr>))"

text \<open>A contract exists only when its constructor accepted it.\<close>

definition contract :: "event_payload \<Rightarrow> ledger_error + event_payload" where
  "contract payload = rbind (rejects ContractRejected (validate_payload payload)) (\<lambda>_. Inr payload)"

lemma contract_Inr [result_simps]: "contract p = Inr q \<longleftrightarrow> q = p \<and> validate_payload p = Inr ()"
  by (auto simp: contract_def result_simps)

definition posting_drafts_of ::
    "(string \<times> asset_policy) list \<Rightarrow> post_transaction_posting list \<Rightarrow> ledger_error + posting_draft list" where
  "posting_drafts_of asset_policies postings =
     mapE (\<lambda>(position, posting).
         rbind (found KeyError (map_of asset_policies (pp_asset_code posting))) (\<lambda>policy.
         rbind (parse_units policy (pp_amount posting)) (\<lambda>units. Inr
           \<lparr>pd_posting_id = uuid_str (pp_posting_id posting), pd_position = int position,
            pd_account_id = uuid_str (pp_account_id posting), pd_asset_code = pp_asset_code posting,
            pd_side = pp_side posting, pd_units = units\<rparr>)))
       (enumerate 0 postings)"

definition build_posted_payload :: "bool \<Rightarrow> post_transaction_command \<Rightarrow> db \<Rightarrow> ledger_error + journal_transaction_posted" where
  "build_posted_payload allow_credit_card_adjustment command db =
     (let db_accounts = known_accounts db (pc_book_id command)
            (sorted_ids (map pp_account_id (pc_postings command)))
      in
     rbind (if allow_credit_card_adjustment \<and> pc_kind command = K_ADJUSTMENT then Inr ()
            else reject_credit_card_accounts db_accounts) (\<lambda>_.
     rbind (mapE (active_policy db) (sorted_codes (map pp_asset_code (pc_postings command)))) (\<lambda>asset_policies.
     rbind (mapE domain_account db_accounts) (\<lambda>domain_accounts.
     rbind (posting_drafts_of asset_policies (pc_postings command)) (\<lambda>posting_drafts.
     rbind (rejects JournalRejected (validate
              \<lparr>pt_transaction_id = uuid_str (pc_transaction_id command), pt_book_id = uuid_str (pc_book_id command),
               pt_kind = pc_kind command, pt_postings = posting_drafts\<rparr> domain_accounts)) (\<lambda>_.
     rbind (mapE posting_fact posting_drafts) (\<lambda>facts.
     let payload = \<lparr>tp_transaction_id = pc_transaction_id command, tp_kind = pc_kind command,
           tp_original_transaction_id = None, tp_postings = facts,
           tp_description_ref = pc_description_ref command,
           tp_external_references = pc_external_references command\<rparr>
     in rbind (contract (JournalTransactionPosted payload)) (\<lambda>_. Inr payload))))))))"

section \<open>The plan\<close>

definition build_posted_pending ::
    "name_uuid \<Rightarrow> command_actor \<Rightarrow> uuid option \<Rightarrow> uuid option \<Rightarrow> post_transaction_command
      \<Rightarrow> journal_transaction_posted \<Rightarrow> pending_event" where
  "build_posted_pending uuid5 actor event_id causation_event_id command payload =
     \<lparr>pe_event_id = (case event_id of Some i \<Rightarrow> i
        | None \<Rightarrow> uuid5 (event_namespace uuid5 ''journal.post'') (uuid_str (pc_command_id command))),
      pe_stream_type = ''journal_transaction'', pe_stream_id = pc_transaction_id command,
      pe_payload = JournalTransactionPosted payload, pe_command_id = pc_command_id command,
      pe_actor_subject_id = ca_subject_id actor, pe_correlation_id = pc_command_id command,
      pe_causation_event_id = causation_event_id, pe_effective_at = pc_effective_at command\<rparr>"

definition build_post_transaction_plan ::
    "name_uuid \<Rightarrow> command_actor \<Rightarrow> bool \<Rightarrow> post_transaction_command \<Rightarrow> db \<Rightarrow> locked_book_head
      \<Rightarrow> ledger_error + ledger_write_plan" where
  "build_post_transaction_plan uuid5 actor allow_credit_card_adjustment command db locked_head =
     rbind (require_valid (lk_book_id locked_head = pc_book_id command)) (\<lambda>_.
     rbind (build_posted_payload allow_credit_card_adjustment command db) (\<lambda>payload.
     Inr (created_plan
       [((''journal_transaction'', pc_transaction_id command), pc_expected_stream_version command)]
       [build_posted_pending uuid5 actor None None command payload]
       [(''transaction_id'', juuid (pc_transaction_id command)),
        (''as_of_book_position'', JInt (lk_last_position locked_head + 1))])))"

definition execute_post_transaction ::
    "(byte list \<Rightarrow> byte list) \<Rightarrow> name_uuid \<Rightarrow> post_transaction_command \<Rightarrow> string \<Rightarrow> command_actor \<Rightarrow> int
      \<Rightarrow> (nat \<Rightarrow> attempt) \<Rightarrow> db \<Rightarrow> (ledger_error + command_outcome) \<times> db" where
  "execute_post_transaction sha256 uuid5 command raw_key actor max_attempts =
     execute_financial sha256 authorize_journal_write
       (plan_handler (post_command command) (build_post_transaction_plan uuid5 actor False command))
       raw_key actor max_attempts (post_command command)"

section \<open>Expenses and transfers\<close>

record simple_transaction_command =
  sm_book_id :: uuid
  sm_command_id :: uuid
  sm_transaction_id :: uuid
  sm_expected_stream_version :: int
  sm_asset_code :: string
  sm_amount :: string
  sm_effective_at :: instant

definition SimpleTransactionCommand :: "simple_transaction_command \<Rightarrow> ledger_error + unit" where
  "SimpleTransactionCommand self =
     rbind (require_valid (sm_expected_stream_version self = 0)) (\<lambda>_.
     rbind (require_valid (asset_code_literal (sm_asset_code self))) (\<lambda>_.
     rbind (require_valid (positive_amount_literal (sm_amount self))) (\<lambda>_.
     require_valid (instant_literal (sm_effective_at self)))))"

text \<open>The two subclasses: a source account, and an expense or a target account.\<close>

datatype simple_command =
    RecordExpense simple_transaction_command uuid uuid
  | RecordTransfer simple_transaction_command uuid uuid

fun simple_base :: "simple_command \<Rightarrow> simple_transaction_command" where
  "simple_base (RecordExpense base source expense) = base"
| "simple_base (RecordTransfer base source target) = base"

fun simple_accounts :: "simple_command \<Rightarrow> uuid \<times> uuid" where
  "simple_accounts (RecordExpense base source expense) = (source, expense)"
| "simple_accounts (RecordTransfer base source target) = (source, target)"

definition SimpleCommand :: "simple_command \<Rightarrow> ledger_error + simple_command" where
  "SimpleCommand self =
     rbind (SimpleTransactionCommand (simple_base self)) (\<lambda>_.
     rbind (require_valid (fst (simple_accounts self) \<noteq> snd (simple_accounts self))) (\<lambda>_. Inr self))"

definition simple_base_payload :: "simple_transaction_command \<Rightarrow> (string \<times> json) list" where
  "simple_base_payload self =
     [(''amount'', jstr (sm_amount self)), (''asset_code'', jstr (sm_asset_code self)),
      (''effective_at'', jinstant (sm_effective_at self)),
      (''expected_stream_version'', JInt (sm_expected_stream_version self)),
      (''transaction_id'', juuid (sm_transaction_id self))]"

fun simple_payload :: "simple_command \<Rightarrow> json" where
  "simple_payload (RecordExpense base source expense) = jobj (simple_base_payload base @
     [(''expense_account_id'', juuid expense), (''source_account_id'', juuid source)])"
| "simple_payload (RecordTransfer base source target) = jobj (simple_base_payload base @
     [(''source_account_id'', juuid source), (''target_account_id'', juuid target)])"

fun simple_operation :: "simple_command \<Rightarrow> string" where
  "simple_operation (RecordExpense base source expense) = ''journal.expense.record''"
| "simple_operation (RecordTransfer base source target) = ''journal.transfer.record''"

definition simple_as_command :: "simple_command \<Rightarrow> command" where
  "simple_as_command self = \<lparr>cm_book_id = sm_book_id (simple_base self), cm_command_id = sm_command_id (simple_base self),
     cm_operation = simple_operation self, cm_payload = simple_payload self\<rparr>"

definition require_standard_accounts :: "account_record list \<Rightarrow> ledger_error + unit" where
  "require_standard_accounts rows =
     demand SystemManagedAccountForbidden
       (\<not> list_ex (\<lambda>a. ac_system_role a \<notin> {None, Some ''standard''}) rows)"

definition simple_posting_id :: "name_uuid \<Rightarrow> uuid \<Rightarrow> string \<Rightarrow> uuid" where
  "simple_posting_id uuid5 command_id side =
     uuid5 (event_namespace uuid5 ''journal.record-simple'') (uuid_str command_id @ '':'' @ side)"

text \<open>The account type the second account must have, and the kind of the transaction.\<close>

fun simple_target_type :: "simple_command \<Rightarrow> account_type" where
  "simple_target_type (RecordExpense base source expense) = T_EXPENSE"
| "simple_target_type (RecordTransfer base source target) = T_ASSET"

fun simple_kind :: "simple_command \<Rightarrow> transaction_kind" where
  "simple_kind (RecordExpense base source expense) = K_STANDARD"
| "simple_kind (RecordTransfer base source target) = K_TRANSFER"

definition simple_journal_command :: "name_uuid \<Rightarrow> simple_command \<Rightarrow> db \<Rightarrow> ledger_error + post_transaction_command" where
  "simple_journal_command uuid5 command db =
     (let base = simple_base command; (source_account_id, target_account_id) = simple_accounts command in
     rbind (get_account db (sm_book_id base) source_account_id) (\<lambda>source.
     rbind (get_account db (sm_book_id base) target_account_id) (\<lambda>target.
     rbind (require_standard_accounts [source, target]) (\<lambda>_.
     rbind (demand PlainValueError (ac_account_type source = account_type_value T_ASSET)) (\<lambda>_.
     rbind (demand PlainValueError (ac_account_type target = account_type_value (simple_target_type command))) (\<lambda>_.
     rbind (demand PlainValueError (ac_account_id source \<noteq> ac_account_id target)) (\<lambda>_.
     rbind (demand PlainValueError
       (ac_asset_code source = sm_asset_code base \<and> ac_asset_code target = sm_asset_code base)) (\<lambda>_.
     let leg = (\<lambda>name account_id side. PostTransactionPosting
           \<lparr>pp_posting_id = simple_posting_id uuid5 (sm_command_id base) name, pp_account_id = account_id,
            pp_asset_code = sm_asset_code base, pp_side = side, pp_amount = sm_amount base\<rparr>)
     in
     rbind (leg ''debit'' target_account_id DEBIT) (\<lambda>debit.
     rbind (leg ''credit'' source_account_id CREDIT) (\<lambda>credit.
     PostTransactionCommand
       \<lparr>pc_book_id = sm_book_id base, pc_command_id = sm_command_id base, pc_transaction_id = sm_transaction_id base,
        pc_expected_stream_version = sm_expected_stream_version base, pc_kind = simple_kind command,
        pc_postings = [debit, credit], pc_effective_at = sm_effective_at base, pc_description_ref = None,
        pc_external_references = []\<rparr>))))))))))"

definition build_simple_plan ::
    "name_uuid \<Rightarrow> command_actor \<Rightarrow> simple_command \<Rightarrow> db \<Rightarrow> locked_book_head \<Rightarrow> ledger_error + ledger_write_plan" where
  "build_simple_plan uuid5 actor command db locked_head =
     rbind (simple_journal_command uuid5 command db) (\<lambda>journal_command.
     build_post_transaction_plan uuid5 actor False journal_command db locked_head)"

definition execute_simple ::
    "(byte list \<Rightarrow> byte list) \<Rightarrow> name_uuid \<Rightarrow> simple_command \<Rightarrow> string \<Rightarrow> command_actor \<Rightarrow> int
      \<Rightarrow> (nat \<Rightarrow> attempt) \<Rightarrow> db \<Rightarrow> (ledger_error + command_outcome) \<times> db" where
  "execute_simple sha256 uuid5 command raw_key actor max_attempts =
     execute_financial sha256 authorize_journal_write
       (plan_handler (simple_as_command command) (build_simple_plan uuid5 actor command))
       raw_key actor max_attempts (simple_as_command command)"

section \<open>Balance adjustments\<close>

record record_adjustment_command =
  aj_book_id :: uuid
  aj_command_id :: uuid
  aj_transaction_id :: uuid
  aj_expected_stream_version :: int
  aj_account_id :: uuid
  aj_asset_code :: string
  aj_expected_balance :: string
  aj_actual_balance :: string
  aj_effective_at :: instant

definition RecordAdjustmentCommand :: "record_adjustment_command \<Rightarrow> ledger_error + record_adjustment_command" where
  "RecordAdjustmentCommand self =
     rbind (require_valid (aj_expected_stream_version self = 0)) (\<lambda>_.
     rbind (require_valid (asset_code_literal (aj_asset_code self))) (\<lambda>_.
     rbind (require_valid (AMOUNT_PATTERN (aj_expected_balance self))) (\<lambda>_.
     rbind (require_valid (AMOUNT_PATTERN (aj_actual_balance self))) (\<lambda>_.
     rbind (require_valid (instant_literal (aj_effective_at self))) (\<lambda>_. Inr self)))))"

definition adjustment_payload :: "record_adjustment_command \<Rightarrow> json" where
  "adjustment_payload self = jobj
     [(''account_id'', juuid (aj_account_id self)), (''actual_balance'', jstr (aj_actual_balance self)),
      (''asset_code'', jstr (aj_asset_code self)), (''effective_at'', jinstant (aj_effective_at self)),
      (''expected_balance'', jstr (aj_expected_balance self)),
      (''expected_stream_version'', JInt (aj_expected_stream_version self)),
      (''transaction_id'', juuid (aj_transaction_id self))]"

definition adjustment_as_command :: "record_adjustment_command \<Rightarrow> command" where
  "adjustment_as_command self = \<lparr>cm_book_id = aj_book_id self, cm_command_id = aj_command_id self,
     cm_operation = ''journal.adjustment.record'', cm_payload = adjustment_payload self\<rparr>"

definition parse_non_negative_balance :: "string \<Rightarrow> asset_policy \<Rightarrow> ledger_error + int" where
  "parse_non_negative_balance raw policy =
     (if \<not> list_ex (\<lambda>c. c \<noteq> CHR ''0'') (filter (\<lambda>c. c \<noteq> CHR ''.'') raw) then Inr 0
      else parse_units policy raw)"

text \<open>The projected balance, and the sum of the postings that belong to a transaction of the Book.\<close>

definition reference_units :: "record_adjustment_command \<Rightarrow> db \<Rightarrow> int" where
  "reference_units command db = sum_list (map posting_signed
     (filter (\<lambda>p. posted_to p = (aj_book_id command, aj_account_id command, aj_asset_code command)
          \<and> (po_book_id p, po_transaction_id p) \<in> transaction_key ` set (journal_transactions db))
        (journal_postings db)))"

definition current_accounting_units :: "record_adjustment_command \<Rightarrow> db \<Rightarrow> ledger_error + int" where
  "current_accounting_units command db =
     (let projected_units = (case find_by balance_key
                (aj_book_id command, aj_account_id command, aj_asset_code command) (account_balances db) of
              None \<Rightarrow> 0 | Some b \<Rightarrow> ab_balance_units b)
      in if projected_units \<noteq> reference_units command db then fail AdjustmentProjectionMismatch
         else Inr (reference_units command db))"

definition adjustment_account :: "record_adjustment_command \<Rightarrow> db \<Rightarrow> ledger_error + account_record" where
  "adjustment_account command db =
     (case filter (\<lambda>a. ac_book_id a = aj_book_id command \<and> ac_asset_code a = aj_asset_code command
              \<and> ac_account_type a = account_type_value T_SYSTEM
              \<and> ac_account_subtype a = Some ''system_adjustment'' \<and> ac_status a = ''active'') (accounts db) of
        [a] \<Rightarrow> get_account db (aj_book_id command) (ac_account_id a)
      | _ \<Rightarrow> fail AdjustmentAccountUnavailable)"

definition adjustment_posting_id :: "name_uuid \<Rightarrow> uuid \<Rightarrow> string \<Rightarrow> uuid" where
  "adjustment_posting_id uuid5 command_id side =
     uuid5 (event_namespace uuid5 ''journal.record-adjustment'') (uuid_str command_id @ '':'' @ side)"

definition is_asset_account :: "account_record \<Rightarrow> bool" where
  "is_asset_account a \<longleftrightarrow> ac_account_type a = account_type_value T_ASSET"

definition reconcilable :: "record_adjustment_command \<Rightarrow> account_record \<Rightarrow> ledger_error + unit" where
  "reconcilable command account =
     rbind (demand AdjustmentAccountUnavailable (ac_status account = ''active'')) (\<lambda>_.
     rbind (demand AdjustmentAccountUnavailable (is_asset_account account
        \<or> ac_account_type account = account_type_value T_LIABILITY
            \<and> ac_account_subtype account = Some ''credit_card'')) (\<lambda>_.
     rbind (demand AdjustmentAccountUnavailable (ac_system_role account \<in> {None, Some ''standard''})) (\<lambda>_.
     demand AdjustmentAccountUnavailable (ac_asset_code account = aj_asset_code command))))"

definition adjustment_journal_command ::
    "name_uuid \<Rightarrow> record_adjustment_command \<Rightarrow> db \<Rightarrow> locked_book_head \<Rightarrow> ledger_error + post_transaction_command" where
  "adjustment_journal_command uuid5 command db locked_head =
     rbind (require_valid (lk_book_id locked_head = aj_book_id command)) (\<lambda>_.
     rbind (get_account db (aj_book_id command) (aj_account_id command)) (\<lambda>account.
     rbind (reconcilable command account) (\<lambda>_.
     rbind (get_asset db (aj_asset_code command)) (\<lambda>asset.
     rbind (demand AdjustmentAccountUnavailable (sa_status asset = ''active'')) (\<lambda>_.
     rbind (asset_policy_of asset) (\<lambda>policy.
     rbind (parse_non_negative_balance (aj_expected_balance command) policy) (\<lambda>expected_units.
     rbind (parse_non_negative_balance (aj_actual_balance command) policy) (\<lambda>actual_units.
     rbind (current_accounting_units command db) (\<lambda>current_accounting.
     let current_units = (if is_asset_account account then current_accounting else - current_accounting) in
     rbind (demand AdjustmentBalanceMismatch (\<not> current_units < 0)) (\<lambda>_.
     rbind (demand AdjustmentBalanceMismatch (current_units = expected_units)) (\<lambda>_.
     rbind (demand AdjustmentBalanceMismatch (actual_units \<noteq> current_units)) (\<lambda>_.
     rbind (adjustment_account command db) (\<lambda>other.
     let difference = actual_units - current_units in
     rbind (rejects MoneyRejected (ScaledUnits \<bar>difference\<bar> (sa_ledger_scale asset))) (\<lambda>scaled.
     let amount = decode scaled;
         (debit_account_id, credit_account_id) =
           (if (0 < difference) = is_asset_account account
            then (aj_account_id command, ac_account_id other)
            else (ac_account_id other, aj_account_id command));
         leg = (\<lambda>name account_id side. PostTransactionPosting
           \<lparr>pp_posting_id = adjustment_posting_id uuid5 (aj_command_id command) name, pp_account_id = account_id,
            pp_asset_code = aj_asset_code command, pp_side = side, pp_amount = amount\<rparr>)
     in
     rbind (leg ''debit'' debit_account_id DEBIT) (\<lambda>debit.
     rbind (leg ''credit'' credit_account_id CREDIT) (\<lambda>credit.
     PostTransactionCommand
       \<lparr>pc_book_id = aj_book_id command, pc_command_id = aj_command_id command,
        pc_transaction_id = aj_transaction_id command,
        pc_expected_stream_version = aj_expected_stream_version command, pc_kind = K_ADJUSTMENT,
        pc_postings = [debit, credit], pc_effective_at = aj_effective_at command, pc_description_ref = None,
        pc_external_references = []\<rparr>))))))))))))))))"

definition build_adjustment_plan ::
    "name_uuid \<Rightarrow> command_actor \<Rightarrow> record_adjustment_command \<Rightarrow> db \<Rightarrow> locked_book_head
      \<Rightarrow> ledger_error + ledger_write_plan" where
  "build_adjustment_plan uuid5 actor command db locked_head =
     rbind (adjustment_journal_command uuid5 command db locked_head) (\<lambda>journal_command.
     build_post_transaction_plan uuid5 actor True journal_command db locked_head)"

definition execute_record_adjustment ::
    "(byte list \<Rightarrow> byte list) \<Rightarrow> name_uuid \<Rightarrow> record_adjustment_command \<Rightarrow> string \<Rightarrow> command_actor \<Rightarrow> int
      \<Rightarrow> (nat \<Rightarrow> attempt) \<Rightarrow> db \<Rightarrow> (ledger_error + command_outcome) \<times> db" where
  "execute_record_adjustment sha256 uuid5 command raw_key actor max_attempts =
     execute_financial sha256 authorize_journal_write
       (plan_handler (adjustment_as_command command) (build_adjustment_plan uuid5 actor command))
       raw_key actor max_attempts (adjustment_as_command command)"

end
