(* ===== verification/Ledger_Verifier.thy ===== *)
theory Ledger_Verifier
  imports Journal_Commands
begin

text \<open>
  The offline verifier: verification.py up to \<open>verify_v2_ledger\<close>. A result set is the table sorted as its ORDER
  BY sorts it (PostgreSQL compares uuid values as numbers; a text column compares through the collation of the
  database, here the key function \<open>collate\<close>). \<open>datetime.isoformat\<close> of a value in the time zone of the session is the
  parameter \<open>isoformat\<close>, and the number of projection failures that are not resolved is a parameter, because their table is not in
  the model. The issues are the strings the code makes.
\<close>

section \<open>Rows and their incremental hash\<close>

text \<open>The state of \<open>_CanonicalRowArrayHasher\<close>: the bytes its SHA-256 object was fed, and the number of rows.\<close>

record row_array_hasher =
  vh_fed :: "byte list"
  vh_row_count :: nat

definition row_hasher :: row_array_hasher where
  "row_hasher = \<lparr>vh_fed = [0x5b], vh_row_count = 0\<rparr>"

definition hasher_add :: "row_array_hasher \<Rightarrow> json \<Rightarrow> json_error + row_array_hasher" where
  "hasher_add self row =
     rbind (canonical_json_bytes row) (\<lambda>bytes.
     Inr \<lparr>vh_fed = vh_fed self @ (if vh_row_count self \<noteq> 0 then [0x2c] else []) @ bytes,
          vh_row_count = vh_row_count self + 1\<rparr>)"

definition hasher_hexdigest :: "(byte list \<Rightarrow> byte list) \<Rightarrow> row_array_hasher \<Rightarrow> string" where
  "hasher_hexdigest sha256 self = bytes_hex (sha256 (vh_fed self @ [0x5d]))"

definition hash_rows :: "(byte list \<Rightarrow> byte list) \<Rightarrow> json list \<Rightarrow> json_error + string" where
  "hash_rows sha256 rows =
     rbind (foldE hasher_add row_hasher rows) (\<lambda>hasher. Inr (hasher_hexdigest sha256 hasher))"

definition journal_transaction_row :: "(instant \<Rightarrow> string) \<Rightarrow> journal_transaction_record \<Rightarrow> json" where
  "journal_transaction_row isoformat row = jobj
     [(''book_id'', juuid (jt_book_id row)), (''effective_at'', jstr (isoformat (jt_effective_at row))),
      (''kind'', jstr (jt_transaction_kind row)), (''source_event_id'', juuid (jt_source_event_id row)),
      (''source_position'', JInt (jt_source_position row)), (''transaction_id'', juuid (jt_transaction_id row))]"

definition journal_posting_row :: "journal_posting_record \<Rightarrow> json" where
  "journal_posting_row row = jobj
     [(''account_id'', juuid (po_account_id row)), (''asset_code'', jstr (po_asset_code row)),
      (''book_id'', juuid (po_book_id row)), (''posting_id'', juuid (po_posting_id row)),
      (''position'', JInt (po_posting_position row)), (''side'', jstr (posting_side_value (po_side row))),
      (''transaction_id'', juuid (po_transaction_id row)), (''units'', jstr (int_str (po_units row)))]"

definition balance_row :: "account_balance_record \<Rightarrow> json" where
  "balance_row row = jobj
     [(''account_id'', juuid (ab_account_id row)), (''asset_code'', jstr (ab_asset_code row)),
      (''balance_units'', jstr (int_str (ab_balance_units row))), (''book_id'', juuid (ab_book_id row))]"

definition credit_card_row :: "credit_card_record \<Rightarrow> json" where
  "credit_card_row row = jobj
     [(''asset_code'', jstr (ct_asset_code row)), (''book_id'', juuid (ct_book_id row)),
      (''card_account_id'', juuid (ct_card_account_id row)),
      (''counter_account_id'', juuid (ct_counter_account_id row)), (''intent'', jstr (ct_intent row)),
      (''original_transaction_id'', jopt juuid (ct_original_transaction_id row)),
      (''transaction_id'', juuid (ct_transaction_id row)), (''units'', jstr (int_str (ct_units row)))]"

section \<open>Events\<close>

definition verify_stored_event :: "(byte list \<Rightarrow> byte list) \<Rightarrow> ledger_event_record \<Rightarrow> string list" where
  "verify_stored_event sha256 stored =
     (case validate_stored (le_event_type stored) (le_event_schema_version stored) (le_payload stored) of
        Inl _ \<Rightarrow> [''invalid_event_contract:'' @ uuid_str (le_event_id stored)]
      | Inr _ \<Rightarrow>
          (case rbind (EventHashEnvelope (event_envelope stored))
                  (\<lambda>envelope. event_hash sha256 envelope (model_dump (le_payload stored))) of
             Inl _ \<Rightarrow> [''invalid_event_contract:'' @ uuid_str (le_event_id stored)]
           | Inr computed_hash \<Rightarrow>
               if computed_hash \<noteq> le_event_hash stored then [''event_hash_mismatch:'' @ uuid_str (le_event_id stored)]
               else []))"

text \<open>The dictionary of heads by Book is the table, read by its primary key.\<close>

definition load_book_heads :: "db \<Rightarrow> (string \<times> string) list" where
  "load_book_heads db = map (\<lambda>head. (uuid_str (hd_book_id head), bytes_hex (hd_last_hash head)))
     (sort_key hd_book_id (book_event_heads db))"

definition finish_book_event_state ::
    "uuid \<Rightarrow> int \<Rightarrow> byte list \<Rightarrow> book_event_head_record option \<Rightarrow> string list" where
  "finish_book_event_state book_id event_count previous_hash head =
     (case head of
        None \<Rightarrow> if event_count \<noteq> 0 then [''events_without_book_head:'' @ uuid_str book_id] else []
      | Some h \<Rightarrow>
          (if hd_last_position h \<noteq> event_count then [''book_head_position_mismatch:'' @ uuid_str book_id] else [])
          @ (if hd_last_hash h \<noteq> previous_hash then [''book_head_hash_mismatch:'' @ uuid_str book_id] else []))"

text \<open>The local variables of the loop over the events.\<close>

record event_walk =
  ew_total_count :: int
  ew_current_book_id :: "uuid option"
  ew_current_head :: "book_event_head_record option"
  ew_current_count :: int
  ew_previous_hash :: "byte list"
  ew_expected_position :: int
  ew_heads_without_events :: "uuid list"
  ew_issues :: "string list"

definition finish_walk :: "event_walk \<Rightarrow> string list" where
  "finish_walk w =
     (case ew_current_book_id w of
        None \<Rightarrow> []
      | Some book_id \<Rightarrow> finish_book_event_state book_id (ew_current_count w) (ew_previous_hash w) (ew_current_head w))"

definition enter_book :: "book_event_head_record list \<Rightarrow> uuid \<Rightarrow> event_walk \<Rightarrow> event_walk" where
  "enter_book heads book_id w =
     (if ew_current_book_id w \<noteq> Some book_id
      then w\<lparr>ew_issues := ew_issues w @ finish_walk w, ew_current_book_id := Some book_id,
             ew_current_head := find_by hd_book_id book_id heads,
             ew_heads_without_events := removeAll book_id (ew_heads_without_events w),
             ew_current_count := 0, ew_previous_hash := ZERO_HASH, ew_expected_position := 1\<rparr>
      else w)"

definition verify_event_step ::
    "(byte list \<Rightarrow> byte list) \<Rightarrow> book_event_head_record list \<Rightarrow> event_walk \<Rightarrow> ledger_event_record \<Rightarrow> event_walk" where
  "verify_event_step sha256 heads w0 stored =
     (let w1 = enter_book heads (le_book_id stored) w0;
          w = w1\<lparr>ew_total_count := ew_total_count w1 + 1, ew_current_count := ew_current_count w1 + 1\<rparr>
      in case ew_current_head w of
           None \<Rightarrow> w
         | Some _ \<Rightarrow> w\<lparr>ew_issues := ew_issues w
              @ (if le_book_position stored \<noteq> ew_expected_position w
                 then [''book_position_gap:'' @ uuid_str (le_book_id stored)] else [])
              @ (if le_previous_hash stored \<noteq> ew_previous_hash w
                 then [''previous_hash_mismatch:'' @ uuid_str (le_event_id stored)] else [])
              @ verify_stored_event sha256 stored,
              ew_previous_hash := le_event_hash stored, ew_expected_position := ew_expected_position w + 1\<rparr>)"

definition start_walk :: "book_event_head_record list \<Rightarrow> event_walk" where
  "start_walk heads = \<lparr>ew_total_count = 0, ew_current_book_id = None, ew_current_head = None, ew_current_count = 0,
     ew_previous_hash = ZERO_HASH, ew_expected_position = 1, ew_heads_without_events = map hd_book_id heads, ew_issues = []\<rparr>"

definition events_in_order :: "db \<Rightarrow> ledger_event_record list" where
  "events_in_order db = sort_key (\<lambda>e. (le_book_id e, le_book_position e)) (ledger_events db)"

definition verify_events :: "(byte list \<Rightarrow> byte list) \<Rightarrow> db \<Rightarrow> int \<times> string list" where
  "verify_events sha256 db =
     (let heads = book_event_heads db;
          w = foldl (verify_event_step sha256 heads) (start_walk heads) (events_in_order db)
      in (ew_total_count w, ew_issues w @ finish_walk w
            @ concat (map (\<lambda>book_id. finish_book_event_state book_id 0 ZERO_HASH (find_by hd_book_id book_id heads))
                (ew_heads_without_events w))))"

section \<open>Stream heads\<close>

text \<open>The event of rank 1 of its stream: the one with the highest position.\<close>

definition terminal_event :: "db \<Rightarrow> uuid \<Rightarrow> stream_key \<Rightarrow> ledger_event_record option" where
  "terminal_event db book_id key =
     (case sort_key (\<lambda>e. - le_book_position e) (in_stream key (book_events db book_id)) of
        [] \<Rightarrow> None | e # _ \<Rightarrow> Some e)"

definition stream_head_issue :: "db \<Rightarrow> event_stream_head_record \<Rightarrow> string list" where
  "stream_head_issue db head =
     (if map_option (\<lambda>e. (le_event_id e, le_stream_version e, le_book_position e))
           (terminal_event db (sh_book_id head) (sh_stream_type head, sh_stream_id head))
         \<noteq> Some (sh_last_event_id head, sh_last_version head, sh_last_book_position head)
      then [''stream_head_mismatch:'' @ uuid_str (sh_book_id head) @ '':'' @ sh_stream_type head @ '':''
              @ uuid_str (sh_stream_id head)]
      else [])"

definition verify_stream_heads :: "db \<Rightarrow> int \<times> string list" where
  "verify_stream_heads db =
     (int (length (event_stream_heads db)), concat (map (stream_head_issue db) (event_stream_heads db)))"

section \<open>Journal, balances and cards\<close>

definition hash_journal_transactions ::
    "(instant \<Rightarrow> string) \<Rightarrow> db \<Rightarrow> row_array_hasher \<Rightarrow> json_error + int \<times> row_array_hasher" where
  "hash_journal_transactions isoformat db hasher =
     (let rows = sort_key (\<lambda>t. (jt_book_id t, jt_transaction_id t)) (journal_transactions db)
      in rbind (foldE (\<lambda>h row. hasher_add h (journal_transaction_row isoformat row)) hasher rows) (\<lambda>hasher.
         Inr (int (length rows), hasher)))"

record posting_walk =
  pw_current_transaction :: "(uuid \<times> uuid) option"
  pw_net_by_asset :: "string counter"
  pw_issues :: "string list"

definition finish_transaction :: "posting_walk \<Rightarrow> string list" where
  "finish_transaction w =
     (case pw_current_transaction w of
        None \<Rightarrow> []
      | Some (book_id, transaction_id) \<Rightarrow>
          map (\<lambda>(asset_code, _). ''unbalanced_journal:'' @ uuid_str book_id @ '':'' @ uuid_str transaction_id @ '':'' @ asset_code)
            (filter (\<lambda>(_, net_units). net_units \<noteq> 0) (pw_net_by_asset w)))"

definition posting_transaction :: "journal_posting_record \<Rightarrow> uuid \<times> uuid" where
  "posting_transaction posting = (po_book_id posting, po_transaction_id posting)"

definition posting_step :: "posting_walk \<Rightarrow> journal_posting_record \<Rightarrow> posting_walk" where
  "posting_step w0 posting =
     (let transaction_key = posting_transaction posting;
          w = (if Some transaction_key \<noteq> pw_current_transaction w0
               then w0\<lparr>pw_issues := pw_issues w0 @ finish_transaction w0,
                       pw_current_transaction := Some transaction_key, pw_net_by_asset := []\<rparr>
               else w0);
          direction = (if posting_side_value (po_side posting) = ''debit'' then 1 else -1)
      in w\<lparr>pw_net_by_asset := cadd (po_asset_code posting) (direction * po_units posting) (pw_net_by_asset w)\<rparr>)"

definition postings_in_order :: "db \<Rightarrow> journal_posting_record list" where
  "postings_in_order db = 
     sort_key (\<lambda>p. (po_book_id p, po_transaction_id p, po_posting_position p)) (journal_postings db)"

definition hash_and_verify_journal_postings ::
    "db \<Rightarrow> row_array_hasher \<Rightarrow> json_error + int \<times> string list \<times> row_array_hasher" where
  "hash_and_verify_journal_postings db journal_hasher =
     (let rows = postings_in_order db;
          w = foldl posting_step \<lparr>pw_current_transaction = None, pw_net_by_asset = [], pw_issues = []\<rparr> rows
      in rbind (foldE (\<lambda>h row. hasher_add h (journal_posting_row row)) journal_hasher rows) (\<lambda>hasher.
         Inr (int (length rows), pw_issues w @ finish_transaction w, hasher)))"

text \<open>
  The full outer join of the balance rows with the sums of the postings: every balance row, and every key
  that has postings and no balance row. Each row is the key, the balance row if any, and the sum if any.
\<close>

definition computed_sum :: "db \<Rightarrow> uuid \<times> uuid \<times> string \<Rightarrow> int option" where
  "computed_sum db key =
     (if key \<in> set (map posted_to (journal_postings db))
      then Some (total_for posted_to posting_signed key (journal_postings db)) else None)"

definition joined_balances ::
    "db \<Rightarrow> ((uuid \<times> uuid \<times> string) \<times> account_balance_record option \<times> int option) list" where
  "joined_balances db =
     map (\<lambda>balance. (balance_key balance, Some balance, computed_sum db (balance_key balance))) (account_balances db)
     @ map (\<lambda>key. (key, None, computed_sum db key))
         (filter (\<lambda>key. key \<notin> set (map balance_key (account_balances db)))
           (remdups (map posted_to (journal_postings db))))"

definition balance_issue ::
    "(uuid \<times> uuid \<times> string) \<times> account_balance_record option \<times> int option \<Rightarrow> string list" where
  "balance_issue row =
     (case row of ((book_id, account_id, asset_code), balance, computed_units) \<Rightarrow>
        let stored_units = (case balance of None \<Rightarrow> 0 | Some b \<Rightarrow> ab_balance_units b);
            computed = (case computed_units of None \<Rightarrow> 0 | Some n \<Rightarrow> n)
        in if stored_units \<noteq> computed
           then [''balance_projection_mismatch:'' @ uuid_str book_id @ '':'' @ uuid_str account_id @ '':'' @ asset_code]
           else [])"

definition balances_in_order ::
    "(string \<Rightarrow> nat list) \<Rightarrow> db \<Rightarrow> ((uuid \<times> uuid \<times> string) \<times> account_balance_record option \<times> int option) list" where
  "balances_in_order collate db =
     sort_key (\<lambda>((book_id, account_id, asset_code), _). (book_id, account_id, collate asset_code)) (joined_balances db)"

definition hash_and_verify_balances ::
    "(string \<Rightarrow> nat list) \<Rightarrow> db \<Rightarrow> row_array_hasher \<Rightarrow> json_error + int \<times> string list \<times> row_array_hasher" where
  "hash_and_verify_balances collate db balance_hasher =
     (let rows = balances_in_order collate db;
          balances = List.map_filter (\<lambda>(_, balance, _). balance) rows
      in rbind (foldE (\<lambda>h balance. hasher_add h (balance_row balance)) balance_hasher balances) (\<lambda>hasher.
         Inr (int (length balances), concat (map balance_issue rows), hasher)))"

definition hash_credit_cards :: "db \<Rightarrow> row_array_hasher \<Rightarrow> json_error + int \<times> row_array_hasher" where
  "hash_credit_cards db hasher =
     (let rows = sort_key (\<lambda>c. (ct_book_id c, ct_source_position c)) (credit_card_transactions db)
      in rbind (foldE (\<lambda>h row. hasher_add h (credit_card_row row)) hasher rows) (\<lambda>hasher.
         Inr (int (length rows), hasher)))"

section \<open>The report\<close>

record ledger_verification_report =
  vr_status :: string
  vr_issues :: "string list"
  vr_counts :: "(string \<times> int) list"
  vr_terminal_book_hashes :: "(string \<times> string) list"
  vr_projection_hashes :: "(string \<times> string) list"

definition verify_v2_ledger ::
    "(byte list \<Rightarrow> byte list) \<Rightarrow> (instant \<Rightarrow> string) \<Rightarrow> (string \<Rightarrow> nat list) \<Rightarrow> int \<Rightarrow> db
      \<Rightarrow> json_error + ledger_verification_report" where
  "verify_v2_ledger sha256 isoformat collate failure_count db =
     (let terminal_hashes = load_book_heads db;
          (events, event_issues) = verify_events sha256 db;
          (stream_heads, stream_issues) = verify_stream_heads db
      in rbind (hash_journal_transactions isoformat db row_hasher) (\<lambda>(transactions, journal_hasher).
         rbind (hash_and_verify_journal_postings db journal_hasher) (\<lambda>(postings, journal_issues, journal_hasher).
         rbind (hash_and_verify_balances collate db row_hasher) (\<lambda>(balances, balance_issues, balance_hasher).
         rbind (hash_credit_cards db row_hasher) (\<lambda>(cards, credit_card_hasher).
         let issues = event_issues @ stream_issues @ journal_issues @ balance_issues
               @ (if failure_count \<noteq> 0 then [''unresolved_projection_failures''] else [])
         in Inr \<lparr>vr_status = (if issues = [] then ''PASS'' else ''FAIL''),
              vr_issues = sorted_codes issues,
              vr_counts = [(''account_balances'', balances), (''books'', int (length (book_event_heads db))),
                (''credit_card_transactions'', cards), (''journal_postings'', postings),
                (''journal_transactions'', transactions), (''ledger_events'', events),
                (''stream_heads'', stream_heads), (''unresolved_projection_failures'', failure_count)],
              vr_terminal_book_hashes = terminal_hashes,
              vr_projection_hashes = [(''balances'', hasher_hexdigest sha256 balance_hasher),
                (''credit_cards'', hasher_hexdigest sha256 credit_card_hasher),
                (''journal'', hasher_hexdigest sha256 journal_hasher)]\<rparr>)))))"

section \<open>The incremental hash is the hash of the array\<close>

lemma join_snoc: "join s (xs @ [x]) = (if xs = [] then x else join s xs @ s @ x)"
  by (induction s xs rule: join.induct) simp_all

lemma utf8_Nil: "utf8 [] = []"
  by (simp add: utf8_def)

lemma utf8_mark: "c < 0x80 \<Longrightarrow> utf8 (c # s) = word_of_nat c # utf8 s"
  by (simp add: utf8_def utf8_units_def)

lemma prove_items_append: "prove_items (xs @ ys) = rbind (prove_items xs) (\<lambda>_. prove_items ys)"
  by (induction xs) (simp_all add: rbind_assoc)

lemma hasher_add_row: "hasher_add \<lparr>vh_fed = fed, vh_row_count = n\<rparr> row = rbind (prove_json_value row)
    (\<lambda>_. Inr \<lparr>vh_fed = fed @ (if n \<noteq> 0 then [0x2c] else []) @ utf8 (dumps row), vh_row_count = n + 1\<rparr>)"
  by (simp add: hasher_add_def canonical_json_bytes_def rbind_assoc)

lemma hasher_fed: "foldE hasher_add row_hasher rows = rbind (prove_items rows)
    (\<lambda>_. Inr \<lparr>vh_fed = 0x5b # utf8 (join [0x2c] (map dumps rows)), vh_row_count = length rows\<rparr>)"
proof (induction rows rule: rev_induct)
  case Nil
  show ?case by (simp add: row_hasher_def utf8_def)
next
  case (snoc row rows)
  have items: "prove_items [row] = prove_json_value row" by (cases "prove_json_value row") (simp_all add: rbind_def)
  show ?case
    by (cases "prove_items rows"; cases "prove_json_value row")
      (simp_all add: foldE_snoc snoc prove_items_append items hasher_add_row join_snoc
        utf8_append utf8_mark utf8_Nil)
qed

text \<open>
  Property C38: hashing row by row is hashing the array. The incremental hasher of the verifier gives the
  digest of the canonical JSON of the list of its rows, and raises exactly when that list cannot be encoded.
\<close>

theorem hash_rows_is_array_hash:
  "hash_rows sha256 rows = rbind (canonical_json_bytes (JList rows)) (\<lambda>bytes. Inr (bytes_hex (sha256 bytes)))"
  by (cases "prove_items rows") (simp_all add: hash_rows_def hasher_fed canonical_json_bytes_def hasher_hexdigest_def
      utf8_append utf8_mark utf8_Nil)

section \<open>The walk over the events\<close>

text \<open>What the loop asks of the events of a Book, and of its head when it leaves the Book.\<close>

definition run_ok :: "(byte list \<Rightarrow> byte list) \<Rightarrow> ledger_event_record list \<Rightarrow> bool" where
  "run_ok sha256 log \<longleftrightarrow> numbered 0 (map le_book_position log) \<and> chained ZERO_HASH log
     \<and> (\<forall>e\<in>set log. verify_stored_event sha256 e = [])"

definition book_verified :: "(byte list \<Rightarrow> byte list) \<Rightarrow> book_event_head_record list \<Rightarrow> ledger_event_record list \<Rightarrow> uuid \<Rightarrow> bool" where
  "book_verified sha256 heads es b \<longleftrightarrow>
     (let log = filter (\<lambda>e. le_book_id e = b) es
      in case find_by hd_book_id b heads of
           None \<Rightarrow> log = []
         | Some h \<Rightarrow> run_ok sha256 log \<and> hd_last_position h = int (length log) \<and> hd_last_hash h = last_hash ZERO_HASH log)"

lemma run_ok_simps [simp]:
  "run_ok sha256 []"
  "run_ok sha256 (log @ [e]) \<longleftrightarrow> run_ok sha256 log \<and> le_book_position e = int (length log) + 1
     \<and> le_previous_hash e = last_hash ZERO_HASH log \<and> verify_stored_event sha256 e = []"
  by (auto simp: run_ok_def numbered_append chained_append)

lemma finish_ok:
  "finish_book_event_state b n h head = [] \<longleftrightarrow>
     (case head of None \<Rightarrow> n = 0 | Some r \<Rightarrow> hd_last_position r = n \<and> hd_last_hash r = h)"
  by (auto simp: finish_book_event_state_def split: option.splits)

definition others_verified ::
    "(byte list \<Rightarrow> byte list) \<Rightarrow> book_event_head_record list \<Rightarrow> ledger_event_record list \<Rightarrow> uuid \<Rightarrow> bool" where
  "others_verified sha256 heads es b \<longleftrightarrow>
     (\<forall>b'\<in>le_book_id ` set es. b' \<noteq> b \<longrightarrow> book_verified sha256 heads es b')"

text \<open>The loop has read \<open>es\<close> and is inside the Book \<open>b\<close>.\<close>

definition inside ::
    "(byte list \<Rightarrow> byte list) \<Rightarrow> book_event_head_record list \<Rightarrow> ledger_event_record list \<Rightarrow> uuid \<Rightarrow> event_walk \<Rightarrow> bool" where
  "inside sha256 heads es b w \<longleftrightarrow>
     (let log = filter (\<lambda>e. le_book_id e = b) es; head = find_by hd_book_id b heads in
      ew_total_count w = int (length es) \<and> ew_current_book_id w = Some b \<and> ew_current_head w = head
      \<and> ew_current_count w = int (length log)
      \<and> (head \<noteq> None \<longrightarrow> ew_previous_hash w = last_hash ZERO_HASH log \<and> ew_expected_position w = int (length log) + 1)
      \<and> ew_heads_without_events w = filter (\<lambda>b'. b' \<notin> insert b (le_book_id ` set es)) (map hd_book_id heads)
      \<and> (ew_issues w = [] \<longleftrightarrow> others_verified sha256 heads es b \<and> (head \<noteq> None \<longrightarrow> run_ok sha256 log)))"

lemma others_verified_snoc:
  "others_verified sha256 heads (es @ [e]) (le_book_id e) \<longleftrightarrow> others_verified sha256 heads es (le_book_id e)"
  by (auto simp: others_verified_def book_verified_def)

lemma ball_except: "(\<forall>x\<in>A. P x) \<longleftrightarrow> (\<forall>x\<in>A. x \<noteq> b \<longrightarrow> P x) \<and> (b \<in> A \<longrightarrow> P b)"
  by metis

lemma all_verified:
  "(\<forall>b'\<in>le_book_id ` set es. book_verified sha256 heads es b') \<longleftrightarrow>
     others_verified sha256 heads es b \<and> (b \<in> le_book_id ` set es \<longrightarrow> book_verified sha256 heads es b)"
  unfolding others_verified_def by (rule ball_except)

lemma inside_finish:
  assumes "inside sha256 heads es b w" "b \<in> le_book_id ` set es"
  shows "ew_issues w @ finish_walk w = [] \<longleftrightarrow> (\<forall>b'\<in>le_book_id ` set es. book_verified sha256 heads es b')"
proof -
  have "filter (\<lambda>e. le_book_id e = b) es \<noteq> []" using assms(2) by (auto simp: filter_empty_conv)
  with assms show ?thesis
    unfolding all_verified [of _ _ _ b]
    by (auto simp: inside_def finish_walk_def finish_ok book_verified_def Let_def split: option.splits)
qed

lemma enter_inside:
  assumes "inside sha256 heads es b w" "b \<in> le_book_id ` set es" "b' \<noteq> b \<Longrightarrow> b' \<notin> le_book_id ` set es"
  shows "inside sha256 heads es b' (enter_book heads b' w)"
proof (cases "b' = b")
  case True
  with assms(1) show ?thesis by (simp add: enter_book_def inside_def Let_def)
next
  case False
  then have no: "b' \<notin> le_book_id ` set es" using assms(3) by blast
  then have log: "filter (\<lambda>e. le_book_id e = b') es = []" by (auto simp: filter_empty_conv)
  have others: "others_verified sha256 heads es b' \<longleftrightarrow> ew_issues w = [] \<and> finish_walk w = []"
    unfolding append_is_Nil_conv [symmetric] inside_finish [OF assms(1,2)] all_verified [of _ _ _ b'] using no by simp
  have cur: "ew_current_book_id w \<noteq> Some b'" "ew_total_count w = int (length es)"
    and without: "ew_heads_without_events w = filter (\<lambda>c. c \<notin> insert b (le_book_id ` set es)) (map hd_book_id heads)"
    using assms(1) False by (simp_all add: inside_def Let_def)
  have "removeAll b' (ew_heads_without_events w) = filter (\<lambda>c. c \<notin> insert b' (le_book_id ` set es)) (map hd_book_id heads)"
    unfolding without removeAll_filter_not_eq filter_filter using assms(2) by (intro filter_cong) auto
  with cur show ?thesis
    by (simp add: enter_book_def inside_def log others)
qed

lemma enter_first: "inside sha256 heads [] b (enter_book heads b (start_walk heads))"
  by (simp add: enter_book_def start_walk_def inside_def finish_walk_def others_verified_def removeAll_filter_not_eq eq_commute [of b])

lemma step_inside:
  assumes "inside sha256 heads es (le_book_id e) (enter_book heads (le_book_id e) w)"
  shows "inside sha256 heads (es @ [e]) (le_book_id e) (verify_event_step sha256 heads w e)"
  using assms unfolding inside_def Let_def verify_event_step_def others_verified_snoc
  by (cases "find_by hd_book_id (le_book_id e) heads") (auto split: if_splits)

lemma sorted_map_fst: "sorted (map (\<lambda>x. (f x, g x)) xs) \<Longrightarrow> sorted (map f xs)"
  by (induction xs) (auto simp: less_eq_prod_def less_imp_le)

lemma sorted_first: "sorted (map f (sort_key (\<lambda>x. (f x, g x)) xs))"
  by (rule sorted_map_fst [where g = g]) simp

lemma sorted_keys_contiguous:
  assumes "sorted (map key (xs @ [x]))" "xs \<noteq> []" "key x \<noteq> key (last xs)"
  shows "key x \<notin> key ` set xs"
proof
  assume "key x \<in> key ` set xs"
  then obtain z where z: "z \<in> set xs" "key x = key z" by blast
  from assms(2) obtain ys y where ys: "xs = ys @ [y]" using rev_exhaust by blast
  have "key z \<le> key y" using assms(1) z(1) by (auto simp: ys sorted_append)
  moreover have "key y \<le> key x" using assms(1) by (simp add: ys sorted_append)
  ultimately show False using z(2) assms(3) by (auto simp: ys)
qed

lemma walk_inside:
  assumes "sorted (map le_book_id es)" "es \<noteq> []"
  shows "inside sha256 heads es (le_book_id (last es)) (foldl (verify_event_step sha256 heads) (start_walk heads) es)"
  using assms
proof (induction es rule: rev_induct)
  case Nil
  then show ?case by simp
next
  case (snoc e es)
  show ?case
  proof (cases "es = []")
    case True
    with step_inside [of sha256 heads "[]"] enter_first show ?thesis by simp
  next
    case False
    have sorted: "sorted (map le_book_id es)" using snoc.prems by (simp add: sorted_append)
    have last: "le_book_id (last es) \<in> le_book_id ` set es" using False by simp
    have "le_book_id e \<notin> le_book_id ` set es" if "le_book_id e \<noteq> le_book_id (last es)"
      using sorted_keys_contiguous [OF snoc.prems(1) False that] .
    then have "inside sha256 heads es (le_book_id e)
        (enter_book heads (le_book_id e) (foldl (verify_event_step sha256 heads) (start_walk heads) es))"
      by (rule enter_inside [OF snoc.IH [OF sorted False] last])
    then show ?thesis using step_inside by simp
  qed
qed

lemma all_in_parts:
  "(\<And>x. x \<notin> A \<Longrightarrow> x \<notin> B \<Longrightarrow> P x) \<Longrightarrow> (\<forall>x\<in>A. P x) \<and> (\<forall>x\<in>B. x \<notin> A \<longrightarrow> P x) \<longleftrightarrow> (\<forall>x. P x)"
  by blast

lemma verify_events_decides:
  "fst (verify_events sha256 db) = int (length (ledger_events db))"
  "snd (verify_events sha256 db) = [] \<longleftrightarrow> (\<forall>b. book_verified sha256 (book_event_heads db) (events_in_order db) b)"
proof -
  let ?es = "events_in_order db" and ?heads = "book_event_heads db"
  let ?w = "foldl (verify_event_step sha256 ?heads) (start_walk ?heads) ?es"
  have sorted: "sorted (map le_book_id ?es)" unfolding events_in_order_def by (rule sorted_first)
  have len: "length ?es = length (ledger_events db)" by (simp add: events_in_order_def)
  have w: "ew_total_count ?w = int (length ?es) \<and> (ew_issues ?w @ finish_walk ?w = [] \<longleftrightarrow>
        (\<forall>b\<in>le_book_id ` set ?es. book_verified sha256 ?heads ?es b))
      \<and> ew_heads_without_events ?w = filter (\<lambda>b. b \<notin> le_book_id ` set ?es) (map hd_book_id ?heads)"
  proof (cases "?es = []")
    case True
    then show ?thesis by (simp add: start_walk_def finish_walk_def)
  next
    case False
    then have mem: "le_book_id (last ?es) \<in> le_book_id ` set ?es" by simp
    note inside = walk_inside [OF sorted False, of sha256 ?heads]
    from inside_finish [OF inside mem] inside mem show ?thesis by (simp add: inside_def Let_def insert_absorb)
  qed
  then show "fst (verify_events sha256 db) = int (length (ledger_events db))"
    by (simp add: verify_events_def Let_def len)
  have empty: "finish_book_event_state b 0 ZERO_HASH (find_by hd_book_id b ?heads) = [] \<longleftrightarrow> book_verified sha256 ?heads ?es b"
    if "b \<notin> le_book_id ` set ?es" for b
  proof -
    have "filter (\<lambda>e. le_book_id e = b) ?es = []" using that by (auto simp: filter_empty_conv)
    then show ?thesis by (simp add: finish_ok book_verified_def split: option.splits)
  qed
  have headless: "book_verified sha256 ?heads ?es b" if "b \<notin> le_book_id ` set ?es" "b \<notin> hd_book_id ` set ?heads" for b
  proof -
    have "find_by hd_book_id b ?heads = None" using that(2) by (auto simp: find_by_def find_None_iff)
    then show ?thesis using empty [OF that(1)] by (simp add: finish_ok)
  qed
  have "snd (verify_events sha256 db) = [] \<longleftrightarrow> (\<forall>b\<in>le_book_id ` set ?es. book_verified sha256 ?heads ?es b)
      \<and> (\<forall>b\<in>hd_book_id ` set ?heads. b \<notin> le_book_id ` set ?es \<longrightarrow> book_verified sha256 ?heads ?es b)"
  proof -
    have "snd (verify_events sha256 db) = [] \<longleftrightarrow> ew_issues ?w @ finish_walk ?w = []
        \<and> (\<forall>b\<in>set (ew_heads_without_events ?w). finish_book_event_state b 0 ZERO_HASH (find_by hd_book_id b ?heads) = [])"
      by (simp add: verify_events_def Let_def conj_assoc)
    also have "\<dots> \<longleftrightarrow> (\<forall>b\<in>le_book_id ` set ?es. book_verified sha256 ?heads ?es b)
        \<and> (\<forall>b\<in>set (ew_heads_without_events ?w). book_verified sha256 ?heads ?es b)"
      using w empty by simp
    also have "set (ew_heads_without_events ?w) = hd_book_id ` set ?heads - le_book_id ` set ?es"
      using w by auto
    finally show ?thesis by (simp only: Ball_def Diff_iff imp_conjL)
  qed
  also have "\<dots> \<longleftrightarrow> (\<forall>b. book_verified sha256 ?heads ?es b)" by (rule all_in_parts) (rule headless)
  finally show "snd (verify_events sha256 db) = [] \<longleftrightarrow> (\<forall>b. book_verified sha256 ?heads ?es b)" .
qed

text \<open>Read in order of Book and position, the events of a Book come in order of position.\<close>

lemma sort_key_const:
  "\<forall>x\<in>set xs. k x = (c, f x) \<Longrightarrow> sort_key k xs = sort_key f xs"
proof (induction xs)
  case Nil
  then show ?case by simp
next
  case (Cons x xs)
  have "insort_key k x ys = insort_key f x ys" if "\<forall>y\<in>set ys. k y = (c, f y)" for ys
    using that Cons.prems by (induction ys) auto
  with Cons show ?case by simp
qed

lemma book_in_order: "filter (\<lambda>e. le_book_id e = b) (events_in_order db) = sort_key le_book_position (book_events db b)"
  unfolding events_in_order_def filter_sort book_events_def by (rule sort_key_const [where c = b]) simp

section \<open>The walk over the postings\<close>

definition nets_to_zero :: "journal_posting_record list \<Rightarrow> uuid \<times> uuid \<Rightarrow> bool" where
  "nets_to_zero rows k \<longleftrightarrow>
     (\<forall>asset. total_for po_asset_code posting_signed asset (filter (\<lambda>p. posting_transaction p = k) rows) = 0)"

definition inside_transaction :: "journal_posting_record list \<Rightarrow> posting_walk \<Rightarrow> bool" where
  "inside_transaction rows w \<longleftrightarrow> rows \<noteq> [] \<and> (let k = posting_transaction (last rows) in
     pw_current_transaction w = Some k
     \<and> pw_net_by_asset w = ctally po_asset_code posting_signed (filter (\<lambda>p. posting_transaction p = k) rows) []
     \<and> (pw_issues w = [] \<longleftrightarrow> (\<forall>k'\<in>posting_transaction ` set rows. k' \<noteq> k \<longrightarrow> nets_to_zero rows k')))"

lemma finish_transaction_ok:
  assumes "inside_transaction rows w"
  shows "finish_transaction w = [] \<longleftrightarrow> nets_to_zero rows (posting_transaction (last rows))"
    and "pw_issues w @ finish_transaction w = [] \<longleftrightarrow> (\<forall>k\<in>posting_transaction ` set rows. nets_to_zero rows k)"
proof -
  let ?k = "posting_transaction (last rows)"
  let ?log = "filter (\<lambda>p. posting_transaction p = ?k) rows"
  let ?net = "ctally po_asset_code posting_signed ?log []"
  have distinct: "distinct (map fst ?net)" by (simp add: counter_simps)
  have net: "pw_net_by_asset w = ?net" and cur: "pw_current_transaction w = Some ?k"
    using assms by (simp_all add: inside_transaction_def Let_def)
  have "finish_transaction w = [] \<longleftrightarrow> \<not> list_ex (\<lambda>(_, n). n \<noteq> 0) ?net"
    by (simp add: finish_transaction_def net cur filter_empty_conv list_ex_iff prod.case_eq_if)
  also have "\<dots> \<longleftrightarrow> (\<forall>a\<in>ckeys ?net. cget ?net a = 0)"
    unfolding list_ex_values [OF distinct, of "\<lambda>n. n \<noteq> 0"]
    by (simp only: Bex_def Ball_def not_ex de_Morgan_conj imp_conv_disj not_not)
  also have "\<dots> \<longleftrightarrow> nets_to_zero rows ?k"
  proof -
    have keys: "ckeys ?net = po_asset_code ` set ?log" and get: "cget ?net a = total_for po_asset_code posting_signed a ?log" for a
      by (simp_all add: counter_simps)
    have "total_for po_asset_code posting_signed a ?log = 0" if "a \<notin> po_asset_code ` set ?log" for a
      using that by (rule total_for_notin)
    then show ?thesis unfolding nets_to_zero_def keys get Ball_def by metis
  qed
  finally show fin: "finish_transaction w = [] \<longleftrightarrow> nets_to_zero rows ?k" .
  have mem: "?k \<in> posting_transaction ` set rows" using assms by (simp add: inside_transaction_def)
  have issues: "pw_issues w = [] \<longleftrightarrow> (\<forall>k'\<in>posting_transaction ` set rows. k' \<noteq> ?k \<longrightarrow> nets_to_zero rows k')"
    using assms by (simp add: inside_transaction_def Let_def)
  show "pw_issues w @ finish_transaction w = [] \<longleftrightarrow> (\<forall>k\<in>posting_transaction ` set rows. nets_to_zero rows k)"
    unfolding append_is_Nil_conv issues fin ball_except [of "posting_transaction ` set rows" "nets_to_zero rows" ?k]
    using mem by simp
qed

lemma direction_signed: "(if posting_side_value (po_side p) = ''debit'' then 1 else -1) * po_units p = posting_signed p"
  by (simp add: posting_signed_def split: posting_side.split)

lemma nets_to_zero_snoc:
  "posting_transaction p \<noteq> k \<Longrightarrow> nets_to_zero (rows @ [p]) k \<longleftrightarrow> nets_to_zero rows k"
  by (simp add: nets_to_zero_def)

lemma posting_step_inside:
  assumes "inside_transaction rows w" "posting_transaction p \<noteq> posting_transaction (last rows) \<Longrightarrow>
      posting_transaction p \<notin> posting_transaction ` set rows"
  shows "inside_transaction (rows @ [p]) (posting_step w p)"
proof (cases "posting_transaction p = posting_transaction (last rows)")
  case True
  have "(\<forall>k'\<in>insert (posting_transaction p) (posting_transaction ` set rows). k' \<noteq> posting_transaction p \<longrightarrow> nets_to_zero (rows @ [p]) k')
      \<longleftrightarrow> (\<forall>k'\<in>posting_transaction ` set rows. k' \<noteq> posting_transaction p \<longrightarrow> nets_to_zero rows k')"
    using nets_to_zero_snoc by auto
  with True assms(1) show ?thesis
    by (simp add: inside_transaction_def posting_step_def Let_def direction_signed)
next
  case False
  then have no: "posting_transaction p \<notin> posting_transaction ` set rows" using assms(2) by blast
  then have log: "filter (\<lambda>q. posting_transaction q = posting_transaction p) rows = []"
    by (metis (mono_tags, lifting) filter_False imageI)
  have same: "nets_to_zero (rows @ [p]) k \<longleftrightarrow> nets_to_zero rows k" if "k \<in> posting_transaction ` set rows" for k
    using that no by (intro nets_to_zero_snoc) blast
  have "(\<forall>k'\<in>insert (posting_transaction p) (posting_transaction ` set rows). k' \<noteq> posting_transaction p \<longrightarrow> nets_to_zero (rows @ [p]) k')
      \<longleftrightarrow> (\<forall>k'\<in>posting_transaction ` set rows. nets_to_zero rows k')"
    using same no by (metis insert_iff)
  moreover have "pw_current_transaction w = Some (posting_transaction (last rows))"
    using assms(1) by (simp add: inside_transaction_def Let_def)
  ultimately show ?thesis
    using False log finish_transaction_ok(2) [OF assms(1)]
    by (auto simp: inside_transaction_def posting_step_def Let_def direction_signed)
qed

lemma postings_inside:
  assumes "sorted (map posting_transaction rows)" "rows \<noteq> []"
  shows "inside_transaction rows
    (foldl posting_step \<lparr>pw_current_transaction = None, pw_net_by_asset = [], pw_issues = []\<rparr> rows)"
  using assms
proof (induction rows rule: rev_induct)
  case Nil
  then show ?case by simp
next
  case (snoc p rows)
  show ?case
  proof (cases "rows = []")
    case True
    then show ?thesis
      by (simp add: inside_transaction_def posting_step_def Let_def finish_transaction_def direction_signed)
  next
    case False
    have sorted: "sorted (map posting_transaction rows)" using snoc.prems by (simp add: sorted_append)
    show ?thesis unfolding foldl_append foldl_Cons foldl_Nil
      by (rule posting_step_inside [OF snoc.IH [OF sorted False]]) (rule sorted_keys_contiguous [OF snoc.prems(1) False])
  qed
qed

lemma sorted_map_pair: "sorted (map (\<lambda>x. (f x, g x, h x)) xs) \<Longrightarrow> sorted (map (\<lambda>x. (f x, g x)) xs)"
  by (induction xs) (auto simp: less_eq_prod_def)

lemma verify_postings_decides:
  assumes "hash_and_verify_journal_postings db hasher = Inr (n, issues, hasher')"
  shows "n = int (length (journal_postings db))"
    and "issues = [] \<longleftrightarrow> (\<forall>b t asset. total_for po_asset_code posting_signed asset (transaction_postings db b t) = 0)"
proof -
  let ?rows = "postings_in_order db"
  let ?w = "foldl posting_step \<lparr>pw_current_transaction = None, pw_net_by_asset = [], pw_issues = []\<rparr> ?rows"
  have n: "n = int (length ?rows)" and issues: "issues = pw_issues ?w @ finish_transaction ?w"
    using assms by (auto simp: hash_and_verify_journal_postings_def Let_def result_simps)
  then show "n = int (length (journal_postings db))" by (simp add: postings_in_order_def)
  have sorted: "sorted (map posting_transaction ?rows)"
    unfolding postings_in_order_def posting_transaction_def by (rule sorted_map_pair) (rule sorted_sort_key)
  have one: "nets_to_zero ?rows (b, t)
      \<longleftrightarrow> (\<forall>asset. total_for po_asset_code posting_signed asset (transaction_postings db b t) = 0)" for b t
  proof -
    have same: "mset (filter (\<lambda>p. posting_transaction p = (b, t)) ?rows) = mset (transaction_postings db b t)"
      by (simp add: postings_in_order_def transaction_postings_def posting_transaction_def)
    show ?thesis unfolding nets_to_zero_def total_for_mset [OF same] ..
  qed
  have none: "nets_to_zero ?rows k" if "k \<notin> posting_transaction ` set ?rows" for k
  proof -
    have "filter (\<lambda>p. posting_transaction p = k) ?rows = []" using that by (metis (mono_tags, lifting) filter_False imageI)
    then show ?thesis by (simp add: nets_to_zero_def)
  qed
  have "issues = [] \<longleftrightarrow> (\<forall>k\<in>posting_transaction ` set ?rows. nets_to_zero ?rows k)"
  proof (cases "?rows = []")
    case True
    then show ?thesis by (simp add: issues finish_transaction_def)
  next
    case False
    from finish_transaction_ok(2) [OF postings_inside [OF sorted False]] show ?thesis by (simp only: issues)
  qed
  also have "\<dots> \<longleftrightarrow> (\<forall>k. nets_to_zero ?rows k)" using none by (simp only: Ball_def) metis
  also have "\<dots> \<longleftrightarrow> (\<forall>b t. nets_to_zero ?rows (b, t))" by (rule split_paired_All)
  finally show "issues = [] \<longleftrightarrow> (\<forall>b t asset. total_for po_asset_code posting_signed asset (transaction_postings db b t) = 0)"
    unfolding one .
qed

section \<open>Balances and stream heads\<close>

lemma computed_sum_total: "(case computed_sum db k of None \<Rightarrow> 0 | Some n \<Rightarrow> n) = total_for posted_to posting_signed k (journal_postings db)"
  by (auto simp: computed_sum_def total_for_notin)

lemma balance_issue_none: "balance_issue (k, balance, computed_sum db k) = []
    \<longleftrightarrow> (case balance of None \<Rightarrow> 0 | Some b \<Rightarrow> ab_balance_units b) = total_for posted_to posting_signed k (journal_postings db)"
  by (cases k) (simp add: balance_issue_def Let_def computed_sum_total)

lemma joined_decides:
  assumes "distinct (map balance_key (account_balances db))"
  shows "(\<forall>row\<in>set (joined_balances db). balance_issue row = [])
    \<longleftrightarrow> (\<forall>k. balance_of db k = total_for posted_to posting_signed k (journal_postings db))"
proof -
  let ?total = "\<lambda>k. total_for posted_to posting_signed k (journal_postings db)"
  let ?balances = "account_balances db" and ?keys = "balance_key ` set (account_balances db)"
  have "(\<forall>row\<in>set (joined_balances db). balance_issue row = []) \<longleftrightarrow>
      (\<forall>b\<in>set ?balances. ab_balance_units b = ?total (balance_key b))
      \<and> (\<forall>k\<in>posted_to ` set (journal_postings db). k \<notin> ?keys \<longrightarrow> 0 = ?total k)"
    by (simp add: joined_balances_def ball_Un balance_issue_none imp_conjL del: split_paired_All) blast
  also have "\<dots> \<longleftrightarrow> (\<forall>k. balance_of db k = ?total k)"
  proof -
    have row: "balance_of db (balance_key b) = ab_balance_units b" if "b \<in> set ?balances" for b
      using find_by_distinct [OF assms that] by (simp add: balance_of_def)
    have no: "balance_of db k = 0" if "k \<notin> ?keys" for k
    proof -
      have "find_by balance_key k ?balances = None" using that by (auto simp: find_by_def find_None_iff)
      then show ?thesis by (simp add: balance_of_def)
    qed
    show ?thesis
    proof (intro iffI allI conjI ballI impI)
      fix k assume all: "(\<forall>b\<in>set ?balances. ab_balance_units b = ?total (balance_key b))
        \<and> (\<forall>k\<in>posted_to ` set (journal_postings db). k \<notin> ?keys \<longrightarrow> 0 = ?total k)"
      show "balance_of db k = ?total k"
      proof (cases "k \<in> ?keys")
        case True
        then obtain b where "b \<in> set ?balances" "k = balance_key b" by blast
        with all row show ?thesis by simp
      next
        case False
        moreover have "0 = ?total k"
        proof (cases "k \<in> posted_to ` set (journal_postings db)")
          case True
          with all False show ?thesis by blast
        next
          case False
          then show ?thesis by (simp add: total_for_notin)
        qed
        ultimately show ?thesis using no by simp
      qed
    qed (use row no in metis)+
  qed
  finally show ?thesis .
qed


section \<open>What the verifier decides\<close>

lemma sealed_event_verified:
  "verify_stored_event sha256 e = [] \<longleftrightarrow> sealed sha256 e \<and> validate_payload (le_payload e) = Inr ()"
proof -
  let ?p = "le_payload e"
  have type: "event_type p \<in> set registered_types" for p by (cases p) (simp_all add: registered_types_def)
  have json: "\<exists>b. canonical_json_bytes (model_dump ?p) = Inr b"
    if "event_hash sha256 (event_envelope e) (model_dump ?p) = Inr h" for h
    using that by (auto simp: event_hash_def hash_preimage_def canonical_hash_parts_def encode_json_def result_simps
        split: sum.splits if_splits)
  have "validate_stored (le_event_type e) (le_event_schema_version e) ?p = Inr q \<longleftrightarrow>
      q = ?p \<and> le_event_type e = event_type ?p \<and> le_event_schema_version e = 1
        \<and> validate_payload ?p = Inr () \<and> (\<exists>b. canonical_json_bytes (model_dump ?p) = Inr b)" for q
    using type [of ?p] by (auto simp: validate_stored_def split: sum.splits)
  moreover have "verify_stored_event sha256 e = [] \<longleftrightarrow>
      (\<exists>q. validate_stored (le_event_type e) (le_event_schema_version e) ?p = Inr q)
      \<and> EventHashEnvelope (event_envelope e) = Inr (event_envelope e)
      \<and> event_hash sha256 (event_envelope e) (model_dump ?p) = Inr (le_event_hash e)"
    using EventHashEnvelope_Inr [of "event_envelope e"]
    by (auto simp: verify_stored_event_def rbind_def split: sum.splits if_splits)
  ultimately show ?thesis using json [of "le_event_hash e"] by (auto simp: sealed_def schema_version_def)
qed

definition book_passes :: "(byte list \<Rightarrow> byte list) \<Rightarrow> db \<Rightarrow> uuid \<Rightarrow> bool" where
  "book_passes sha256 db b \<longleftrightarrow>
     (let log = sort_key le_book_position (book_events db b)
      in case find_by hd_book_id b (book_event_heads db) of
           None \<Rightarrow> log = []
         | Some h \<Rightarrow> numbered 0 (map le_book_position log) \<and> chained ZERO_HASH log
             \<and> (\<forall>e\<in>set log. sealed sha256 e \<and> validate_payload (le_payload e) = Inr ())
             \<and> hd_last_position h = int (length log) \<and> hd_last_hash h = last_hash ZERO_HASH log)"

lemma book_verified_passes:
  "book_verified sha256 (book_event_heads db) (events_in_order db) b \<longleftrightarrow> book_passes sha256 db b"
  by (simp add: book_verified_def book_passes_def book_in_order run_ok_def sealed_event_verified Let_def split: option.splits)

definition stream_head_passes :: "db \<Rightarrow> event_stream_head_record \<Rightarrow> bool" where
  "stream_head_passes db h \<longleftrightarrow>
     (\<exists>e. terminal_event db (sh_book_id h) (sh_stream_type h, sh_stream_id h) = Some e
       \<and> h = terminal_head (sh_book_id h) (sh_stream_type h, sh_stream_id h) e)"

lemma stream_head_decides: "stream_head_issue db h = [] \<longleftrightarrow> stream_head_passes db h"
  by (cases h) (auto simp: stream_head_issue_def stream_head_passes_def terminal_head_def)

lemma verify_v2_ledger_Inr:
  assumes "verify_v2_ledger sha256 isoformat collate failure_count db = Inr report"
    and keys: "distinct (map balance_key (account_balances db))"
  shows "vr_status report = (if vr_issues report = [] then ''PASS'' else ''FAIL'')"
    and "vr_issues report = [] \<longleftrightarrow> (\<forall>b. book_passes sha256 db b) \<and> (\<forall>h\<in>set (event_stream_heads db). stream_head_passes db h)
      \<and> (\<forall>b t asset. total_for po_asset_code posting_signed asset (transaction_postings db b t) = 0)
      \<and> (\<forall>k. balance_of db k = total_for posted_to posting_signed k (journal_postings db)) \<and> failure_count = 0"
proof -
  from assms(1) obtain transactions journal postings journal_issues journal' balances balance_issues balance_hasher cards where
    posts: "hash_and_verify_journal_postings db journal = Inr (postings, journal_issues, journal')" and
    bals: "hash_and_verify_balances collate db row_hasher = Inr (balances, balance_issues, balance_hasher)" and
    report: "vr_status report = (if snd (verify_events sha256 db) @ snd (verify_stream_heads db) @ journal_issues @ balance_issues
          @ (if failure_count \<noteq> 0 then [''unresolved_projection_failures''] else []) = [] then ''PASS'' else ''FAIL'')"
      "vr_issues report = sorted_codes (snd (verify_events sha256 db) @ snd (verify_stream_heads db) @ journal_issues @ balance_issues
          @ (if failure_count \<noteq> 0 then [''unresolved_projection_failures''] else []))"
    unfolding verify_v2_ledger_def Let_def by (auto simp: result_simps split: prod.splits)
  have empty: "sorted_codes xs = [] \<longleftrightarrow> xs = []" for xs
    by (metis remdups_eq_nil_iff sorted_codes_def length_0_conv length_sort)
  show "vr_status report = (if vr_issues report = [] then ''PASS'' else ''FAIL'')" unfolding report empty ..
  have balance: "balance_issues = [] \<longleftrightarrow> (\<forall>row\<in>set (joined_balances db). balance_issue row = [])"
    using bals by (auto simp: hash_and_verify_balances_def Let_def result_simps balances_in_order_def)
  have streams: "snd (verify_stream_heads db) = [] \<longleftrightarrow> (\<forall>h\<in>set (event_stream_heads db). stream_head_passes db h)"
    by (simp add: verify_stream_heads_def stream_head_decides)
  show "vr_issues report = [] \<longleftrightarrow> (\<forall>b. book_passes sha256 db b) \<and> (\<forall>h\<in>set (event_stream_heads db). stream_head_passes db h)
      \<and> (\<forall>b t asset. total_for po_asset_code posting_signed asset (transaction_postings db b t) = 0)
      \<and> (\<forall>k. balance_of db k = total_for posted_to posting_signed k (journal_postings db)) \<and> failure_count = 0"
    unfolding report empty append_is_Nil_conv verify_events_decides book_verified_passes streams balance joined_decides [OF keys]
      verify_postings_decides(2) [OF posts]
    by (simp del: split_paired_All)
qed

text \<open>Rows whose integers are within the canonical limit are hashed without an error.\<close>

definition row_numbers_fit :: "db \<Rightarrow> bool" where
  "row_numbers_fit db \<longleftrightarrow>
     (\<forall>t\<in>set (journal_transactions db). \<bar>jt_source_position t\<bar> < CANONICAL_INTEGER_ABS_LIMIT)
     \<and> (\<forall>p\<in>set (journal_postings db). \<bar>po_posting_position p\<bar> < CANONICAL_INTEGER_ABS_LIMIT)"

lemma foldE_total: "(\<And>s x. x \<in> set xs \<Longrightarrow> \<exists>t. f s x = Inr t) \<Longrightarrow> \<exists>t. foldE f s xs = Inr t"
proof (induction xs arbitrary: s)
  case Nil
  then show ?case by simp
next
  case (Cons x xs)
  then obtain t where "f s x = Inr t" by fastforce
  moreover obtain u where "foldE f t xs = Inr u" using Cons by fastforce
  ultimately show ?case by simp
qed

lemma hasher_add_total: "prove_json_value row = Inr () \<Longrightarrow> \<exists>h. hasher_add self row = Inr h"
  by (simp add: hasher_add_def canonical_json_bytes_def)

lemma rows_provable:
  "\<bar>jt_source_position t\<bar> < CANONICAL_INTEGER_ABS_LIMIT \<Longrightarrow> prove_json_value (journal_transaction_row isoformat t) = Inr ()"
  "\<bar>po_posting_position p\<bar> < CANONICAL_INTEGER_ABS_LIMIT \<Longrightarrow> prove_json_value (journal_posting_row p) = Inr ()"
  "prove_json_value (balance_row b) = Inr ()" "prove_json_value (credit_card_row c) = Inr ()"
  unfolding journal_transaction_row_def journal_posting_row_def balance_row_def credit_card_row_def
  by (intro prove_jobj; auto simp: juuid_def jstr_def jopt_def validate_key split: option.splits)+

lemma verifier_returns:
  assumes "row_numbers_fit db"
  shows "\<exists>report. verify_v2_ledger sha256 isoformat collate failure_count db = Inr report"
proof -
  have tx: "\<exists>r. hash_journal_transactions isoformat db h = Inr r" for h
  proof -
    have "\<exists>t. foldE (\<lambda>h row. hasher_add h (journal_transaction_row isoformat row)) h
        (sort_key (\<lambda>t. (jt_book_id t, jt_transaction_id t)) (journal_transactions db)) = Inr t"
      by (rule foldE_total, rule hasher_add_total, rule rows_provable(1)) (use assms in \<open>simp add: row_numbers_fit_def\<close>)
    then obtain t where "foldE (\<lambda>h row. hasher_add h (journal_transaction_row isoformat row)) h
        (sort_key (\<lambda>t. (jt_book_id t, jt_transaction_id t)) (journal_transactions db)) = Inr t" ..
    then show ?thesis by (simp add: hash_journal_transactions_def Let_def)
  qed
  have post: "\<exists>r. hash_and_verify_journal_postings db h = Inr r" for h
  proof -
    have "\<exists>t. foldE (\<lambda>h row. hasher_add h (journal_posting_row row)) h (postings_in_order db) = Inr t"
      by (rule foldE_total, rule hasher_add_total, rule rows_provable(2))
        (use assms in \<open>simp add: row_numbers_fit_def postings_in_order_def\<close>)
    then obtain t where "foldE (\<lambda>h row. hasher_add h (journal_posting_row row)) h (postings_in_order db) = Inr t" ..
    then show ?thesis by (simp add: hash_and_verify_journal_postings_def Let_def)
  qed
  have bal: "\<exists>r. hash_and_verify_balances collate db h = Inr r" for h
  proof -
    have "\<exists>t. foldE (\<lambda>h row. hasher_add h (balance_row row)) h
        (List.map_filter (\<lambda>(_, balance, _). balance) (balances_in_order collate db)) = Inr t"
      by (rule foldE_total, rule hasher_add_total, rule rows_provable(3))
    then obtain t where "foldE (\<lambda>h row. hasher_add h (balance_row row)) h
        (List.map_filter (\<lambda>(_, balance, _). balance) (balances_in_order collate db)) = Inr t" ..
    then show ?thesis by (simp add: hash_and_verify_balances_def Let_def)
  qed
  have card: "\<exists>r. hash_credit_cards db h = Inr r" for h
  proof -
    have "\<exists>t. foldE (\<lambda>h row. hasher_add h (credit_card_row row)) h
        (sort_key (\<lambda>c. (ct_book_id c, ct_source_position c)) (credit_card_transactions db)) = Inr t"
      by (rule foldE_total, rule hasher_add_total, rule rows_provable(4))
    then obtain t where "foldE (\<lambda>h row. hasher_add h (credit_card_row row)) h
        (sort_key (\<lambda>c. (ct_book_id c, ct_source_position c)) (credit_card_transactions db)) = Inr t" ..
    then show ?thesis by (simp add: hash_credit_cards_def Let_def)
  qed
  obtain n h where j: "hash_journal_transactions isoformat db row_hasher = Inr (n, h)" using tx by (metis surj_pair)
  obtain p i h' where p: "hash_and_verify_journal_postings db h = Inr (p, i, h')" using post by (metis surj_pair)
  obtain a k g where b: "hash_and_verify_balances collate db row_hasher = Inr (a, k, g)" using bal by (metis surj_pair)
  obtain c d where c: "hash_credit_cards db row_hasher = Inr (c, d)" using card by (metis surj_pair)
  show ?thesis by (simp add: verify_v2_ledger_def Let_def j p b c split: prod.splits)
qed

section \<open>Properties\<close>

text \<open>
  Property C36: the verifier passes a database exactly when it is consistent. Its status is PASS, with no
  issue, if and only if for every Book there is a head at the end of a log that is numbered 1, 2, 3, ..., chained, and made of
  events that carry their own hash and satisfy their contract (or there is neither head nor event); every stream head
  describes the last event of its stream; every transaction nets to zero in every asset; every balance
  is the sum of the postings; and no projection failure is open.
\<close>

theorem verifier_decides:
  assumes "verify_v2_ledger sha256 isoformat collate failure_count db = Inr report"
    and "distinct (map balance_key (account_balances db))"
  shows "(vr_status report = ''PASS'' \<longleftrightarrow> vr_issues report = [])
    \<and> (vr_issues report = [] \<longleftrightarrow>
         (\<forall>b. book_passes sha256 db b) \<and> (\<forall>h\<in>set (event_stream_heads db). stream_head_passes db h)
         \<and> (\<forall>b t asset. total_for po_asset_code posting_signed asset (transaction_postings db b t) = 0)
         \<and> (\<forall>k. balance_of db k = total_for posted_to posting_signed k (journal_postings db)) \<and> failure_count = 0)"
proof -
  note status = verify_v2_ledger_Inr(1) [OF assms]
  have "vr_status report = ''PASS'' \<longleftrightarrow> vr_issues report = []" unfolding status by simp
  then show ?thesis using verify_v2_ledger_Inr(2) [OF assms] ..
qed

lemma advance_keeps_keys:
  assumes "advance_stream_head before b db entry = Inr db'" "distinct (map stream_head_key (event_stream_heads db))"
  shows "distinct (map stream_head_key (event_stream_heads db'))"
proof -
  obtain k e where entry: "entry = (k, e)" by fastforce
  show ?thesis
  proof (cases "stream_head_of before b k")
    case None
    then show ?thesis using assms
      by (auto simp: advance_stream_head_def entry lift_db_def Let_def result_simps dest!: insert_stream_head_Inr)
  next
    case (Some old)
    then have "stream_head_key old = (b, k)" using find_by_Some_D by (metis stream_head_of_def)
    moreover have "stream_head_key (terminal_head b k e) = (b, k)" by (simp add: terminal_head_def stream_head_key_def)
    ultimately show ?thesis using assms Some
      by (auto simp: advance_stream_head_def entry lift_db_def Let_def result_simps map_key_replace_by dest!: update_stream_head_Inr)
  qed
qed

lemma append_keeps_keys:
  assumes "append_batch sha256 b expected events db = Inr (res, db')" "distinct (map stream_head_key (event_stream_heads db))"
  shows "distinct (map stream_head_key (event_stream_heads db'))"
proof -
  from assms(1) obtain head new terminals db1 db2 head' where
    ins: "insert_events new db = Inr db1" and streams: "foldE (advance_stream_head db b) db1 terminals = Inr db2" and
    upd: "update_book_event_head head head' db2 = Inr db'"
    by (auto simp: append_batch_def Let_def rbind_eq_Inr lift_db_def raise_as_iff split: option.splits)
  have "event_stream_heads db1 = event_stream_heads db" using insert_events_Inr [OF ins] by simp
  then have "distinct (map stream_head_key (event_stream_heads db1))" using assms(2) by simp
  then have "distinct (map stream_head_key (event_stream_heads db2))"
    using streams by (induction terminals arbitrary: db1) (auto simp: result_simps dest: advance_keeps_keys)
  then show ?thesis using update_book_event_head_Inr [OF upd] by simp
qed

lemma reachable_keys: "ledger_reachable sha256 db \<Longrightarrow> distinct (map stream_head_key (event_stream_heads db))"
proof (induction rule: ledger_reachable.induct)
  case (open_book db b db')
  then show ?case by (auto simp: insert_book_event_head_def rbind_eq_Inr)
next
  case (append db b expected events res db')
  then show ?case using append_keeps_keys by blast
qed (simp_all add: same_ledger_def)

lemma numbered_in_order: "numbered n (map le_book_position log) \<Longrightarrow> sort_key le_book_position log = log"
  by (rule sort_key_id_if_sorted) (simp add: sorted_iff_nth_mono numbered_nth)

lemma reachable_book_passes:
  assumes "ledger_reachable sha256 db" "\<forall>e\<in>set (ledger_events db). validate_payload (le_payload e) = Inr ()"
  shows "book_passes sha256 db b"
proof -
  have ok: "numbered 0 (map le_book_position (book_events db b))" "chained ZERO_HASH (book_events db b)"
    "list_all (sealed sha256) (book_events db b)" "head_agrees db b"
    using reachable_book_ok [OF assms(1), of b] by (simp_all only: book_ledger_ok_def)
  have "\<forall>e\<in>set (book_events db b). sealed sha256 e \<and> validate_payload (le_payload e) = Inr ()"
    using ok(3) assms(2) by (auto simp: list_all_iff book_events_def)
  with ok show ?thesis
    by (simp add: book_passes_def numbered_in_order [OF ok(1)] head_agrees_def split: option.splits)
qed

lemma terminal_event_last:
  assumes "numbered 0 (map le_book_position (book_events db b))"
  shows "terminal_event db b k = (if in_stream k (book_events db b) = [] then None else Some (last (in_stream k (book_events db b))))"
proof (cases "in_stream k (book_events db b) = []")
  case True
  then show ?thesis by (simp add: terminal_event_def)
next
  case False
  let ?log = "in_stream k (book_events db b)" and ?sorted = "sort_key (\<lambda>e. - le_book_position e) (in_stream k (book_events db b))"
  have "sorted (map le_book_position (book_events db b))"
    using assms by (simp add: sorted_iff_nth_mono numbered_nth)
  then have sorted: "sorted (map le_book_position ?log)" unfolding in_stream_def by (rule sorted_filter)
  have "distinct (map le_book_position ?log)"
    using numbered_distinct [OF assms] unfolding in_stream_def by (rule distinct_map_filter)
  then have inj: "inj_on le_book_position (set ?log)" by (simp add: distinct_map)
  from False obtain ys l where ys: "?log = ys @ [l]" using rev_exhaust by blast
  have "?sorted \<noteq> []" using False by (metis length_0_conv length_sort)
  then obtain e es where e: "?sorted = e # es" by (cases ?sorted) auto
  have "set (e # es) = set ?log" using e by (metis set_sort)
  then have mem: "e \<in> set ?log" and sub: "set ?log = insert e (set es)" by auto
  have "sorted (map (\<lambda>e. - le_book_position e) (e # es))" unfolding e [symmetric] by (rule sorted_sort_key)
  then have "- le_book_position e \<le> - le_book_position x" if "x \<in> set ?log" for x using that sub by auto
  then have "le_book_position l \<le> le_book_position e" using ys by auto
  moreover have "le_book_position e \<le> le_book_position l" using mem sorted by (auto simp: ys sorted_append)
  ultimately have "e = l" using inj mem ys by (metis antisym in_set_conv_decomp inj_onD)
  then show ?thesis using False e ys by (simp add: terminal_event_def)
qed

lemma reachable_stream_heads:
  assumes "ledger_reachable sha256 db" "h \<in> set (event_stream_heads db)"
  shows "stream_head_passes db h"
proof -
  let ?b = "sh_book_id h" and ?k = "(sh_stream_type h, sh_stream_id h)"
  have "stream_head_of db ?b ?k = Some h"
    using find_by_distinct [OF reachable_keys [OF assms(1)] assms(2)] by (simp add: stream_head_of_def stream_head_key_def)
  moreover have ok: "numbered 0 (map le_book_position (book_events db ?b))" "stream_head_agrees db ?b ?k"
    using reachable_book_ok [OF assms(1), of ?b] unfolding book_ledger_ok_def by blast+
  ultimately have "in_stream ?k (book_events db ?b) \<noteq> []"
    "h = terminal_head ?b ?k (last (in_stream ?k (book_events db ?b)))"
    by (auto simp: stream_head_agrees_def split: if_splits)
  then show ?thesis unfolding stream_head_passes_def terminal_event_last [OF ok(1)] by simp
qed

text \<open>
  Property C37: what the program writes, the verifier passes. Between transactions of the ledger - however
  events were appended and projected - the verifier returns a report, and the report is PASS with no
  issue, provided the payloads are instances of their classes and no projection failure is open.
\<close>

theorem written_ledger_passes:
  assumes "ledger_reachable sha256 db" "projected db" "deferred_checks db = []"
    and "\<forall>e\<in>set (ledger_events db). validate_payload (le_payload e) = Inr ()" "row_numbers_fit db"
  shows "\<exists>report. verify_v2_ledger sha256 isoformat collate 0 db = Inr report
    \<and> vr_status report = ''PASS'' \<and> vr_issues report = []"
proof -
  from verifier_returns [OF assms(5)] obtain report where
    report: "verify_v2_ledger sha256 isoformat collate 0 db = Inr report" by blast
  have journal: "journal_ok db" using projected_journal_ok [OF assms(2)] .
  have keys: "distinct (map balance_key (account_balances db))"
    and sums: "\<forall>k. balance_of db k = total_for posted_to posting_signed k (journal_postings db)"
    using journal unfolding journal_ok_def by blast+
  have zero: "total_for po_asset_code posting_signed asset (transaction_postings db b t) = 0" for b t asset
  proof (cases "(b, t) \<in> transaction_key ` set (journal_transactions db)")
    case True
    then obtain r where "r \<in> set (journal_transactions db)" "b = jt_book_id r" "t = jt_transaction_id r"
      by (auto simp: transaction_key_def)
    then have "v2_validate_journal_balance db b t = Inr ()" using journal assms(3) by (auto simp: journal_ok_def)
    from balanced_total [OF this True] show ?thesis by blast
  next
    case False
    then have "transaction_postings db b t = []"
      using journal by (auto simp: journal_ok_def transaction_postings_def filter_empty_conv)
    then show ?thesis by simp
  qed
  have "vr_issues report = []"
    unfolding verify_v2_ledger_Inr(2) [OF report keys]
    using reachable_book_passes [OF assms(1,4)] reachable_stream_heads [OF assms(1)] zero sums by blast
  with verify_v2_ledger_Inr(1) [OF report keys] report show ?thesis by simp
qed

end
