(* ===== verification/Summary_Tracking.thy ===== *)
theory Summary_Tracking
  imports Summary_Replay Ledger_Verifier
begin

text \<open>
  The monthly summary a Book shows is the replay of its log. The invariant \<open>tracks\<close> says that the rows of the active generation
  are the values of a cold replay up to the position of the checkpoint; every transaction of the worker and of the rebuilder keeps it,
  and so does the growth of the ledger between them. The last section is about progress.
\<close>

section \<open>Positions\<close>

lemma numbered_below: "numbered m (map f xs) \<Longrightarrow> filter (\<lambda>x. f x \<le> n) xs = take (nat (n - m)) xs"
proof (induction xs arbitrary: m)
  case (Cons x xs)
  then have x: "f x = m + 1" and rest: "numbered (m + 1) (map f xs)" by simp_all
  show ?case
  proof (cases "m + 1 \<le> n")
    case True
    then have "nat (n - m) = Suc (nat (n - (m + 1)))" by simp
    with True Cons.IH [OF rest] x show ?thesis by simp
  next
    case False
    have "filter (\<lambda>x. f x \<le> n) xs = []" using numbered_bounds [OF rest] False by (fastforce simp: filter_empty_conv)
    with False x show ?thesis by simp
  qed
qed simp

lemma numbered_above: "numbered m (map f xs) \<Longrightarrow> filter (\<lambda>x. n < f x) xs = drop (nat (n - m)) xs"
proof (induction xs arbitrary: m)
  case (Cons x xs)
  then have x: "f x = m + 1" and rest: "numbered (m + 1) (map f xs)" by simp_all
  show ?case
  proof (cases "m + 1 \<le> n")
    case True
    then have "nat (n - m) = Suc (nat (n - (m + 1)))" by simp
    with True Cons.IH [OF rest] x show ?thesis by simp
  next
    case False
    have "filter (\<lambda>x. n < f x) xs = xs" using numbered_bounds [OF rest] False by (fastforce simp: filter_id_conv)
    with False x show ?thesis by simp
  qed
qed simp

definition in_order :: "db \<Rightarrow> uuid \<Rightarrow> bool" where
  "in_order db b \<longleftrightarrow> numbered 0 (map le_book_position (book_events db b))"

lemma replay_records_take:
  assumes "in_order db b"
  shows "replay_records db b (Some n) = take (nat n) (book_events db b)"
proof -
  have n: "numbered 0 (map le_book_position (book_events db b))" using assms by (simp only: in_order_def)
  have "filter (\<lambda>e. le_book_id e = b \<and> le_book_position e \<le> n) (ledger_events db) = take (nat n) (book_events db b)"
    using numbered_below [OF n, of n] by (simp add: book_events_def conj_commute)
  moreover have "sort_key le_book_position (take (nat n) (book_events db b)) = take (nat n) (book_events db b)"
    using n by (intro numbered_in_order [of 0]) (metis append_take_drop_id map_append numbered_append)
  ultimately show ?thesis by (simp add: replay_records_def)
qed

lemma read_after_Inr:
  assumes "in_order db b" "read_after db b after limit = Inr events"
  shows "events = take (nat limit) (drop (nat after) (book_events db b))" "0 \<le> after" "1 \<le> limit"
proof -
  have n: "numbered 0 (map le_book_position (book_events db b))" using assms(1) by (simp only: in_order_def)
  have "filter (\<lambda>e. le_book_id e = b \<and> after < le_book_position e) (ledger_events db) = drop (nat after) (book_events db b)"
    using numbered_above [OF n, of after] by (simp add: book_events_def conj_commute)
  moreover have "sort_key le_book_position (drop (nat after) (book_events db b)) = drop (nat after) (book_events db b)"
  proof -
    have "numbered 0 (map le_book_position (take (nat after) (book_events db b)) @ map le_book_position (drop (nat after) (book_events db b)))"
      using n by (simp flip: map_append)
    then show ?thesis unfolding numbered_append by (intro numbered_in_order) blast
  qed
  ultimately show "events = take (nat limit) (drop (nat after) (book_events db b))" "0 \<le> after" "1 \<le> limit"
    using assms(2) by (auto simp: read_after_def split: if_splits)
qed

lemma last_position:
  assumes "in_order db b" "events = take n (drop m (book_events db b))" "events \<noteq> []"
  shows "le_book_position (last events) = int (m + length events)" "m + length events \<le> length (book_events db b)"
    "take (m + length events) (book_events db b) = take m (book_events db b) @ events"
proof -
  have n: "numbered 0 (map le_book_position (book_events db b))" using assms(1) by (simp only: in_order_def)
  have len: "length events = min n (length (book_events db b) - m)" using assms(2) by simp
  with assms(3) have m: "m < length (book_events db b)" by (cases "length (book_events db b) \<le> m") auto
  with len show "m + length events \<le> length (book_events db b)" by simp
  show split: "take (m + length events) (book_events db b) = take m (book_events db b) @ events"
    unfolding assms(2) using m by (simp add: take_add min_def)
  have "numbered 0 (map le_book_position (take m (book_events db b) @ events) @ map le_book_position (drop (m + length events) (book_events db b)))"
    using n by (simp flip: split map_append)
  then have "numbered 0 (map le_book_position (take m (book_events db b) @ events))" unfolding numbered_append by blast
  from numbered_last [OF this] assms(3) m show "le_book_position (last events) = int (m + length events)"
    by (simp add: last_map)
qed

section \<open>What the statements of the projection write\<close>

lemma lift_pdb_Inr: "lift_pdb r = Inr x \<longleftrightarrow> r = Inr x"
  by (cases r) (simp_all add: lift_pdb_def)

definition stored_values :: "projections_db \<Rightarrow> uuid \<Rightarrow> int \<Rightarrow> date \<Rightarrow> monthly_summary_value list" where
  "stored_values pdb b g p = map value_of_summary
     (filter (\<lambda>m. ms_book_id m = b \<and> ms_generation m = g \<and> ms_period_start m = p) (monthly_summaries pdb))"

definition generations_of :: "projections_db \<Rightarrow> (uuid \<times> int) set" where
  "generations_of pdb = generation_key ` set (projection_generations pdb)"

definition checkpoint_of :: "projections_db \<Rightarrow> uuid \<Rightarrow> projection_checkpoint_record option" where
  "checkpoint_of pdb b = find_by kp_book_id b (projection_checkpoints pdb)"

text \<open>A row belongs to a generation that exists.\<close>

definition owned :: "projections_db \<Rightarrow> bool" where
  "owned pdb \<longleftrightarrow> (\<forall>m\<in>set (monthly_summaries pdb). (ms_book_id m, ms_generation m) \<in> generations_of pdb)"

lemma insert_generation_Inr:
  assumes "insert_generation db g pdb = Inr pdb'"
  shows "monthly_summaries pdb' = monthly_summaries pdb" "projection_checkpoints pdb' = projection_checkpoints pdb"
    "generations_of pdb' = insert (generation_key g) (generations_of pdb)"
  using assms by (auto simp: insert_generation_def rbind_eq_Inr generations_of_def)

lemma update_generation_Inr:
  assumes "update_generation db old new pdb = Inr pdb'" "generation_key new = generation_key old"
  shows "monthly_summaries pdb' = monthly_summaries pdb" "projection_checkpoints pdb' = projection_checkpoints pdb"
    "generations_of pdb' = generations_of pdb"
  using assms map_key_replace_by [of generation_key new "generation_key old" "projection_generations pdb"]
  by (auto simp: update_generation_def rbind_eq_Inr generations_of_def simp flip: set_map)

lemma insert_checkpoint_Inr:
  assumes "insert_checkpoint db c pdb = Inr pdb'"
  shows "monthly_summaries pdb' = monthly_summaries pdb" "generations_of pdb' = generations_of pdb"
    "checkpoint_of pdb' b = (if b = kp_book_id c then Some c else checkpoint_of pdb b)"
proof -
  from assms have fresh: "kp_book_id c \<notin> kp_book_id ` set (projection_checkpoints pdb)"
    and pdb': "pdb' = pdb\<lparr>projection_checkpoints := projection_checkpoints pdb @ [c], active_checks := active_checks pdb @ [kp_book_id c]\<rparr>"
    by (auto simp: insert_checkpoint_def rbind_eq_Inr checks_Inr_iff)
  show "monthly_summaries pdb' = monthly_summaries pdb" "generations_of pdb' = generations_of pdb"
    by (simp_all add: pdb' generations_of_def)
  have "find_by kp_book_id (kp_book_id c) (projection_checkpoints pdb) = None" using fresh by (rule find_by_None_iff [THEN iffD2])
  then show "checkpoint_of pdb' b = (if b = kp_book_id c then Some c else checkpoint_of pdb b)"
    by (auto simp: pdb' checkpoint_of_def find_by_append find_by_def [of _ _ "[c]"] split: option.split)
qed

lemma update_checkpoint_Inr:
  assumes "update_checkpoint old new pdb = Inr pdb'" "kp_book_id new = kp_book_id old"
    and "checkpoint_of pdb (kp_book_id old) = Some old"
  shows "monthly_summaries pdb' = monthly_summaries pdb" "generations_of pdb' = generations_of pdb"
    "checkpoint_of pdb' b = (if b = kp_book_id old then Some new else checkpoint_of pdb b)"
    "kp_last_book_position old \<le> kp_last_book_position new"
proof -
  from assms have pdb': "pdb' = pdb\<lparr>projection_checkpoints := replace_by kp_book_id (kp_book_id old) new (projection_checkpoints pdb),
      active_checks := active_checks pdb @ [kp_book_id new]\<rparr>"
    by (auto simp: update_checkpoint_def rbind_eq_Inr)
  have mem: "kp_book_id old \<in> kp_book_id ` set (projection_checkpoints pdb)"
    using find_by_Some_D [OF assms(3) [unfolded checkpoint_of_def]] by auto
  show "monthly_summaries pdb' = monthly_summaries pdb" "generations_of pdb' = generations_of pdb"
    "checkpoint_of pdb' b = (if b = kp_book_id old then Some new else checkpoint_of pdb b)"
    using mem by (simp_all add: pdb' generations_of_def checkpoint_of_def find_by_replace_by assms(2))
  show "kp_last_book_position old \<le> kp_last_book_position new"
    using assms(1) by (auto simp: update_checkpoint_def rbind_eq_Inr checks_Inr_iff)
qed

interpretation summary_table: keyed_table monthly_summaries admit_summary add_summary "summary_refers db" summary_key_of
    "\<lambda>m. ms_units m \<noteq> 0" for db
  by unfold_locales (auto simp: add_summary_def admit_summary_def checks_Inr_iff)

lemma fold_add_summary: "fold add_summary rows pdb = pdb\<lparr>monthly_summaries := monthly_summaries pdb @ rows\<rparr>"
  by (induction rows arbitrary: pdb) (simp_all add: add_summary_def)

lemma insert_summaries_Inr:
  assumes "insert_summaries db rows pdb = Inr pdb'"
  shows "pdb' = pdb\<lparr>monthly_summaries := monthly_summaries pdb @ rows\<rparr>"
    "r \<in> set rows \<Longrightarrow> (ms_book_id r, ms_generation r) \<in> generations_of pdb"
proof -
  show pdb': "pdb' = pdb\<lparr>monthly_summaries := monthly_summaries pdb @ rows\<rparr>"
    using assms by (simp add: insert_summaries_def insert_rows_Inr fold_add_summary)
  show "(ms_book_id r, ms_generation r) \<in> generations_of pdb" if "r \<in> set rows"
    using summary_table.insert_refers [OF assms [unfolded insert_summaries_def] that]
    by (auto simp: summary_refers_def checks_Inr_iff generations_of_def pdb')
qed

lemma stored_values_update: "stored_values (pdb\<lparr>monthly_summaries := filter (\<lambda>m. \<not> P m) ms @ rows\<rparr>) b g p =
    map value_of_summary (filter (\<lambda>m. \<not> P m \<and> ms_book_id m = b \<and> ms_generation m = g \<and> ms_period_start m = p) ms)
    @ map value_of_summary (filter (\<lambda>m. ms_book_id m = b \<and> ms_generation m = g \<and> ms_period_start m = p) rows)"
  by (simp add: stored_values_def conj_commute conj_left_commute)

lemma value_of_record: "value_of_summary (summary_record b g n p v) = v"
  by (simp add: value_of_summary_def summary_record_def)

text \<open>Deleting the rows of a selection and inserting others of it.\<close>

lemma replace_rows:
  assumes "insert_summaries db rows (delete_summaries sel pdb) = Inr pdb'"
  shows "projection_checkpoints pdb' = projection_checkpoints pdb" "generations_of pdb' = generations_of pdb"
    "owned pdb \<Longrightarrow> owned pdb'"
    "stored_values pdb' b g p =
      map value_of_summary (filter (\<lambda>m. \<not> sel m \<and> ms_book_id m = b \<and> ms_generation m = g \<and> ms_period_start m = p) (monthly_summaries pdb))
      @ map value_of_summary (filter (\<lambda>m. ms_book_id m = b \<and> ms_generation m = g \<and> ms_period_start m = p) rows)"
proof -
  note w = insert_summaries_Inr [OF assms]
  have pdb': "pdb' = pdb\<lparr>monthly_summaries := filter (\<lambda>m. \<not> sel m) (monthly_summaries pdb) @ rows\<rparr>"
    using w(1) by (simp add: delete_summaries_def)
  show "projection_checkpoints pdb' = projection_checkpoints pdb" "generations_of pdb' = generations_of pdb"
    by (simp_all add: pdb' generations_of_def)
  show "owned pdb'" if "owned pdb"
    using that w(2) by (auto simp: owned_def pdb' generations_of_def delete_summaries_def)
  show "stored_values pdb' b g p =
      map value_of_summary (filter (\<lambda>m. \<not> sel m \<and> ms_book_id m = b \<and> ms_generation m = g \<and> ms_period_start m = p) (monthly_summaries pdb))
      @ map value_of_summary (filter (\<lambda>m. ms_book_id m = b \<and> ms_generation m = g \<and> ms_period_start m = p) rows)"
    unfolding pdb' by (rule stored_values_update)
qed

lemma replace_period_Inr:
  assumes "replace_period db b g n replay pdb p = Inr pdb'"
  shows "projection_checkpoints pdb' = projection_checkpoints pdb" "generations_of pdb' = generations_of pdb"
    "owned pdb \<Longrightarrow> owned pdb'"
    "stored_values pdb' b' g' p' = (if b' = b \<and> g' = g \<and> p' = p then period_values replay p else stored_values pdb b' g' p')"
proof -
  let ?rows = "map (summary_record b g n p) (period_values replay p)"
  let ?sel = "\<lambda>m. ms_book_id m = b \<and> ms_generation m = g \<and> ms_period_start m = p"
  have ins: "insert_summaries db ?rows (delete_summaries ?sel pdb) = Inr pdb'"
    using assms by (simp add: replace_period_def lift_pdb_Inr)
  note w = replace_rows [OF ins]
  show "projection_checkpoints pdb' = projection_checkpoints pdb" "generations_of pdb' = generations_of pdb"
    "owned pdb \<Longrightarrow> owned pdb'" using w(1-3) by simp_all
  show "stored_values pdb' b' g' p' = (if b' = b \<and> g' = g \<and> p' = p then period_values replay p else stored_values pdb b' g' p')"
  proof (cases "b' = b \<and> g' = g \<and> p' = p")
    case True
    have "filter ?sel ?rows = ?rows" by (simp add: filter_id_conv summary_record_def)
    then show ?thesis unfolding w(4) using True by (simp add: value_of_record comp_def)
  next
    case False
    then have "filter (\<lambda>m. ms_book_id m = b' \<and> ms_generation m = g' \<and> ms_period_start m = p') ?rows = []"
      by (auto simp: filter_empty_conv summary_record_def)
    moreover have "filter (\<lambda>m. \<not> ?sel m \<and> ms_book_id m = b' \<and> ms_generation m = g' \<and> ms_period_start m = p') (monthly_summaries pdb)
        = filter (\<lambda>m. ms_book_id m = b' \<and> ms_generation m = g' \<and> ms_period_start m = p') (monthly_summaries pdb)"
      using False by (intro filter_cong) auto
    ultimately show ?thesis unfolding w(4) if_not_P [OF False] by (simp add: stored_values_def)
  qed
qed

lemma replace_period_loop:
  "foldE (replace_period db b g n replay) pdb periods = Inr pdb' \<Longrightarrow>
    projection_checkpoints pdb' = projection_checkpoints pdb \<and> generations_of pdb' = generations_of pdb
    \<and> (owned pdb \<longrightarrow> owned pdb')
    \<and> (\<forall>b' g' p'. stored_values pdb' b' g' p' =
         (if b' = b \<and> g' = g \<and> p' \<in> set periods then period_values replay p' else stored_values pdb b' g' p'))"
proof (induction periods arbitrary: pdb)
  case (Cons p periods)
  from Cons.prems obtain d where step: "replace_period db b g n replay pdb p = Inr d"
    and rest: "foldE (replace_period db b g n replay) d periods = Inr pdb'" by (auto simp: rbind_eq_Inr)
  note s = replace_period_Inr [OF step] and r = Cons.IH [OF rest]
  have "stored_values pdb' b' g' p' = (if b' = b \<and> g' = g \<and> p' \<in> set (p # periods) then period_values replay p'
      else stored_values pdb b' g' p')" for b' g' p'
    using r s(4) [of b' g' p'] by (simp only: set_simps insert_iff) auto
  with r s(1-3) show ?case by simp
qed simp

lemma distinct_replay: "cold_replay_monthly_summary db b n = Inr replay \<Longrightarrow> distinct (map fst replay)"
  by (auto simp: cold_replay_monthly_summary_def rbind_eq_Inr values_by_period_def Let_def comp_def)

lemma replay_rows_of_month:
  assumes "distinct (map fst replay)"
  shows "filter (\<lambda>m. ms_book_id m = b \<and> ms_generation m = g \<and> ms_period_start m = p)
      (concat (map (\<lambda>(period, values). map (summary_record b g n period) values) replay))
    = map (summary_record b g n p) (period_values replay p)"
  using assms
proof (induction replay)
  case Nil
  then show ?case by (simp add: period_values_def)
next
  case (Cons item replay)
  obtain q vs where item: "item = (q, vs)" by (cases item)
  have pv: "period_values (item # replay) p = (if p = q then vs else period_values replay p)"
    by (simp add: period_values_def item)
  have none: "period_values replay q = []"
    using Cons.prems by (simp add: period_values_def item map_of_eq_None_iff [THEN iffD2] split: option.split)
  have "filter (\<lambda>m. ms_book_id m = b \<and> ms_generation m = g \<and> ms_period_start m = p) (map (summary_record b g n q) vs)
      = (if p = q then map (summary_record b g n q) vs else [])"
    by (auto simp: filter_id_conv filter_empty_conv summary_record_def)
  then show ?case using Cons none pv by (simp add: item)
qed

lemma replace_generation_Inr:
  assumes "replace_generation db b g n pdb = Inr pdb'"
  obtains replay where "cold_replay_monthly_summary db b (Some n) = Inr replay"
    "projection_checkpoints pdb' = projection_checkpoints pdb" "generations_of pdb' = generations_of pdb"
    "owned pdb \<Longrightarrow> owned pdb'"
    "\<And>b' g' p. stored_values pdb' b' g' p = (if b' = b \<and> g' = g then period_values replay p else stored_values pdb b' g' p)"
proof -
  let ?rows = "\<lambda>replay. concat (map (\<lambda>(period, values). map (summary_record b g n period) values) replay)"
  from assms obtain replay where replay: "cold_replay_monthly_summary db b (Some n) = Inr replay"
    and ins: "insert_summaries db (?rows replay) (delete_summaries (\<lambda>m. ms_book_id m = b \<and> ms_generation m = g) pdb) = Inr pdb'"
    by (auto simp: replace_generation_def rbind_eq_Inr lift_pdb_Inr)
  note w = replace_rows [OF ins]
  show thesis
  proof (rule that [OF replay w(1-3)])
    fix b' g' p
    have rows: "ms_book_id m = b \<and> ms_generation m = g" if "m \<in> set (?rows replay)" for m
      using that by (auto simp: summary_record_def)
    show "stored_values pdb' b' g' p = (if b' = b \<and> g' = g then period_values replay p else stored_values pdb b' g' p)"
    proof (cases "b' = b \<and> g' = g")
      case True
      have "filter (\<lambda>m. \<not> (ms_book_id m = b \<and> ms_generation m = g) \<and> ms_book_id m = b' \<and> ms_generation m = g' \<and> ms_period_start m = p)
          (monthly_summaries pdb) = []" using True by (auto simp: filter_empty_conv)
      then show ?thesis unfolding w(4) using True
        by (simp only: replay_rows_of_month [OF distinct_replay [OF replay]]) (simp add: value_of_record comp_def)
    next
      case False
      have "\<not> (ms_book_id m = b' \<and> ms_generation m = g' \<and> ms_period_start m = p)" if "m \<in> set (?rows replay)" for m
        using rows [OF that] False by blast
      then have "filter (\<lambda>m. ms_book_id m = b' \<and> ms_generation m = g' \<and> ms_period_start m = p) (?rows replay) = []"
        unfolding filter_empty_conv by blast
      moreover have "filter (\<lambda>m. \<not> (ms_book_id m = b \<and> ms_generation m = g) \<and> ms_book_id m = b' \<and> ms_generation m = g'
            \<and> ms_period_start m = p) (monthly_summaries pdb)
          = filter (\<lambda>m. ms_book_id m = b' \<and> ms_generation m = g' \<and> ms_period_start m = p) (monthly_summaries pdb)"
        using False by (intro filter_cong) auto
      ultimately show ?thesis unfolding w(4) if_not_P [OF False] by (simp add: stored_values_def)
    qed
  qed
qed

lemma replace_periods_Inr:
  assumes "replace_periods db b g periods n pdb = Inr pdb'"
  obtains replay where "cold_replay_monthly_summary db b (Some n) = Inr replay"
    "projection_checkpoints pdb' = projection_checkpoints pdb" "generations_of pdb' = generations_of pdb"
    "owned pdb \<Longrightarrow> owned pdb'"
    "\<And>b' g' p. stored_values pdb' b' g' p =
       (if b' = b \<and> g' = g \<and> p \<in> set periods then period_values replay p else stored_values pdb b' g' p)"
proof -
  from assms obtain replay where replay: "cold_replay_monthly_summary db b (Some n) = Inr replay"
    and loop: "foldE (replace_period db b g n replay) pdb periods = Inr pdb'"
    unfolding replace_periods_def rbind_eq_Inr by blast
  note w = replace_period_loop [OF loop]
  show thesis
  proof (rule that [OF replay])
    show "projection_checkpoints pdb' = projection_checkpoints pdb" using w by (elim conjE)
    show "generations_of pdb' = generations_of pdb" using w by (elim conjE)
    show "owned pdb \<Longrightarrow> owned pdb'" using w by (elim conjE impE)
    show "stored_values pdb' b' g' p =
       (if b' = b \<and> g' = g \<and> p \<in> set periods then period_values replay p else stored_values pdb b' g' p)" for b' g' p
      using w by (elim conjE) (erule allE, erule allE, erule allE)
  qed
qed

section \<open>The steps of the worker\<close>

lemma next_generation_fresh: "(b, next_generation pdb b) \<notin> generations_of pdb"
proof -
  have le: "x \<le> fold max ns n" if "x = n \<or> x \<in> set ns" for x n :: int and ns
  proof -
    have "x \<le> Max (set (n # ns))" using that by (intro Max_ge) auto
    then show ?thesis by (simp only: Max.set_eq_fold)
  qed
  show ?thesis
  proof (cases "map gn_generation (filter (\<lambda>g. gn_book_id g = b) (projection_generations pdb))")
    case Nil
    then show ?thesis by (auto simp: generations_of_def generation_key_def filter_empty_conv)
  next
    case (Cons n ns)
    have "gn_generation g \<le> fold max ns n" if "g \<in> set (projection_generations pdb)" "gn_book_id g = b" for g
    proof (rule le)
      have "gn_generation g \<in> set (map gn_generation (filter (\<lambda>g. gn_book_id g = b) (projection_generations pdb)))"
        using that by simp
      then show "gn_generation g = n \<or> gn_generation g \<in> set ns" unfolding Cons by simp
    qed
    moreover have "next_generation pdb b = fold max ns n + 1" by (simp add: next_generation_def Cons)
    ultimately show ?thesis by (fastforce simp: generations_of_def generation_key_def)
  qed
qed

text \<open>The generation the worker writes to: the active one, or one that did not exist.\<close>

lemma lock_projection_state_Inr:
  assumes "lock_projection_state db b target pdb = Inr (st, pdb')"
  shows "monthly_summaries pdb' = monthly_summaries pdb" "projection_checkpoints pdb' = projection_checkpoints pdb"
    "generations_of pdb \<subseteq> generations_of pdb'" "gn_book_id (sp_generation st) = b"
    "sp_checkpoint st = checkpoint_of pdb b" "sp_is_new st \<longleftrightarrow> checkpoint_of pdb b = None"
    "checkpoint_of pdb b = Some c \<Longrightarrow> gn_generation (sp_generation st) = kp_active_generation c"
    "checkpoint_of pdb b = None \<Longrightarrow> (b, gn_generation (sp_generation st)) \<notin> generations_of pdb"
    "(b, gn_generation (sp_generation st)) \<in> generations_of pdb'"
proof -
  let ?g = "building_generation b (next_generation pdb b) target"
  consider (known) c generation where "checkpoint_of pdb b = Some c"
      "find_by generation_key (b, kp_active_generation c) (projection_generations pdb) = Some generation"
      "st = \<lparr>sp_checkpoint = Some c, sp_generation = generation, sp_is_new = False\<rparr>" "pdb' = pdb"
    | (fresh) "checkpoint_of pdb b = None" "insert_generation db ?g pdb = Inr pdb'"
      "st = \<lparr>sp_checkpoint = None, sp_generation = ?g, sp_is_new = True\<rparr>"
  proof (cases "find_by kp_book_id b (projection_checkpoints pdb)")
    case None
    with assms fresh show thesis
      by (auto simp: lock_projection_state_def checkpoint_of_def Let_def rbind_eq_Inr lift_pdb_Inr)
  next
    case c: (Some c)
    show thesis
    proof (cases "find_by generation_key (b, kp_active_generation c) (projection_generations pdb)")
      case None
      with assms c show thesis by (simp add: lock_projection_state_def)
    next
      case (Some g)
      show thesis
      proof (rule known)
        show "checkpoint_of pdb b = Some c" using c by (simp add: checkpoint_of_def)
      qed (use assms c Some in \<open>auto simp: lock_projection_state_def\<close>)
    qed
  qed
  note cs = this
  have g: "generation_key ?g = (b, next_generation pdb b)" by (simp add: building_generation_def generation_key_def)
  have "monthly_summaries pdb' = monthly_summaries pdb \<and> projection_checkpoints pdb' = projection_checkpoints pdb
    \<and> generations_of pdb \<subseteq> generations_of pdb' \<and> gn_book_id (sp_generation st) = b
    \<and> sp_checkpoint st = checkpoint_of pdb b \<and> (sp_is_new st \<longleftrightarrow> checkpoint_of pdb b = None)
    \<and> (\<forall>c. checkpoint_of pdb b = Some c \<longrightarrow> gn_generation (sp_generation st) = kp_active_generation c)
    \<and> (checkpoint_of pdb b = None \<longrightarrow> (b, gn_generation (sp_generation st)) \<notin> generations_of pdb)
    \<and> (b, gn_generation (sp_generation st)) \<in> generations_of pdb'"
  proof (cases rule: cs)
    case (known c generation)
    from find_by_Some_D [OF known(2)] known show ?thesis by (auto simp: generation_key_def generations_of_def)
  next
    case fresh
    from insert_generation_Inr [OF fresh(2)] fresh next_generation_fresh [of b pdb] show ?thesis
      by (simp add: g) (auto simp: building_generation_def)
  qed
  then show "monthly_summaries pdb' = monthly_summaries pdb" "projection_checkpoints pdb' = projection_checkpoints pdb"
    "generations_of pdb \<subseteq> generations_of pdb'" "gn_book_id (sp_generation st) = b"
    "sp_checkpoint st = checkpoint_of pdb b" "sp_is_new st \<longleftrightarrow> checkpoint_of pdb b = None"
    "checkpoint_of pdb b = Some c \<Longrightarrow> gn_generation (sp_generation st) = kp_active_generation c"
    "checkpoint_of pdb b = None \<Longrightarrow> (b, gn_generation (sp_generation st)) \<notin> generations_of pdb"
    "(b, gn_generation (sp_generation st)) \<in> generations_of pdb'"
    by simp_all
qed

lemma activate_or_advance_Inr:
  assumes "activate_or_advance db st n pdb = Inr pdb'" "gn_book_id (sp_generation st) = b"
    and "sp_checkpoint st = checkpoint_of pdb b" "sp_is_new st \<longleftrightarrow> checkpoint_of pdb b = None"
    and "\<And>c. checkpoint_of pdb b = Some c \<Longrightarrow> gn_generation (sp_generation st) = kp_active_generation c"
  shows "monthly_summaries pdb' = monthly_summaries pdb" "generations_of pdb' = generations_of pdb"
    "checkpoint_of pdb' b' = (if b' = b then Some \<lparr>kp_book_id = b, kp_last_book_position = n,
       kp_active_generation = gn_generation (sp_generation st)\<rparr> else checkpoint_of pdb b')"
    "checkpoint_of pdb b = Some c \<Longrightarrow> kp_last_book_position c \<le> n"
proof -
  let ?old = "sp_generation st"
  let ?g = "?old\<lparr>gn_target_book_position := max (gn_target_book_position ?old) n, gn_last_book_position := n\<rparr>"
  let ?new = "\<lparr>kp_book_id = b, kp_last_book_position = n, kp_active_generation = gn_generation ?old\<rparr>"
  have keys: "generation_key ?g = generation_key ?old" "generation_key (?g\<lparr>gn_state := x\<rparr>) = generation_key ?old" for x
    by (simp_all add: generation_key_def)
  consider (fresh) d d' where "checkpoint_of pdb b = None"
      "update_generation db ?old (?g\<lparr>gn_state := ''catching_up''\<rparr>) pdb = Inr d"
      "update_generation db (?g\<lparr>gn_state := ''catching_up''\<rparr>) (?g\<lparr>gn_state := ''active''\<rparr>) d = Inr d'"
      "insert_checkpoint db ?new d' = Inr pdb'"
    | (known) c d where "checkpoint_of pdb b = Some c" "update_generation db ?old ?g pdb = Inr d"
      "update_checkpoint c (c\<lparr>kp_last_book_position := n\<rparr>) d = Inr pdb'"
    using assms(1-4) by (auto simp: activate_or_advance_def Let_def rbind_eq_Inr lift_pdb_Inr split: if_splits option.splits)
  note cs = this
  have "monthly_summaries pdb' = monthly_summaries pdb \<and> generations_of pdb' = generations_of pdb
    \<and> checkpoint_of pdb' b' = (if b' = b then Some ?new else checkpoint_of pdb b')
    \<and> (\<forall>c. checkpoint_of pdb b = Some c \<longrightarrow> kp_last_book_position c \<le> n)"
  proof (cases rule: cs)
    case (fresh d d')
    have "generation_key (?g\<lparr>gn_state := ''active''\<rparr>) = generation_key (?g\<lparr>gn_state := ''catching_up''\<rparr>)"
      by (simp add: generation_key_def)
    note u = update_generation_Inr [OF fresh(2) keys(2)] update_generation_Inr [OF fresh(3) this] insert_checkpoint_Inr [OF fresh(4)]
    show ?thesis using u fresh(1) by (simp add: checkpoint_of_def)
  next
    case (known c d)
    note u = update_generation_Inr [OF known(2) keys(1)]
    have book: "kp_book_id c = b" using find_by_Some_D [OF known(1) [unfolded checkpoint_of_def]] by simp
    have d: "checkpoint_of d b' = checkpoint_of pdb b'" for b' using u by (simp add: checkpoint_of_def)
    have "checkpoint_of d (kp_book_id c) = Some c" using known(1) d book by simp
    note v = update_checkpoint_Inr [OF known(3) _ this]
    have "c\<lparr>kp_last_book_position := n\<rparr> = ?new" using book assms(5) [OF known(1)] by simp
    with v u d known(1) book show ?thesis by auto
  qed
  then show "monthly_summaries pdb' = monthly_summaries pdb" "generations_of pdb' = generations_of pdb"
    "checkpoint_of pdb' b' = (if b' = b then Some ?new else checkpoint_of pdb b')"
    "checkpoint_of pdb b = Some c \<Longrightarrow> kp_last_book_position c \<le> n" by blast+
qed

lemma note_latest_keys: "fst ` set (note_latest e latest p) = insert p (fst ` set latest)"
proof (cases "map_of latest p")
  case None
  then show ?thesis by (simp add: note_latest_def dom_update)
next
  case (Some x)
  then have "p \<in> fst ` set latest" by (metis map_of_eq_None_iff option.distinct(1))
  with Some show ?thesis by (auto simp: note_latest_def dom_update)
qed

lemma latest_by_period_Inr:
  "latest_by_period db events = Inr latest \<Longrightarrow> e \<in> set events \<Longrightarrow>
     \<exists>periods. affected_periods db e = Inr periods \<and> set periods \<subseteq> fst ` set latest"
proof (induction events arbitrary: latest rule: rev_induct)
  case (snoc x events)
  have keys: "fst ` set (foldl (note_latest x) l ps) = set ps \<union> fst ` set l" for l ps
    by (induction ps arbitrary: l) (simp_all add: note_latest_keys)
  from snoc.prems(1) obtain l ps where l: "latest_by_period db events = Inr l" and ps: "affected_periods db x = Inr ps"
    and latest: "latest = foldl (note_latest x) l ps"
    by (auto simp: latest_by_period_def foldE_snoc rbind_eq_Inr)
  show ?case
  proof (cases "e \<in> set events")
    case True
    from snoc.IH [OF l True] show ?thesis by (auto simp: latest keys)
  next
    case False
    with snoc.prems(2) ps show ?thesis by (auto simp: latest keys)
  qed
qed simp

lemma mark_dirty_periods_Inr:
  assumes "mark_dirty_periods db st events pdb = Inr (periods, pdb')"
  shows "monthly_summaries pdb' = monthly_summaries pdb" "projection_checkpoints pdb' = projection_checkpoints pdb"
    "generations_of pdb' = generations_of pdb"
    "e \<in> set events \<Longrightarrow> \<exists>ps. affected_periods db e = Inr ps \<and> set ps \<subseteq> set periods"
proof -
  from assms obtain latest where l: "latest_by_period db events = Inr latest" and
    loop: "foldE (mark_dirty_period db st) pdb latest = Inr pdb'" and periods: "periods = sort (map fst latest)"
    by (auto simp: mark_dirty_periods_def rbind_eq_Inr)
  have step: "monthly_summaries d' = monthly_summaries d \<and> projection_checkpoints d' = projection_checkpoints d
      \<and> generations_of d' = generations_of d" if "mark_dirty_period db st d x = Inr d'" for d d' x
    using that by (auto simp: mark_dirty_period_def rbind_eq_Inr lift_pdb_Inr upsert_dirty_period_def generations_of_def
        split: prod.splits option.splits if_splits)
  have "foldE (mark_dirty_period db st) d xs = Inr d' \<Longrightarrow> monthly_summaries d' = monthly_summaries d
      \<and> projection_checkpoints d' = projection_checkpoints d \<and> generations_of d' = generations_of d" for d d' xs
    by (induction xs arbitrary: d) (auto simp: rbind_eq_Inr dest!: step)
  from this [OF loop] show "monthly_summaries pdb' = monthly_summaries pdb" "projection_checkpoints pdb' = projection_checkpoints pdb"
    "generations_of pdb' = generations_of pdb" by simp_all
  show "e \<in> set events \<Longrightarrow> \<exists>ps. affected_periods db e = Inr ps \<and> set ps \<subseteq> set periods"
    using latest_by_period_Inr [OF l] by (simp add: periods)
qed

section \<open>The invariant\<close>

text \<open>Everything the ledger appended was projected, in a ledger whose logs are numbered.\<close>

definition settled :: "(byte list \<Rightarrow> byte list) \<Rightarrow> db \<Rightarrow> bool" where
  "settled sha256 db \<longleftrightarrow> ledger_reachable sha256 db \<and> journal_written db
     \<and> event_book_key ` set (ledger_events db) \<subseteq> applied_key ` set (applied_events db)"

lemma settled_in_order: "settled sha256 db \<Longrightarrow> in_order db b"
  unfolding settled_def in_order_def using reachable_book_ok [of sha256 db b, unfolded book_ledger_ok_def] by blast

lemma summary_advance_keeps_events:
  assumes "advance_stream_head before b db entry = Inr db'"
  shows "ledger_events db' = ledger_events db"
proof -
  obtain k e where entry: "entry = (k, e)" by fastforce
  show ?thesis
  proof (cases "stream_head_of before b k")
    case None
    with assms show ?thesis
      by (auto simp: advance_stream_head_def entry lift_db_def Let_def result_simps dest!: insert_stream_head_Inr)
  next
    case (Some old)
    with assms show ?thesis
      by (auto simp: advance_stream_head_def entry lift_db_def Let_def result_simps dest!: update_stream_head_Inr)
  qed
qed

lemma advance_loop_keeps_events: "foldE (advance_stream_head before b) db entries = Inr db' \<Longrightarrow> ledger_events db' = ledger_events db"
  by (induction entries arbitrary: db) (auto simp: rbind_eq_Inr dest: summary_advance_keeps_events)

lemma reachable_event_ids: "ledger_reachable sha256 db \<Longrightarrow> distinct (map le_event_id (ledger_events db))"
proof (induction rule: ledger_reachable.induct)
  case (open_book db b db')
  then show ?case by (auto simp: insert_book_event_head_def rbind_eq_Inr)
next
  case (append db b expected events res db')
  from append.hyps(2) obtain head new terminals db1 db2 head' where
    ins: "insert_events new db = Inr db1" and streams: "foldE (advance_stream_head db b) db1 terminals = Inr db2" and
    upd: "update_book_event_head head head' db2 = Inr db'"
    by (auto simp: append_batch_def Let_def rbind_eq_Inr lift_db_def raise_as_iff split: option.splits)
  have "distinct (map le_event_id (ledger_events db1))"
    using events_by_id.insert_keys_distinct [OF ins [unfolded insert_events_def] append.IH] .
  moreover have "ledger_events db' = ledger_events db1"
    using advance_loop_keeps_events [OF streams] update_book_event_head_Inr [OF upd] by simp
  ultimately show ?case by simp
qed (simp_all add: same_ledger_def)

lemma settled_story: "settled sha256 db \<Longrightarrow> book_story db b (book_events db b)"
proof -
  assume s: "settled sha256 db"
  have "numbered 0 (map le_book_position (book_events db b))" using settled_in_order [OF s] by (simp only: in_order_def)
  then have "sorted_wrt (<) (map le_book_position (book_events db b))"
    by (simp add: sorted_wrt_iff_nth_less numbered_nth)
  moreover have "remembered db e" if "e \<in> set (book_events db b)" for e
  proof (rule written_remembers)
    show "distinct (map le_event_id (ledger_events db))" using s reachable_event_ids by (auto simp: settled_def)
  qed (use s that in \<open>auto simp: settled_def book_events_def\<close>)
  ultimately show ?thesis by (simp add: book_story_def) (simp add: book_events_def)
qed

text \<open>The log of a Book only grows.\<close>

definition ledger_grows :: "db \<Rightarrow> db \<Rightarrow> bool" where
  "ledger_grows db db' \<longleftrightarrow> (\<forall>b. \<exists>more. book_events db' b = book_events db b @ more)"

text \<open>The growth is what an append does: the committer keeps the ledger settled.\<close>

lemma project_all_written:
  "project_all es db = Inr db' \<Longrightarrow> journal_written db \<Longrightarrow> set es \<subseteq> set (ledger_events db) \<Longrightarrow> journal_written db'"
proof (induction es arbitrary: db)
  case (Cons e es)
  then obtain r d where one: "apply_stored e db = Inr (r, d)" and rest: "project_all es d = Inr db'"
    by (auto simp: project_all_def result_simps)
  have "journal_written d" using Cons.prems(2,3) one by (auto intro: journal_written.project)
  then show ?case using Cons.IH [OF rest] Cons.prems(3) apply_stored_frame(3) [OF one] by simp
qed (simp add: project_all_def)

lemma append_and_project_settled:
  assumes "settled sha256 (se_db s)" "append_and_project sha256 locked expected events s = Inr (res, s')"
  shows "settled sha256 (se_db s') \<and> (\<exists>new. ledger_events (se_db s') = ledger_events (se_db s) @ new)"
  using assms(2)
proof (rule append_and_project_Inr)
  fix db1 db2
  assume app: "append_batch sha256 (lk_book_id locked) expected events (se_db s) = Inr (res, db1)"
    and proj: "project_all (reload_events (lk_book_id locked) (ar_event_ids res) db1) db1 = Inr db2"
    and s': "s' = s\<lparr>se_db := db2, se_capabilities := AList.delete (lk_book_id locked) (se_capabilities s)\<rparr>"
  note f = project_all_frame [OF proj]
  from app obtain new where new: "ledger_events db1 = ledger_events (se_db s) @ new" by (rule append_batch_Inr) simp
  from app have same: "journal_transactions db1 = journal_transactions (se_db s)" "transaction_reversals db1 = transaction_reversals (se_db s)"
    "applied_events db1 = applied_events (se_db s)" by (auto elim!: append_batch_Inr)
  have "journal_written db1"
  proof (rule journal_written.elsewhere [of "se_db s"])
    show "journal_written (se_db s)" using assms(1) unfolding settled_def by (elim conjE)
    show "set (ledger_events (se_db s)) \<subseteq> set (ledger_events db1)" by (simp add: new)
  qed (rule same)+
  moreover have "set (reload_events (lk_book_id locked) (ar_event_ids res) db1) \<subseteq> set (ledger_events db1)"
    by (auto simp: reload_events_def)
  ultimately have "journal_written db2" using project_all_written [OF proj] by blast
  moreover have "event_book_key e \<in> applied_key ` set (applied_events db2)" if e: "e \<in> set (ledger_events db2)" for e
  proof (cases "e \<in> set (ledger_events (se_db s))")
    case True
    then have "event_book_key e \<in> applied_key ` set (applied_events (se_db s))" using assms(1) unfolding settled_def by blast
    with f same show ?thesis by auto
  next
    case False
    with e append_and_project_marks [OF assms(2)] show ?thesis by (auto simp: s')
  qed
  moreover have "ledger_reachable sha256 (se_db s)" using assms(1) by (simp only: settled_def)
  from append_and_project_reachable [OF this assms(2)] have "ledger_reachable sha256 db2" by (simp add: s')
  ultimately have "settled sha256 db2" unfolding settled_def by (intro conjI image_subsetI)
  moreover have "ledger_events db2 = ledger_events (se_db s) @ new" using f new by simp
  ultimately show ?thesis by (auto simp: s')
qed

lemma append_and_project_grows:
  assumes "settled sha256 (se_db s)" "append_and_project sha256 locked expected events s = Inr (res, s')"
  shows "ledger_grows (se_db s) (se_db s')"
  using append_and_project_settled [OF assms] by (auto simp: ledger_grows_def book_events_def)

definition shows_replay :: "db \<Rightarrow> projections_db \<Rightarrow> uuid \<Rightarrow> projection_checkpoint_record \<Rightarrow> bool" where
  "shows_replay db pdb b c \<longleftrightarrow> 0 \<le> kp_last_book_position c
     \<and> kp_last_book_position c \<le> int (length (book_events db b))
     \<and> (\<exists>replay. cold_replay_monthly_summary db b (Some (kp_last_book_position c)) = Inr replay
          \<and> (\<forall>p. mset (stored_values pdb b (kp_active_generation c) p) = mset (period_values replay p)))"

definition tracks :: "db \<Rightarrow> projections_db \<Rightarrow> bool" where
  "tracks db pdb \<longleftrightarrow> owned pdb
     \<and> (\<forall>b c. checkpoint_of pdb b = Some c \<longrightarrow> (b, kp_active_generation c) \<in> generations_of pdb \<and> shows_replay db pdb b c)"

lemma cold_replay_prefix:
  assumes "in_order db b"
  shows "cold_replay_monthly_summary db b (Some n) =
    rbind (foldE replay_event empty_replay (take (nat n) (book_events db b))) (\<lambda>st. Inr (values_by_period (replay_totals st)))"
  by (simp add: cold_replay_monthly_summary_def replay_records_take [OF assms])

lemma tracks_grows:
  assumes "tracks db pdb" "ledger_grows db db'" "\<And>b. in_order db b" "\<And>b. in_order db' b"
  shows "tracks db' pdb"
  unfolding tracks_def
proof (intro conjI allI impI)
  show "owned pdb" using assms(1) by (simp add: tracks_def)
  fix b c assume c: "checkpoint_of pdb b = Some c"
  with assms(1) have g: "(b, kp_active_generation c) \<in> generations_of pdb" and s: "shows_replay db pdb b c"
    unfolding tracks_def by blast+
  show "(b, kp_active_generation c) \<in> generations_of pdb" by (rule g)
  obtain more where more: "book_events db' b = book_events db b @ more" using assms(2) by (auto simp: ledger_grows_def)
  have "nat (kp_last_book_position c) \<le> length (book_events db b)" using s by (simp add: shows_replay_def nat_le_iff)
  then have "cold_replay_monthly_summary db' b (Some (kp_last_book_position c))
      = cold_replay_monthly_summary db b (Some (kp_last_book_position c))"
    by (simp add: cold_replay_prefix assms(3,4) more)
  with s show "shows_replay db' pdb b c" by (simp add: shows_replay_def more)
qed

lemma tracks_same:
  assumes "tracks db pdb" "owned pdb'" "generations_of pdb \<subseteq> generations_of pdb'"
    and "\<And>b c. checkpoint_of pdb' b = Some c \<Longrightarrow> checkpoint_of pdb b = Some c
      \<and> (\<forall>p. stored_values pdb' b (kp_active_generation c) p = stored_values pdb b (kp_active_generation c) p)"
  shows "tracks db pdb'"
  using assms unfolding tracks_def shows_replay_def by (metis subsetD)

lemma project_batch_Inr:
  assumes "project_batch failure_id db b after events pdb = Inr (res, pdb')"
  obtains (paused) st d f where "lock_projection_state db b (le_book_position (last events)) pdb = Inr (st, d)"
      "insert_failure db f d = Inr pdb'" "res = \<lparr>rp_processed_events = 0, rp_last_book_position = after, rp_paused = True\<rparr>"
  | (projected) st d1 periods d2 d3 d4 where
      "lock_projection_state db b (le_book_position (last events)) pdb = Inr (st, d1)"
      "mark_dirty_periods db st events d1 = Inr (periods, d2)"
      "replace_periods db b (gn_generation (sp_generation st)) periods (le_book_position (last events)) d2 = Inr d3"
      "activate_or_advance db st (le_book_position (last events)) d3 = Inr d4"
      "pdb' = clear_dirty_periods st periods d4"
      "res = \<lparr>rp_processed_events = int (length events), rp_last_book_position = le_book_position (last events), rp_paused = False\<rparr>"
proof -
  from assms obtain st d where lock: "lock_projection_state db b (le_book_position (last events)) pdb = Inr (st, d)"
    by (auto simp: project_batch_def Let_def rbind_eq_Inr)
  show thesis
  proof (cases "find (\<lambda>event. \<not> is_registered_event event) events")
    case (Some e)
    with assms lock paused [OF lock] show thesis
      by (auto simp: project_batch_def Let_def rbind_eq_Inr lift_pdb_Inr)
  next
    case None
    with assms lock projected [OF lock] show thesis
      by (auto simp: project_batch_def Let_def rbind_eq_Inr)
  qed
qed

text \<open>What the rows of the generation to be written say before the batch.\<close>

lemma rows_before:
  assumes "tracks db pdb" "in_order db b" "lock_projection_state db b target pdb = Inr (st, d)"
  obtains rst where
    "foldE replay_event empty_replay (take (nat (checkpoint_position pdb b)) (book_events db b)) = Inr rst"
    "\<And>p. mset (stored_values pdb b (gn_generation (sp_generation st)) p) = mset (period_values (values_by_period (replay_totals rst)) p)"
    "0 \<le> checkpoint_position pdb b" "checkpoint_position pdb b \<le> int (length (book_events db b))"
proof (cases "checkpoint_of pdb b")
  case None
  then have pos: "checkpoint_position pdb b = 0" by (simp add: checkpoint_position_def checkpoint_of_def)
  have "stored_values pdb b (gn_generation (sp_generation st)) p = []" for p
    using lock_projection_state_Inr(8) [OF assms(3) None] assms(1)
    by (fastforce simp: stored_values_def tracks_def owned_def filter_empty_conv)
  moreover have "period_values (values_by_period (replay_totals empty_replay)) p = []" for p
    by (simp add: period_values_by_period replay_totals_def empty_replay_def)
  ultimately show thesis using that [of empty_replay] pos by simp
next
  case (Some c)
  then have pos: "checkpoint_position pdb b = kp_last_book_position c" by (simp add: checkpoint_position_def checkpoint_of_def)
  from assms(1) Some have s: "shows_replay db pdb b c" unfolding tracks_def by blast
  from s obtain replay where replay: "cold_replay_monthly_summary db b (Some (kp_last_book_position c)) = Inr replay"
    and rows: "\<And>p. mset (stored_values pdb b (kp_active_generation c) p) = mset (period_values replay p)"
    unfolding shows_replay_def by blast
  from replay obtain rst where rst: "foldE replay_event empty_replay (take (nat (kp_last_book_position c)) (book_events db b)) = Inr rst"
    and vals: "replay = values_by_period (replay_totals rst)"
    by (auto simp: cold_replay_prefix [OF assms(2)] rbind_eq_Inr)
  show thesis
    using that [of rst] rst rows s lock_projection_state_Inr(7) [OF assms(3) Some]
    by (simp add: pos vals shows_replay_def)
qed

lemma project_batch_tracks:
  assumes ok: "settled sha256 db" "tracks db pdb"
    and events: "events = take k (drop (nat after) (book_events db b))" "events \<noteq> []" "after = checkpoint_position pdb b"
    and run: "project_batch failure_id db b after events pdb = Inr (res, pdb')"
  shows "tracks db pdb'"
    "checkpoint_position pdb' b = (if rp_paused res then after else after + int (length events))"
proof -
  note order = settled_in_order [OF ok(1), of b]
  let ?m = "nat after" and ?n = "le_book_position (last events)"
  note ends = last_position [OF order events(1,2)]
  have "tracks db pdb' \<and> checkpoint_position pdb' b = (if rp_paused res then after else after + int (length events))"
    using run
  proof (cases rule: project_batch_Inr)
    case (paused st d f)
    note l = lock_projection_state_Inr [OF paused(1)]
    have f: "monthly_summaries pdb' = monthly_summaries d" "projection_checkpoints pdb' = projection_checkpoints d"
      "generations_of pdb' = generations_of d"
      using paused(2) by (auto simp: insert_failure_def rbind_eq_Inr generations_of_def)
    have "owned pdb'" using ok(2) l(1,3) f by (auto simp: tracks_def owned_def)
    then have "tracks db pdb'"
      using l(1-3) f by (intro tracks_same [OF ok(2)]) (auto simp: checkpoint_of_def stored_values_def)
    then show ?thesis using l(2) f(2) paused(3) events(3) by (simp add: checkpoint_position_def)
  next
    case (projected st d1 periods d2 d3 d4)
    let ?g = "gn_generation (sp_generation st)"
    note l = lock_projection_state_Inr [OF projected(1)] and m = mark_dirty_periods_Inr [OF projected(2)]
    obtain rst where rst: "foldE replay_event empty_replay (take ?m (book_events db b)) = Inr rst"
      and before: "\<And>p. mset (stored_values pdb b ?g p) = mset (period_values (values_by_period (replay_totals rst)) p)"
      and nonneg: "0 \<le> after"
      by (rule rows_before [OF ok(2) order projected(1)]) (simp add: events(3))
    have n: "?n = after + int (length events)" "nat ?n = ?m + length events" using ends(1) nonneg by simp_all
    from projected(3) obtain replay where replay: "cold_replay_monthly_summary db b (Some ?n) = Inr replay"
      and w: "projection_checkpoints d3 = projection_checkpoints d2" "generations_of d3 = generations_of d2" "owned d2 \<Longrightarrow> owned d3"
      and sv: "\<And>b' g' p. stored_values d3 b' g' p =
         (if b' = b \<and> g' = ?g \<and> p \<in> set periods then period_values replay p else stored_values d2 b' g' p)"
      by (rule replace_periods_Inr) blast
    have cp: "checkpoint_of d3 x = checkpoint_of pdb x" for x using w(1) m(2) l(2) by (simp add: checkpoint_of_def)
    have st: "sp_checkpoint st = checkpoint_of d3 b" "sp_is_new st \<longleftrightarrow> checkpoint_of d3 b = None"
      "\<And>c. checkpoint_of d3 b = Some c \<Longrightarrow> ?g = kp_active_generation c"
      using l(5-7) cp by simp_all
    note a = activate_or_advance_Inr [OF projected(4) l(4) st]
    have pdb': "monthly_summaries pdb' = monthly_summaries d3" "generations_of pdb' = generations_of d3"
      "checkpoint_of pdb' x = checkpoint_of d4 x" for x
      using a projected(5) by (simp_all add: clear_dirty_periods_def checkpoint_of_def generations_of_def)
    have sv': "stored_values pdb' b' g' p = (if b' = b \<and> g' = ?g \<and> p \<in> set periods then period_values replay p
        else stored_values pdb b' g' p)" for b' g' p
      using sv [of b' g' p] m(1) l(1) pdb'(1) by (simp add: stored_values_def)
    have gens: "generations_of pdb \<subseteq> generations_of pdb'" using l(3) m(3) w(2) pdb'(2) by simp
    have "owned d2" using ok(2) l(1,3) m(1,3) by (auto simp: tracks_def owned_def)
    with w(3) have owned: "owned pdb'" by (simp add: owned_def pdb'(1,2))
    have new: "checkpoint_of pdb' x = (if x = b then Some \<lparr>kp_book_id = b, kp_last_book_position = ?n, kp_active_generation = ?g\<rparr>
        else checkpoint_of pdb x)" for x
      using a(3) [of x] by (simp add: pdb'(3) cp)
    obtain rst' where rst': "foldE replay_event empty_replay (take ?m (book_events db b) @ events) = Inr rst'"
      and replay': "replay = values_by_period (replay_totals rst')"
      using replay by (auto simp: cold_replay_prefix [OF order] rbind_eq_Inr n(2) ends(3))
    have rows: "mset (stored_values pdb' b ?g p) = mset (period_values replay p)" for p
    proof (cases "p \<in> set periods")
      case True
      then show ?thesis by (simp add: sv')
    next
      case False
      have "book_story db b (take ?m (book_events db b) @ events @ drop (?m + length events) (book_events db b))"
        using settled_story [OF ok(1), of b] by (simp add: append_assoc [symmetric] del: append_assoc flip: ends(3))
      moreover have "\<forall>e\<in>set events. \<exists>ps. affected_periods db e = Inr ps \<and> p \<notin> set ps" using m(4) False by blast
      ultimately have "mset (period_values replay p) = mset (period_values (values_by_period (replay_totals rst)) p)"
        unfolding replay' by (rule unaffected_month [OF _ rst rst'])
      with before False show ?thesis by (simp add: sv')
    qed
    have "shows_replay db pdb' b \<lparr>kp_book_id = b, kp_last_book_position = ?n, kp_active_generation = ?g\<rparr>"
      using rows replay ends(2) n nonneg by (simp add: shows_replay_def)
    moreover have "(b, ?g) \<in> generations_of pdb'"
      using l(9) m(3) w(2) pdb'(2) by simp
    moreover have "(x, kp_active_generation c) \<in> generations_of pdb' \<and> shows_replay db pdb' x c"
      if "checkpoint_of pdb x = Some c" "x \<noteq> b" for x c
      using ok(2) that gens by (auto simp: tracks_def shows_replay_def sv')
    ultimately have "tracks db pdb'" unfolding tracks_def using owned by (auto simp: new split: if_splits)
    moreover have "checkpoint_position pdb' b = ?n" using new [of b] by (simp add: checkpoint_position_def checkpoint_of_def)
    ultimately show ?thesis using projected(6) n(1) by simp
  qed
  then show "tracks db pdb'"
    "checkpoint_position pdb' b = (if rp_paused res then after else after + int (length events))" by simp_all
qed

lemma commit_projections_Inr:
  assumes "commit_projections db pdb = Inr pdb'"
  shows "pdb' = pdb\<lparr>active_checks := []\<rparr>"
    "b \<in> set (active_checks pdb) \<Longrightarrow> v2_validate_active_projection_generation db pdb b = Inr ()"
  using assms by (auto simp: commit_projections_def rbind_eq_Inr checkE_Inr_iff)

lemma tracks_checks: "tracks db (pdb\<lparr>active_checks := x\<rparr>) = tracks db pdb"
  by (simp add: tracks_def owned_def generations_of_def checkpoint_of_def shows_replay_def stored_values_def)

lemma run_once_tracks:
  assumes ok: "settled sha256 db" "tracks db pdb" and run: "run_once n failure_id db b pdb = Inr (res, pdb')"
  shows "tracks db pdb'"
    "\<not> rp_paused res \<Longrightarrow> checkpoint_position pdb' b
       = min (int (length (book_events db b))) (checkpoint_position pdb b + n) \<and> 1 \<le> n"
    "rp_paused res \<Longrightarrow> checkpoint_position pdb' b = checkpoint_position pdb b"
    "rp_processed_events res = checkpoint_position pdb' b - checkpoint_position pdb b"
proof -
  let ?after = "checkpoint_position pdb b"
  note order = settled_in_order [OF ok(1), of b]
  have low: "0 \<le> ?after \<and> ?after \<le> int (length (book_events db b))"
    using ok(2) by (auto simp: checkpoint_position_def tracks_def shows_replay_def checkpoint_of_def split: option.split)
  have checks: "checkpoint_position (d\<lparr>active_checks := x\<rparr>) b = checkpoint_position d b" for d x
    by (simp add: checkpoint_position_def)
  consider (paused) "res = \<lparr>rp_processed_events = 0, rp_last_book_position = ?after, rp_paused = True\<rparr>" "pdb' = pdb\<lparr>active_checks := []\<rparr>"
    | (none) "read_after db b ?after n = Inr []"
        "res = \<lparr>rp_processed_events = 0, rp_last_book_position = ?after, rp_paused = False\<rparr>" "pdb' = pdb\<lparr>active_checks := []\<rparr>"
    | (some) events d where "read_after db b ?after n = Inr events" "events \<noteq> []"
        "project_batch failure_id db b ?after events pdb = Inr (res, d)" "pdb' = d\<lparr>active_checks := []\<rparr>"
    using run by (auto simp: run_once_def Let_def rbind_eq_Inr lift_pdb_Inr dest!: commit_projections_Inr(1)
        split: option.splits if_splits)
  note cs = this
  have "tracks db pdb' \<and> rp_processed_events res = checkpoint_position pdb' b - ?after
      \<and> (if rp_paused res then checkpoint_position pdb' b = ?after
      else checkpoint_position pdb' b = min (int (length (book_events db b))) (?after + n) \<and> 1 \<le> n)"
  proof (cases rule: cs)
    case paused
    then show ?thesis using ok(2) by (simp add: tracks_checks checks)
  next
    case none
    from read_after_Inr [OF order none(1)] have "?after = int (length (book_events db b))" "1 \<le> n" using low by auto
    with none ok(2) show ?thesis by (simp add: tracks_checks checks)
  next
    case (some events d)
    note r = read_after_Inr [OF order some(1)]
    note t = project_batch_tracks [OF ok r(1) some(2) _ some(3), OF refl]
    have "length events = min (length (book_events db b) - nat ?after) (nat n)" using r(1) by simp
    then have "int (length events) = min n (int (length (book_events db b)) - ?after)"
      using r(3) low by arith
    moreover have "rp_processed_events res = (if rp_paused res then 0 else int (length events))"
      using some(3) by (cases rule: project_batch_Inr) simp_all
    ultimately show ?thesis using t some r(3) low by (auto simp: tracks_checks checks)
  qed
  then show "tracks db pdb'"
    "\<not> rp_paused res \<Longrightarrow> checkpoint_position pdb' b
       = min (int (length (book_events db b))) (?after + n) \<and> 1 \<le> n"
    "rp_paused res \<Longrightarrow> checkpoint_position pdb' b = ?after"
    "rp_processed_events res = checkpoint_position pdb' b - ?after" by (simp_all split: if_splits)
qed

section \<open>The rebuilder\<close>

lemma fill_shadow_Inr:
  assumes "fill_shadow db b shadow n pdb = Inr (g, pdb')"
  obtains d replay where "g = gn_generation shadow" "cold_replay_monthly_summary db b (Some n) = Inr replay"
    "projection_checkpoints d = projection_checkpoints pdb" "generations_of d = generations_of pdb"
    "owned pdb \<Longrightarrow> owned d"
    "\<And>b' g' p. stored_values d b' g' p = (if b' = b \<and> g' = gn_generation shadow then period_values replay p else stored_values pdb b' g' p)"
    "update_generation db shadow (shadow\<lparr>gn_target_book_position := n, gn_last_book_position := n, gn_state := ''catching_up''\<rparr>) d = Inr pdb'"
proof -
  from assms obtain d where rep: "replace_generation db b (gn_generation shadow) n pdb = Inr d"
    and upd: "update_generation db shadow (shadow\<lparr>gn_target_book_position := n, gn_last_book_position := n,
        gn_state := ''catching_up''\<rparr>) d = Inr pdb'" and g: "g = gn_generation shadow"
    by (auto simp: fill_shadow_def rbind_eq_Inr lift_pdb_Inr)
  from rep show thesis by (rule replace_generation_Inr) (rule that [OF g _ _ _ _ _ upd])
qed

text \<open>A transaction that fills a generation cannot fill the active one: its commit would fail.\<close>

lemma fill_shadow_tracks:
  assumes tr: "tracks db pdb" and fill: "fill_shadow db b shadow n pdb = Inr (g, d)"
    and com: "commit_projections db d = Inr pdb'" and book: "gn_book_id shadow = b"
  shows "tracks db pdb'"
  using fill
proof (rule fill_shadow_Inr)
  fix d1 replay
  let ?s = "shadow\<lparr>gn_target_book_position := n, gn_last_book_position := n, gn_state := ''catching_up''\<rparr>"
  assume cp: "projection_checkpoints d1 = projection_checkpoints pdb" and gs: "generations_of d1 = generations_of pdb"
    and own: "owned pdb \<Longrightarrow> owned d1"
    and sv: "\<And>b' g' p. stored_values d1 b' g' p = (if b' = b \<and> g' = gn_generation shadow then period_values replay p else stored_values pdb b' g' p)"
    and upd: "update_generation db shadow ?s d1 = Inr d"
  have key: "generation_key ?s = generation_key shadow" by (simp add: generation_key_def)
  note u = update_generation_Inr [OF upd key]
  have d: "projection_generations d = replace_by generation_key (generation_key shadow) ?s (projection_generations d1)"
    "b \<in> set (active_checks d)" using upd book by (auto simp: update_generation_def rbind_eq_Inr)
  note c = commit_projections_Inr [OF com]
  have other: "kp_active_generation k \<noteq> gn_generation shadow" if k: "checkpoint_of pdb b = Some k" for k
  proof
    assume eq: "kp_active_generation k = gn_generation shadow"
    have "find_by kp_book_id b (projection_checkpoints d) = Some k" using k u(2) cp by (simp add: checkpoint_of_def)
    with c(2) [OF d(2)] obtain a where "active_generations d b = [a]" "kp_active_generation k = gn_generation a"
      by (auto simp: v2_validate_active_projection_generation_def checks_Inr_iff split: list.splits)
    then have "a \<in> set (active_generations d b)" "generation_key a = generation_key shadow"
      using eq book by (auto simp: active_generations_def generation_key_def filter_eq_Cons_iff)
    then show False by (auto simp: active_generations_def d(1) replace_by_def)
  qed
  have "tracks db d"
  proof (rule tracks_same [OF tr])
    show "owned d" using own tr u by (simp add: tracks_def owned_def)
    show "generations_of pdb \<subseteq> generations_of d" using gs u(3) by simp
    fix x k assume "checkpoint_of d x = Some k"
    then have k: "checkpoint_of pdb x = Some k" using u(2) cp by (simp add: checkpoint_of_def)
    with other have "x \<noteq> b \<or> kp_active_generation k \<noteq> gn_generation shadow" by auto
    then show "checkpoint_of pdb x = Some k
      \<and> (\<forall>p. stored_values d x (kp_active_generation k) p = stored_values pdb x (kp_active_generation k) p)"
      using k sv u(1) by (auto simp: stored_values_def)
  qed
  then show ?thesis by (simp add: c(1) tracks_checks)
qed

lemma tracks_insert_generation:
  assumes "tracks db pdb" "insert_generation db g pdb = Inr pdb'"
  shows "tracks db pdb'"
  using insert_generation_Inr [OF assms(2)] assms(1)
  by (intro tracks_same [OF assms(1)]) (auto simp: tracks_def owned_def checkpoint_of_def stored_values_def)

lemma first_of_sort:
  assumes "(case sort_key f xs of [] \<Rightarrow> None | x # _ \<Rightarrow> Some x) = Some s"
  shows "s \<in> set xs"
proof -
  from assms have "s \<in> set (sort_key f xs)" by (cases "sort_key f xs") simp_all
  then show ?thesis by simp
qed

lemma build_or_resume_tracks:
  assumes tr: "tracks db pdb" and run: "build_or_resume_shadow db b pdb = Inr (g, pdb')"
  shows "tracks db pdb'"
proof -
  have book: "gn_book_id s = b" if "open_shadow pdb b = Some s" for s
    using first_of_sort [OF that [unfolded open_shadow_def]] by simp
  consider (resume) "pdb' = pdb"
    | (filled) head :: book_event_head_record and s d where "open_shadow pdb b = Some s" "fill_shadow db b s (hd_last_position head) pdb = Inr (g, d)"
        "commit_projections db d = Inr pdb'"
    | (fresh) head :: book_event_head_record and d d' where "insert_generation db (building_generation b (next_generation pdb b) (hd_last_position head)) pdb = Inr d"
        "fill_shadow db b (building_generation b (next_generation pdb b) (hd_last_position head)) (hd_last_position head) d = Inr (g, d')"
        "commit_projections db d' = Inr pdb'"
  proof (cases "find_by kp_book_id b (projection_checkpoints pdb) = None")
    case True
    with run show thesis by (simp add: build_or_resume_shadow_def)
  next
    case cp: False
    note shape = run [unfolded build_or_resume_shadow_def if_not_P [OF cp]]
    show thesis
    proof (cases "map_option gn_state (open_shadow pdb b) = Some ''catching_up''")
      case True
      from shape [unfolded if_P [OF True]] show thesis by (intro resume) simp
    next
      case False
      note shape = shape [unfolded if_not_P [OF False]]
      show thesis
      proof (cases "find_by hd_book_id b (book_event_heads db)")
        case None
        with shape show thesis by simp
      next
        case head: (Some head)
        show thesis
        proof (cases "open_shadow pdb b")
          case None
          let ?s = "building_generation b (next_generation pdb b) (hd_last_position head)"
          from shape head None obtain d d' where "insert_generation db ?s pdb = Inr d"
            "fill_shadow db b ?s (hd_last_position head) d = Inr (g, d')" "commit_projections db d' = Inr pdb'"
            by (auto simp: Let_def rbind_eq_Inr lift_pdb_Inr)
          then show thesis by (rule fresh)
        next
          case (Some s)
          with shape head filled show thesis by (auto simp: rbind_eq_Inr lift_pdb_Inr)
        qed
      qed
    qed
  qed
  then show ?thesis
  proof cases
    case resume
    with tr show ?thesis by simp
  next
    case (filled head s d)
    from fill_shadow_tracks [OF tr filled(2,3) book [OF filled(1)]] show ?thesis .
  next
    case (fresh head d d')
    from fill_shadow_tracks [OF tracks_insert_generation [OF tr fresh(1)] fresh(2,3)] show ?thesis
      by (simp add: building_generation_def)
  qed
qed

lemma settled_head:
  assumes "settled sha256 db" "find_by hd_book_id b (book_event_heads db) = Some head"
  shows "hd_last_position head = int (length (book_events db b))"
proof -
  have "head_agrees db b" using assms(1) reachable_book_ok [of sha256 db b] unfolding settled_def book_ledger_ok_def by blast
  with assms(2) show ?thesis by (simp add: head_agrees_def)
qed

text \<open>The swap shows the new generation, filled through the head of the Book.\<close>

lemma catch_up_and_swap_Inr:
  assumes ok: "settled sha256 db" "tracks db pdb" and run: "catch_up_and_swap db b g pdb = Inr (res, pdb')"
  shows "tracks db pdb'"
    "checkpoint_of pdb' b = Some \<lparr>kp_book_id = b, kp_last_book_position = int (length (book_events db b)), kp_active_generation = g\<rparr>"
    "\<exists>replay. cold_replay_monthly_summary db b (Some (int (length (book_events db b)))) = Inr replay
      \<and> (\<forall>p. stored_values pdb' b g p = period_values replay p)"
proof -
  from run obtain c where c: "find_by kp_book_id b (projection_checkpoints pdb) = Some c"
    by (cases "find_by kp_book_id b (projection_checkpoints pdb)") (simp_all add: catch_up_and_swap_def)
  from run c obtain active where a: "find_by generation_key (b, kp_active_generation c) (projection_generations pdb) = Some active"
    by (cases "find_by generation_key (b, kp_active_generation c) (projection_generations pdb)") (simp_all add: catch_up_and_swap_def)
  from run c a obtain s where s: "find_by generation_key (b, g) (projection_generations pdb) = Some s"
    by (cases "find_by generation_key (b, g) (projection_generations pdb)") (simp_all add: catch_up_and_swap_def)
  have state: "gn_state s = ''catching_up''"
    using run c a s by (cases "gn_state s = ''catching_up''") (simp_all add: catch_up_and_swap_def)
  from run c a s state obtain head where h: "find_by hd_book_id b (book_event_heads db) = Some head"
    by (cases "find_by hd_book_id b (book_event_heads db)") (simp_all add: catch_up_and_swap_def)
  let ?n = "int (length (book_events db b))"
  have n: "hd_last_position head = ?n" using settled_head [OF ok(1) h] .
  let ?s = "s\<lparr>gn_target_book_position := ?n, gn_last_book_position := ?n\<rparr>"
  from run obtain d1 d2 d3 d4 d5 where
    rep: "replace_generation db b g ?n pdb = Inr d1" and
    u1: "update_generation db s ?s d1 = Inr d2" and
    u2: "update_generation db active (active\<lparr>gn_state := ''retired''\<rparr>) d2 = Inr d3" and
    u3: "update_generation db ?s (?s\<lparr>gn_state := ''active''\<rparr>) d3 = Inr d4" and
    u4: "update_checkpoint c (c\<lparr>kp_active_generation := g, kp_last_book_position := ?n\<rparr>) d4 = Inr d5" and
    com: "commit_projections db d5 = Inr pdb'"
    using c a s state h by (auto simp: catch_up_and_swap_def Let_def rbind_eq_Inr lift_pdb_Inr n)
  have keys: "generation_key ?s = generation_key s" "generation_key (active\<lparr>gn_state := ''retired''\<rparr>) = generation_key active"
    "generation_key (?s\<lparr>gn_state := ''active''\<rparr>) = generation_key ?s" by (simp_all add: generation_key_def)
  note u = update_generation_Inr [OF u1 keys(1)] update_generation_Inr [OF u2 keys(2)] update_generation_Inr [OF u3 keys(3)]
  from rep obtain replay where replay: "cold_replay_monthly_summary db b (Some ?n) = Inr replay"
    and w: "projection_checkpoints d1 = projection_checkpoints pdb" "generations_of d1 = generations_of pdb" "owned pdb \<Longrightarrow> owned d1"
    and sv: "\<And>b' g' p. stored_values d1 b' g' p = (if b' = b \<and> g' = g then period_values replay p else stored_values pdb b' g' p)"
    by (rule replace_generation_Inr) blast
  have book: "kp_book_id c = b" using find_by_Some_D [OF c] by simp
  have cp4: "checkpoint_of d4 x = checkpoint_of pdb x" for x using u w by (simp add: checkpoint_of_def)
  have "checkpoint_of d4 (kp_book_id c) = Some c" using c by (simp add: book cp4) (simp add: checkpoint_of_def)
  note v = update_checkpoint_Inr [OF u4 _ this]
  have new: "c\<lparr>kp_active_generation := g, kp_last_book_position := ?n\<rparr>
      = \<lparr>kp_book_id = b, kp_last_book_position = ?n, kp_active_generation = g\<rparr>" using book by simp
  have pdb': "pdb' = d5\<lparr>active_checks := []\<rparr>" using commit_projections_Inr(1) [OF com] .
  have cp: "checkpoint_of pdb' x = (if x = b then Some \<lparr>kp_book_id = b, kp_last_book_position = ?n, kp_active_generation = g\<rparr>
      else checkpoint_of pdb x)" for x
    using v(3) [of x] new book by (simp add: pdb' checkpoint_of_def) (simp flip: checkpoint_of_def add: cp4)
  have sv': "stored_values pdb' b' g' p = (if b' = b \<and> g' = g then period_values replay p else stored_values pdb b' g' p)" for b' g' p
    using sv [of b' g' p] u v(1) by (simp add: pdb' stored_values_def)
  have gens: "generations_of pdb' = generations_of pdb" using u w(2) v(2) by (simp add: pdb' generations_of_def)
  show "checkpoint_of pdb' b = Some \<lparr>kp_book_id = b, kp_last_book_position = ?n, kp_active_generation = g\<rparr>" by (simp add: cp)
  show shown: "\<exists>replay. cold_replay_monthly_summary db b (Some ?n) = Inr replay \<and> (\<forall>p. stored_values pdb' b g p = period_values replay p)"
    using replay sv' by auto
  show "tracks db pdb'" unfolding tracks_def
  proof (intro conjI allI impI)
    have "owned d1" using w(3) ok(2) by (simp add: tracks_def)
    then show "owned pdb'" using u v(1,2) by (simp add: pdb' owned_def generations_of_def)
    fix x k assume k: "checkpoint_of pdb' x = Some k"
    show "(x, kp_active_generation k) \<in> generations_of pdb'"
    proof (cases "x = b")
      case True
      have "generation_key s \<in> generations_of pdb"
        unfolding generations_of_def using find_by_Some_D [OF s] by (intro imageI) simp
      then have "(b, g) \<in> generations_of pdb" using find_by_Some_D [OF s] by simp
      moreover have "kp_active_generation k = g" using k True by (auto simp: cp)
      ultimately show ?thesis using True by (simp add: gens)
    next
      case False
      with k ok(2) show ?thesis by (simp add: cp gens tracks_def)
    qed
    show "shows_replay db pdb' x k"
    proof (cases "x = b")
      case True
      with k shown show ?thesis by (auto simp: cp shows_replay_def)
    next
      case False
      with k ok(2) show ?thesis by (simp add: cp tracks_def shows_replay_def sv')
    qed
  qed
qed

section \<open>Everything that can happen\<close>

definition no_projections :: projections_db where
  "no_projections = \<lparr>projection_checkpoints = [], projection_generations = [], projection_dirty_periods = [],
     projection_failures = [], monthly_summaries = [], active_checks = []\<rparr>"

inductive summaries_reachable :: "(byte list \<Rightarrow> byte list) \<Rightarrow> db \<Rightarrow> projections_db \<Rightarrow> bool" for sha256 where
  start: "settled sha256 db \<Longrightarrow> summaries_reachable sha256 db no_projections"
| ledger: "summaries_reachable sha256 db pdb \<Longrightarrow> settled sha256 db' \<Longrightarrow> ledger_grows db db' \<Longrightarrow> summaries_reachable sha256 db' pdb"
| worker: "summaries_reachable sha256 db pdb \<Longrightarrow> run_once n failure_id db b pdb = Inr (res, pdb') \<Longrightarrow>
    summaries_reachable sha256 db pdb'"
| shadow: "summaries_reachable sha256 db pdb \<Longrightarrow> build_or_resume_shadow db b pdb = Inr (g, pdb') \<Longrightarrow>
    summaries_reachable sha256 db pdb'"
| swap: "summaries_reachable sha256 db pdb \<Longrightarrow> catch_up_and_swap db b g pdb = Inr (swapped, pdb') \<Longrightarrow>
    summaries_reachable sha256 db pdb'"

lemma reachable_tracks: "summaries_reachable sha256 db pdb \<Longrightarrow> settled sha256 db \<and> tracks db pdb"
proof (induction rule: summaries_reachable.induct)
  case (start db)
  then show ?case by (simp add: tracks_def owned_def no_projections_def checkpoint_of_def find_by_def)
next
  case (ledger db pdb db')
  then show ?case using tracks_grows settled_in_order by blast
next
  case (worker db pdb n failure_id b res pdb')
  then show ?case using run_once_tracks(1) by blast
next
  case (shadow db pdb b g pdb')
  then show ?case using build_or_resume_tracks by blast
next
  case (swap db pdb b g swapped pdb')
  then show ?case using catch_up_and_swap_Inr(1) by blast
qed

lemma mset_read_monthly_summary:
  assumes "checkpoint_of pdb b = Some c"
  shows "mset (read_monthly_summary collate b p pdb) = mset (stored_values pdb b (kp_active_generation c) p)"
  using assms by (simp add: read_monthly_summary_def checkpoint_of_def stored_values_def)

section \<open>Properties\<close>

text \<open>
  Property C8: the monthly summary is the replay of the log. However the ledger grew, and in whatever order the worker
  and the rebuilder ran in between, the summary a Book shows for a month holds the rows, in whatever order they are returned, that replaying its
  events from the first one up to the position of its checkpoint gives.
\<close>

theorem summaries_are_replays:
  assumes "summaries_reachable sha256 db pdb" "find_by kp_book_id b (projection_checkpoints pdb) = Some c"
  shows "\<exists>replay. cold_replay_monthly_summary db b (Some (kp_last_book_position c)) = Inr replay
    \<and> (\<forall>period. mset (read_monthly_summary collate b period pdb) = mset (period_values replay period))"
proof -
  have c: "checkpoint_of pdb b = Some c" using assms(2) by (simp only: checkpoint_of_def)
  with reachable_tracks [OF assms(1)] have "shows_replay db pdb b c" by (simp only: tracks_def)
  then show ?thesis unfolding shows_replay_def mset_read_monthly_summary [OF c] by (elim conjE)
qed

text \<open>
  Any number of runs of the worker for a Book, one after another: a run that raises is rolled back, a run that finds or
  leaves the Book paused returns with nothing projected, and the others are counted, with the events they report.
\<close>

fun worker_runs :: "int \<Rightarrow> db \<Rightarrow> uuid \<Rightarrow> projections_db \<Rightarrow> uuid list \<Rightarrow> projections_db \<times> nat \<times> int" where
  "worker_runs batch_size db book_id pdb [] = (pdb, 0, 0)"
| "worker_runs batch_size db book_id pdb (failure_id # failure_ids) =
     (case run_once batch_size failure_id db book_id pdb of
        Inl _ \<Rightarrow> worker_runs batch_size db book_id pdb failure_ids
      | Inr (result, pdb) \<Rightarrow>
          (case worker_runs batch_size db book_id pdb failure_ids of (final, finished, processed) \<Rightarrow>
             (final, finished + (if rp_paused result then 0 else 1), processed + rp_processed_events result)))"

text \<open>
  Property C39: the checkpoint is exact. Whatever the runs of the worker did, raised and paused ones among them, the checkpoint
  of the Book has moved by exactly one full batch for every run that finished, up to the head of the Book and not past it, and by
  exactly the number of events the runs report as processed: no event is skipped and none is counted twice.
\<close>

theorem checkpoint_is_exact:
  assumes "summaries_reachable sha256 db pdb" "worker_runs batch_size db b pdb failure_ids = (pdb', finished, processed)"
  shows "checkpoint_position pdb' b =
      min (int (length (book_events db b))) (checkpoint_position pdb b + int finished * batch_size)
    \<and> processed = checkpoint_position pdb' b - checkpoint_position pdb b"
  using assms
proof (induction failure_ids arbitrary: pdb finished processed)
  case Nil
  have "tracks db pdb" using reachable_tracks Nil.prems(1) by blast
  then have "checkpoint_position pdb b \<le> int (length (book_events db b))"
    by (auto simp: checkpoint_position_def tracks_def shows_replay_def checkpoint_of_def split: option.split)
  with Nil.prems(2) show ?case by auto
next
  case (Cons failure_id failure_ids)
  show ?case
  proof (cases "run_once batch_size failure_id db b pdb")
    case (Inl e)
    with Cons.prems(2) have "worker_runs batch_size db b pdb failure_ids = (pdb', finished, processed)" by simp
    with Cons.prems(1) show ?thesis by (rule Cons.IH)
  next
    case (Inr x)
    then obtain res d where run: "run_once batch_size failure_id db b pdb = Inr (res, d)" by (cases x) simp
    obtain k n where rest: "worker_runs batch_size db b d failure_ids = (pdb', k, n)"
      and k: "finished = k + (if rp_paused res then 0 else 1)" and n: "processed = n + rp_processed_events res"
      using Cons.prems(2) run by (cases "worker_runs batch_size db b d failure_ids") auto
    have "summaries_reachable sha256 db d" using Cons.prems(1) run by (rule summaries_reachable.worker)
    note IH = Cons.IH [OF this rest]
    have tr: "settled sha256 db" "tracks db pdb" using reachable_tracks Cons.prems(1) by blast+
    note R = run_once_tracks(2-4) [OF tr run]
    show ?thesis
    proof (cases "rp_paused res")
      case True
      with IH R k n show ?thesis by simp
    next
      case False
      have "0 \<le> int k * batch_size" using R(1) [OF False] by simp
      moreover have "checkpoint_position d b = min (int (length (book_events db b))) (checkpoint_position pdb b + batch_size)"
        using R(1) [OF False] by simp
      ultimately have "checkpoint_position pdb' b =
          min (int (length (book_events db b))) (checkpoint_position pdb b + int finished * batch_size)"
        using IH k False by (simp add: distrib_right min_def)
      moreover have "processed = checkpoint_position pdb' b - checkpoint_position pdb b" using IH R(3) n by simp
      ultimately show ?thesis by blast
    qed
  qed
qed

section \<open>The last month of the calendar\<close>

lemma december_9999_stops: "next_month (9999, 12, d) = Inl ProjectionValueError"
  by (simp add: next_month_def)

lemma mark_dirty_periods_marks:
  assumes "mark_dirty_periods db st events pdb = Inr (periods, pdb')" "period \<in> set periods"
  shows "\<exists>period_end. next_month period = Inr period_end"
proof -
  from assms(1) obtain latest where loop: "foldE (mark_dirty_period db st) pdb latest = Inr pdb'"
    and periods: "periods = sort (map fst latest)"
    by (auto simp: mark_dirty_periods_def rbind_eq_Inr)
  have "foldE (mark_dirty_period db st) d xs = Inr d' \<Longrightarrow> x \<in> set xs \<Longrightarrow> \<exists>e. next_month (fst x) = Inr e" for d d' xs x
    by (induction xs arbitrary: d) (auto simp: rbind_eq_Inr mark_dirty_period_def split: prod.splits)
  with loop assms(2) show ?thesis by (fastforce simp: periods)
qed

text \<open>
  Property C40: December 9999 stops the worker. A datetime may lie in that month and the ledger takes an event effective then;
  but no run of the worker that reads such an event (other than a change of reporting lines) finishes: the month after it is not
  a date of the standard library, so the run raises, or pauses on another event of the batch, and the checkpoint stays.
\<close>

theorem december_9999_stops_worker:
  assumes "read_after db b (checkpoint_position pdb b) batch_size = Inr events" "event \<in> set events"
    and "reporting_target (le_payload event) = None" "utc_date (le_effective_at event) = Inr (9999, 12, day)"
    and "run_once batch_size failure_id db b pdb = Inr (res, pdb')"
  shows "rp_paused res \<and> rp_processed_events res = 0"
proof -
  have not_marked: "mark_dirty_periods db st events d \<noteq> Inr (periods, d')" for st d periods d'
  proof
    assume m: "mark_dirty_periods db st events d = Inr (periods, d')"
    from mark_dirty_periods_Inr(4) [OF m assms(2)] obtain ps
      where ps: "affected_periods db event = Inr ps" "set ps \<subseteq> set periods" by blast
    from ps(1) assms(3,4) have "(9999, 12, 1) \<in> set ps"
      by (auto simp: affected_periods_def validate_stored_def month_start_def split: sum.splits if_splits)
    with ps(2) mark_dirty_periods_marks [OF m] have "\<exists>e. next_month (9999, 12, 1) = Inr e" by blast
    then show False by (simp add: december_9999_stops)
  qed
  have "events \<noteq> []" using assms(2) by auto
  with assms(1,5) consider "res = \<lparr>rp_processed_events = 0, rp_last_book_position = checkpoint_position pdb b, rp_paused = True\<rparr>"
    | d where "project_batch failure_id db b (checkpoint_position pdb b) events pdb = Inr (res, d)"
    by (auto simp: run_once_def Let_def rbind_eq_Inr lift_pdb_Inr split: option.splits if_splits)
  then show ?thesis
  proof cases
    case 2
    then show ?thesis using not_marked by (cases rule: project_batch_Inr) auto
  qed simp
qed

end
