(* ===== verification/Command_Safety.thy ===== *)
theory Command_Safety
  imports Command_Bus
begin

text \<open>
  What running a command guarantees: its effects are committed at most once whatever faults occur,
  its outcome can be asked for again, a financial command appends and projects its events together
  or not at all, and the number of attempts is bounded.
\<close>

section \<open>Retries\<close>

lemma retry_Inr_cases:
  assumes "retry once n k db = (r, db')"
  obtains (exhausted) "n \<le> k" "r = Inl AssertionError" "db' = db"
  | (final) "k < n" "once k db = (r, db')"
  | (again) e d where "k + 1 < n" "is_retryable e" "once k db = (Inl (DBError e), d)" "retry once n (k + 1) d = (r, db')"
proof (cases "n \<le> k")
  case True
  then show thesis using assms exhausted by (simp add: retry.simps [of once n k])
next
  case False
  obtain x d where x: "once k db = (x, d)" by fastforce
  show thesis
  proof (cases "\<exists>e. x = Inl (DBError e) \<and> is_retryable e \<and> k + 1 < n")
    case True
    then obtain e where e: "x = Inl (DBError e)" "is_retryable e" "k + 1 < n" by blast
    with assms x have "retry once n (k + 1) d = (r, db')" by (simp add: retry.simps [of once n k])
    with e x show thesis by (intro again) simp_all
  next
    case no: False
    then have "(r, db') = (x, d)"
      using assms x False by (auto simp: retry.simps [of once n k] split: sum.splits ledger_error.splits if_splits)
    with x False show thesis by (intro final) simp_all
  qed
qed

lemma retry_cong:
  assumes "\<And>i d. k \<le> i \<Longrightarrow> i < n \<Longrightarrow> once i d = once' i d"
  shows "retry once n k db = retry once' n k db"
  using assms
proof (induction once n k db rule: retry.induct)
  case (1 once n k db)
  show ?case
  proof (cases "n \<le> k")
    case True
    then show ?thesis by (simp add: retry.simps [of _ n k])
  next
    case False
    have "once k db = once' k db" using 1(2) False by simp
    moreover have "retry once n (k + 1) d = retry once' n (k + 1) d"
      if "once k db = (Inl (DBError e), d)" "\<not> (n \<le> k + 1 \<or> \<not> is_retryable e)" for e d
      using 1(1) [OF False that(1) [symmetric] refl refl that(2)] 1(2) by simp
    ultimately show ?thesis
      using False by (auto simp: retry.simps [of _ n k] split: sum.splits ledger_error.splits prod.splits)
  qed
qed

section \<open>Units of work\<close>

lemma unit_of_work_cases:
  assumes "unit_of_work i fault block db = (r, db')"
  obtains (rolled_back) e where "r = Inl e" "db' = db"
  | (committed) x s where "block (open_session i db) = Inr (x, s)" "commit (se_db s) = Inr db'"
      "r = Inr x \<or> (\<exists>e. r = Inl (DBError e))"
  using assms unfolding unit_of_work_def
  by (auto split: option.splits fault.splits sum.splits prod.splits)

lemma commit_receipts: "commit db = Inr db' \<Longrightarrow> command_receipts db' = command_receipts db"
  by (auto dest: commit_Inr)

lemma receipt_of_cong: "command_receipts db' = command_receipts db \<Longrightarrow> receipt_of db' s = receipt_of db s"
  by (simp add: receipt_of_def lock_receipt_def)

text \<open>
  The durable effects of a call: what others commit, and the work of the command, committed at most
  once. The outcome is the one of the committed work, if there is one.
\<close>

inductive effects ::
    "(attempt \<Rightarrow> session \<Rightarrow> ledger_error + command_outcome \<times> session) \<Rightarrow> (nat \<Rightarrow> attempt) \<Rightarrow> db
      \<Rightarrow> command_outcome option \<Rightarrow> db \<Rightarrow> bool" for block attempts db where
  start: "effects block attempts db None db"
| others: "effects block attempts db eff d \<Longrightarrow> effects block attempts db eff (at_others (attempts i) d)"
| work: "effects block attempts db None d \<Longrightarrow> block (attempts i) (open_session i d) = Inr (out, s) \<Longrightarrow>
    \<not> co_replayed out \<Longrightarrow> commit (se_db s) = Inr d' \<Longrightarrow> effects block attempts db (Some out) d'"

text \<open>
  Other transactions have run their deferred checks when they commit, and a receipt that was
  completed stays as it is: the guard of its table allows no other change.
\<close>

definition keeps_completed :: "(db \<Rightarrow> db) \<Rightarrow> bool" where
  "keeps_completed f \<longleftrightarrow> (\<forall>db. deferred_checks db = [] \<longrightarrow> deferred_checks (f db) = [])
     \<and> (\<forall>db s p. receipt_of db s = Some p \<longrightarrow> rp_status p = COMPLETED \<longrightarrow> receipt_of (f db) s = Some p)"

lemma keeps_completedD:
  "keeps_completed f \<Longrightarrow> receipt_of db s = Some p \<Longrightarrow> rp_status p = COMPLETED \<Longrightarrow> receipt_of (f db) s = Some p"
  "keeps_completed f \<Longrightarrow> deferred_checks db = [] \<Longrightarrow> deferred_checks (f db) = []"
  by (simp_all add: keeps_completed_def)

lemma commit_idle: "deferred_checks db = [] \<Longrightarrow> commit db = Inr db"
  by (simp add: commit_def)

lemma commit_clears: "commit db = Inr db' \<Longrightarrow> deferred_checks db' = []"
  by (auto dest: commit_Inr)

section \<open>Commands under receipts\<close>

text \<open>A scope whose receipt fits the columns and checks of the table, whatever the request.\<close>

definition storable :: "receipt_scope \<Rightarrow> bool" where
  "storable s \<longleftrightarrow> (\<exists>h c. receipt_types_ok (new_receipt s h c) = Inr () \<and> receipt_row_ok (new_receipt s h c) = Inr ())"

lemma reserve_storable: "reserve_or_lock s h c db = Inr x \<Longrightarrow> storable s"
  by (cases x) (auto simp: storable_def reserve_or_lock_def lift_db_def result_simps
      insert_receipt_on_conflict_do_nothing_def)

lemma reserve_completed:
  assumes "storable s" "length h = 32" "receipt_of db s = Some p" "rp_status p = COMPLETED"
  shows "reserve_or_lock s h c db = Inr (\<lparr>rn_created = False, rn_receipt = p\<rparr>, db)"
proof -
  from assms(3,4) obtain r where r: "lock_receipt s db = Some r" "p = snapshot r" "cr_status r = COMPLETED"
    by (auto simp: receipt_of_def snapshot_def)
  have ok: "receipt_types_ok (new_receipt s h c) = Inr ()" "receipt_row_ok (new_receipt s h c) = Inr ()"
    using assms(1,2) by (auto simp: storable_def receipt_types_ok_def receipt_row_ok_def receipt_lifecycle_shape_def
        new_receipt_def checks_Inr_iff octet_length_def)
  have guard: "v2_guard_command_receipt_lifecycle None (new_receipt s h c) = Inr ()"
    by (simp add: v2_guard_command_receipt_lifecycle_def new_receipt_def)
  have "scope_key s \<in> receipt_key ` set (command_receipts db)"
    using r(1) find_by_None_iff [of receipt_key "scope_key s" "command_receipts db"] by (auto simp: lock_receipt_def)
  with ok guard have "insert_receipt_on_conflict_do_nothing (new_receipt s h c) db = Inr (None, db)"
    by (simp add: insert_receipt_on_conflict_do_nothing_def)
  with r show ?thesis by (simp add: reserve_or_lock_def lift_db_def)
qed

text \<open>A call of the bus, seen as the parameters of its attempts.\<close>

record 'h command_call =
  cl_sha256 :: "byte list \<Rightarrow> byte list"
  cl_authorize :: authorize
  cl_handler :: 'h
  cl_actor :: command_actor
  cl_key_hash :: "byte list"
  cl_command :: command
  cl_granted :: authorization_scope
  cl_request_hash :: "byte list"

definition call_scope :: "('h, 'z) command_call_scheme \<Rightarrow> receipt_scope" where
  "call_scope c = receipt_scope_of (cl_actor c) (cl_key_hash c) (cl_command c)"

text \<open>The actor is granted the same scope whenever the command asks, and the request has its hash.\<close>

definition granted :: "('h, 'z) command_call_scheme \<Rightarrow> bool" where
  "granted c \<longleftrightarrow> (\<forall>db. cl_authorize c db (cl_actor c) (cm_book_id (cl_command c)) = Inr (cl_granted c))
     \<and> hash_command_request (cl_sha256 c) (cl_command c) (cl_granted c) = Inr (cl_request_hash c)"

locale receipted_command =
  fixes block :: "'c \<Rightarrow> attempt \<Rightarrow> session \<Rightarrow> ledger_error + command_outcome \<times> session"
    and scope :: "'c \<Rightarrow> receipt_scope"
    and request_hash :: "'c \<Rightarrow> byte list"
    and well_behaved :: "'c \<Rightarrow> bool"
    and granted :: "'c \<Rightarrow> bool"
  assumes fresh: "well_behaved c \<Longrightarrow> block c a s = Inr (out, s') \<Longrightarrow> \<not> co_replayed out \<Longrightarrow>
      receipt_of (se_db s) (scope c) = None \<and> CommandResult (co_result out) = Inr (co_result out)
      \<and> (\<exists>p. receipt_of (se_db s') (scope c) = Some p \<and> completes p (co_result out))"
    and replayed: "block c a s = Inr (out, s') \<Longrightarrow> co_replayed out \<Longrightarrow>
      s' = s \<and> (\<exists>p. receipt_of (se_db s) (scope c) = Some p \<and> rp_status p = COMPLETED \<and> replay_result p = Inr (co_result out))"
    and request: "well_behaved c \<Longrightarrow> granted c \<Longrightarrow> block c a s = Inr (out, s') \<Longrightarrow>
      \<exists>p. receipt_of (se_db s') (scope c) = Some p \<and> rp_request_hash p = request_hash c"
    and storable: "block c a s = Inr (out, s') \<Longrightarrow> storable (scope c)"
begin

text \<open>The outcome of a call, as far as the receipt of its scope remembers it.\<close>

definition remembers :: "'c \<Rightarrow> db \<Rightarrow> command_result \<Rightarrow> bool" where
  "remembers c db result \<longleftrightarrow> storable (scope c) \<and> (\<exists>p. receipt_of db (scope c) = Some p \<and> rp_status p = COMPLETED
     \<and> replay_result p = Inr result \<and> (granted c \<longrightarrow> rp_request_hash p = request_hash c))"

lemma remembers_others: "remembers c db result \<Longrightarrow> keeps_completed f \<Longrightarrow> remembers c (f db) result"
  unfolding remembers_def using keeps_completedD(1) by blast

lemma attempt_remembers:
  assumes "well_behaved c" "block c a s = Inr (out, s')" "commit (se_db s') = Inr db'"
  shows "remembers c db' (co_result out)"
proof -
  have rec: "receipt_of db' (scope c) = receipt_of (se_db s') (scope c)"
    using commit_receipts [OF assms(3)] by (rule receipt_of_cong)
  have req: "granted c \<longrightarrow> rp_request_hash p = request_hash c" if "receipt_of (se_db s') (scope c) = Some p" for p
    using request [OF assms(1) _ assms(2)] that by auto
  obtain p where "receipt_of (se_db s') (scope c) = Some p" "rp_status p = COMPLETED" "replay_result p = Inr (co_result out)"
  proof (cases "co_replayed out")
    case True
    with replayed [OF assms(2)] that show thesis by auto
  next
    case False
    from fresh [OF assms(1,2) this] obtain p where "receipt_of (se_db s') (scope c) = Some p"
      "completes p (co_result out)" "CommandResult (co_result out) = Inr (co_result out)" by blast
    with that show thesis by (auto simp: completes_replay completes_def)
  qed
  with req rec storable [OF assms(2)] show ?thesis unfolding remembers_def by auto
qed

definition call_state :: "'c \<Rightarrow> (nat \<Rightarrow> attempt) \<Rightarrow> db \<Rightarrow> command_outcome option \<Rightarrow> db \<Rightarrow> bool" where
  "call_state c attempts db eff d \<longleftrightarrow> effects (block c) attempts db eff d \<and> deferred_checks d = []
     \<and> (\<forall>w. eff = Some w \<longrightarrow> remembers c d (co_result w))"

lemma call_state_others:
  "call_state c attempts db eff d \<Longrightarrow> keeps_completed (at_others (attempts i)) \<Longrightarrow>
     call_state c attempts db eff (at_others (attempts i) d)"
  unfolding call_state_def using remembers_others keeps_completedD(2) effects.others by metis

lemma attempt_effects:
  assumes wb: "well_behaved c" and stable: "\<And>i. keeps_completed (at_others (attempts i))"
    and st: "call_state c attempts db eff d" and att: "attempt_once cmd (block c) attempts i d = (r, d')"
  obtains eff' where "call_state c attempts db eff' d'"
    "\<And>out. r = Inr out \<Longrightarrow> remembers c d' (co_result out) \<and> (co_replayed out \<or> eff' = Some out)"
proof -
  let ?d = "at_others (attempts i) d"
  have sto: "call_state c attempts db eff ?d" using st stable by (rule call_state_others)
  show thesis
  proof (cases "operation_ok (cm_operation cmd)")
    case False
    then have "r = Inl IdempotencyValidationError" "d' = ?d" using att by (simp_all add: attempt_once_def)
    with sto show thesis by (intro that [of eff]) simp_all
  next
    case True
    then have "unit_of_work i (at_fault (attempts i)) (block c (attempts i)) ?d = (r, d')"
      using att by (simp add: attempt_once_def)
    then show thesis
    proof (cases rule: unit_of_work_cases)
      case (rolled_back e)
      with sto show thesis by (intro that [of eff]) simp_all
    next
      case (committed x s)
      have rem: "remembers c d' (co_result x)" by (rule attempt_remembers [OF wb committed(1,2)])
      show thesis
      proof (cases "co_replayed x")
        case False
        have "eff = None"
        proof (rule ccontr)
          assume "eff \<noteq> None"
          then obtain w where "eff = Some w" by blast
          with sto have "receipt_of ?d (scope c) \<noteq> None" unfolding call_state_def remembers_def by auto
          with fresh [OF wb committed(1) False] show False by (simp add: open_session_def)
        qed
        with sto have "effects (block c) attempts db None ?d" by (simp add: call_state_def)
        then have "effects (block c) attempts db (Some x) d'"
          using committed(1) False committed(2) by (rule effects.work)
        then have "call_state c attempts db (Some x) d'"
          using rem commit_clears [OF committed(2)] by (simp add: call_state_def)
        then show thesis using rem committed(3) by (intro that [of "Some x"]) auto
      next
        case True
        from replayed [OF committed(1) this] have "s = open_session i ?d" by blast
        moreover have "deferred_checks ?d = []" using sto by (simp add: call_state_def)
        ultimately have "d' = ?d" using committed(2) by (simp add: open_session_def commit_idle)
        with sto show thesis using rem committed(3) True by (intro that [of eff]) auto
      qed
    qed
  qed
qed

lemma retry_effects:
  assumes wb: "well_behaved c" and stable: "\<And>i. keeps_completed (at_others (attempts i))"
  shows "retry (attempt_once cmd (block c) attempts) n k d = (r, d') \<Longrightarrow> call_state c attempts db eff d \<Longrightarrow>
    \<exists>eff'. call_state c attempts db eff' d'
      \<and> (\<forall>out. r = Inr out \<longrightarrow> remembers c d' (co_result out) \<and> (co_replayed out \<or> eff' = Some out))"
proof (induction "n - k" arbitrary: k d eff)
  case (0 k d eff)
  then have "(r, d') = (Inl AssertionError, d)" by (simp add: retry.simps [of _ n k])
  with 0(3) show ?case by auto
next
  case (Suc m k d eff)
  from Suc(3) show ?case
  proof (cases rule: retry_Inr_cases)
    case exhausted
    with Suc(4) show ?thesis by auto
  next
    case final
    from attempt_effects [OF wb stable Suc(4) final(2)] show ?thesis by metis
  next
    case (again e d1)
    from attempt_effects [OF wb stable Suc(4) again(3)] obtain eff1 where "call_state c attempts db eff1 d1" by blast
    moreover have "m = n - (k + 1)" using Suc(2) by simp
    ultimately show ?thesis using Suc(1) again(4) by blast
  qed
qed

text \<open>One call: at most one committed piece of work, and every outcome is the one that is remembered.\<close>

lemma call_effects:
  assumes "well_behaved c" "\<And>i. keeps_completed (at_others (attempts i))" "deferred_checks db = []"
    and "retry (attempt_once cmd (block c) attempts) n 0 db = (r, db')"
  shows "\<exists>eff. effects (block c) attempts db eff db'
      \<and> (\<forall>out. r = Inr out \<longrightarrow> (co_replayed out \<or> eff = Some out)
           \<and> (\<forall>w. eff = Some w \<longrightarrow> co_result w = co_result out))"
proof -
  have "call_state c attempts db None db" using assms(3) by (simp add: call_state_def effects.start)
  from retry_effects [OF assms(1,2,4) this] obtain eff where st: "call_state c attempts db eff db'"
    and out: "\<forall>out. r = Inr out \<longrightarrow> remembers c db' (co_result out) \<and> (co_replayed out \<or> eff = Some out)" by blast
  have "co_result w = co_result out" if "r = Inr out" "eff = Some w" for out w
    using st out that unfolding call_state_def remembers_def by fastforce
  with st out show ?thesis unfolding call_state_def by blast
qed

end

text \<open>The handlers leave the receipts to the bus.\<close>

definition leaves_receipts :: "handler \<Rightarrow> command \<Rightarrow> bool" where
  "leaves_receipts handler command \<longleftrightarrow> (\<forall>s r s'. handler command s = Inr (r, s') \<longrightarrow>
     command_receipts (se_db s') = command_receipts (se_db s))"

definition financial_leaves_receipts :: "financial_handler \<Rightarrow> command \<Rightarrow> bool" where
  "financial_leaves_receipts handler command \<longleftrightarrow> (\<forall>s h plan s'. handler command s h = Inr (plan, s') \<longrightarrow>
     command_receipts (se_db s') = command_receipts (se_db s)
     \<and> (case lp_post_projection_finalizer plan of None \<Rightarrow> True | Some f \<Rightarrow>
          \<forall>ar s s'. f ar s = Inr s' \<longrightarrow> command_receipts (se_db s') = command_receipts (se_db s)))"

definition handler_ok :: "(handler, 'z) command_call_scheme \<Rightarrow> bool" where
  "handler_ok c \<longleftrightarrow> leaves_receipts (cl_handler c) (cl_command c)"

definition financial_handler_ok :: "(financial_handler, 'z) command_call_scheme \<Rightarrow> bool" where
  "financial_handler_ok c \<longleftrightarrow> financial_leaves_receipts (cl_handler c) (cl_command c)"

definition once_block :: "(handler, 'z) command_call_scheme \<Rightarrow> attempt \<Rightarrow> session \<Rightarrow> ledger_error + command_outcome \<times> session" where
  "once_block c a = execute_once (cl_sha256 c) (cl_authorize c) (cl_handler c) (cl_actor c) (cl_key_hash c)
     (cl_command c) (at_clock a)"

definition financial_block ::
    "(financial_handler, 'z) command_call_scheme \<Rightarrow> attempt \<Rightarrow> session \<Rightarrow> ledger_error + command_outcome \<times> session" where
  "financial_block c a = execute_financial_once (cl_sha256 c) (cl_authorize c) (cl_handler c) (cl_actor c) (cl_key_hash c)
     (cl_command c) (at_clock a) (at_lock_token a)"

lemma reserve_command_Inr:
  assumes "reserve_command sha256 authorize actor kh command s = Inr (hr, s1)"
  obtains auth db1 where "authorize (se_db s) actor (cm_book_id command) = Inr auth"
    "hash_command_request sha256 command auth = Inr (fst hr)"
    "reserve_or_lock (receipt_scope_of actor kh command) (fst hr) (cm_command_id command) (se_db s) = Inr (snd hr, db1)"
    "s1 = s\<lparr>se_db := db1\<rparr>"
proof -
  from assms obtain auth0 auth h rn where a: "authorize (se_db s) actor (cm_book_id command) = Inr auth0"
    and a': "AuthorizationScope auth0 = Inr auth" and h: "hash_command_request sha256 command auth = Inr h"
    and r: "on_db (reserve_or_lock (receipt_scope_of actor kh command) h (cm_command_id command)) s = Inr (rn, s1)"
    and hr: "hr = (h, rn)"
    by (auto simp: reserve_command_def result_simps split: prod.splits)
  from a' have "auth = auth0" by (auto simp: AuthorizationScope_def result_simps)
  with a h r hr show thesis by (auto simp: result_simps intro: that)
qed

lemma session_same [simp]: "s\<lparr>se_db := se_db s\<rparr> = s"
  by simp

lemma CommandResult_Inr: "CommandResult r = Inr r' \<Longrightarrow> r' = r"
  by (auto simp: CommandResult_def result_simps)

lemma LedgerWritePlan_Inr: "LedgerWritePlan p = Inr p' \<Longrightarrow> p' = p"
  by (auto simp: LedgerWritePlan_def result_simps)

lemma replay_or_conflict_Inr:
  "replay_or_conflict rn h = Inr res \<Longrightarrow>
     \<not> rn_created rn \<and> rp_request_hash (rn_receipt rn) = h \<and> replay_result (rn_receipt rn) = Inr res"
  by (simp add: replay_or_conflict_def split: if_splits)

lemma replay_completed: "replay_result p = Inr r \<Longrightarrow> rp_status p = COMPLETED"
  by (auto simp: replay_result_def split: receipt_status.splits)

text \<open>The two ways an attempt can return: the receipt is replayed, or the work is done and completed.\<close>

lemma replay_attempt:
  assumes "reserve_command sha256 authorize actor kh command s = Inr (hr, s1)" "\<not> rn_created (snd hr)"
    and "replay_or_conflict (snd hr) (fst hr) = Inr result"
  shows "s1 = s" "receipt_of (se_db s) (receipt_scope_of actor kh command) = Some (rn_receipt (snd hr))"
    "rp_request_hash (rn_receipt (snd hr)) = fst hr" "replay_result (rn_receipt (snd hr)) = Inr result"
proof -
  from assms(1) obtain db1 where
    res: "reserve_or_lock (receipt_scope_of actor kh command) (fst hr) (cm_command_id command) (se_db s) = Inr (snd hr, db1)"
    and s1: "s1 = s\<lparr>se_db := db1\<rparr>" by (rule reserve_command_Inr)
  from receipts.reserve_found [OF res assms(2)] s1 show "s1 = s"
    "receipt_of (se_db s) (receipt_scope_of actor kh command) = Some (rn_receipt (snd hr))" by simp_all
  from replay_or_conflict_Inr [OF assms(3)] show "rp_request_hash (rn_receipt (snd hr)) = fst hr"
    "replay_result (rn_receipt (snd hr)) = Inr result" by simp_all
qed

lemma work_attempt:
  assumes res: "reserve_command sha256 authorize actor kh command s = Inr (hr, s1)" "rn_created (snd hr)"
    and work: "command_receipts (se_db s2) = command_receipts (se_db s1)"
    and fin: "complete now (receipt_scope_of actor kh command) result (se_db s2) = Inr (p, db3)"
  shows "receipt_of (se_db s) (receipt_scope_of actor kh command) = None"
    "receipt_of db3 (receipt_scope_of actor kh command) = Some p" "completes p result" "rp_request_hash p = fst hr"
proof -
  from res(1) obtain db1 where
    r: "reserve_or_lock (receipt_scope_of actor kh command) (fst hr) (cm_command_id command) (se_db s) = Inr (snd hr, db1)"
    and s1: "s1 = s\<lparr>se_db := db1\<rparr>" by (rule reserve_command_Inr)
  from receipts.reserve_created [OF r res(2)] s1 have created:
    "receipt_of (se_db s) (receipt_scope_of actor kh command) = None"
    "\<exists>q. receipt_of (se_db s1) (receipt_scope_of actor kh command) = Some q \<and> rp_request_hash q = fst hr" by simp_all
  moreover from receipts.finish_completes [OF fin] have "receipt_of db3 (receipt_scope_of actor kh command) = Some p"
    "completes p result" "map_option rp_request_hash (receipt_of (se_db s2) (receipt_scope_of actor kh command)) = Some (rp_request_hash p)"
    by blast+
  ultimately show "receipt_of (se_db s) (receipt_scope_of actor kh command) = None"
    "receipt_of db3 (receipt_scope_of actor kh command) = Some p" "completes p result" "rp_request_hash p = fst hr"
    using receipt_of_cong [OF work] by auto
qed

lemma execute_once_Inr:
  assumes "execute_once sha256 authorize handler actor kh command now s = Inr (out, s')"
  obtains (replay) hr result where "reserve_command sha256 authorize actor kh command s = Inr (hr, s')"
      "\<not> rn_created (snd hr)" "replay_or_conflict (snd hr) (fst hr) = Inr result"
      "out = \<lparr>co_result = result, co_replayed = True\<rparr>"
  | (work) hr s1 s2 result p db3 where "reserve_command sha256 authorize actor kh command s = Inr (hr, s1)"
      "rn_created (snd hr)" "handler command s1 = Inr (result, s2)" "CommandResult result = Inr result"
      "complete now (receipt_scope_of actor kh command) result (se_db s2) = Inr (p, db3)"
      "s' = s2\<lparr>se_db := db3\<rparr>" "out = \<lparr>co_result = result, co_replayed = False\<rparr>"
proof -
  from assms obtain hr s1 where r: "reserve_command sha256 authorize actor kh command s = Inr (hr, s1)"
    by (auto simp: execute_once_def result_simps)
  show thesis
  proof (cases "rn_created (snd hr)")
    case False
    with assms r show thesis by (cases hr) (auto simp: execute_once_def result_simps intro: replay)
  next
    case True
    with assms r obtain ret s2 result p db3 where h: "handler command s1 = Inr (ret, s2)" "CommandResult ret = Inr result"
      "complete now (receipt_scope_of actor kh command) result (se_db s2) = Inr (p, db3)" "s' = s2\<lparr>se_db := db3\<rparr>"
      "out = \<lparr>co_result = result, co_replayed = False\<rparr>"
      by (cases hr) (auto simp: execute_once_def result_simps)
    from CommandResult_Inr [OF h(2)] have "result = ret" .
    with True r h show thesis by (intro work) simp_all
  qed
qed

interpretation plain: receipted_command once_block call_scope cl_request_hash handler_ok granted
proof unfold_locales
  fix c :: "(handler, 'z) command_call_scheme" and a s out s'
  assume ok: "handler_ok c" and run: "once_block c a s = Inr (out, s')" and new: "\<not> co_replayed out"
  from run show "receipt_of (se_db s) (call_scope c) = None \<and> CommandResult (co_result out) = Inr (co_result out)
      \<and> (\<exists>p. receipt_of (se_db s') (call_scope c) = Some p \<and> completes p (co_result out))"
    unfolding once_block_def
  proof (cases rule: execute_once_Inr)
    case (work hr s1 s2 result p db3)
    from ok work(3) have "command_receipts (se_db s2) = command_receipts (se_db s1)" unfolding handler_ok_def leaves_receipts_def by blast
    from work_attempt [OF work(1,2) this work(5)] work(4,6,7) show ?thesis by (simp add: call_scope_def)
  qed (use new in simp)
next
  fix c :: "(handler, 'z) command_call_scheme" and a s out s'
  assume run: "once_block c a s = Inr (out, s')" and old: "co_replayed out"
  from run show "s' = s \<and> (\<exists>p. receipt_of (se_db s) (call_scope c) = Some p \<and> rp_status p = COMPLETED
      \<and> replay_result p = Inr (co_result out))"
    unfolding once_block_def
  proof (cases rule: execute_once_Inr)
    case (replay hr result)
    from replay_attempt [OF replay(1-3)] replay(4) replay_completed show ?thesis by (simp add: call_scope_def)
  qed (use old in simp)
next
  fix c :: "(handler, 'z) command_call_scheme" and a s out s'
  assume ok: "handler_ok c" and gr: "granted c" and run: "once_block c a s = Inr (out, s')"
  have hash: "fst hr = cl_request_hash c"
    if "reserve_command (cl_sha256 c) (cl_authorize c) (cl_actor c) (cl_key_hash c) (cl_command c) s = Inr (hr, s1)" for hr s1
    using that by (rule reserve_command_Inr) (use gr in \<open>simp add: granted_def\<close>)
  from run show "\<exists>p. receipt_of (se_db s') (call_scope c) = Some p \<and> rp_request_hash p = cl_request_hash c"
    unfolding once_block_def
  proof (cases rule: execute_once_Inr)
    case (replay hr result)
    from replay_attempt [OF replay(1-3)] hash [OF replay(1)] show ?thesis by (simp add: call_scope_def)
  next
    case (work hr s1 s2 result p db3)
    from ok work(3) have "command_receipts (se_db s2) = command_receipts (se_db s1)" unfolding handler_ok_def leaves_receipts_def by blast
    from work_attempt [OF work(1,2) this work(5)] work(6) hash [OF work(1)] show ?thesis by (simp add: call_scope_def)
  qed
next
  fix c :: "(handler, 'z) command_call_scheme" and a s out s'
  assume "once_block c a s = Inr (out, s')"
  then show "storable (call_scope c)"
    unfolding once_block_def call_scope_def
    by (cases rule: execute_once_Inr) (auto elim!: reserve_command_Inr dest: reserve_storable)
qed

section \<open>Financial commands\<close>

definition run_finalizer :: "ledger_write_plan \<Rightarrow> append_batch_result \<Rightarrow> session \<Rightarrow> ledger_error + session" where
  "run_finalizer plan appended session =
     (case lp_post_projection_finalizer plan of None \<Rightarrow> Inr session | Some finalizer \<Rightarrow> finalizer appended session)"

lemma execute_financial_once_Inr:
  assumes "execute_financial_once sha256 authorize handler actor kh command now token s = Inr (out, s')"
  obtains (replay) hr result where "reserve_command sha256 authorize actor kh command s = Inr (hr, s')"
      "\<not> rn_created (snd hr)" "replay_or_conflict (snd hr) (fst hr) = Inr result"
      "out = \<lparr>co_result = result, co_replayed = True\<rparr>"
  | (work) hr s1 locked s2 plan s3 appended s4 s5 p db6 where
      "reserve_command sha256 authorize actor kh command s = Inr (hr, s1)" "rn_created (snd hr)"
      "execute_under_book_lock token (cm_book_id command) s1 = Inr (locked, s2)"
      "handler command s2 locked = Inr (plan, s3)"
      "\<forall>e\<in>set (lp_events plan). pe_command_id e = cm_command_id command \<and> pe_actor_subject_id e = ca_subject_id actor"
      "append_and_project sha256 locked (lp_expected_stream_versions plan) (lp_events plan) s3 = Inr (appended, s4)"
      "run_finalizer plan appended s4 = Inr s5"
      "CommandResult (co_result out) = Inr (co_result out)"
      "co_result out = plan_result plan (Some (ar_start appended, ar_stop appended - 1))"
      "complete now (receipt_scope_of actor kh command) (co_result out) (se_db s5) = Inr (p, db6)"
      "s' = s5\<lparr>se_db := db6\<rparr>" "\<not> co_replayed out"
proof -
  from assms obtain hr s1 where r: "reserve_command sha256 authorize actor kh command s = Inr (hr, s1)"
    by (auto simp: execute_financial_once_def result_simps)
  show thesis
  proof (cases "rn_created (snd hr)")
    case False
    with assms r show thesis by (cases hr) (auto simp: execute_financial_once_def result_simps intro: replay)
  next
    case True
    with assms r obtain locked s2 ret s3 plan appended s4 s5 result p db6 where
      h: "execute_under_book_lock token (cm_book_id command) s1 = Inr (locked, s2)" "handler command s2 locked = Inr (ret, s3)"
      and pl: "LedgerWritePlan ret = Inr plan"
      and id: "\<not> list_ex (\<lambda>event. pe_command_id event \<noteq> cm_command_id command \<or> pe_actor_subject_id event \<noteq> ca_subject_id actor)
                (lp_events plan)"
      and ap: "append_and_project sha256 locked (lp_expected_stream_versions plan) (lp_events plan) s3 = Inr (appended, s4)"
        "run_finalizer plan appended s4 = Inr s5"
      and res: "to_result plan appended = Inr result"
      and fin: "complete now (receipt_scope_of actor kh command) result (se_db s5) = Inr (p, db6)" "s' = s5\<lparr>se_db := db6\<rparr>"
      and out: "out = \<lparr>co_result = result, co_replayed = False\<rparr>"
      by (cases hr) (auto simp: execute_financial_once_def run_finalizer_def result_simps)
    from LedgerWritePlan_Inr [OF pl] have plan: "plan = ret" .
    from CommandResult_Inr [OF res [unfolded to_result_def]]
    have result: "result = plan_result plan (Some (ar_start appended, ar_stop appended - 1))" .
    show thesis
      by (rule work [OF r True h(1) h(2) [folded plan] _ ap _ _ _ fin(2)])
        (use id res fin out result in \<open>auto simp: to_result_def list_ex_iff\<close>)
  qed
qed

lemma lock_keeps: "execute_under_book_lock token b s = Inr (locked, s') \<Longrightarrow> se_db s' = se_db s \<and> lk_book_id locked = b"
  by (auto simp: execute_under_book_lock_def split: option.splits if_splits dest: find_by_Some_D)

lemma financial_work_receipts:
  assumes ok: "financial_handler_ok c" and h: "execute_under_book_lock token b s1 = Inr (locked, s2)"
    "cl_handler c (cl_command c) s2 locked = Inr (plan, s3)"
    and ap: "append_and_project sha256 locked expected events s3 = Inr (appended, s4)" "run_finalizer plan appended s4 = Inr s5"
  shows "command_receipts (se_db s5) = command_receipts (se_db s1)"
proof -
  from ok h(2) have hd: "command_receipts (se_db s3) = command_receipts (se_db s2)"
    and fin: "\<And>f ar s s'. lp_post_projection_finalizer plan = Some f \<Longrightarrow> f ar s = Inr s' \<Longrightarrow>
      command_receipts (se_db s') = command_receipts (se_db s)"
    unfolding financial_handler_ok_def financial_leaves_receipts_def by (blast, fastforce)
  have "command_receipts (se_db s5) = command_receipts (se_db s4)"
    using ap(2) fin by (auto simp: run_finalizer_def split: option.splits)
  with append_and_project_receipts [OF ap(1)] hd lock_keeps [OF h(1)] show ?thesis by simp
qed

interpretation financial: receipted_command financial_block call_scope cl_request_hash financial_handler_ok granted
proof unfold_locales
  fix c :: "(financial_handler, 'z) command_call_scheme" and a s out s'
  assume ok: "financial_handler_ok c" and run: "financial_block c a s = Inr (out, s')" and new: "\<not> co_replayed out"
  from run show "receipt_of (se_db s) (call_scope c) = None \<and> CommandResult (co_result out) = Inr (co_result out)
      \<and> (\<exists>p. receipt_of (se_db s') (call_scope c) = Some p \<and> completes p (co_result out))"
    unfolding financial_block_def
  proof (cases rule: execute_financial_once_Inr)
    case (work hr s1 locked s2 plan s3 appended s4 s5 p db6)
    from work_attempt [OF work(1,2) financial_work_receipts [OF ok work(3,4,6,7)] work(10)] work(8,11)
    show ?thesis by (simp add: call_scope_def)
  qed (use new in simp)
next
  fix c :: "(financial_handler, 'z) command_call_scheme" and a s out s'
  assume run: "financial_block c a s = Inr (out, s')" and old: "co_replayed out"
  from run show "s' = s \<and> (\<exists>p. receipt_of (se_db s) (call_scope c) = Some p \<and> rp_status p = COMPLETED
      \<and> replay_result p = Inr (co_result out))"
    unfolding financial_block_def
  proof (cases rule: execute_financial_once_Inr)
    case (replay hr result)
    from replay_attempt [OF replay(1-3)] replay(4) replay_completed show ?thesis by (simp add: call_scope_def)
  qed (use old in simp)
next
  fix c :: "(financial_handler, 'z) command_call_scheme" and a s out s'
  assume ok: "financial_handler_ok c" and gr: "granted c" and run: "financial_block c a s = Inr (out, s')"
  have hash: "fst hr = cl_request_hash c"
    if "reserve_command (cl_sha256 c) (cl_authorize c) (cl_actor c) (cl_key_hash c) (cl_command c) s = Inr (hr, s1)" for hr s1
    using that by (rule reserve_command_Inr) (use gr in \<open>simp add: granted_def\<close>)
  from run show "\<exists>p. receipt_of (se_db s') (call_scope c) = Some p \<and> rp_request_hash p = cl_request_hash c"
    unfolding financial_block_def
  proof (cases rule: execute_financial_once_Inr)
    case (replay hr result)
    from replay_attempt [OF replay(1-3)] hash [OF replay(1)] show ?thesis by (simp add: call_scope_def)
  next
    case (work hr s1 locked s2 plan s3 appended s4 s5 p db6)
    from work_attempt [OF work(1,2) financial_work_receipts [OF ok work(3,4,6,7)] work(10)] work(11) hash [OF work(1)]
    show ?thesis by (simp add: call_scope_def)
  qed
next
  fix c :: "(financial_handler, 'z) command_call_scheme" and a s out s'
  assume "financial_block c a s = Inr (out, s')"
  then show "storable (call_scope c)"
    unfolding financial_block_def call_scope_def
    by (cases rule: execute_financial_once_Inr) (auto elim!: reserve_command_Inr dest: reserve_storable)
qed

section \<open>Calls of the bus\<close>

definition call_of ::
    "(byte list \<Rightarrow> byte list) \<Rightarrow> authorize \<Rightarrow> 'h \<Rightarrow> string \<Rightarrow> command_actor \<Rightarrow> command \<Rightarrow> authorization_scope \<Rightarrow> byte list
      \<Rightarrow> 'h command_call" where
  "call_of sha256 authorize handler raw_key actor command auth h =
     \<lparr>cl_sha256 = sha256, cl_authorize = authorize, cl_handler = handler, cl_actor = actor,
      cl_key_hash = sha256 (utf8 (code_points raw_key)), cl_command = command, cl_granted = auth, cl_request_hash = h\<rparr>"

definition key_scope :: "(byte list \<Rightarrow> byte list) \<Rightarrow> string \<Rightarrow> command_actor \<Rightarrow> command \<Rightarrow> receipt_scope" where
  "key_scope sha256 raw_key actor command = receipt_scope_of actor (sha256 (utf8 (code_points raw_key))) command"

definition call_ok :: "command_actor \<Rightarrow> int \<Rightarrow> string \<Rightarrow> bool" where
  "call_ok actor max_attempts raw_key \<longleftrightarrow>
     subject_ok (ca_subject_id actor) \<and> 1 \<le> max_attempts \<and> max_attempts \<le> 10 \<and> raw_key \<noteq> []"

lemma run_command_ok:
  "run_command sha256 raw_key actor n command block attempts db =
     (if call_ok actor n raw_key
      then retry (attempt_once command (block (sha256 (utf8 (code_points raw_key)))) attempts) (nat n) 0 db
      else (Inl IdempotencyValidationError, db))"
  by (auto simp: run_command_def call_ok_def CommandActor_def hash_idempotency_key_def require_valid_def)

lemma execute_call:
  "execute sha256 authorize handler raw_key actor n command attempts db =
     (if call_ok actor n raw_key
      then retry (attempt_once command (once_block (call_of sha256 authorize handler raw_key actor command auth h)) attempts) (nat n) 0 db
      else (Inl IdempotencyValidationError, db))"
  by (simp add: execute_def run_command_ok once_block_def [abs_def] call_of_def)

lemma execute_financial_call:
  "execute_financial sha256 authorize handler raw_key actor n command attempts db =
     (if call_ok actor n raw_key
      then retry (attempt_once command (financial_block (call_of sha256 authorize handler raw_key actor command auth h)) attempts)
             (nat n) 0 db
      else (Inl IdempotencyValidationError, db))"
  by (simp add: execute_financial_def run_command_ok financial_block_def [abs_def] call_of_def)

section \<open>Properties\<close>

text \<open>
  Property C5: a financial command takes effect at most once. Whatever the database does to the
  attempts (aborts, lost replies after a commit, commits of others in between), the database that is
  left is the initial one with the others' commits and at most one committed run of the command; and
  an outcome that is returned is that of the committed run, or replays the receipt it left.
\<close>

theorem command_at_most_once:
  assumes "execute_financial sha256 authorize handler raw_key actor n command attempts db = (r, db')"
    and "financial_leaves_receipts handler command" "\<And>i. keeps_completed (at_others (attempts i))"
    and "deferred_checks db = []"
  shows "\<exists>eff. effects (\<lambda>a. execute_financial_once sha256 authorize handler actor (sha256 (utf8 (code_points raw_key)))
            command (at_clock a) (at_lock_token a)) attempts db eff db'
      \<and> (\<forall>out. r = Inr out \<longrightarrow> (co_replayed out \<or> eff = Some out)
           \<and> (\<forall>w. eff = Some w \<longrightarrow> co_result w = co_result out))"
proof (cases "call_ok actor n raw_key")
  case False
  then have "r = Inl IdempotencyValidationError" "db' = db"
    using assms(1) by (simp_all add: execute_financial_def run_command_ok)
  then show ?thesis by (intro exI [of _ None]) (simp add: effects.start)
next
  case True
  let ?c = "call_of sha256 authorize handler raw_key actor command undefined undefined"
  have b: "financial_block ?c = (\<lambda>a. execute_financial_once sha256 authorize handler actor
      (sha256 (utf8 (code_points raw_key))) command (at_clock a) (at_lock_token a))"
    by (simp add: financial_block_def [abs_def] call_of_def)
  from assms(1) True have "retry (attempt_once command (financial_block ?c) attempts) (nat n) 0 db = (r, db')"
    by (simp add: execute_financial_call [where auth = undefined and h = undefined])
  moreover have "financial_handler_ok ?c" using assms(2) by (simp add: financial_handler_ok_def call_of_def)
  ultimately show ?thesis using financial.call_effects [of ?c attempts db command "nat n" r db'] assms(3,4) unfolding b by blast
qed

lemma replay_once:
  assumes p: "storable (key_scope sha256 raw_key actor command)" "receipt_of db (key_scope sha256 raw_key actor command) = Some p"
      "rp_status p = COMPLETED"
    and auth: "authorize db actor (cm_book_id command) = Inr auth" "AuthorizationScope auth = Inr auth"
      "az_actor_subject_id auth = ca_subject_id actor" "hash_command_request sha256 command auth = Inr h" "length h = 32"
    and idle: "deferred_checks db = []" "at_fault (attempts 0) = None" "at_others (attempts 0) = (\<lambda>d. d)"
    and ok: "call_ok actor n raw_key" "operation_ok (cm_operation command)"
    and result: "replay_result p = Inr result"
  shows "execute sha256 authorize handler raw_key actor n command attempts db =
    ((if rp_request_hash p = h then Inr \<lparr>co_result = result, co_replayed = True\<rparr> else Inl IdempotencyConflict), db)"
proof -
  let ?kh = "sha256 (utf8 (code_points raw_key))" and ?s = "open_session 0 db"
  have "reserve_or_lock (receipt_scope_of actor ?kh command) h (cm_command_id command) db
      = Inr (\<lparr>rn_created = False, rn_receipt = p\<rparr>, db)"
    using reserve_completed [OF p(1) auth(5) p(2,3)] by (simp add: key_scope_def)
  then have "reserve_command sha256 authorize actor ?kh command ?s = Inr ((h, \<lparr>rn_created = False, rn_receipt = p\<rparr>), ?s)"
    using auth by (simp add: reserve_command_def open_session_def require_valid_def on_db_def)
  then have "execute_once sha256 authorize handler actor ?kh command now ?s =
      (if rp_request_hash p = h then Inr (\<lparr>co_result = result, co_replayed = True\<rparr>, ?s) else Inl IdempotencyConflict)" for now
    using result by (simp add: execute_once_def replay_or_conflict_def)
  then have once: "attempt_once command (\<lambda>a. execute_once sha256 authorize handler actor ?kh command (at_clock a)) attempts 0 db
      = ((if rp_request_hash p = h then Inr \<lparr>co_result = result, co_replayed = True\<rparr> else Inl IdempotencyConflict), db)"
    using idle ok(2) commit_idle [OF idle(1)] by (simp add: attempt_once_def unit_of_work_def open_session_def)
  have "0 < nat n" using ok(1) by (simp add: call_ok_def)
  then show ?thesis
    using ok(1) once by (simp add: execute_def run_command_ok retry.simps [of _ "nat n" 0])
qed

text \<open>
  Property C14: a completed command can be asked for again. After a command has returned an outcome,
  calling the bus with the same key, actor, Book and operation gives the same result, marked as
  replayed, if the request has the same hash, and an \<open>IdempotencyConflict\<close> if it has another; the
  handler is not run and the database does not change.
\<close>

theorem replay_is_exact:
  assumes "execute sha256 authorize handler raw_key actor n command attempts db = (Inr out, db')"
    and "leaves_receipts handler command" "\<And>i. keeps_completed (at_others (attempts i))" "deferred_checks db = []"
    and auth: "\<And>d. authorize d actor (cm_book_id command) = Inr auth" "AuthorizationScope auth = Inr auth"
      "az_actor_subject_id auth = ca_subject_id actor" "hash_command_request sha256 command auth = Inr h"
    and again: "cm_book_id command' = cm_book_id command" "cm_operation command' = cm_operation command"
      "hash_command_request sha256 command' auth = Inr h'" "length h' = 32"
    and later: "receipt_of db2 (key_scope sha256 raw_key actor command) = receipt_of db' (key_scope sha256 raw_key actor command)"
      "deferred_checks db2 = []" "at_fault (attempts' 0) = None" "at_others (attempts' 0) = (\<lambda>d. d)" "1 \<le> n'" "n' \<le> 10"
  shows "execute sha256 authorize handler' raw_key actor n' command' attempts' db2 =
    ((if h' = h then Inr \<lparr>co_result = co_result out, co_replayed = True\<rparr> else Inl IdempotencyConflict), db2)"
proof -
  let ?c = "call_of sha256 authorize handler raw_key actor command auth h"
  have scope: "call_scope ?c = key_scope sha256 raw_key actor command" by (simp add: call_scope_def call_of_def key_scope_def)
  from assms(1) have ok: "call_ok actor n raw_key"
    and retry: "retry (attempt_once command (once_block ?c) attempts) (nat n) 0 db = (Inr out, db')"
    by (simp_all add: execute_call [where auth = auth and h = h] split: if_splits)
  have wb: "handler_ok ?c" using assms(2) by (simp add: handler_ok_def call_of_def)
  have gr: "granted ?c" using auth by (simp add: granted_def call_of_def)
  have "plain.call_state ?c attempts db None db" using assms(4) by (simp add: plain.call_state_def effects.start)
  from plain.retry_effects [OF wb assms(3) retry this] have "plain.remembers ?c db' (co_result out)" by blast
  then obtain p where p: "storable (key_scope sha256 raw_key actor command)"
    "receipt_of db' (key_scope sha256 raw_key actor command) = Some p" "rp_status p = COMPLETED"
    "replay_result p = Inr (co_result out)" "rp_request_hash p = h"
    using gr unfolding plain.remembers_def scope by (auto simp: call_of_def)
  have same: "key_scope sha256 raw_key actor command' = key_scope sha256 raw_key actor command"
    by (simp add: key_scope_def receipt_scope_of_def again)
  have "operation_ok (cm_operation command')" using again(3) by (auto simp: hash_command_request_def result_simps)
  moreover have "call_ok actor n' raw_key" using ok later(5,6) by (simp add: call_ok_def)
  ultimately show ?thesis
    using replay_once [of sha256 raw_key actor command' db2 p authorize auth h' attempts' n' "co_result out" handler']
      p auth again later unfolding same by auto
qed

section \<open>Bounded retries\<close>

lemma retry_assertion:
  "1 \<le> n - k \<Longrightarrow> retry once n k db = (Inl AssertionError, db') \<Longrightarrow> \<exists>i d. i < n \<and> fst (once i d) = Inl AssertionError"
proof (induction "n - k" arbitrary: k db)
  case 0
  then show ?case by simp
next
  case (Suc m)
  from Suc(4) show ?case
  proof (cases rule: retry_Inr_cases)
    case exhausted
    with Suc(3) show ?thesis by simp
  next
    case final
    then show ?thesis by (metis fst_conv)
  next
    case (again e d)
    then show ?thesis using Suc(1) [of "k + 1"] Suc(2) by auto
  qed
qed

lemma attempt_once_local: "attempts i = attempts' i \<Longrightarrow> attempt_once cmd block attempts i d = attempt_once cmd block attempts' i d"
  by (simp add: attempt_once_def)

text \<open>
  Property C33: a call makes a bounded number of attempts. What a call does depends on the first
  \<open>max_attempts\<close> attempts only (at most ten of them), and the assertion that ends the loop is never
  reached: \<open>AssertionError\<close> can come out only if an attempt raised it.
\<close>

theorem retries_bounded:
  assumes "\<And>i. i < nat n \<Longrightarrow> i < 10 \<Longrightarrow> attempts i = attempts' i"
  shows "execute_financial sha256 authorize handler raw_key actor n command attempts db
      = execute_financial sha256 authorize handler raw_key actor n command attempts' db
    \<and> (fst (execute_financial sha256 authorize handler raw_key actor n command attempts db) = Inl AssertionError \<longrightarrow>
         (\<exists>i d. i < nat n \<and> fst (attempt_once command (\<lambda>a. execute_financial_once sha256 authorize handler actor
            (sha256 (utf8 (code_points raw_key))) command (at_clock a) (at_lock_token a)) attempts i d) = Inl AssertionError))"
proof (cases "call_ok actor n raw_key")
  case True
  let ?b = "\<lambda>a. execute_financial_once sha256 authorize handler actor (sha256 (utf8 (code_points raw_key))) command
    (at_clock a) (at_lock_token a)"
  from True have n: "1 \<le> nat n" "nat n \<le> 10" by (auto simp: call_ok_def nat_le_iff le_nat_iff)
  have "retry (attempt_once command ?b attempts) (nat n) 0 db = retry (attempt_once command ?b attempts') (nat n) 0 db"
    by (rule retry_cong) (use assms n in \<open>auto intro: attempt_once_local\<close>)
  moreover have "\<exists>i d. i < nat n \<and> fst (attempt_once command ?b attempts i d) = Inl AssertionError"
    if "fst (retry (attempt_once command ?b attempts) (nat n) 0 db) = Inl AssertionError"
  proof -
    from that obtain db' where "retry (attempt_once command ?b attempts) (nat n) 0 db = (Inl AssertionError, db')"
      by (metis prod.collapse)
    then show ?thesis using n by (intro retry_assertion [of "nat n" 0]) simp_all
  qed
  ultimately show ?thesis using True by (simp add: execute_financial_def run_command_ok)
qed (simp add: execute_financial_def run_command_ok)

lemma retry_aborted:
  assumes "\<And>i. k \<le> i \<Longrightarrow> i < m \<Longrightarrow> once i db = (Inl (DBError (e i)), db) \<and> is_retryable (e i)" "k \<le> m" "m < n"
  shows "retry once n k db = retry once n m db"
  using assms
proof (induction "m - k" arbitrary: k)
  case (Suc j)
  then have "k < m" "once k db = (Inl (DBError (e k)), db)" "is_retryable (e k)" by auto
  moreover from this(1) Suc(5) have "\<not> n \<le> k + 1" by simp
  ultimately have "retry once n k db = retry once n (k + 1) db" by (simp add: retry.simps [of once n k])
  also have "\<dots> = retry once n m db" using Suc \<open>k < m\<close> by auto
  finally show ?case .
qed simp

text \<open>
  Property C34: transient faults do not show. If the database aborts the first attempts with
  serialization failures, deadlocks or lost connections and lets a later one within the bound run,
  the call returns exactly what that attempt returns and leaves what it leaves; and if it aborts them
  all, the caller gets the last of those errors and the database is as it was.
\<close>

theorem transient_faults_survived:
  assumes ok: "call_ok actor n raw_key" "operation_ok (cm_operation command)" and k: "k < nat n"
    and aborted: "\<And>i. i < k \<Longrightarrow> at_fault (attempts i) = Some (Aborted (e i)) \<and> is_retryable (e i)"
    and alone: "\<And>i. at_others (attempts i) = (\<lambda>d. d)"
  shows "(\<forall>out db'. unit_of_work k (at_fault (attempts k)) (execute_financial_once sha256 authorize handler actor
            (sha256 (utf8 (code_points raw_key))) command (at_clock (attempts k)) (at_lock_token (attempts k))) db = (Inr out, db')
          \<longrightarrow> execute_financial sha256 authorize handler raw_key actor n command attempts db = (Inr out, db'))
    \<and> (at_fault (attempts k) = Some (Aborted (e k)) \<longrightarrow> k + 1 = nat n \<longrightarrow>
         execute_financial sha256 authorize handler raw_key actor n command attempts db = (Inl (DBError (e k)), db))"
proof -
  let ?b = "\<lambda>a. execute_financial_once sha256 authorize handler actor (sha256 (utf8 (code_points raw_key))) command
    (at_clock a) (at_lock_token a)"
  let ?once = "attempt_once command ?b attempts"
  have "?once i db = (Inl (DBError (e i)), db) \<and> is_retryable (e i)" if "i < k" for i
    using aborted [OF that] alone ok(2) by (simp add: attempt_once_def unit_of_work_def)
  then have "retry ?once (nat n) 0 db = retry ?once (nat n) k db" using k by (intro retry_aborted [where e = e]) simp_all
  moreover have "execute_financial sha256 authorize handler raw_key actor n command attempts db = retry ?once (nat n) 0 db"
    using ok(1) by (simp add: execute_financial_def run_command_ok)
  moreover have "?once k db = unit_of_work k (at_fault (attempts k)) (?b (attempts k)) db"
    using alone ok(2) by (simp add: attempt_once_def)
  moreover have "unit_of_work k (at_fault (attempts k)) (?b (attempts k)) db = (Inl (DBError (e k)), db)"
    if "at_fault (attempts k) = Some (Aborted (e k))" using that by (simp add: unit_of_work_def)
  ultimately show ?thesis using k by (simp add: retry.simps [of ?once "nat n" k])
qed

section \<open>Financial commands are atomic\<close>

lemma retry_atomic:
  assumes "\<And>i d e d'. once i d = (Inl e, d') \<Longrightarrow> d' = d"
  shows "retry once n k db = (r, db') \<Longrightarrow> (\<exists>e. r = Inl e \<and> db' = db) \<or> (\<exists>i out. r = Inr out \<and> once i db = (Inr out, db'))"
proof (induction "n - k" arbitrary: k)
  case 0
  then show ?case by (auto simp: retry.simps [of _ n k])
next
  case (Suc m)
  from Suc(3) show ?case
  proof (cases rule: retry_Inr_cases)
    case exhausted
    then show ?thesis by simp
  next
    case final
    then show ?thesis using assms by (cases r) metis+
  next
    case (again e d)
    from assms [OF again(3)] again(4) have "retry once n (k + 1) db = (r, db')" by simp
    with Suc(1) [of "k + 1"] Suc(2) show ?thesis by simp
  qed
qed

text \<open>The handler and its finalizer read the ledger and the journal and write neither.\<close>

definition leaves_ledger :: "financial_handler \<Rightarrow> command \<Rightarrow> bool" where
  "leaves_ledger handler command \<longleftrightarrow> (\<forall>s h plan s'. handler command s h = Inr (plan, s') \<longrightarrow>
     same_ledger (se_db s) (se_db s') \<and> same_journal (se_db s) (se_db s')
     \<and> (case lp_post_projection_finalizer plan of None \<Rightarrow> True | Some f \<Rightarrow>
          \<forall>ar s s'. f ar s = Inr s' \<longrightarrow> same_ledger (se_db s) (se_db s') \<and> same_journal (se_db s) (se_db s')))"

lemma same_ledger_log: "same_ledger db db' \<Longrightarrow> book_log db' b = book_log db b"
  by (simp add: same_ledger_def book_log_def book_events_def)

lemma reserve_keeps:
  assumes "reserve_command sha256 authorize actor kh command s = Inr (hr, s1)"
  shows "same_ledger (se_db s) (se_db s1)" "same_journal (se_db s) (se_db s1)"
proof -
  from assms obtain db1 where r: "reserve_or_lock (receipt_scope_of actor kh command) (fst hr) (cm_command_id command) (se_db s)
      = Inr (snd hr, db1)" and s1: "s1 = s\<lparr>se_db := db1\<rparr>" by (rule reserve_command_Inr)
  from r show "same_ledger (se_db s) (se_db s1)" "same_journal (se_db s) (se_db s1)"
    by (cases rule: reserve_or_lock_Inr; auto simp: s1 same_ledger_def same_journal_def)+
qed

lemma complete_keeps:
  assumes "complete now scope result db = Inr (p, db')"
  shows "same_ledger db db'" "same_journal db db'"
  using assms by (auto elim!: complete_Inr simp: same_ledger_def same_journal_def)

lemma commit_keeps: "commit db = Inr db' \<Longrightarrow> same_ledger db db'"
  by (auto dest!: commit_Inr simp: same_ledger_def)

lemma append_positions:
  assumes "ledger_reachable sha256 db" "append_batch sha256 b expected events db = Inr (res, db')"
  shows "ar_start res = int (length (book_log db b)) + 1" "ar_stop res = int (length (book_log db b)) + int (length events) + 1"
  using assms(2) by (rule append_batch_Inr, simp add: book_log_def reachable_head [OF assms(1)])+

lemma financial_work:
  assumes run: "execute_financial_once sha256 authorize handler actor kh command now token s = Inr (out, s')"
    and new: "\<not> co_replayed out" and ok: "leaves_ledger handler command"
    and reach: "ledger_reachable sha256 (se_db s)" "projected (se_db s)"
  shows "ledger_reachable sha256 (se_db s') \<and> projected (se_db s')
    \<and> (\<exists>events. (\<forall>e\<in>set events. pe_command_id e = cm_command_id command \<and> pe_actor_subject_id e = ca_subject_id actor)
      \<and> (\<forall>b. book_log (se_db s') b = book_log (se_db s) b @ (if b = cm_book_id command then events else []))
      \<and> re_first_book_position (co_result out) = Some (int (length (book_log (se_db s) (cm_book_id command))) + 1)
      \<and> re_last_book_position (co_result out)
          = Some (int (length (book_log (se_db s) (cm_book_id command))) + int (length events)))"
  using run
proof (cases rule: execute_financial_once_Inr)
  case (work hr s1 locked s2 plan s3 appended s4 s5 p db6)
  note lock = lock_keeps [OF work(3)]
  from ok work(4) have hd: "same_ledger (se_db s2) (se_db s3)" "same_journal (se_db s2) (se_db s3)"
    and fz: "\<And>f ar s s'. lp_post_projection_finalizer plan = Some f \<Longrightarrow> f ar s = Inr s' \<Longrightarrow>
      same_ledger (se_db s) (se_db s') \<and> same_journal (se_db s) (se_db s')"
    unfolding leaves_ledger_def by (blast, blast, fastforce)
  have s3: "ledger_reachable sha256 (se_db s3)" "projected (se_db s3)"
    using reach reserve_keeps [OF work(1)] lock hd ledger_reachable.elsewhere projected.elsewhere by metis+
  have log3: "book_log (se_db s3) b = book_log (se_db s) b" for b
    using same_ledger_log [OF reserve_keeps(1) [OF work(1)]] same_ledger_log [OF hd(1)] lock by simp
  have "same_ledger (se_db s4) (se_db s5) \<and> same_journal (se_db s4) (se_db s5)"
    using work(7) fz by (auto simp: run_finalizer_def same_ledger_def split: option.splits)
  then have s5: "same_ledger (se_db s4) (se_db s5)" "same_journal (se_db s4) (se_db s5)" by blast+
  note s6 = complete_keeps [OF work(10)]
  have s4: "ledger_reachable sha256 (se_db s4)" "projected (se_db s4)"
    using append_and_project_reachable [OF s3(1) work(6)] append_and_project_projected [OF s3(2) work(6)] by simp_all
  have db': "se_db s' = db6" using work(11) by simp
  have inv: "ledger_reachable sha256 (se_db s')" "projected (se_db s')"
    unfolding db' using s4 s5 s6 ledger_reachable.elsewhere projected.elsewhere by metis+
  from work(6) obtain db1 db2 where app: "append_batch sha256 (lk_book_id locked) (lp_expected_stream_versions plan) (lp_events plan) (se_db s3)
      = Inr (appended, db1)"
    and pr: "project_all (reload_events (lk_book_id locked) (ar_event_ids appended) db1) db1 = Inr db2" and s4': "se_db s4 = db2"
    by (rule append_and_project_Inr) simp
  have "book_log (se_db s4) b = book_log db1 b" for b
    using project_all_frame [OF pr] by (simp add: s4' book_log_def book_events_def)
  then have log: "book_log (se_db s') b = book_log (se_db s) b @ (if b = cm_book_id command then lp_events plan else [])" for b
    using append_batch_log [OF app] log3 same_ledger_log [OF s5(1)] same_ledger_log [OF s6(1)] lock work(11) by simp
  have "re_first_book_position (co_result out) = Some (int (length (book_log (se_db s) (cm_book_id command))) + 1)"
    "re_last_book_position (co_result out)
      = Some (int (length (book_log (se_db s) (cm_book_id command))) + int (length (lp_events plan)))"
    using append_positions [OF s3(1) app] lock by (simp_all add: work(9) plan_result_def log3)
  with inv log work(5) show ?thesis by blast
qed (use new in simp_all)

lemma unit_of_work_acknowledged:
  assumes "unit_of_work i fault block db = (r, db')" "\<And>e. fault \<noteq> Some (Unacknowledged e)"
  shows "(\<exists>e. r = Inl e \<and> db' = db)
    \<or> (\<exists>x s. r = Inr x \<and> block (open_session i db) = Inr (x, s) \<and> commit (se_db s) = Inr db')"
  using assms by (auto simp: unit_of_work_def split: option.splits fault.splits sum.splits)

lemma financial_committed:
  assumes "execute_financial sha256 authorize handler raw_key actor n command attempts db = (r, db')"
    and "\<And>i. at_others (attempts i) = (\<lambda>d. d)" "\<And>i e. at_fault (attempts i) \<noteq> Some (Unacknowledged e)"
  shows "(\<exists>e. r = Inl e \<and> db' = db)
    \<or> (\<exists>i out s. r = Inr out \<and> execute_financial_once sha256 authorize handler actor (sha256 (utf8 (code_points raw_key))) command
          (at_clock (attempts i)) (at_lock_token (attempts i)) (open_session i db) = Inr (out, s) \<and> commit (se_db s) = Inr db')"
proof -
  let ?b = "\<lambda>a. execute_financial_once sha256 authorize handler actor (sha256 (utf8 (code_points raw_key))) command
    (at_clock a) (at_lock_token a)"
  let ?once = "attempt_once command ?b attempts"
  have once: "(\<exists>e. r = Inl e \<and> d' = d)
      \<or> (\<exists>x s. r = Inr x \<and> ?b (attempts i) (open_session i d) = Inr (x, s) \<and> commit (se_db s) = Inr d')"
    if "?once i d = (r, d')" for i d r d'
  proof (cases "operation_ok (cm_operation command)")
    case True
    with that assms(2) have "unit_of_work i (at_fault (attempts i)) (?b (attempts i)) d = (r, d')" by (simp add: attempt_once_def)
    then show ?thesis using assms(3) by (rule unit_of_work_acknowledged)
  qed (use that assms(2) in \<open>auto simp: attempt_once_def\<close>)
  have same: "d' = d" if "?once i d = (Inl e, d')" for i d e d' using once [OF that] by simp
  from assms(1) have "(\<exists>e. r = Inl e \<and> db' = db) \<or> (\<exists>i out. r = Inr out \<and> ?once i db = (Inr out, db'))"
    using retry_atomic [of ?once "nat n" 0 db r db', OF same]
    by (auto simp: execute_financial_def run_command_ok split: if_splits)
  then show ?thesis
  proof
    assume "\<exists>i out. r = Inr out \<and> ?once i db = (Inr out, db')"
    then obtain i out where r: "r = Inr out" and "?once i db = (Inr out, db')" by blast
    from once [OF this(2)] r show ?thesis by auto
  qed simp
qed

text \<open>
  Property C4: a financial command appends and projects its events together, or does nothing. When
  no reply is lost, a call that raises leaves the database as it was, and so does a replay. A call
  that did the work appended, to the log of its own Book and to no other, events that carry its
  command and actor; the positions in its result are exactly theirs; and the ledger is again one
  whose chains, heads and balances are right.
\<close>

theorem financial_command_atomic:
  assumes "execute_financial sha256 authorize handler raw_key actor n command attempts db = (r, db')"
    and "leaves_ledger handler command" "ledger_reachable sha256 db" "projected db" "deferred_checks db = []"
    and "\<And>i. at_others (attempts i) = (\<lambda>d. d)" "\<And>i e. at_fault (attempts i) \<noteq> Some (Unacknowledged e)"
  shows "(\<forall>e. r = Inl e \<longrightarrow> db' = db)
    \<and> (\<forall>out. r = Inr out \<longrightarrow>
        (if co_replayed out then db' = db
         else ledger_reachable sha256 db' \<and> projected db'
           \<and> (\<exists>events. (\<forall>e\<in>set events. pe_command_id e = cm_command_id command \<and> pe_actor_subject_id e = ca_subject_id actor)
             \<and> (\<forall>b. book_log db' b = book_log db b @ (if b = cm_book_id command then events else []))
             \<and> re_first_book_position (co_result out) = Some (int (length (book_log db (cm_book_id command))) + 1)
             \<and> re_last_book_position (co_result out)
                 = Some (int (length (book_log db (cm_book_id command))) + int (length events)))))"
proof -
  from financial_committed [OF assms(1,6,7)] show ?thesis
  proof
    assume "\<exists>e. r = Inl e \<and> db' = db"
    then show ?thesis by auto
  next
    assume "\<exists>i out s. r = Inr out \<and> execute_financial_once sha256 authorize handler actor (sha256 (utf8 (code_points raw_key)))
        command (at_clock (attempts i)) (at_lock_token (attempts i)) (open_session i db) = Inr (out, s)
        \<and> commit (se_db s) = Inr db'"
    then obtain i out s where r: "r = Inr out" and run: "execute_financial_once sha256 authorize handler actor
          (sha256 (utf8 (code_points raw_key))) command (at_clock (attempts i)) (at_lock_token (attempts i)) (open_session i db)
          = Inr (out, s)"
      and com: "commit (se_db s) = Inr db'" by blast
    show ?thesis
    proof (cases "co_replayed out")
      case True
      from run True have "s = open_session i db"
        by (cases rule: execute_financial_once_Inr) (use replay_attempt(1) in blast, simp)
      with com assms(5) have "db' = db" by (simp add: open_session_def commit_idle)
      with r True show ?thesis by simp
    next
      case False
      have "ledger_reachable sha256 (se_db (open_session i db))" "projected (se_db (open_session i db))"
        using assms(3,4) by (simp_all add: open_session_def)
      note work = financial_work [OF run False assms(2) this]
      have "ledger_reachable sha256 db'" "projected db'" "book_log db' b = book_log (se_db s) b" for b
        using work ledger_reachable.elsewhere [OF _ commit_keeps [OF com]] projected.commit [OF _ com]
          same_ledger_log [OF commit_keeps [OF com]] by blast+
      with work r False show ?thesis by (simp add: open_session_def)
    qed
  qed
qed

section \<open>A first command\<close>

definition demo_plan :: ledger_write_plan where
  "demo_plan = \<lparr>lp_expected_stream_versions = [((''journal_transaction'', 9), 0)], lp_events = [first_pending],
     lp_response_schema_version = 1, lp_status_code = 201, lp_body = JObj [], lp_post_projection_finalizer = None\<rparr>"

definition demo_handler :: financial_handler where
  "demo_handler = (\<lambda>_ s _. Inr (demo_plan, s))"

definition demo_authorize :: authorize where
  "demo_authorize = (\<lambda>_ _ _. Inr (demo_scope []))"

definition demo_actor :: command_actor where
  "demo_actor = \<lparr>ca_subject_id = ''a''\<rparr>"

definition demo_attempt :: "fault option \<Rightarrow> attempt" where
  "demo_attempt fault = \<lparr>at_others = (\<lambda>d. d), at_fault = fault, at_clock = 7, at_lock_token = 50\<rparr>"

definition demo_result :: command_result where
  "demo_result = \<lparr>re_response_schema_version = 1, re_status_code = 201, re_body = JObj [],
     re_first_book_position = Some 1, re_last_book_position = Some 1\<rparr>"

abbreviation demo_key :: "byte list" where
  "demo_key \<equiv> replicate 32 1"

definition demo_reserved :: db where
  "demo_reserved = first_db\<lparr>command_receipts := [new_receipt (receipt_scope_of demo_actor demo_key demo_command) demo_key 40],
     deferred_checks := [ReceiptCheck (new_receipt (receipt_scope_of demo_actor demo_key demo_command) demo_key 40)]\<rparr>"

definition demo_done :: command_receipt_record where
  "demo_done = completed_receipt 7 demo_result (new_receipt (receipt_scope_of demo_actor demo_key demo_command) demo_key 40)"

definition demo_completed :: db where
  "demo_completed = (first_projected demo_reserved)\<lparr>command_receipts := [demo_done],
     deferred_checks := deferred_checks (first_projected demo_reserved) @ [ReceiptCheck demo_done]\<rparr>"

lemma demo_command_hash: "hash_command_request demo_sha demo_command (demo_scope []) = Inr demo_key"
proof -
  obtain h where h: "hash_command_request demo_sha demo_command (demo_scope []) = Inr h"
    using demo_request_hash [of "[]" demo_sha] by auto
  then have "h = demo_key" by (auto simp: hash_command_request_def result_simps)
  with h show ?thesis by simp
qed

lemma demo_reserve: "reserve_command demo_sha demo_authorize demo_actor demo_key demo_command (open_session i first_db)
  = Inr ((demo_key, \<lparr>rn_created = True,
       rn_receipt = snapshot (new_receipt (receipt_scope_of demo_actor demo_key demo_command) demo_key 40)\<rparr>),
     open_session i demo_reserved)"
proof -
  have a: "AuthorizationScope (demo_scope []) = Inr (demo_scope [])"
    by (simp add: AuthorizationScope_def demo_scope_def require_valid_def subject_ok_def)
  have "reserve_or_lock (receipt_scope_of demo_actor demo_key demo_command) demo_key 40 first_db
      = Inr (\<lparr>rn_created = True, rn_receipt = snapshot (new_receipt (receipt_scope_of demo_actor demo_key demo_command) demo_key 40)\<rparr>,
          demo_reserved)"
    by (simp add: reserve_or_lock_def lift_db_def insert_receipt_on_conflict_do_nothing_def receipt_types_ok_def receipt_row_ok_def
        receipt_lifecycle_shape_def v2_guard_command_receipt_lifecycle_def receipt_refers_def table_checks
        new_receipt_def receipt_scope_of_def demo_actor_def demo_command_def demo_reserved_def lock_receipt_def find_by_def
        receipt_key_def scope_key_def first_db_def snapshot_def)
  moreover have "cm_command_id demo_command = 40" "az_actor_subject_id (demo_scope []) = ca_subject_id demo_actor"
    by (simp_all add: demo_command_def demo_scope_def demo_actor_def)
  ultimately show ?thesis
    by (simp add: reserve_command_def demo_authorize_def a demo_command_hash require_valid_def on_db_def open_session_def)
qed

lemma demo_result_ok: "CommandResult (plan_result demo_plan None) = Inr (plan_result demo_plan None)" "CommandResult demo_result = Inr demo_result"
  by (simp_all add: CommandResult_def plan_result_def demo_plan_def demo_result_def require_valid_def is_container_def
      canonical_json_bytes_def)

lemma demo_complete: "complete 7 (receipt_scope_of demo_actor demo_key demo_command) demo_result (first_projected demo_reserved)
  = Inr (snapshot demo_done, demo_completed)"
  by (simp add: complete_def lift_db_def update_receipt_def receipt_types_ok_def receipt_row_ok_def
      receipt_lifecycle_shape_def v2_guard_command_receipt_lifecycle_def receipt_refers_def table_checks
      new_receipt_def receipt_scope_of_def demo_actor_def demo_command_def demo_reserved_def lock_receipt_def find_by_def
      receipt_key_def scope_key_def first_db_def first_projected_def first_appended_def demo_done_def demo_completed_def
      completed_receipt_def demo_result_def replace_by_def event_position_key_def)
    (simp add: first_event_def)

lemma demo_run: "execute_financial_once demo_sha demo_authorize demo_handler demo_actor demo_key demo_command 7 50 (open_session i first_db)
  = Inr (\<lparr>co_result = demo_result, co_replayed = False\<rparr>, (open_session i first_db)\<lparr>se_db := demo_completed\<rparr>)"
proof -
  let ?s = "(open_session i demo_reserved)\<lparr>se_capabilities := [(2, 50, i)]\<rparr>"
  have lock: "execute_under_book_lock 50 (cm_book_id demo_command) (open_session i demo_reserved) = Inr (first_head 50, ?s)"
    by (simp add: execute_under_book_lock_def find_by_def demo_reserved_def first_db_def open_session_def demo_command_def)
  have plan: "LedgerWritePlan demo_plan = Inr demo_plan"
    using demo_result_ok by (simp add: LedgerWritePlan_def require_valid_def demo_plan_def)
  have append: "append_and_project demo_sha (first_head 50) [((''journal_transaction'', 9), 0)] [first_pending] ?s
      = Inr (first_range, (open_session i demo_reserved)\<lparr>se_db := first_projected demo_reserved\<rparr>)"
    using first_append_and_project [of ?s i 50] by (simp add: open_session_def demo_reserved_def first_db_def)
  have res: "to_result demo_plan first_range = Inr demo_result"
    using demo_result_ok(2) by (simp add: to_result_def plan_result_def demo_plan_def demo_result_def)
  have fields: "lp_events demo_plan = [first_pending]" "lp_expected_stream_versions demo_plan = [((''journal_transaction'', 9), 0)]"
    "lp_post_projection_finalizer demo_plan = None" "cm_command_id demo_command = 40" "ca_subject_id demo_actor = ''a''"
    by (simp_all add: demo_plan_def demo_command_def demo_actor_def)
  show ?thesis
    by (simp add: execute_financial_once_def demo_reserve lock demo_handler_def plan fields append res on_db_def
        require_valid_def demo_complete) (simp add: open_session_def)
qed

definition demo_final :: db where
  "demo_final = demo_completed\<lparr>deferred_checks := []\<rparr>"

lemma demo_first_event: "le_event_id first_event = 31" "le_book_id first_event = 2" "le_book_position first_event = 1"
  "le_command_id first_event = 40" "le_event_type first_event = ''JournalTransactionPosted''"
  "le_event_schema_version first_event = 1"
  by (simp_all add: first_event_def)

lemma demo_commit_all: "commit demo_completed = Inr demo_final"
proof -
  have receipts: "v2_reject_processing_receipt demo_completed r = Inr ()" for r
    by (simp add: v2_reject_processing_receipt_def table_checks demo_completed_def demo_done_def completed_receipt_def
        new_receipt_def demo_result_def first_projected_def first_appended_def demo_first_event receipt_scope_of_def
        demo_command_def demo_reserved_def)
  have balance: "v2_validate_journal_balance demo_completed 2 9 = Inr ()"
    by (simp add: v2_validate_journal_balance_def table_checks demo_completed_def first_projected_def record_defs
        transaction_postings_def posting_signed_def Let_def demo_units_25 demo_first_event)
  have sync: "v2_require_sync_projection demo_completed first_event = Inr ()"
    by (simp add: v2_require_sync_projection_def table_checks sync_types demo_completed_def first_projected_def
        applied_key_def event_book_key_def demo_first_event)
  have defs: "deferred_checks demo_completed = ReceiptCheck (new_receipt (receipt_scope_of demo_actor demo_key demo_command) demo_key 40)
     # SyncProjectionCheck first_event # TransactionBalanceCheck (transaction_record first_event 9 ''adjustment'' None)
     # map PostingBalanceCheck (map (posting_record first_event 9) (tp_postings first_posted)) @ [ReceiptCheck demo_done]"
    by (simp add: demo_completed_def first_projected_def demo_reserved_def)
  show ?thesis
    unfolding commit_def defs
    by (simp add: run_deferred_def receipts balance sync demo_final_def)
      (simp add: record_defs demo_first_event balance)
qed

lemma demo_call_ok: "call_ok demo_actor 3 ''k''" "operation_ok (cm_operation demo_command)"
  by (simp_all add: call_ok_def demo_actor_def subject_ok_def operation_ok_def demo_command_def)

lemma demo_unit: "unit_of_work i None (execute_financial_once demo_sha demo_authorize demo_handler demo_actor demo_key demo_command 7 50)
    first_db = (Inr \<lparr>co_result = demo_result, co_replayed = False\<rparr>, demo_final)"
  by (simp add: unit_of_work_def demo_run demo_commit_all)

lemma demo_execute:
  "execute_financial demo_sha demo_authorize demo_handler ''k'' demo_actor 3 demo_command (\<lambda>_. demo_attempt None) first_db
     = (Inr \<lparr>co_result = demo_result, co_replayed = False\<rparr>, demo_final)"
  using demo_call_ok
  by (simp add: execute_financial_def run_command_ok retry.simps [of _ 3] attempt_once_def demo_attempt_def demo_unit)

lemma demo_handler_ok: "financial_leaves_receipts demo_handler demo_command" "leaves_ledger demo_handler demo_command"
  by (auto simp: financial_leaves_receipts_def leaves_ledger_def demo_handler_def demo_plan_def same_ledger_def)

lemma demo_alone: "keeps_completed (\<lambda>d. d)" "deferred_checks first_db = []"
  by (simp_all add: keeps_completed_def first_db_def)

theorem command_at_most_once_witness:
  "effects (\<lambda>a. execute_financial_once demo_sha demo_authorize demo_handler demo_actor demo_key demo_command (at_clock a)
      (at_lock_token a)) (\<lambda>_. demo_attempt None) first_db (Some \<lparr>co_result = demo_result, co_replayed = False\<rparr>) demo_final"
proof -
  have "keeps_completed (at_others (demo_attempt None))" using demo_alone by (simp add: demo_attempt_def)
  from command_at_most_once [OF demo_execute demo_handler_ok(1) this demo_alone(2)] show ?thesis by auto
qed

theorem retries_bounded_witness:
  "fst (execute_financial demo_sha demo_authorize demo_handler ''k'' demo_actor 3 demo_command
     (\<lambda>i. if i < 3 then demo_attempt None else demo_attempt (Some (Aborted CheckViolation))) first_db)
     = Inr \<lparr>co_result = demo_result, co_replayed = False\<rparr>"
proof -
  have "(\<lambda>i. if i < (3::nat) then demo_attempt None else demo_attempt (Some (Aborted CheckViolation))) i = (\<lambda>_. demo_attempt None) i"
    if "i < nat 3" for i using that by simp
  from retries_bounded [of 3, OF this] demo_execute show ?thesis by simp
qed

theorem transient_faults_survived_witness:
  "execute_financial demo_sha demo_authorize demo_handler ''k'' demo_actor 3 demo_command
     (\<lambda>i. demo_attempt (if i < 2 then Some (Aborted (DBAPIError ''40001'' False)) else None)) first_db
     = (Inr \<lparr>co_result = demo_result, co_replayed = False\<rparr>, demo_final)"
proof -
  let ?as = "\<lambda>i. demo_attempt (if i < (2::nat) then Some (Aborted (DBAPIError ''40001'' False)) else None)"
  have f: "at_fault (?as i) = Some (Aborted (DBAPIError ''40001'' False)) \<and> is_retryable (DBAPIError ''40001'' False)"
    if "i < 2" for i using that by (simp add: demo_attempt_def is_retryable_def)
  have o: "at_others (?as i) = (\<lambda>d. d)" for i by (simp add: demo_attempt_def)
  have k: "2 < nat 3" by simp
  have "at_fault (?as 2) = None" "at_clock (?as 2) = 7" "at_lock_token (?as 2) = 50" by (simp_all add: demo_attempt_def)
  with transient_faults_survived [OF demo_call_ok k, of ?as "\<lambda>_. DBAPIError ''40001'' False", OF f o] demo_unit [of 2]
  show ?thesis by simp
qed

lemma first_reachable: "ledger_reachable demo_sha first_db" "projected first_db"
proof -
  show "ledger_reachable demo_sha first_db"
    by (rule ledger_reachable.elsewhere [OF demo_reachable(2)]) (simp add: same_ledger_def first_db_def)
  show "projected first_db" by (rule projected.empty) (simp_all add: first_db_def)
qed

theorem financial_command_atomic_witness:
  "\<exists>events. (\<forall>e\<in>set events. pe_command_id e = 40) \<and> book_log demo_final 2 = book_log first_db 2 @ events"
proof -
  have "at_others (demo_attempt None) = (\<lambda>d. d)" "at_fault (demo_attempt None) \<noteq> Some (Unacknowledged e)" for e
    by (simp_all add: demo_attempt_def)
  from financial_command_atomic [OF demo_execute demo_handler_ok(2) first_reachable demo_alone(2) this]
  show ?thesis by (auto simp: demo_command_def)
qed

section \<open>A first replay\<close>

definition plain_result :: command_result where
  "plain_result = \<lparr>re_response_schema_version = 1, re_status_code = 200, re_body = JObj [],
     re_first_book_position = None, re_last_book_position = None\<rparr>"

definition plain_handler :: handler where
  "plain_handler = (\<lambda>_ s. Inr (plain_result, s))"

definition plain_done :: command_receipt_record where
  "plain_done = completed_receipt 7 plain_result (new_receipt (receipt_scope_of demo_actor demo_key demo_command) demo_key 40)"

definition plain_final :: db where
  "plain_final = first_db\<lparr>command_receipts := [plain_done], deferred_checks := []\<rparr>"

lemma plain_execute:
  "execute demo_sha demo_authorize plain_handler ''k'' demo_actor 3 demo_command (\<lambda>_. demo_attempt None) first_db
     = (Inr \<lparr>co_result = plain_result, co_replayed = False\<rparr>, plain_final)"
proof -
  let ?db = "plain_final\<lparr>deferred_checks := deferred_checks demo_reserved @ [ReceiptCheck plain_done]\<rparr>"
  have ok: "CommandResult plain_result = Inr plain_result"
    by (simp add: CommandResult_def plain_result_def require_valid_def is_container_def canonical_json_bytes_def)
  have c: "complete 7 (receipt_scope_of demo_actor demo_key demo_command) plain_result demo_reserved = Inr (snapshot plain_done, ?db)"
    by (simp add: complete_def lift_db_def update_receipt_def receipt_types_ok_def receipt_row_ok_def
        receipt_lifecycle_shape_def v2_guard_command_receipt_lifecycle_def receipt_refers_def table_checks
        new_receipt_def receipt_scope_of_def demo_actor_def demo_command_def demo_reserved_def lock_receipt_def find_by_def
        receipt_key_def scope_key_def first_db_def plain_done_def plain_final_def completed_receipt_def plain_result_def
        replace_by_def)
  have run: "execute_once demo_sha demo_authorize plain_handler demo_actor demo_key demo_command 7 (open_session 0 first_db)
      = Inr (\<lparr>co_result = plain_result, co_replayed = False\<rparr>, (open_session 0 first_db)\<lparr>se_db := ?db\<rparr>)"
    by (simp add: execute_once_def demo_reserve plain_handler_def ok on_db_def) (simp add: open_session_def c)
  have "v2_reject_processing_receipt ?db r = Inr ()" for r
    by (simp add: v2_reject_processing_receipt_def table_checks plain_final_def plain_done_def completed_receipt_def
        plain_result_def)
  then have "commit ?db = Inr plain_final"
    by (simp add: commit_def demo_reserved_def run_deferred_def) (simp add: plain_final_def)
  with run demo_call_ok show ?thesis
    by (simp add: execute_def run_command_ok retry.simps [of _ 3] attempt_once_def demo_attempt_def unit_of_work_def)
qed

theorem replay_is_exact_witness:
  "execute demo_sha demo_authorize plain_handler ''k'' demo_actor 1 demo_command (\<lambda>_. demo_attempt None) plain_final
     = (Inr \<lparr>co_result = plain_result, co_replayed = True\<rparr>, plain_final)"
proof -
  have "leaves_receipts plain_handler demo_command" by (simp add: leaves_receipts_def plain_handler_def)
  moreover have "keeps_completed (at_others (demo_attempt None))" "at_fault (demo_attempt None) = None"
    "at_others (demo_attempt None) = (\<lambda>d. d)" using demo_alone by (simp_all add: demo_attempt_def)
  moreover have "demo_authorize d demo_actor (cm_book_id demo_command) = Inr (demo_scope [])" for d
    by (simp add: demo_authorize_def)
  moreover have "AuthorizationScope (demo_scope []) = Inr (demo_scope [])" "az_actor_subject_id (demo_scope []) = ca_subject_id demo_actor"
    by (simp_all add: AuthorizationScope_def demo_scope_def require_valid_def subject_ok_def demo_actor_def)
  moreover have "deferred_checks plain_final = []" by (simp add: plain_final_def)
  ultimately show ?thesis
    using replay_is_exact [OF plain_execute _ _ demo_alone(2) _ _ _ demo_command_hash refl refl demo_command_hash _ refl, of "\<lambda>_. demo_attempt None" 1 plain_handler]
    by simp
qed

end
