(* ===== verification/Reversal_Commands.thy ===== *)
theory Reversal_Commands
  imports Journal_Commands
begin

text \<open>
  \<open>application/journal/reverse_transaction.py\<close> and \<open>correct_transaction.py\<close>: taking a transaction back
  by its exact inverse, and replacing it in one batch.
\<close>

section \<open>Reversing a transaction\<close>

record reverse_transaction_command =
  rt_book_id :: uuid
  rt_command_id :: uuid
  rt_reversal_transaction_id :: uuid
  rt_reverses_transaction_id :: uuid
  rt_expected_stream_version :: int
  rt_reason_code :: reversal_reason_code
  rt_effective_at :: instant
  rt_description_ref :: "uuid option"

definition ReverseTransactionCommand :: "reverse_transaction_command \<Rightarrow> ledger_error + reverse_transaction_command" where
  "ReverseTransactionCommand self =
     rbind (require_valid (rt_expected_stream_version self = 0)) (\<lambda>_.
     rbind (require_valid (instant_literal (rt_effective_at self))) (\<lambda>_. Inr self))"

definition reverse_payload :: "reverse_transaction_command \<Rightarrow> json" where
  "reverse_payload self = jobj
     [(''description_ref'', jopt juuid (rt_description_ref self)),
      (''effective_at'', jinstant (rt_effective_at self)),
      (''expected_stream_version'', JInt (rt_expected_stream_version self)),
      (''reason_code'', jstr (reversal_reason_code_value (rt_reason_code self))),
      (''reversal_transaction_id'', juuid (rt_reversal_transaction_id self)),
      (''reverses_transaction_id'', juuid (rt_reverses_transaction_id self))]"

definition reverse_as_command :: "reverse_transaction_command \<Rightarrow> command" where
  "reverse_as_command self = \<lparr>cm_book_id = rt_book_id self, cm_command_id = rt_command_id self,
     cm_operation = ''journal.reverse'', cm_payload = reverse_payload self\<rparr>"

record reversal_source =
  so_transaction :: journal_transaction_record
  so_event :: ledger_event_record
  so_postings :: "journal_posting_fact list"

definition ensure_transaction_id_available :: "db \<Rightarrow> uuid \<Rightarrow> uuid \<Rightarrow> ledger_error + unit" where
  "ensure_transaction_id_available db book_id transaction_id =
     demand TransactionIdAlreadyExists
       (transaction_of db book_id transaction_id = None
        \<and> stream_head_of db book_id (''journal_transaction'', transaction_id) = None)"

definition source_touches_credit_card_account :: "db \<Rightarrow> uuid \<Rightarrow> journal_posting_fact list \<Rightarrow> bool" where
  "source_touches_credit_card_account db book_id postings =
     list_ex (\<lambda>a. ac_book_id a = book_id \<and> ac_account_id a \<in> set (map jp_account_id postings)
       \<and> ac_account_subtype a = Some ''credit_card'') (accounts db)"

definition closed_credit_card_account_id :: "db \<Rightarrow> uuid \<Rightarrow> journal_posting_fact list \<Rightarrow> uuid option" where
  "closed_credit_card_account_id db book_id postings =
     map_option ac_account_id (find (\<lambda>a. ac_book_id a = book_id \<and> ac_account_id a \<in> set (map jp_account_id postings)
       \<and> ac_account_subtype a = Some ''credit_card'' \<and> ac_status a = ''closed'') (accounts db))"

definition has_active_credit_card_refunds :: "db \<Rightarrow> uuid \<Rightarrow> uuid \<Rightarrow> bool" where
  "has_active_credit_card_refunds db book_id charge_transaction_id =
     list_ex (\<lambda>c. ct_book_id c = book_id \<and> ct_intent c = credit_card_intent_value REFUND
         \<and> ct_original_transaction_id c = Some charge_transaction_id
         \<and> \<not> list_ex (\<lambda>r. rv_book_id r = ct_book_id c \<and> rv_original_transaction_id r = ct_transaction_id c)
               (transaction_reversals db))
       (credit_card_transactions db)"

text \<open>The postings of the event a transaction came from, by the class of its payload.\<close>

definition reversible_postings :: "db \<Rightarrow> uuid \<Rightarrow> uuid \<Rightarrow> event_payload \<Rightarrow> ledger_error + journal_posting_fact list" where
  "reversible_postings db book_id transaction_id payload =
     (case payload of
        CreditCardTransactionRecorded p \<Rightarrow>
          rbind (demand InvalidTransactionSource (cc_transaction_id p = transaction_id)) (\<lambda>_.
          rbind (demand CreditCardChargeHasActiveRefunds
            (\<not> (cc_intent p = CHARGE \<and> has_active_credit_card_refunds db book_id transaction_id))) (\<lambda>_.
          Inr (cc_postings p)))
      | JournalTransactionPosted p \<Rightarrow>
          rbind (demand InvalidTransactionSource (tp_transaction_id p = transaction_id)) (\<lambda>_. Inr (tp_postings p))
      | JournalTransactionReversed p \<Rightarrow>
          rbind (demand InvalidTransactionSource (tr_reversal_transaction_id p = transaction_id)) (\<lambda>_.
          rbind (demand CreditCardReversalChainForbidden
            (\<not> source_touches_credit_card_account db book_id (tr_inverse_postings p))) (\<lambda>_.
          Inr (tr_inverse_postings p)))
      | _ \<Rightarrow> fail InvalidTransactionSource)"

definition load_reversal_source :: "db \<Rightarrow> uuid \<Rightarrow> uuid \<Rightarrow> uuid \<Rightarrow> ledger_error + reversal_source" where
  "load_reversal_source db book_id reverses_transaction_id reversal_transaction_id =
     rbind (demand TransactionIdAlreadyExists (reversal_transaction_id \<noteq> reverses_transaction_id)) (\<lambda>_.
     rbind (ensure_transaction_id_available db book_id reversal_transaction_id) (\<lambda>_.
     rbind (demand TransactionAlreadyReversed
       (find_by reversal_target_key (book_id, reverses_transaction_id) (transaction_reversals db) = None)) (\<lambda>_.
     rbind (found TransactionNotFound (transaction_of db book_id reverses_transaction_id)) (\<lambda>transaction.
     rbind (found InvalidTransactionSource
       (find_by event_book_key (book_id, jt_source_event_id transaction) (ledger_events db))) (\<lambda>event.
     rbind (raise_as StoredPayloadError (validate_stored (le_event_type event) (le_event_schema_version event)
       (le_payload event))) (\<lambda>payload.
     rbind (reversible_postings db book_id reverses_transaction_id payload) (\<lambda>postings.
     Inr \<lparr>so_transaction = transaction, so_event = event, so_postings = postings\<rparr>)))))))"

definition opposite_side :: "posting_side \<Rightarrow> posting_side" where
  "opposite_side side = (if side = DEBIT then CREDIT else DEBIT)"

definition inverse_posting :: "name_uuid \<Rightarrow> uuid \<Rightarrow> journal_posting_fact \<Rightarrow> journal_posting_fact" where
  "inverse_posting uuid5 reversal_transaction_id posting =
     \<lparr>jp_posting_id = uuid5 (event_namespace uuid5 ''journal.reverse'')
        (uuid_str reversal_transaction_id @ '':posting:'' @ uuid_str (jp_posting_id posting)),
      jp_position = jp_position posting, jp_account_id = jp_account_id posting,
      jp_asset_code = jp_asset_code posting, jp_side = opposite_side (jp_side posting),
      jp_units = jp_units posting\<rparr>"

definition reversal_payload_of ::
    "name_uuid \<Rightarrow> uuid \<Rightarrow> reversal_reason_code \<Rightarrow> uuid option \<Rightarrow> reversal_source \<Rightarrow> journal_transaction_reversed" where
  "reversal_payload_of uuid5 reversal_transaction_id reason_code description_ref source =
     \<lparr>tr_reversal_transaction_id = reversal_transaction_id,
      tr_reverses_transaction_id = jt_transaction_id (so_transaction source),
      tr_original_event_id = le_event_id (so_event source),
      tr_original_event_hash = bytes_hex (le_event_hash (so_event source)), tr_reason_code = reason_code,
      tr_inverse_postings = map (inverse_posting uuid5 reversal_transaction_id) (so_postings source),
      tr_description_ref = description_ref\<rparr>"

definition build_reversal_pending ::
    "name_uuid \<Rightarrow> command_actor \<Rightarrow> uuid \<Rightarrow> uuid \<Rightarrow> reversal_reason_code \<Rightarrow> instant \<Rightarrow> uuid option \<Rightarrow> reversal_source
      \<Rightarrow> uuid option \<Rightarrow> ledger_error + pending_event" where
  "build_reversal_pending uuid5 actor command_id reversal_transaction_id reason_code effective_at description_ref
       source event_id =
     rbind (contract (JournalTransactionReversed
       (reversal_payload_of uuid5 reversal_transaction_id reason_code description_ref source))) (\<lambda>payload.
     Inr \<lparr>pe_event_id = (case event_id of Some i \<Rightarrow> i
            | None \<Rightarrow> uuid5 (event_namespace uuid5 ''journal.reverse'') (uuid_str command_id)),
          pe_stream_type = ''journal_transaction'', pe_stream_id = reversal_transaction_id,
          pe_payload = payload, pe_command_id = command_id, pe_actor_subject_id = ca_subject_id actor,
          pe_correlation_id = command_id, pe_causation_event_id = Some (le_event_id (so_event source)),
          pe_effective_at = effective_at\<rparr>)"

definition build_reverse_plan ::
    "name_uuid \<Rightarrow> command_actor \<Rightarrow> reverse_transaction_command \<Rightarrow> db \<Rightarrow> locked_book_head
      \<Rightarrow> ledger_error + ledger_write_plan" where
  "build_reverse_plan uuid5 actor command db locked_head =
     rbind (require_valid (lk_book_id locked_head = rt_book_id command)) (\<lambda>_.
     rbind (load_reversal_source db (rt_book_id command) (rt_reverses_transaction_id command)
       (rt_reversal_transaction_id command)) (\<lambda>source.
     let touches_credit_card = source_touches_credit_card_account db (rt_book_id command) (so_postings source) in
     rbind (demand CreditCardReversalRequiresActiveAccount
       (\<not> (touches_credit_card
           \<and> closed_credit_card_account_id db (rt_book_id command) (so_postings source) \<noteq> None))) (\<lambda>_.
     rbind (demand CreditCardReversalPrecedesOriginal
       (\<not> (touches_credit_card \<and> rt_effective_at command < le_effective_at (so_event source)))) (\<lambda>_.
     rbind (build_reversal_pending uuid5 actor (rt_command_id command) (rt_reversal_transaction_id command)
       (rt_reason_code command) (rt_effective_at command) (rt_description_ref command) source None) (\<lambda>pending.
     Inr (created_plan
       [((''journal_transaction'', rt_reversal_transaction_id command), rt_expected_stream_version command)]
       [pending]
       [(''reversal_transaction_id'', juuid (rt_reversal_transaction_id command)),
        (''reverses_transaction_id'', juuid (rt_reverses_transaction_id command)),
        (''as_of_book_position'', JInt (lk_last_position locked_head + 1))]))))))"

definition execute_reverse_transaction ::
    "(byte list \<Rightarrow> byte list) \<Rightarrow> name_uuid \<Rightarrow> reverse_transaction_command \<Rightarrow> string \<Rightarrow> command_actor \<Rightarrow> int
      \<Rightarrow> (nat \<Rightarrow> attempt) \<Rightarrow> db \<Rightarrow> (ledger_error + command_outcome) \<times> db" where
  "execute_reverse_transaction sha256 uuid5 command raw_key actor max_attempts =
     execute_financial sha256 authorize_journal_write
       (plan_handler (reverse_as_command command) (build_reverse_plan uuid5 actor command))
       raw_key actor max_attempts (reverse_as_command command)"

section \<open>Correcting a transaction\<close>

record correction_replacement =
  cn_transaction_id :: uuid
  cn_expected_stream_version :: int
  cn_kind :: transaction_kind
  cn_postings :: "post_transaction_posting list"
  cn_effective_at :: instant
  cn_description_ref :: "uuid option"
  cn_external_references :: "financial_external_reference list"

definition CORRECTION_KINDS :: "transaction_kind set" where
  "CORRECTION_KINDS = {K_STANDARD, K_OPENING, K_ADJUSTMENT, K_TRANSFER}"

definition CorrectionReplacement :: "correction_replacement \<Rightarrow> ledger_error + correction_replacement" where
  "CorrectionReplacement self =
     rbind (require_valid (cn_expected_stream_version self = 0)) (\<lambda>_.
     rbind (require_valid (cn_kind self \<in> CORRECTION_KINDS)) (\<lambda>_.
     rbind (require_valid (2 \<le> length (cn_postings self))) (\<lambda>_.
     rbind (require_valid (instant_literal (cn_effective_at self))) (\<lambda>_. Inr self))))"

definition replacement_canonical_value :: "correction_replacement \<Rightarrow> json" where
  "replacement_canonical_value self = jobj
     [(''description_ref'', jopt juuid (cn_description_ref self)),
      (''effective_at'', jinstant (cn_effective_at self)),
      (''expected_stream_version'', JInt (cn_expected_stream_version self)),
      (''external_references'', JList (map dump_external_reference (cn_external_references self))),
      (''kind'', jstr (transaction_kind_value (cn_kind self))),
      (''postings'', JList (map posting_canonical_value (cn_postings self))),
      (''transaction_id'', juuid (cn_transaction_id self))]"

record correct_transaction_command =
  kt_book_id :: uuid
  kt_command_id :: uuid
  kt_reverses_transaction_id :: uuid
  kt_reversal_transaction_id :: uuid
  kt_expected_reversal_stream_version :: int
  kt_reason_code :: reversal_reason_code
  kt_reversal_effective_at :: instant
  kt_replacement :: correction_replacement
  kt_reversal_description_ref :: "uuid option"

definition CorrectTransactionCommand :: "correct_transaction_command \<Rightarrow> ledger_error + correct_transaction_command" where
  "CorrectTransactionCommand self =
     rbind (require_valid (kt_expected_reversal_stream_version self = 0)) (\<lambda>_.
     rbind (require_valid (instant_literal (kt_reversal_effective_at self))) (\<lambda>_. Inr self))"

definition correct_payload :: "correct_transaction_command \<Rightarrow> json" where
  "correct_payload self = jobj
     [(''expected_reversal_stream_version'', JInt (kt_expected_reversal_stream_version self)),
      (''reason_code'', jstr (reversal_reason_code_value (kt_reason_code self))),
      (''replacement'', replacement_canonical_value (kt_replacement self)),
      (''reversal_description_ref'', jopt juuid (kt_reversal_description_ref self)),
      (''reversal_effective_at'', jinstant (kt_reversal_effective_at self)),
      (''reversal_transaction_id'', juuid (kt_reversal_transaction_id self)),
      (''reverses_transaction_id'', juuid (kt_reverses_transaction_id self))]"

definition correct_as_command :: "correct_transaction_command \<Rightarrow> command" where
  "correct_as_command self = \<lparr>cm_book_id = kt_book_id self, cm_command_id = kt_command_id self,
     cm_operation = ''journal.correct'', cm_payload = correct_payload self\<rparr>"

definition transaction_touches_credit_card_account :: "db \<Rightarrow> uuid \<Rightarrow> uuid \<Rightarrow> bool" where
  "transaction_touches_credit_card_account db book_id transaction_id =
     list_ex (\<lambda>a. ac_account_subtype a = Some ''credit_card''
       \<and> list_ex (\<lambda>p. po_book_id p = book_id \<and> po_transaction_id p = transaction_id
           \<and> posted_to p = account_asset_key a) (journal_postings db)) (accounts db)"

definition replacement_command :: "correct_transaction_command \<Rightarrow> post_transaction_command" where
  "replacement_command command = (let r = kt_replacement command in
     \<lparr>pc_book_id = kt_book_id command, pc_command_id = kt_command_id command,
      pc_transaction_id = cn_transaction_id r, pc_expected_stream_version = cn_expected_stream_version r,
      pc_kind = cn_kind r, pc_postings = cn_postings r, pc_effective_at = cn_effective_at r,
      pc_description_ref = cn_description_ref r, pc_external_references = cn_external_references r\<rparr>)"

definition correction_event_id :: "name_uuid \<Rightarrow> uuid \<Rightarrow> string \<Rightarrow> uuid" where
  "correction_event_id uuid5 command_id part =
     uuid5 (event_namespace uuid5 ''journal.correct'') (uuid_str command_id @ '':'' @ part)"

definition build_correction_plan ::
    "name_uuid \<Rightarrow> command_actor \<Rightarrow> correct_transaction_command \<Rightarrow> db \<Rightarrow> locked_book_head
      \<Rightarrow> ledger_error + ledger_write_plan" where
  "build_correction_plan uuid5 actor command db locked_head =
     (let book_id = kt_book_id command; r = kt_replacement command in
     rbind (require_valid (lk_book_id locked_head = book_id)) (\<lambda>_.
     rbind (demand TransactionIdAlreadyExists (cn_transaction_id r
       \<notin> {kt_reverses_transaction_id command, kt_reversal_transaction_id command})) (\<lambda>_.
     rbind (demand CreditCardGeneralCorrectionForbidden
       (\<not> transaction_touches_credit_card_account db book_id (kt_reverses_transaction_id command))) (\<lambda>_.
     rbind (load_reversal_source db book_id (kt_reverses_transaction_id command)
       (kt_reversal_transaction_id command)) (\<lambda>source.
     rbind (demand CreditCardGeneralCorrectionForbidden
       (\<not> source_touches_credit_card_account db book_id (so_postings source))) (\<lambda>_.
     rbind (ensure_transaction_id_available db book_id (cn_transaction_id r)) (\<lambda>_.
     rbind (PostTransactionCommand (replacement_command command)) (\<lambda>posting_command.
     rbind (build_posted_payload False posting_command db) (\<lambda>replacement_payload.
     let reversal_event_id = correction_event_id uuid5 (kt_command_id command) ''reversal'';
         replacement_event_id = correction_event_id uuid5 (kt_command_id command) ''replacement'' in
     rbind (build_reversal_pending uuid5 actor (kt_command_id command) (kt_reversal_transaction_id command)
       (kt_reason_code command) (kt_reversal_effective_at command) (kt_reversal_description_ref command)
       source (Some reversal_event_id)) (\<lambda>reversal.
     rbind (require_valid (set (map jp_posting_id (map (inverse_posting uuid5 (kt_reversal_transaction_id command))
         (so_postings source))) \<inter> set (map jp_posting_id (tp_postings replacement_payload)) = {})) (\<lambda>_.
     Inr (created_plan
       [((''journal_transaction'', kt_reversal_transaction_id command), kt_expected_reversal_stream_version command),
        ((''journal_transaction'', cn_transaction_id r), cn_expected_stream_version r)]
       [reversal, build_posted_pending uuid5 actor (Some replacement_event_id) (Some reversal_event_id)
          posting_command replacement_payload]
       [(''reversal_transaction_id'', juuid (kt_reversal_transaction_id command)),
        (''replacement_transaction_id'', juuid (cn_transaction_id r)),
        (''reverses_transaction_id'', juuid (kt_reverses_transaction_id command)),
        (''as_of_book_position'', JInt (lk_last_position locked_head + 2))]))))))))))))"

definition execute_correct_transaction ::
    "(byte list \<Rightarrow> byte list) \<Rightarrow> name_uuid \<Rightarrow> correct_transaction_command \<Rightarrow> string \<Rightarrow> command_actor \<Rightarrow> int
      \<Rightarrow> (nat \<Rightarrow> attempt) \<Rightarrow> db \<Rightarrow> (ledger_error + command_outcome) \<times> db" where
  "execute_correct_transaction sha256 uuid5 command raw_key actor max_attempts =
     execute_financial sha256 authorize_journal_write
       (plan_handler (correct_as_command command) (build_correction_plan uuid5 actor command))
       raw_key actor max_attempts (correct_as_command command)"

end
