(* ===== verification/Reporting_Commands.thy ===== *)
theory Reporting_Commands
  imports Reversal_Commands
begin

text \<open>
  \<open>application/journal/assign_reporting_lines.py\<close>, \<open>clear_reporting_lines.py\<close> and
  \<open>correct_external_reference.py\<close>: the commands that classify a transaction or correct what it refers
  to, and leave its postings alone.
\<close>

section \<open>Assigning reporting lines\<close>

record reporting_line_input =
  ri_line_id :: uuid
  ri_line_version_id :: uuid
  ri_catalog_id :: uuid
  ri_asset_code :: string
  ri_units :: string
  ri_line_kind :: reporting_line_kind
  ri_dimension :: reporting_dimension
  ri_dimension_id :: "uuid option"
  ri_description_ref :: "uuid option"

definition ReportingLineInput :: "reporting_line_input \<Rightarrow> ledger_error + reporting_line_input" where
  "ReportingLineInput self =
     rbind (require_valid (asset_code_literal (ri_asset_code self))) (\<lambda>_.
     rbind (require_valid (CanonicalUnits (ri_units self))) (\<lambda>_. Inr self))"

definition line_canonical_value :: "reporting_line_input \<Rightarrow> json" where
  "line_canonical_value self = jobj
     [(''asset_code'', jstr (ri_asset_code self)), (''catalog_id'', juuid (ri_catalog_id self)),
      (''description_ref'', jopt juuid (ri_description_ref self)),
      (''dimension'', jstr (reporting_dimension_value (ri_dimension self))),
      (''dimension_id'', jopt juuid (ri_dimension_id self)), (''line_id'', juuid (ri_line_id self)),
      (''line_kind'', jstr (reporting_line_kind_value (ri_line_kind self))),
      (''line_version_id'', juuid (ri_line_version_id self)), (''units'', jstr (ri_units self))]"

record assign_reporting_lines_command =
  gl_book_id :: uuid
  gl_command_id :: uuid
  gl_transaction_id :: uuid
  gl_expected_revision :: int
  gl_lines :: "reporting_line_input list"
  gl_effective_at :: instant

definition AssignReportingLinesCommand ::
    "assign_reporting_lines_command \<Rightarrow> ledger_error + assign_reporting_lines_command" where
  "AssignReportingLinesCommand self =
     rbind (require_valid (0 \<le> gl_expected_revision self)) (\<lambda>_.
     rbind (require_valid (gl_lines self \<noteq> [])) (\<lambda>_.
     rbind (require_valid (instant_literal (gl_effective_at self))) (\<lambda>_. Inr self)))"

definition assign_payload :: "assign_reporting_lines_command \<Rightarrow> json" where
  "assign_payload self = jobj
     [(''effective_at'', jinstant (gl_effective_at self)),
      (''expected_revision'', JInt (gl_expected_revision self)),
      (''lines'', JList (map line_canonical_value (gl_lines self))),
      (''transaction_id'', juuid (gl_transaction_id self))]"

definition assign_as_command :: "assign_reporting_lines_command \<Rightarrow> command" where
  "assign_as_command self = \<lparr>cm_book_id = gl_book_id self, cm_command_id = gl_command_id self,
     cm_operation = ''reporting.assign'', cm_payload = assign_payload self\<rparr>"

definition load_reporting_target :: "db \<Rightarrow> uuid \<Rightarrow> uuid \<Rightarrow> ledger_error + journal_transaction_record" where
  "load_reporting_target db book_id transaction_id =
     found TransactionNotFound (transaction_of db book_id transaction_id)"

definition fact_totals :: "posting_side \<Rightarrow> journal_posting_fact list \<Rightarrow> string counter" where
  "fact_totals side postings =
     ctally jp_asset_code (\<lambda>p. units_value (jp_units p)) (filter (\<lambda>p. jp_side p = side) postings) []"

definition validate_reporting_allocations ::
    "reporting_line_input list \<Rightarrow> journal_posting_fact list \<Rightarrow> string \<Rightarrow> ledger_error + unit" where
  "validate_reporting_allocations lines postings transaction_kind =
     rbind (require_valid (lines \<noteq> [])) (\<lambda>_.
     rbind (require_valid (transaction_kind \<noteq> [])) (\<lambda>_.
     rbind (demand UnsupportedCreditCardReporting
       (\<not> (transaction_kind \<in> set [''credit_card_charge'', ''credit_card_fee'', ''credit_card_refund'']
           \<and> list_ex (\<lambda>line. ri_line_kind line \<noteq> L_EXPENSE) lines))) (\<lambda>_.
     rbind (demand UnsupportedReportingDimension
       (list_all (\<lambda>line. ri_dimension line = D_CATEGORY \<and> ri_dimension_id line \<noteq> None) lines)) (\<lambda>_.
     let debit_by_asset = fact_totals DEBIT postings; credit_by_asset = fact_totals CREDIT postings;
         allocated_by_asset = ctally ri_asset_code (\<lambda>l. units_value (ri_units l)) lines []
     in
     rbind (demand ReportingAllocationExceeded
       (\<not> (postings = [] \<or> \<not> same_dict debit_by_asset credit_by_asset))) (\<lambda>_.
     demand ReportingAllocationExceeded
       (\<not> list_ex (\<lambda>(asset_code, allocated). cget debit_by_asset asset_code < allocated) allocated_by_asset))))))"

text \<open>A stored posting as a \<open>JournalPostingFact\<close>; the contract checks its fields again.\<close>

definition fact_of_row :: "journal_posting_record \<Rightarrow> ledger_error + journal_posting_fact" where
  "fact_of_row posting =
     (let f = \<lparr>jp_posting_id = po_posting_id posting, jp_position = po_posting_position posting,
            jp_account_id = po_account_id posting, jp_asset_code = po_asset_code posting,
            jp_side = po_side posting, jp_units = int_str (po_units posting)\<rparr>
      in rbind (demand (ContractRejected ValidationError) (posting_fact_fields_ok f)) (\<lambda>_. Inr f))"

definition validate_line_category :: "assign_reporting_lines_command \<Rightarrow> db \<Rightarrow> reporting_line_input \<Rightarrow> ledger_error + unit" where
  "validate_line_category command db line =
     (case (ri_dimension line, ri_dimension_id line) of
        (D_CATEGORY, Some category) \<Rightarrow>
          rbind (get_category_version db (gl_book_id command) category (ri_catalog_id line)) (\<lambda>_. Inr ())
      | _ \<Rightarrow> fail UnsupportedReportingDimension)"

definition validate_lines ::
    "assign_reporting_lines_command \<Rightarrow> db \<Rightarrow> journal_transaction_record \<Rightarrow> ledger_error + unit" where
  "validate_lines command db transaction =
     (let source_event = find_by event_book_key (gl_book_id command, jt_source_event_id transaction) (ledger_events db) in
     rbind (demand UnsupportedCreditCardReporting
       (\<not> (jt_transaction_kind transaction = ''credit_card_payment''
           \<and> map_option le_event_type source_event \<noteq> Some ''JournalTransactionPosted''))) (\<lambda>_.
     rbind (checkE (validate_line_category command db) (gl_lines command)) (\<lambda>_.
     rbind (mapE fact_of_row (transaction_postings db (gl_book_id command) (gl_transaction_id command))) (\<lambda>postings.
     validate_reporting_allocations (gl_lines command) postings (jt_transaction_kind transaction)))))"

definition assigned_line :: "nat \<times> reporting_line_input \<Rightarrow> reporting_line" where
  "assigned_line entry = (case entry of (position, line) \<Rightarrow>
     \<lparr>rl_line_id = ri_line_id line, rl_line_version_id = ri_line_version_id line,
      rl_catalog_id = ri_catalog_id line, rl_position = int position, rl_asset_code = ri_asset_code line,
      rl_units = ri_units line, rl_line_kind = ri_line_kind line, rl_dimension = ri_dimension line,
      rl_dimension_id = ri_dimension_id line, rl_description_ref = ri_description_ref line\<rparr>)"

definition build_reporting_lines_assigned ::
    "uuid \<Rightarrow> int \<Rightarrow> reporting_line_input list \<Rightarrow> ledger_error + event_payload" where
  "build_reporting_lines_assigned transaction_id classification_revision lines =
     rbind (require_valid (0 < classification_revision)) (\<lambda>_.
     rbind (require_valid (lines \<noteq> [])) (\<lambda>_.
     contract (ReportingLinesAssigned
       \<lparr>la_transaction_id = transaction_id, la_classification_revision = classification_revision,
        la_lines = map assigned_line (enumerate 0 lines)\<rparr>)))"

text \<open>The event of a command about one transaction, in its own kind of stream.\<close>

definition annotation_pending ::
    "name_uuid \<Rightarrow> command_actor \<Rightarrow> string \<Rightarrow> string \<Rightarrow> uuid \<Rightarrow> uuid \<Rightarrow> event_payload \<Rightarrow> uuid \<Rightarrow> instant \<Rightarrow> pending_event" where
  "annotation_pending uuid5 actor namespace stream_type transaction_id command_id payload causation effective_at =
     \<lparr>pe_event_id = uuid5 (event_namespace uuid5 namespace) (uuid_str command_id), pe_stream_type = stream_type,
      pe_stream_id = transaction_id, pe_payload = payload, pe_command_id = command_id,
      pe_actor_subject_id = ca_subject_id actor, pe_correlation_id = command_id,
      pe_causation_event_id = Some causation, pe_effective_at = effective_at\<rparr>"

definition build_assign_plan ::
    "name_uuid \<Rightarrow> command_actor \<Rightarrow> assign_reporting_lines_command \<Rightarrow> db \<Rightarrow> locked_book_head
      \<Rightarrow> ledger_error + ledger_write_plan" where
  "build_assign_plan uuid5 actor command db locked_head =
     rbind (require_valid (lk_book_id locked_head = gl_book_id command)) (\<lambda>_.
     rbind (load_reporting_target db (gl_book_id command) (gl_transaction_id command)) (\<lambda>transaction.
     rbind (demand UnsupportedReportingTarget
       (find_by reversal_key (gl_book_id command, gl_transaction_id command) (transaction_reversals db) = None)) (\<lambda>_.
     rbind (validate_lines command db transaction) (\<lambda>_.
     let revision = gl_expected_revision command + 1 in
     rbind (build_reporting_lines_assigned (gl_transaction_id command) revision (gl_lines command)) (\<lambda>payload.
     Inr (created_plan [((''reporting_lines'', gl_transaction_id command), gl_expected_revision command)]
       [annotation_pending uuid5 actor ''reporting.assign'' ''reporting_lines'' (gl_transaction_id command)
          (gl_command_id command) payload (jt_source_event_id transaction) (gl_effective_at command)]
       [(''transaction_id'', juuid (gl_transaction_id command)), (''classification_revision'', JInt revision),
        (''as_of_book_position'', JInt (lk_last_position locked_head + 1))]))))))"

definition execute_assign_reporting_lines ::
    "(byte list \<Rightarrow> byte list) \<Rightarrow> name_uuid \<Rightarrow> assign_reporting_lines_command \<Rightarrow> string \<Rightarrow> command_actor \<Rightarrow> int
      \<Rightarrow> (nat \<Rightarrow> attempt) \<Rightarrow> db \<Rightarrow> (ledger_error + command_outcome) \<times> db" where
  "execute_assign_reporting_lines sha256 uuid5 command raw_key actor max_attempts =
     execute_financial sha256 authorize_journal_write
       (plan_handler (assign_as_command command) (build_assign_plan uuid5 actor command))
       raw_key actor max_attempts (assign_as_command command)"

section \<open>Clearing reporting lines\<close>

record clear_reporting_lines_command =
  gc_book_id :: uuid
  gc_command_id :: uuid
  gc_transaction_id :: uuid
  gc_expected_revision :: int
  gc_effective_at :: instant

definition ClearReportingLinesCommand ::
    "clear_reporting_lines_command \<Rightarrow> ledger_error + clear_reporting_lines_command" where
  "ClearReportingLinesCommand self =
     rbind (require_valid (0 \<le> gc_expected_revision self)) (\<lambda>_.
     rbind (require_valid (instant_literal (gc_effective_at self))) (\<lambda>_. Inr self))"

definition clear_payload :: "clear_reporting_lines_command \<Rightarrow> json" where
  "clear_payload self = jobj
     [(''effective_at'', jinstant (gc_effective_at self)),
      (''expected_revision'', JInt (gc_expected_revision self)),
      (''transaction_id'', juuid (gc_transaction_id self))]"

definition clear_as_command :: "clear_reporting_lines_command \<Rightarrow> command" where
  "clear_as_command self = \<lparr>cm_book_id = gc_book_id self, cm_command_id = gc_command_id self,
     cm_operation = ''reporting.clear'', cm_payload = clear_payload self\<rparr>"

definition build_clear_plan ::
    "name_uuid \<Rightarrow> command_actor \<Rightarrow> clear_reporting_lines_command \<Rightarrow> db \<Rightarrow> locked_book_head
      \<Rightarrow> ledger_error + ledger_write_plan" where
  "build_clear_plan uuid5 actor command db locked_head =
     rbind (require_valid (lk_book_id locked_head = gc_book_id command)) (\<lambda>_.
     rbind (load_reporting_target db (gc_book_id command) (gc_transaction_id command)) (\<lambda>transaction.
     let revision = gc_expected_revision command + 1 in
     rbind (contract (ReportingLinesCleared
       \<lparr>lc_transaction_id = gc_transaction_id command, lc_classification_revision = revision\<rparr>)) (\<lambda>payload.
     Inr (created_plan [((''reporting_lines'', gc_transaction_id command), gc_expected_revision command)]
       [annotation_pending uuid5 actor ''reporting.clear'' ''reporting_lines'' (gc_transaction_id command)
          (gc_command_id command) payload (jt_source_event_id transaction) (gc_effective_at command)]
       [(''transaction_id'', juuid (gc_transaction_id command)), (''classification_revision'', JInt revision),
        (''as_of_book_position'', JInt (lk_last_position locked_head + 1))]))))"

definition execute_clear_reporting_lines ::
    "(byte list \<Rightarrow> byte list) \<Rightarrow> name_uuid \<Rightarrow> clear_reporting_lines_command \<Rightarrow> string \<Rightarrow> command_actor \<Rightarrow> int
      \<Rightarrow> (nat \<Rightarrow> attempt) \<Rightarrow> db \<Rightarrow> (ledger_error + command_outcome) \<times> db" where
  "execute_clear_reporting_lines sha256 uuid5 command raw_key actor max_attempts =
     execute_financial sha256 authorize_journal_write
       (plan_handler (clear_as_command command) (build_clear_plan uuid5 actor command))
       raw_key actor max_attempts (clear_as_command command)"

section \<open>Correcting an external reference\<close>

record correct_external_reference_command =
  fx_book_id :: uuid
  fx_command_id :: uuid
  fx_transaction_id :: uuid
  fx_provider_code :: string
  fx_reference_kind :: external_reference_kind
  fx_corrected_reference :: string
  fx_expected_stream_version :: int
  fx_effective_at :: instant

definition CorrectExternalReferenceCommand ::
    "correct_external_reference_command \<Rightarrow> ledger_error + correct_external_reference_command" where
  "CorrectExternalReferenceCommand self =
     rbind (require_valid (ProviderCode (fx_provider_code self))) (\<lambda>_.
     rbind (require_valid (ExternalReferenceValue (fx_corrected_reference self))) (\<lambda>_.
     rbind (require_valid (0 \<le> fx_expected_stream_version self)) (\<lambda>_.
     rbind (require_valid (instant_literal (fx_effective_at self))) (\<lambda>_. Inr self))))"

definition reference_payload :: "correct_external_reference_command \<Rightarrow> json" where
  "reference_payload self = jobj
     [(''corrected_reference'', jstr (fx_corrected_reference self)),
      (''effective_at'', jinstant (fx_effective_at self)),
      (''expected_stream_version'', JInt (fx_expected_stream_version self)),
      (''provider_code'', jstr (fx_provider_code self)),
      (''reference_kind'', jstr (external_reference_kind_value (fx_reference_kind self))),
      (''transaction_id'', juuid (fx_transaction_id self))]"

definition reference_as_command :: "correct_external_reference_command \<Rightarrow> command" where
  "reference_as_command self = \<lparr>cm_book_id = fx_book_id self, cm_command_id = fx_command_id self,
     cm_operation = ''journal.external_reference.correct'', cm_payload = reference_payload self\<rparr>"

definition build_reference_plan ::
    "name_uuid \<Rightarrow> command_actor \<Rightarrow> correct_external_reference_command \<Rightarrow> db \<Rightarrow> locked_book_head
      \<Rightarrow> ledger_error + ledger_write_plan" where
  "build_reference_plan uuid5 actor command db locked_head =
     rbind (require_valid (lk_book_id locked_head = fx_book_id command)) (\<lambda>_.
     rbind (load_reporting_target db (fx_book_id command) (fx_transaction_id command)) (\<lambda>transaction.
     let current = find_by external_reference_key
           (fx_book_id command, fx_transaction_id command, fx_provider_code command,
            external_reference_kind_value (fx_reference_kind command)) (external_references db);
         previous_reference = map_option xr_reference_value current
     in
     rbind (demand ExternalReferenceUnchanged (previous_reference \<noteq> Some (fx_corrected_reference command))) (\<lambda>_.
     rbind (contract (FinancialExternalReferenceCorrected
       \<lparr>rc_transaction_id = fx_transaction_id command, rc_provider_code = fx_provider_code command,
        rc_reference_kind = fx_reference_kind command, rc_previous_reference = previous_reference,
        rc_corrected_reference = fx_corrected_reference command\<rparr>)) (\<lambda>payload.
     Inr (created_plan [((''external_reference'', fx_transaction_id command), fx_expected_stream_version command)]
       [annotation_pending uuid5 actor ''external-reference.correct'' ''external_reference''
          (fx_transaction_id command) (fx_command_id command) payload
          (case current of None \<Rightarrow> jt_source_event_id transaction | Some x \<Rightarrow> xr_source_event_id x)
          (fx_effective_at command)]
       [(''transaction_id'', juuid (fx_transaction_id command)), (''provider_code'', jstr (fx_provider_code command)),
        (''reference_kind'', jstr (external_reference_kind_value (fx_reference_kind command))),
        (''reference'', jstr (fx_corrected_reference command)),
        (''as_of_book_position'', JInt (lk_last_position locked_head + 1))])))))"

definition execute_correct_external_reference ::
    "(byte list \<Rightarrow> byte list) \<Rightarrow> name_uuid \<Rightarrow> correct_external_reference_command \<Rightarrow> string \<Rightarrow> command_actor \<Rightarrow> int
      \<Rightarrow> (nat \<Rightarrow> attempt) \<Rightarrow> db \<Rightarrow> (ledger_error + command_outcome) \<times> db" where
  "execute_correct_external_reference sha256 uuid5 command raw_key actor max_attempts =
     execute_financial sha256 authorize_journal_write
       (plan_handler (reference_as_command command) (build_reference_plan uuid5 actor command))
       raw_key actor max_attempts (reference_as_command command)"

end
