(* ===== verification/Fx_Commands.thy ===== *)
theory Fx_Commands
  imports Reporting_Commands
begin

text \<open>
  \<open>application/journal/record_fx.py\<close>: an exchange of two assets through the trading accounts of a Book,
  and the payment of a foreign credit card with its fee and the fee's reporting line in one batch.
\<close>

section \<open>Commands\<close>

record record_fx_command =
  xc_book_id :: uuid
  xc_command_id :: uuid
  xc_transaction_id :: uuid
  xc_expected_stream_version :: int
  xc_source_account_id :: uuid
  xc_source_trading_account_id :: uuid
  xc_source_asset_code :: string
  xc_source_amount :: string
  xc_target_trading_account_id :: uuid
  xc_target_account_id :: uuid
  xc_target_asset_code :: string
  xc_target_amount :: string
  xc_effective_at :: instant
  xc_description_ref :: "uuid option"
  xc_external_references :: "financial_external_reference list"

record record_fx_card_command = record_fx_command +
  xc_fee_amount :: string
  xc_fee_category_id :: uuid
  xc_fee_category_version_id :: uuid

definition fx_account_ids :: "('a) record_fx_command_scheme \<Rightarrow> uuid list" where
  "fx_account_ids self = [xc_target_account_id self, xc_target_trading_account_id self,
     xc_source_trading_account_id self, xc_source_account_id self]"

definition fx_command_ok :: "('a) record_fx_command_scheme \<Rightarrow> ledger_error + unit" where
  "fx_command_ok self =
     rbind (require_valid (distinct (fx_account_ids self))) (\<lambda>_.
     rbind (require_valid (0 \<le> xc_expected_stream_version self)) (\<lambda>_.
     rbind (require_valid (asset_code_literal (xc_source_asset_code self))) (\<lambda>_.
     rbind (require_valid (asset_code_literal (xc_target_asset_code self))) (\<lambda>_.
     rbind (require_valid (xc_source_asset_code self \<noteq> xc_target_asset_code self)) (\<lambda>_.
     rbind (require_valid (AMOUNT_PATTERN (xc_source_amount self))) (\<lambda>_.
     rbind (require_valid (AMOUNT_PATTERN (xc_target_amount self))) (\<lambda>_.
     require_valid (instant_literal (xc_effective_at self)))))))))"

definition RecordFxCommand :: "record_fx_command \<Rightarrow> ledger_error + record_fx_command" where
  "RecordFxCommand self = rbind (fx_command_ok self) (\<lambda>_. Inr self)"

definition RecordFxCreditCardPaymentCommand :: "record_fx_card_command \<Rightarrow> ledger_error + record_fx_card_command" where
  "RecordFxCreditCardPaymentCommand self =
     rbind (fx_command_ok self) (\<lambda>_.
     rbind (require_valid (positive_amount_literal (xc_fee_amount self))) (\<lambda>_. Inr self))"

definition fx_payload_fields :: "('a) record_fx_command_scheme \<Rightarrow> (string \<times> json) list" where
  "fx_payload_fields self =
     [(''description_ref'', jopt juuid (xc_description_ref self)),
      (''effective_at'', jinstant (xc_effective_at self)),
      (''expected_stream_version'', JInt (xc_expected_stream_version self)),
      (''external_references'', JList (map dump_external_reference (xc_external_references self))),
      (''source_account_id'', juuid (xc_source_account_id self)),
      (''source_amount'', jstr (xc_source_amount self)),
      (''source_asset_code'', jstr (xc_source_asset_code self)),
      (''source_trading_account_id'', juuid (xc_source_trading_account_id self)),
      (''target_account_id'', juuid (xc_target_account_id self)),
      (''target_amount'', jstr (xc_target_amount self)),
      (''target_asset_code'', jstr (xc_target_asset_code self)),
      (''target_trading_account_id'', juuid (xc_target_trading_account_id self)),
      (''transaction_id'', juuid (xc_transaction_id self))]"

definition fx_card_payload :: "record_fx_card_command \<Rightarrow> json" where
  "fx_card_payload self = jobj (fx_payload_fields self @
     [(''fee_amount'', jstr (xc_fee_amount self)), (''fee_category_id'', juuid (xc_fee_category_id self)),
      (''fee_category_version_id'', juuid (xc_fee_category_version_id self))])"

definition fx_as_command :: "record_fx_command \<Rightarrow> command" where
  "fx_as_command self = \<lparr>cm_book_id = xc_book_id self, cm_command_id = xc_command_id self,
     cm_operation = ''journal.record_fx'', cm_payload = jobj (fx_payload_fields self)\<rparr>"

definition fx_card_as_command :: "record_fx_card_command \<Rightarrow> command" where
  "fx_card_as_command self = \<lparr>cm_book_id = xc_book_id self, cm_command_id = xc_command_id self,
     cm_operation = ''journal.record_fx_credit_card_payment'', cm_payload = fx_card_payload self\<rparr>"

section \<open>Legs\<close>

definition fx_name :: "name_uuid \<Rightarrow> uuid \<Rightarrow> string \<Rightarrow> uuid" where
  "fx_name uuid5 command_id part =
     uuid5 (event_namespace uuid5 ''journal.record-fx'') (uuid_str command_id @ '':'' @ part)"

definition fx_draft ::
    "name_uuid \<Rightarrow> uuid \<Rightarrow> nat \<times> string \<times> uuid \<times> string \<times> posting_side \<times> int \<Rightarrow> posting_draft" where
  "fx_draft uuid5 command_id entry = (case entry of (position, leg_name, account_id, asset_code, side, units) \<Rightarrow>
     \<lparr>pd_posting_id = uuid_str (fx_name uuid5 command_id leg_name), pd_position = int position,
      pd_account_id = uuid_str account_id, pd_asset_code = asset_code, pd_side = side, pd_units = units\<rparr>)"

definition policy_for :: "(string \<times> asset_policy) list \<Rightarrow> string \<Rightarrow> ledger_error + asset_policy" where
  "policy_for asset_policies asset_code = found KeyError (map_of asset_policies asset_code)"

definition parse_in :: "(string \<times> asset_policy) list \<Rightarrow> string \<Rightarrow> string \<Rightarrow> ledger_error + int" where
  "parse_in asset_policies asset_code amount =
     rbind (policy_for asset_policies asset_code) (\<lambda>policy. parse_units policy amount)"

text \<open>The validated journal payload of given legs over given accounts.\<close>

definition fx_posted ::
    "name_uuid \<Rightarrow> ('a) record_fx_command_scheme \<Rightarrow> transaction_kind \<Rightarrow> account_record list
      \<Rightarrow> (string \<times> uuid \<times> string \<times> posting_side \<times> int) list \<Rightarrow> ledger_error + journal_transaction_posted" where
  "fx_posted uuid5 command kind rows legs =
     (let posting_drafts = map (fx_draft uuid5 (xc_command_id command)) (enumerate 0 legs) in
     rbind (mapE domain_account rows) (\<lambda>domain_accounts.
     rbind (rejects JournalRejected (validate
              \<lparr>pt_transaction_id = uuid_str (xc_transaction_id command), pt_book_id = uuid_str (xc_book_id command),
               pt_kind = kind, pt_postings = posting_drafts\<rparr> domain_accounts)) (\<lambda>_.
     rbind (mapE posting_fact posting_drafts) (\<lambda>facts.
     let payload = \<lparr>tp_transaction_id = xc_transaction_id command, tp_kind = kind,
           tp_original_transaction_id = None, tp_postings = facts,
           tp_description_ref = xc_description_ref command,
           tp_external_references = xc_external_references command\<rparr>
     in rbind (contract (JournalTransactionPosted payload)) (\<lambda>_. Inr payload)))))"

definition build_fx_payload :: "name_uuid \<Rightarrow> record_fx_command \<Rightarrow> db \<Rightarrow> ledger_error + journal_transaction_posted" where
  "build_fx_payload uuid5 command db =
     (let db_accounts = known_accounts db (xc_book_id command) (sorted_ids (fx_account_ids command));
          source = xc_source_asset_code command; target = xc_target_asset_code command in
     rbind (reject_credit_card_accounts db_accounts) (\<lambda>_.
     rbind (mapE (active_policy db) (sorted_codes [source, target])) (\<lambda>asset_policies.
     rbind (parse_in asset_policies target (xc_target_amount command)) (\<lambda>target_units.
     rbind (parse_in asset_policies source (xc_source_amount command)) (\<lambda>source_units.
     fx_posted uuid5 command K_FX db_accounts
       [(''target-user'', xc_target_account_id command, target, DEBIT, target_units),
        (''target-trading'', xc_target_trading_account_id command, target, CREDIT, target_units),
        (''source-trading'', xc_source_trading_account_id command, source, DEBIT, source_units),
        (''source-user'', xc_source_account_id command, source, CREDIT, source_units)])))))"

section \<open>Paying a foreign credit card\<close>

definition standard_role :: "account_record \<Rightarrow> bool" where
  "standard_role a \<longleftrightarrow> ac_system_role a \<in> {None, Some ''standard''}"

definition payment_source_ok :: "record_fx_card_command \<Rightarrow> account_record \<Rightarrow> bool" where
  "payment_source_ok command a \<longleftrightarrow> ac_status a = ''active'' \<and> standard_role a
     \<and> ac_account_type a = account_type_value T_ASSET \<and> ac_asset_code a = xc_source_asset_code command"

definition payment_card_ok :: "record_fx_card_command \<Rightarrow> account_record \<Rightarrow> bool" where
  "payment_card_ok command a \<longleftrightarrow> ac_status a = ''active'' \<and> standard_role a
     \<and> ac_account_type a = account_type_value T_LIABILITY \<and> ac_account_subtype a = Some ''credit_card''
     \<and> ac_asset_code a = xc_target_asset_code command"

definition trading_account_ok :: "string \<Rightarrow> account_record \<Rightarrow> bool" where
  "trading_account_ok asset_code a \<longleftrightarrow> ac_status a = ''active''
     \<and> ac_system_role a = Some (account_system_role_value R_FX_TRADING) \<and> ac_asset_code a = asset_code"

definition fee_accounts :: "record_fx_card_command \<Rightarrow> db \<Rightarrow> account_record list" where
  "fee_accounts command db = filter (\<lambda>a. ac_book_id a = xc_book_id command
     \<and> ac_asset_code a = xc_source_asset_code command \<and> ac_account_type a = account_type_value T_EXPENSE
     \<and> ac_system_role a = Some (account_system_role_value R_EXPENSE_CLEARING) \<and> ac_status a = ''active'')
     (accounts db)"

definition build_fx_card_payload ::
    "name_uuid \<Rightarrow> record_fx_card_command \<Rightarrow> db \<Rightarrow> ledger_error + journal_transaction_posted" where
  "build_fx_card_payload uuid5 command db =
     (let db_accounts = known_accounts db (xc_book_id command) (sorted_ids (fx_account_ids command));
          source = xc_source_asset_code command; target = xc_target_asset_code command;
          account = (\<lambda>i. found KeyError (find_by ac_account_id i db_accounts)) in
     rbind (require_valid (set (map ac_account_id db_accounts) = set (fx_account_ids command))) (\<lambda>_.
     rbind (account (xc_source_account_id command)) (\<lambda>source_account.
     rbind (account (xc_source_trading_account_id command)) (\<lambda>source_trading.
     rbind (account (xc_target_trading_account_id command)) (\<lambda>target_trading.
     rbind (account (xc_target_account_id command)) (\<lambda>card.
     rbind (require_valid (payment_source_ok command source_account)) (\<lambda>_.
     rbind (require_valid (payment_card_ok command card)) (\<lambda>_.
     rbind (require_valid (trading_account_ok source source_trading)) (\<lambda>_.
     rbind (require_valid (trading_account_ok target target_trading)) (\<lambda>_.
     rbind (case fee_accounts command db of [a] \<Rightarrow> Inr a | _ \<Rightarrow> Inl IdempotencyValidationError) (\<lambda>fee_account.
     rbind (mapE (active_policy db) (sorted_codes [source, target])) (\<lambda>asset_policies.
     rbind (parse_in asset_policies target (xc_target_amount command)) (\<lambda>target_units.
     rbind (parse_in asset_policies source (xc_source_amount command)) (\<lambda>source_units.
     rbind (parse_in asset_policies source (xc_fee_amount command)) (\<lambda>fee_units.
     fx_posted uuid5 command K_CREDIT_CARD_PAYMENT (db_accounts @ [fee_account])
       [(''target-card'', xc_target_account_id command, target, DEBIT, target_units),
        (''target-trading'', xc_target_trading_account_id command, target, CREDIT, target_units),
        (''source-trading'', xc_source_trading_account_id command, source, DEBIT, source_units),
        (''fee-expense'', ac_account_id fee_account, source, DEBIT, fee_units),
        (''source-user'', xc_source_account_id command, source, CREDIT, source_units + fee_units)])))))))))))))))"

section \<open>Plans\<close>

definition fx_pending ::
    "name_uuid \<Rightarrow> command_actor \<Rightarrow> ('a) record_fx_command_scheme \<Rightarrow> event_payload \<Rightarrow> pending_event" where
  "fx_pending uuid5 actor command payload =
     \<lparr>pe_event_id = fx_name uuid5 (xc_command_id command) ''event'', pe_stream_type = ''journal_transaction'',
      pe_stream_id = xc_transaction_id command, pe_payload = payload, pe_command_id = xc_command_id command,
      pe_actor_subject_id = ca_subject_id actor, pe_correlation_id = xc_command_id command,
      pe_causation_event_id = None, pe_effective_at = xc_effective_at command\<rparr>"

definition build_fx_plan ::
    "name_uuid \<Rightarrow> command_actor \<Rightarrow> record_fx_command \<Rightarrow> db \<Rightarrow> locked_book_head \<Rightarrow> ledger_error + ledger_write_plan" where
  "build_fx_plan uuid5 actor command db locked_head =
     rbind (require_valid (lk_book_id locked_head = xc_book_id command)) (\<lambda>_.
     rbind (build_fx_payload uuid5 command db) (\<lambda>payload.
     Inr (created_plan
       [((''journal_transaction'', xc_transaction_id command), xc_expected_stream_version command)]
       [fx_pending uuid5 actor command (JournalTransactionPosted payload)]
       [(''transaction_id'', juuid (xc_transaction_id command)),
        (''as_of_book_position'', JInt (lk_last_position locked_head + 1))])))"

definition fee_line :: "name_uuid \<Rightarrow> record_fx_card_command \<Rightarrow> int \<Rightarrow> reporting_line_input" where
  "fee_line uuid5 command fee_units =
     \<lparr>ri_line_id = fx_name uuid5 (xc_command_id command) ''fee-line'',
      ri_line_version_id = fx_name uuid5 (xc_command_id command) ''fee-line-version'',
      ri_catalog_id = xc_fee_category_version_id command, ri_asset_code = xc_source_asset_code command,
      ri_units = int_str fee_units, ri_line_kind = L_EXPENSE, ri_dimension = D_CATEGORY,
      ri_dimension_id = Some (xc_fee_category_id command), ri_description_ref = None\<rparr>"

definition build_fx_credit_card_payment_plan ::
    "name_uuid \<Rightarrow> command_actor \<Rightarrow> record_fx_card_command \<Rightarrow> db \<Rightarrow> locked_book_head
      \<Rightarrow> ledger_error + ledger_write_plan" where
  "build_fx_credit_card_payment_plan uuid5 actor command db locked_head =
     rbind (require_valid (lk_book_id locked_head = xc_book_id command)) (\<lambda>_.
     rbind (build_fx_card_payload uuid5 command db) (\<lambda>payload.
     let financial = fx_pending uuid5 actor command (JournalTransactionPosted payload) in
     rbind (get_category_version db (xc_book_id command) (xc_fee_category_id command)
       (xc_fee_category_version_id command)) (\<lambda>category.
     rbind (require_valid (cv_status category = ''active'' \<and> cv_usage_kind category \<in> set [''expense'', ''both''])) (\<lambda>_.
     rbind (get_asset db (xc_source_asset_code command)) (\<lambda>source_asset.
     rbind (asset_policy_of source_asset) (\<lambda>policy.
     rbind (parse_units policy (xc_fee_amount command)) (\<lambda>fee_units.
     rbind (ReportingLineInput (fee_line uuid5 command fee_units)) (\<lambda>line.
     rbind (validate_reporting_allocations [line] (tp_postings payload)
       (transaction_kind_value K_CREDIT_CARD_PAYMENT)) (\<lambda>_.
     rbind (build_reporting_lines_assigned (xc_transaction_id command) 1 [line]) (\<lambda>assigned.
     let reporting = (fx_pending uuid5 actor command assigned)
           \<lparr>pe_event_id := fx_name uuid5 (xc_command_id command) ''reporting'',
            pe_stream_type := ''reporting_lines'', pe_causation_event_id := Some (pe_event_id financial)\<rparr>
     in
     Inr (created_plan
       [((''journal_transaction'', xc_transaction_id command), xc_expected_stream_version command),
        ((''reporting_lines'', xc_transaction_id command), 0)]
       [financial, reporting]
       [(''transaction_id'', juuid (xc_transaction_id command)),
        (''as_of_book_position'', JInt (lk_last_position locked_head + 2))])))))))))))"

definition execute_record_fx ::
    "(byte list \<Rightarrow> byte list) \<Rightarrow> name_uuid \<Rightarrow> record_fx_command \<Rightarrow> string \<Rightarrow> command_actor \<Rightarrow> int
      \<Rightarrow> (nat \<Rightarrow> attempt) \<Rightarrow> db \<Rightarrow> (ledger_error + command_outcome) \<times> db" where
  "execute_record_fx sha256 uuid5 command raw_key actor max_attempts =
     execute_financial sha256 authorize_journal_write
       (plan_handler (fx_as_command command) (build_fx_plan uuid5 actor command))
       raw_key actor max_attempts (fx_as_command command)"

definition execute_record_fx_credit_card_payment ::
    "(byte list \<Rightarrow> byte list) \<Rightarrow> name_uuid \<Rightarrow> record_fx_card_command \<Rightarrow> string \<Rightarrow> command_actor \<Rightarrow> int
      \<Rightarrow> (nat \<Rightarrow> attempt) \<Rightarrow> db \<Rightarrow> (ledger_error + command_outcome) \<times> db" where
  "execute_record_fx_credit_card_payment sha256 uuid5 command raw_key actor max_attempts =
     execute_financial sha256 authorize_journal_write
       (plan_handler (fx_card_as_command command) (build_fx_credit_card_payment_plan uuid5 actor command))
       raw_key actor max_attempts (fx_card_as_command command)"

end
