(* ===== verification/Card_Commands.thy ===== *)
theory Card_Commands
  imports Reporting_Commands
begin

text \<open>
  \<open>application/credit_cards/record.py\<close>: charges, fees, payments and refunds of a credit card.
\<close>

section \<open>Commands\<close>

record credit_card_base =
  cb_book_id :: uuid
  cb_command_id :: uuid
  cb_transaction_id :: uuid
  cb_expected_stream_version :: int
  cb_card_account_id :: uuid
  cb_asset_code :: string
  cb_amount :: string
  cb_effective_at :: instant
  cb_description_ref :: "uuid option"
  cb_external_references :: "financial_external_reference list"

text \<open>The four subclasses; each adds the account, or the charge, it is about.\<close>

datatype credit_card_command =
    ChargeCreditCard credit_card_base uuid
  | FeeCreditCard credit_card_base uuid
  | PaymentCreditCard credit_card_base uuid
  | RefundCreditCard credit_card_base uuid

fun card_base :: "credit_card_command \<Rightarrow> credit_card_base" where
  "card_base (ChargeCreditCard base expense) = base"
| "card_base (FeeCreditCard base expense) = base"
| "card_base (PaymentCreditCard base source) = base"
| "card_base (RefundCreditCard base original) = base"

fun card_intent :: "credit_card_command \<Rightarrow> credit_card_intent" where
  "card_intent (ChargeCreditCard base expense) = CHARGE"
| "card_intent (FeeCreditCard base expense) = FEE"
| "card_intent (PaymentCreditCard base source) = PAYMENT"
| "card_intent (RefundCreditCard base original) = REFUND"

fun card_operation :: "credit_card_command \<Rightarrow> string" where
  "card_operation (ChargeCreditCard base expense) = ''credit_card.charge''"
| "card_operation (FeeCreditCard base expense) = ''credit_card.fee''"
| "card_operation (PaymentCreditCard base source) = ''credit_card.payment''"
| "card_operation (RefundCreditCard base original) = ''credit_card.refund''"

fun card_counter :: "credit_card_command \<Rightarrow> string \<times> uuid" where
  "card_counter (ChargeCreditCard base expense) = (''expense_account_id'', expense)"
| "card_counter (FeeCreditCard base expense) = (''expense_account_id'', expense)"
| "card_counter (PaymentCreditCard base source) = (''source_account_id'', source)"
| "card_counter (RefundCreditCard base original) = (''original_transaction_id'', original)"

definition card_base_ok :: "credit_card_base \<Rightarrow> ledger_error + unit" where
  "card_base_ok self =
     rbind (require_valid (cb_expected_stream_version self = 0)) (\<lambda>_.
     rbind (require_valid (asset_code_literal (cb_asset_code self))) (\<lambda>_.
     rbind (require_valid (positive_amount_literal (cb_amount self))) (\<lambda>_.
     require_valid (instant_literal (cb_effective_at self)))))"

definition CreditCardCommand :: "credit_card_command \<Rightarrow> ledger_error + credit_card_command" where
  "CreditCardCommand self =
     rbind (card_base_ok (card_base self)) (\<lambda>_.
     rbind (case self of RefundCreditCard base original \<Rightarrow> require_valid (original \<noteq> cb_transaction_id base)
            | _ \<Rightarrow> Inr ()) (\<lambda>_. Inr self))"

definition card_payload :: "credit_card_command \<Rightarrow> json" where
  "card_payload self = (let base = card_base self; (counter_name, counter_id) = card_counter self in jobj
     [(''amount'', jstr (cb_amount base)), (''asset_code'', jstr (cb_asset_code base)),
      (''card_account_id'', juuid (cb_card_account_id base)), (counter_name, juuid counter_id),
      (''description_ref'', jopt juuid (cb_description_ref base)),
      (''effective_at'', jinstant (cb_effective_at base)),
      (''expected_stream_version'', JInt (cb_expected_stream_version base)),
      (''external_references'', JList (map dump_external_reference (cb_external_references base))),
      (''transaction_id'', juuid (cb_transaction_id base))])"

definition card_as_command :: "credit_card_command \<Rightarrow> command" where
  "card_as_command self = \<lparr>cm_book_id = cb_book_id (card_base self), cm_command_id = cb_command_id (card_base self),
     cm_operation = card_operation self, cm_payload = card_payload self\<rparr>"

section \<open>Refunds\<close>

definition card_row :: "db \<Rightarrow> uuid \<Rightarrow> uuid \<Rightarrow> credit_card_record option" where
  "card_row db book_id transaction_id = find_by card_key (book_id, transaction_id) (credit_card_transactions db)"

definition load_refund_source :: "db \<Rightarrow> credit_card_base \<Rightarrow> uuid \<Rightarrow> ledger_error + credit_card_record" where
  "load_refund_source db base original_transaction_id =
     rbind (found CreditCardRefundSourceInvalid (card_row db (cb_book_id base) original_transaction_id)) (\<lambda>original.
     rbind (demand CreditCardRefundSourceInvalid (ct_intent original = credit_card_intent_value CHARGE)) (\<lambda>_.
     rbind (demand CreditCardRefundSourceInvalid
       (ct_card_account_id original = cb_card_account_id base \<and> ct_asset_code original = cb_asset_code base)) (\<lambda>_.
     rbind (demand CreditCardRefundSourceReversed
       (find_by reversal_target_key (cb_book_id base, original_transaction_id) (transaction_reversals db) = None)) (\<lambda>_.
     rbind (demand CreditCardRefundSourceInvalid
       (case transaction_of db (cb_book_id base) original_transaction_id of None \<Rightarrow> False
        | Some original_journal \<Rightarrow> \<not> cb_effective_at base < jt_effective_at original_journal)) (\<lambda>_.
     Inr original)))))"

text \<open>The sum over the refunds of the charge that join no reversal.\<close>

definition active_refunds :: "db \<Rightarrow> uuid \<Rightarrow> uuid \<Rightarrow> int" where
  "active_refunds db book_id original_transaction_id = sum_list (map ct_units
     (filter (\<lambda>c. ct_book_id c = book_id \<and> ct_intent c = credit_card_intent_value REFUND
          \<and> ct_original_transaction_id c = Some original_transaction_id
          \<and> \<not> list_ex (\<lambda>r. reversal_target_key r = (ct_book_id c, ct_transaction_id c)) (transaction_reversals db))
        (credit_card_transactions db)))"

definition validate_refund_capacity :: "db \<Rightarrow> uuid \<Rightarrow> uuid \<Rightarrow> int \<Rightarrow> ledger_error + unit" where
  "validate_refund_capacity db book_id original_transaction_id requested_units =
     rbind (found CreditCardRefundSourceInvalid (card_row db book_id original_transaction_id)) (\<lambda>original.
     demand CreditCardRefundExceeded
       (\<not> ct_units original < active_refunds db book_id original_transaction_id + requested_units))"

section \<open>The payload\<close>

fun expected_counter_type :: "credit_card_intent \<Rightarrow> account_type" where
  "expected_counter_type PAYMENT = T_ASSET"
| "expected_counter_type _ = T_EXPENSE"

text \<open>The account on the other side, and the charge a refund is of.\<close>

definition counter_account :: "db \<Rightarrow> credit_card_command \<Rightarrow> ledger_error + account_record \<times> uuid option" where
  "counter_account db command = (let base = card_base command; book_id = cb_book_id base in
     (case command of
        RefundCreditCard _ original_id \<Rightarrow>
          rbind (load_refund_source db base original_id) (\<lambda>original.
          rbind (get_account db book_id (ct_counter_account_id original)) (\<lambda>counter. Inr (counter, Some original_id)))
      | _ \<Rightarrow> rbind (get_account db book_id (snd (card_counter command))) (\<lambda>counter. Inr (counter, None))))"

definition card_draft ::
    "name_uuid \<Rightarrow> credit_card_base \<Rightarrow> int \<Rightarrow> nat \<times> uuid \<times> posting_side \<Rightarrow> posting_draft" where
  "card_draft uuid5 base units entry = (case entry of (position, account_id, side) \<Rightarrow>
     \<lparr>pd_posting_id = uuid_str (uuid5 (event_namespace uuid5 ''credit-card.record'')
        (uuid_str (cb_transaction_id base) @ '':posting:'' @ nat_str position)), pd_position = int position,
      pd_account_id = uuid_str account_id, pd_asset_code = cb_asset_code base, pd_side = side, pd_units = units\<rparr>)"

definition card_legs :: "credit_card_intent \<Rightarrow> uuid \<Rightarrow> uuid \<Rightarrow> (uuid \<times> posting_side) list" where
  "card_legs intent card_id counter =
     (if intent \<in> {CHARGE, FEE} then [(counter, DEBIT), (card_id, CREDIT)] else [(card_id, DEBIT), (counter, CREDIT)])"

definition build_card_payload :: "name_uuid \<Rightarrow> credit_card_command \<Rightarrow> db \<Rightarrow> ledger_error + event_payload" where
  "build_card_payload uuid5 command db =
     (let base = card_base command; book_id = cb_book_id base in
     rbind (get_account db book_id (cb_card_account_id base)) (\<lambda>card.
     rbind (demand CreditCardAccountInvalid (ac_account_type card = account_type_value T_LIABILITY
        \<and> ac_account_subtype card = Some ''credit_card'')) (\<lambda>_.
     rbind (counter_account db command) (\<lambda>(counter, original_transaction_id).
     rbind (require_standard_accounts [card, counter]) (\<lambda>_.
     rbind (demand CreditCardAccountInvalid
       (ac_account_type counter = account_type_value (expected_counter_type (card_intent command)))) (\<lambda>_.
     rbind (demand CreditCardAccountInvalid
       (ac_asset_code card = cb_asset_code base \<and> ac_asset_code counter = cb_asset_code base)) (\<lambda>_.
     rbind (get_asset db (cb_asset_code base)) (\<lambda>asset.
     rbind (demand CreditCardAccountInvalid (sa_status asset = ''active'')) (\<lambda>_.
     rbind (asset_policy_of asset) (\<lambda>policy.
     rbind (parse_units policy (cb_amount base)) (\<lambda>units.
     rbind (case command of
              RefundCreditCard _ original_id \<Rightarrow> validate_refund_capacity db book_id original_id units
            | _ \<Rightarrow> Inr ()) (\<lambda>_.
     let posting_drafts = map (card_draft uuid5 base units)
           (enumerate 0 (card_legs (card_intent command) (ac_account_id card) (ac_account_id counter))) in
     rbind (mapE domain_account [card, counter]) (\<lambda>domain_accounts.
     rbind (rejects JournalRejected (validate
              \<lparr>pt_transaction_id = uuid_str (cb_transaction_id base), pt_book_id = uuid_str book_id,
               pt_kind = K_STANDARD, pt_postings = posting_drafts\<rparr> domain_accounts)) (\<lambda>_.
     rbind (mapE posting_fact posting_drafts) (\<lambda>facts.
     contract (CreditCardTransactionRecorded
       \<lparr>cc_intent = card_intent command, cc_transaction_id = cb_transaction_id base,
        cc_card_account_id = ac_account_id card, cc_counter_account_id = ac_account_id counter,
        cc_original_transaction_id = original_transaction_id, cc_postings = facts,
        cc_description_ref = cb_description_ref base, cc_external_references = cb_external_references base\<rparr>))))))))))))))))"

definition build_card_plan ::
    "name_uuid \<Rightarrow> command_actor \<Rightarrow> credit_card_command \<Rightarrow> db \<Rightarrow> locked_book_head \<Rightarrow> ledger_error + ledger_write_plan" where
  "build_card_plan uuid5 actor command db locked_head =
     (let base = card_base command in
     rbind (require_valid (lk_book_id locked_head = cb_book_id base)) (\<lambda>_.
     rbind (build_card_payload uuid5 command db) (\<lambda>payload.
     Inr (created_plan
       [((''journal_transaction'', cb_transaction_id base), cb_expected_stream_version base)]
       [\<lparr>pe_event_id = uuid5 (event_namespace uuid5 ''credit-card.record'') (uuid_str (cb_command_id base)),
         pe_stream_type = ''journal_transaction'', pe_stream_id = cb_transaction_id base, pe_payload = payload,
         pe_command_id = cb_command_id base, pe_actor_subject_id = ca_subject_id actor,
         pe_correlation_id = cb_command_id base, pe_causation_event_id = None,
         pe_effective_at = cb_effective_at base\<rparr>]
       [(''transaction_id'', juuid (cb_transaction_id base)),
        (''intent'', jstr (credit_card_intent_value (card_intent command))),
        (''as_of_book_position'', JInt (lk_last_position locked_head + 1))]))))"

definition execute_credit_card ::
    "(byte list \<Rightarrow> byte list) \<Rightarrow> name_uuid \<Rightarrow> credit_card_command \<Rightarrow> string \<Rightarrow> command_actor \<Rightarrow> int
      \<Rightarrow> (nat \<Rightarrow> attempt) \<Rightarrow> db \<Rightarrow> (ledger_error + command_outcome) \<times> db" where
  "execute_credit_card sha256 uuid5 command raw_key actor max_attempts =
     execute_financial sha256 authorize_journal_write
       (plan_handler (card_as_command command) (build_card_plan uuid5 actor command))
       raw_key actor max_attempts (card_as_command command)"

end
