(* ===== verification/Lot_Commands.thy ===== *)
theory Lot_Commands
  imports Reporting_Commands
begin

text \<open>
  \<open>application/investments/acquire_lot.py\<close> and \<open>dispose_lot.py\<close>: recording a lot, and disposing of lots
  by replaying the Book's investment events and asking the allocator for a plan.
\<close>

section \<open>Acquiring a lot\<close>

record acquire_lot_command =
  qa_book_id :: uuid
  qa_command_id :: uuid
  qa_transaction_id :: uuid
  qa_lot_id :: uuid
  qa_instrument_asset_code :: string
  qa_settlement_asset_code :: string
  qa_quantity_units :: string
  qa_cost_units :: string
  qa_effective_at :: instant
  qa_fee_units :: "string option"
  qa_expected_stream_version :: int

definition validate_asset_pair :: "string \<Rightarrow> string \<Rightarrow> ledger_error + unit" where
  "validate_asset_pair instrument settlement =
     rbind (require_valid (asset_code_literal instrument)) (\<lambda>_.
     rbind (require_valid (asset_code_literal settlement)) (\<lambda>_.
     require_valid (instrument \<noteq> settlement)))"

definition validate_units :: "string \<Rightarrow> ledger_error + unit" where
  "validate_units value = require_valid (CanonicalUnits value)"

definition AcquireLotCommand :: "acquire_lot_command \<Rightarrow> ledger_error + acquire_lot_command" where
  "AcquireLotCommand self =
     rbind (validate_asset_pair (qa_instrument_asset_code self) (qa_settlement_asset_code self)) (\<lambda>_.
     rbind (validate_units (qa_quantity_units self)) (\<lambda>_.
     rbind (validate_units (qa_cost_units self)) (\<lambda>_.
     rbind (case qa_fee_units self of None \<Rightarrow> Inr () | Some fee \<Rightarrow> validate_units fee) (\<lambda>_.
     rbind (require_valid (qa_expected_stream_version self = 0)) (\<lambda>_.
     rbind (require_valid (instant_literal (qa_effective_at self))) (\<lambda>_. Inr self))))))"

definition acquire_payload :: "acquire_lot_command \<Rightarrow> json" where
  "acquire_payload self = jobj
     [(''cost_units'', jstr (qa_cost_units self)), (''effective_at'', jinstant (qa_effective_at self)),
      (''expected_stream_version'', JInt (qa_expected_stream_version self)),
      (''fee_units'', jopt jstr (qa_fee_units self)),
      (''instrument_asset_code'', jstr (qa_instrument_asset_code self)), (''lot_id'', juuid (qa_lot_id self)),
      (''quantity_units'', jstr (qa_quantity_units self)),
      (''settlement_asset_code'', jstr (qa_settlement_asset_code self)),
      (''transaction_id'', juuid (qa_transaction_id self))]"

definition acquire_as_command :: "acquire_lot_command \<Rightarrow> command" where
  "acquire_as_command self = \<lparr>cm_book_id = qa_book_id self, cm_command_id = qa_command_id self,
     cm_operation = ''investments.lot.acquire'', cm_payload = acquire_payload self\<rparr>"

definition load_linked_transaction :: "db \<Rightarrow> uuid \<Rightarrow> uuid \<Rightarrow> ledger_error + journal_transaction_record" where
  "load_linked_transaction db book_id transaction_id =
     found TransactionNotFound (transaction_of db book_id transaction_id)"

definition validate_assets :: "db \<Rightarrow> string \<Rightarrow> string \<Rightarrow> ledger_error + unit" where
  "validate_assets db instrument settlement =
     checkE (\<lambda>asset_code. rbind (get_asset db asset_code) (\<lambda>asset.
       demand PlainValueError (sa_status asset = ''active''))) [instrument, settlement]"

definition lot_pending ::
    "name_uuid \<Rightarrow> command_actor \<Rightarrow> string \<Rightarrow> string \<Rightarrow> uuid \<Rightarrow> uuid \<Rightarrow> event_payload \<Rightarrow> uuid \<Rightarrow> instant \<Rightarrow> pending_event" where
  "lot_pending uuid5 actor namespace stream_type stream_id command_id payload causation effective_at =
     \<lparr>pe_event_id = uuid5 (event_namespace uuid5 namespace) (uuid_str command_id), pe_stream_type = stream_type,
      pe_stream_id = stream_id, pe_payload = payload, pe_command_id = command_id,
      pe_actor_subject_id = ca_subject_id actor, pe_correlation_id = command_id,
      pe_causation_event_id = Some causation, pe_effective_at = effective_at\<rparr>"

definition build_acquire_plan ::
    "name_uuid \<Rightarrow> command_actor \<Rightarrow> acquire_lot_command \<Rightarrow> db \<Rightarrow> locked_book_head \<Rightarrow> ledger_error + ledger_write_plan" where
  "build_acquire_plan uuid5 actor command db locked_head =
     rbind (require_valid (lk_book_id locked_head = qa_book_id command)) (\<lambda>_.
     rbind (load_linked_transaction db (qa_book_id command) (qa_transaction_id command)) (\<lambda>transaction.
     rbind (validate_assets db (qa_instrument_asset_code command) (qa_settlement_asset_code command)) (\<lambda>_.
     rbind (contract (InvestmentLotAcquired
       \<lparr>ia_transaction_id = qa_transaction_id command, ia_lot_id = qa_lot_id command,
        ia_instrument_asset_code = qa_instrument_asset_code command,
        ia_settlement_asset_code = qa_settlement_asset_code command,
        ia_quantity_units = qa_quantity_units command, ia_cost_units = qa_cost_units command,
        ia_fee_units = qa_fee_units command\<rparr>)) (\<lambda>payload.
     Inr (created_plan [((''investment_lot'', qa_lot_id command), qa_expected_stream_version command)]
       [lot_pending uuid5 actor ''investment-lot.acquire'' ''investment_lot'' (qa_lot_id command)
          (qa_command_id command) payload (jt_source_event_id transaction) (qa_effective_at command)]
       [(''transaction_id'', juuid (qa_transaction_id command)), (''lot_id'', juuid (qa_lot_id command)),
        (''as_of_book_position'', JInt (lk_last_position locked_head + 1))])))))"

definition execute_acquire_lot ::
    "(byte list \<Rightarrow> byte list) \<Rightarrow> name_uuid \<Rightarrow> acquire_lot_command \<Rightarrow> string \<Rightarrow> command_actor \<Rightarrow> int
      \<Rightarrow> (nat \<Rightarrow> attempt) \<Rightarrow> db \<Rightarrow> (ledger_error + command_outcome) \<times> db" where
  "execute_acquire_lot sha256 uuid5 command raw_key actor max_attempts =
     execute_financial sha256 authorize_journal_write
       (plan_handler (acquire_as_command command) (build_acquire_plan uuid5 actor command))
       raw_key actor max_attempts (acquire_as_command command)"

section \<open>Disposing of lots\<close>

record dispose_lot_command =
  qd_book_id :: uuid
  qd_command_id :: uuid
  qd_transaction_id :: uuid
  qd_instrument_asset_code :: string
  qd_settlement_asset_code :: string
  qd_quantity_units :: string
  qd_proceeds_units :: string
  qd_allocation_method :: allocation_method
  qd_effective_at :: instant
  qd_fee_units :: "string option"
  qd_specific_lots :: "specific_lot_request list"
  qd_expected_stream_version :: int

definition DisposeLotCommand :: "dispose_lot_command \<Rightarrow> ledger_error + dispose_lot_command" where
  "DisposeLotCommand self =
     rbind (validate_asset_pair (qd_instrument_asset_code self) (qd_settlement_asset_code self)) (\<lambda>_.
     rbind (validate_units (qd_quantity_units self)) (\<lambda>_.
     rbind (validate_units (qd_proceeds_units self)) (\<lambda>_.
     rbind (case qd_fee_units self of None \<Rightarrow> Inr () | Some fee \<Rightarrow> validate_units fee) (\<lambda>_.
     rbind (require_valid (\<not> (qd_allocation_method self = FIFO \<and> qd_specific_lots self \<noteq> []
        \<or> qd_allocation_method self = SPECIFIC_ID \<and> qd_specific_lots self = []))) (\<lambda>_.
     rbind (require_valid (qd_expected_stream_version self = 0)) (\<lambda>_.
     rbind (require_valid (instant_literal (qd_effective_at self))) (\<lambda>_. Inr self)))))))"

fun allocation_method_value :: "allocation_method \<Rightarrow> string" where
  "allocation_method_value FIFO = ''fifo''"
| "allocation_method_value SPECIFIC_ID = ''specific_id''"

definition dispose_payload :: "dispose_lot_command \<Rightarrow> json" where
  "dispose_payload self = jobj
     [(''allocation_method'', jstr (allocation_method_value (qd_allocation_method self))),
      (''effective_at'', jinstant (qd_effective_at self)),
      (''expected_stream_version'', JInt (qd_expected_stream_version self)),
      (''fee_units'', jopt jstr (qd_fee_units self)),
      (''instrument_asset_code'', jstr (qd_instrument_asset_code self)),
      (''proceeds_units'', jstr (qd_proceeds_units self)), (''quantity_units'', jstr (qd_quantity_units self)),
      (''settlement_asset_code'', jstr (qd_settlement_asset_code self)),
      (''specific_lots'', JList (map (\<lambda>request. jobj
         [(''lot_id'', juuid (sr_lot_id request)), (''quantity_units'', JInt (sr_quantity_units request))])
         (qd_specific_lots self))),
      (''transaction_id'', juuid (qd_transaction_id self))]"

definition dispose_as_command :: "dispose_lot_command \<Rightarrow> command" where
  "dispose_as_command self = \<lparr>cm_book_id = qd_book_id self, cm_command_id = qd_command_id self,
     cm_operation = ''investments.lot.dispose'', cm_payload = dispose_payload self\<rparr>"

definition stored_investment_event :: "ledger_event_record \<Rightarrow> ledger_error + investment_event" where
  "stored_investment_event stored =
     rbind (raise_as StoredPayloadError (validate_stored (le_event_type stored) (le_event_schema_version stored)
       (le_payload stored))) (\<lambda>payload.
     rbind (case payload of
              InvestmentLotAcquired p \<Rightarrow> Inr (Acquired p)
            | InvestmentLotDisposed p \<Rightarrow> Inr (Disposed p)
            | _ \<Rightarrow> fail InvalidStoredContract) (\<lambda>event.
     rejects LotRejected (InvestmentEvent \<lparr>ie_source_position = le_book_position stored,
       ie_effective_at = le_effective_at stored, ie_payload = event\<rparr>)))"

definition load_investment_events :: "db \<Rightarrow> uuid \<Rightarrow> ledger_error + investment_event list" where
  "load_investment_events db book_id =
     mapE stored_investment_event (sort_key le_book_position (filter (\<lambda>e. le_book_id e = book_id
       \<and> le_event_type e \<in> set [''InvestmentLotAcquired'', ''InvestmentLotDisposed'']) (ledger_events db)))"

definition build_dispose_plan ::
    "name_uuid \<Rightarrow> command_actor \<Rightarrow> dispose_lot_command \<Rightarrow> db \<Rightarrow> locked_book_head \<Rightarrow> ledger_error + ledger_write_plan" where
  "build_dispose_plan uuid5 actor command db locked_head =
     rbind (require_valid (lk_book_id locked_head = qd_book_id command)) (\<lambda>_.
     rbind (load_linked_transaction db (qd_book_id command) (qd_transaction_id command)) (\<lambda>transaction.
     rbind (validate_assets db (qd_instrument_asset_code command) (qd_settlement_asset_code command)) (\<lambda>_.
     rbind (load_investment_events db (qd_book_id command)) (\<lambda>events.
     rbind (rejects LotRejected (reduce_investment_events events)) (\<lambda>state.
     rbind (rejects LotRejected (select_lot_allocations uuid5 state (qd_instrument_asset_code command)
       (qd_settlement_asset_code command) (units_value (qd_quantity_units command))
       (qd_allocation_method command) (qd_command_id command) (qd_specific_lots command))) (\<lambda>allocations.
     let cost_basis_units = sum_list (map (\<lambda>item. units_value (ld_cost_units item)) allocations) in
     rbind (contract (InvestmentLotDisposed
       \<lparr>id_transaction_id = qd_transaction_id command,
        id_instrument_asset_code = qd_instrument_asset_code command,
        id_settlement_asset_code = qd_settlement_asset_code command,
        id_quantity_units = qd_quantity_units command, id_proceeds_units = qd_proceeds_units command,
        id_cost_basis_units = int_str cost_basis_units, id_fee_units = qd_fee_units command,
        id_allocations = allocations\<rparr>)) (\<lambda>payload.
     Inr (created_plan [((''investment_disposal'', qd_transaction_id command), qd_expected_stream_version command)]
       [lot_pending uuid5 actor ''investment-lot.dispose'' ''investment_disposal'' (qd_transaction_id command)
          (qd_command_id command) payload (jt_source_event_id transaction) (qd_effective_at command)]
       [(''transaction_id'', juuid (qd_transaction_id command)), (''quantity_units'', jstr (qd_quantity_units command)),
        (''cost_basis_units'', jstr (int_str cost_basis_units)),
        (''as_of_book_position'', JInt (lk_last_position locked_head + 1))]))))))))"

definition execute_dispose_lot ::
    "(byte list \<Rightarrow> byte list) \<Rightarrow> name_uuid \<Rightarrow> dispose_lot_command \<Rightarrow> string \<Rightarrow> command_actor \<Rightarrow> int
      \<Rightarrow> (nat \<Rightarrow> attempt) \<Rightarrow> db \<Rightarrow> (ledger_error + command_outcome) \<times> db" where
  "execute_dispose_lot sha256 uuid5 command raw_key actor max_attempts =
     execute_financial sha256 authorize_journal_write
       (plan_handler (dispose_as_command command) (build_dispose_plan uuid5 actor command))
       raw_key actor max_attempts (dispose_as_command command)"

end
