(* ===== verification/Command_Plans.thy ===== *)
theory Command_Plans
  imports Command_Safety Fx_Commands Card_Commands Lot_Commands
begin

text \<open>
  All financial commands as one type, the plan each builds, and what every plan has in common: it fits
  the contracts of the event store and of the bus, and building it reads the database only.
\<close>

section \<open>Requests\<close>

datatype request =
    PostRequest post_transaction_command
  | SimpleRequest simple_command
  | AdjustmentRequest record_adjustment_command
  | ReverseRequest reverse_transaction_command
  | CorrectRequest correct_transaction_command
  | FxRequest record_fx_command
  | FxCardRequest record_fx_card_command
  | CardRequest credit_card_command
  | AssignRequest assign_reporting_lines_command
  | ClearRequest clear_reporting_lines_command
  | ReferenceRequest correct_external_reference_command
  | AcquireRequest acquire_lot_command
  | DisposeRequest dispose_lot_command

fun request_command :: "request \<Rightarrow> command" where
  "request_command (PostRequest c) = post_command c"
| "request_command (SimpleRequest c) = simple_as_command c"
| "request_command (AdjustmentRequest c) = adjustment_as_command c"
| "request_command (ReverseRequest c) = reverse_as_command c"
| "request_command (CorrectRequest c) = correct_as_command c"
| "request_command (FxRequest c) = fx_as_command c"
| "request_command (FxCardRequest c) = fx_card_as_command c"
| "request_command (CardRequest c) = card_as_command c"
| "request_command (AssignRequest c) = assign_as_command c"
| "request_command (ClearRequest c) = clear_as_command c"
| "request_command (ReferenceRequest c) = reference_as_command c"
| "request_command (AcquireRequest c) = acquire_as_command c"
| "request_command (DisposeRequest c) = dispose_as_command c"

fun build_plan :: "name_uuid \<Rightarrow> command_actor \<Rightarrow> request \<Rightarrow> db \<Rightarrow> locked_book_head \<Rightarrow> ledger_error + ledger_write_plan" where
  "build_plan uuid5 actor (PostRequest c) = build_post_transaction_plan uuid5 actor False c"
| "build_plan uuid5 actor (SimpleRequest c) = build_simple_plan uuid5 actor c"
| "build_plan uuid5 actor (AdjustmentRequest c) = build_adjustment_plan uuid5 actor c"
| "build_plan uuid5 actor (ReverseRequest c) = build_reverse_plan uuid5 actor c"
| "build_plan uuid5 actor (CorrectRequest c) = build_correction_plan uuid5 actor c"
| "build_plan uuid5 actor (FxRequest c) = build_fx_plan uuid5 actor c"
| "build_plan uuid5 actor (FxCardRequest c) = build_fx_credit_card_payment_plan uuid5 actor c"
| "build_plan uuid5 actor (CardRequest c) = build_card_plan uuid5 actor c"
| "build_plan uuid5 actor (AssignRequest c) = build_assign_plan uuid5 actor c"
| "build_plan uuid5 actor (ClearRequest c) = build_clear_plan uuid5 actor c"
| "build_plan uuid5 actor (ReferenceRequest c) = build_reference_plan uuid5 actor c"
| "build_plan uuid5 actor (AcquireRequest c) = build_acquire_plan uuid5 actor c"
| "build_plan uuid5 actor (DisposeRequest c) = build_dispose_plan uuid5 actor c"

text \<open>A request whose command passed its own constructor.\<close>

fun constructed :: "request \<Rightarrow> bool" where
  "constructed (PostRequest c) \<longleftrightarrow> PostTransactionCommand c = Inr c"
| "constructed (SimpleRequest c) \<longleftrightarrow> SimpleCommand c = Inr c"
| "constructed (AdjustmentRequest c) \<longleftrightarrow> RecordAdjustmentCommand c = Inr c"
| "constructed (ReverseRequest c) \<longleftrightarrow> ReverseTransactionCommand c = Inr c"
| "constructed (CorrectRequest c) \<longleftrightarrow> CorrectTransactionCommand c = Inr c \<and> CorrectionReplacement (kt_replacement c) = Inr (kt_replacement c)"
| "constructed (FxRequest c) \<longleftrightarrow> RecordFxCommand c = Inr c"
| "constructed (FxCardRequest c) \<longleftrightarrow> RecordFxCreditCardPaymentCommand c = Inr c"
| "constructed (CardRequest c) \<longleftrightarrow> CreditCardCommand c = Inr c"
| "constructed (AssignRequest c) \<longleftrightarrow> AssignReportingLinesCommand c = Inr c"
| "constructed (ClearRequest c) \<longleftrightarrow> ClearReportingLinesCommand c = Inr c"
| "constructed (ReferenceRequest c) \<longleftrightarrow> CorrectExternalReferenceCommand c = Inr c"
| "constructed (AcquireRequest c) \<longleftrightarrow> AcquireLotCommand c = Inr c"
| "constructed (DisposeRequest c) \<longleftrightarrow> DisposeLotCommand c = Inr c"

definition run_request ::
    "(byte list \<Rightarrow> byte list) \<Rightarrow> name_uuid \<Rightarrow> request \<Rightarrow> string \<Rightarrow> command_actor \<Rightarrow> int \<Rightarrow> (nat \<Rightarrow> attempt) \<Rightarrow> db
      \<Rightarrow> (ledger_error + command_outcome) \<times> db" where
  "run_request sha256 uuid5 request raw_key actor max_attempts =
     execute_financial sha256 authorize_journal_write
       (plan_handler (request_command request) (build_plan uuid5 actor request))
       raw_key actor max_attempts (request_command request)"

lemma run_request_is_execute:
  "run_request sha256 uuid5 (PostRequest c1) = execute_post_transaction sha256 uuid5 c1"
  "run_request sha256 uuid5 (SimpleRequest c2) = execute_simple sha256 uuid5 c2"
  "run_request sha256 uuid5 (AdjustmentRequest c3) = execute_record_adjustment sha256 uuid5 c3"
  "run_request sha256 uuid5 (ReverseRequest c4) = execute_reverse_transaction sha256 uuid5 c4"
  "run_request sha256 uuid5 (CorrectRequest c5) = execute_correct_transaction sha256 uuid5 c5"
  "run_request sha256 uuid5 (FxRequest c6) = execute_record_fx sha256 uuid5 c6"
  "run_request sha256 uuid5 (FxCardRequest c7) = execute_record_fx_credit_card_payment sha256 uuid5 c7"
  "run_request sha256 uuid5 (CardRequest c8) = execute_credit_card sha256 uuid5 c8"
  "run_request sha256 uuid5 (AssignRequest c9) = execute_assign_reporting_lines sha256 uuid5 c9"
  "run_request sha256 uuid5 (ClearRequest c10) = execute_clear_reporting_lines sha256 uuid5 c10"
  "run_request sha256 uuid5 (ReferenceRequest c11) = execute_correct_external_reference sha256 uuid5 c11"
  "run_request sha256 uuid5 (AcquireRequest c12) = execute_acquire_lot sha256 uuid5 c12"
  "run_request sha256 uuid5 (DisposeRequest c13) = execute_dispose_lot sha256 uuid5 c13"
  unfolding run_request_def request_command.simps build_plan.simps execute_post_transaction_def execute_simple_def
    execute_record_adjustment_def execute_reverse_transaction_def execute_correct_transaction_def execute_record_fx_def
    execute_record_fx_credit_card_payment_def execute_credit_card_def execute_assign_reporting_lines_def
    execute_clear_reporting_lines_def execute_correct_external_reference_def execute_acquire_lot_def execute_dispose_lot_def
  by (rule refl)+

section \<open>Plans are well typed\<close>

text \<open>The stream an event belongs to, by the class of its payload; the projector asks for the same.\<close>

fun stream_of_payload :: "event_payload \<Rightarrow> stream_key" where
  "stream_of_payload (JournalTransactionPosted p) = (''journal_transaction'', tp_transaction_id p)"
| "stream_of_payload (JournalTransactionReversed p) = (''journal_transaction'', tr_reversal_transaction_id p)"
| "stream_of_payload (CreditCardTransactionRecorded p) = (''journal_transaction'', cc_transaction_id p)"
| "stream_of_payload (FinancialExternalReferenceCorrected p) = (''external_reference'', rc_transaction_id p)"
| "stream_of_payload (ReportingLinesAssigned p) = (''reporting_lines'', la_transaction_id p)"
| "stream_of_payload (ReportingLinesCleared p) = (''reporting_lines'', lc_transaction_id p)"
| "stream_of_payload (InvestmentLotAcquired p) = (''investment_lot'', ia_lot_id p)"
| "stream_of_payload (InvestmentLotDisposed p) = (''investment_disposal'', id_transaction_id p)"

definition typed_event :: "uuid \<Rightarrow> command_actor \<Rightarrow> pending_event \<Rightarrow> bool" where
  "typed_event command_id actor e \<longleftrightarrow> pe_command_id e = command_id \<and> pe_correlation_id e = command_id
     \<and> pe_actor_subject_id e = ca_subject_id actor \<and> stream_key e = stream_of_payload (pe_payload e)
     \<and> validate_payload (pe_payload e) = Inr ()"

definition typed_plan :: "uuid \<Rightarrow> command_actor \<Rightarrow> ledger_write_plan \<Rightarrow> bool" where
  "typed_plan command_id actor plan \<longleftrightarrow>
     validate_batch (lp_expected_stream_versions plan) (lp_events plan) = Inr ()
     \<and> distinct (map stream_key (lp_events plan)) \<and> list_all (typed_event command_id actor) (lp_events plan)
     \<and> is_container (lp_body plan) \<and> lp_response_schema_version plan = 1 \<and> lp_status_code plan = 201
     \<and> lp_post_projection_finalizer plan = None"

lemma typed_created_plan:
  "typed_plan command_id actor (created_plan expected events body) \<longleftrightarrow>
     events \<noteq> [] \<and> (\<forall>(key, version)\<in>set expected. 0 \<le> version) \<and> fst ` set expected = stream_key ` set events
     \<and> distinct (map stream_key events) \<and> list_all (typed_event command_id actor) events"
  by (auto simp: typed_plan_def created_plan_def validate_batch_def checks_Inr_iff list_all_iff is_container_def jobj_def)

lemma build_posted_payload_Inr:
  assumes "build_posted_payload allow c db = Inr p"
  shows "tp_transaction_id p = pc_transaction_id c" "tp_kind p = pc_kind c" "validate_posted p = Inr ()"
  using assms by (auto simp: build_posted_payload_def Let_def result_simps)

lemma fx_posted_Inr:
  assumes "fx_posted uuid5 c kind rows legs = Inr p"
  shows "tp_transaction_id p = xc_transaction_id c" "tp_kind p = kind" "validate_posted p = Inr ()"
  using assms by (auto simp: fx_posted_def Let_def result_simps)

lemmas typed_simps = typed_created_plan typed_event_def stream_key_def build_posted_pending_def fx_pending_def
  annotation_pending_def lot_pending_def

lemma post_plan_typed:
  assumes "build_post_transaction_plan uuid5 actor allow c db h = Inr plan" "0 \<le> pc_expected_stream_version c"
  shows "lk_book_id h = pc_book_id c \<and> typed_plan (pc_command_id c) actor plan"
  using assms build_posted_payload_Inr
  by (auto simp: build_post_transaction_plan_def result_simps typed_simps)

lemma simple_journal_command_Inr:
  assumes "simple_journal_command uuid5 c db = Inr j"
  shows "pc_book_id j = sm_book_id (simple_base c)" "pc_command_id j = sm_command_id (simple_base c)"
    "0 \<le> pc_expected_stream_version j"
  using assms
  by (auto simp: simple_journal_command_def Let_def result_simps PostTransactionCommand_def split: prod.splits)

definition adjustment_posting ::
    "name_uuid \<Rightarrow> record_adjustment_command \<Rightarrow> string \<Rightarrow> string \<Rightarrow> uuid \<Rightarrow> posting_side \<Rightarrow> post_transaction_posting" where
  "adjustment_posting uuid5 c amount name account_id side =
     \<lparr>pp_posting_id = adjustment_posting_id uuid5 (aj_command_id c) name, pp_account_id = account_id,
      pp_asset_code = aj_asset_code c, pp_side = side, pp_amount = amount\<rparr>"

lemma rbindE: "rbind r f = Inr b \<Longrightarrow> (\<And>a. r = Inr a \<Longrightarrow> f a = Inr b \<Longrightarrow> P) \<Longrightarrow> P"
  by (auto simp: rbind_eq_Inr)

lemma PostTransactionPosting_Inr [result_simps]:
  "PostTransactionPosting p = Inr q \<longleftrightarrow> q = p \<and> asset_code_literal (pp_asset_code p) \<and> AMOUNT_PATTERN (pp_amount p)"
  by (auto simp: PostTransactionPosting_def result_simps)

lemma PostTransactionCommand_Inr [result_simps]:
  "PostTransactionCommand c = Inr d \<longleftrightarrow> d = c \<and> 0 \<le> pc_expected_stream_version c \<and> pc_kind c \<in> GENERAL_JOURNAL_KINDS
     \<and> 2 \<le> length (pc_postings c) \<and> instant_literal (pc_effective_at c)"
  by (auto simp: PostTransactionCommand_def result_simps)

lemma adjustment_journal_command_Inr:
  assumes "adjustment_journal_command uuid5 c db h = Inr j"
  obtains account asset policy expected actual current other scaled ids where
    "lk_book_id h = aj_book_id c" "get_account db (aj_book_id c) (aj_account_id c) = Inr account"
    "reconcilable c account = Inr ()" "get_asset db (aj_asset_code c) = Inr asset" "sa_status asset = ''active''"
    "asset_policy_of asset = Inr policy" "parse_non_negative_balance (aj_expected_balance c) policy = Inr expected"
    "parse_non_negative_balance (aj_actual_balance c) policy = Inr actual"
    "current_accounting_units c db = Inr current"
    "expected = (if is_asset_account account then current else - current)" "0 \<le> expected" "actual \<noteq> expected"
    "adjustment_account c db = Inr other" "ScaledUnits \<bar>actual - expected\<bar> (sa_ledger_scale asset) = Inr scaled"
    "ids = (if (0 < actual - expected) = is_asset_account account then (aj_account_id c, ac_account_id other)
            else (ac_account_id other, aj_account_id c))"
    "j = \<lparr>pc_book_id = aj_book_id c, pc_command_id = aj_command_id c, pc_transaction_id = aj_transaction_id c,
        pc_expected_stream_version = aj_expected_stream_version c, pc_kind = K_ADJUSTMENT,
        pc_postings = [adjustment_posting uuid5 c (decode scaled) ''debit'' (fst ids) DEBIT,
          adjustment_posting uuid5 c (decode scaled) ''credit'' (snd ids) CREDIT],
        pc_effective_at = aj_effective_at c, pc_description_ref = None, pc_external_references = []\<rparr>"
    "0 \<le> aj_expected_stream_version c"
proof -
  from assms show thesis
    unfolding adjustment_journal_command_def Let_def split_beta
    apply (elim rbindE)
    subgoal premises prems for u1 account u2 asset u3 policy expected actual current u4 u5 u6 other scaled debit credit
      by (rule that [of account asset policy expected actual current other scaled
            "if (0 < actual - expected) = is_asset_account account then (aj_account_id c, ac_account_id other)
              else (ac_account_id other, aj_account_id c)"])
        (use prems in \<open>simp_all add: result_simps
           adjustment_posting_def\<close>)
    done
qed

lemma adjustment_journal_shape:
  assumes "adjustment_journal_command uuid5 c db h = Inr j"
  shows "pc_book_id j = aj_book_id c \<and> pc_command_id j = aj_command_id c \<and> 0 \<le> pc_expected_stream_version j"
  using assms by (rule adjustment_journal_command_Inr) simp

lemma build_reversal_pending_Inr:
  assumes "build_reversal_pending uuid5 actor cid t reason at ref source eid = Inr e"
  shows "typed_event cid actor e" "stream_key e = (''journal_transaction'', t)"
    "pe_payload e = JournalTransactionReversed (reversal_payload_of uuid5 t reason ref source)"
  using assms
  by (auto simp: build_reversal_pending_def result_simps typed_event_def stream_key_def reversal_payload_of_def)

lemma reverse_plan_typed:
  assumes "build_reverse_plan uuid5 actor c db h = Inr plan" "0 \<le> rt_expected_stream_version c"
  shows "lk_book_id h = rt_book_id c \<and> typed_plan (rt_command_id c) actor plan"
  using assms build_reversal_pending_Inr
  by (fastforce simp: build_reverse_plan_def Let_def result_simps typed_created_plan)

lemma build_reporting_lines_assigned_Inr:
  assumes "build_reporting_lines_assigned t n lines = Inr p"
  shows "validate_payload p = Inr ()" "stream_of_payload p = (''reporting_lines'', t)"
  using assms by (auto simp: build_reporting_lines_assigned_def result_simps)

lemma build_fx_payload_Inr:
  assumes "build_fx_payload uuid5 c db = Inr p"
  shows "tp_transaction_id p = xc_transaction_id c \<and> validate_posted p = Inr ()"
proof -
  obtain kind rows legs where "fx_posted uuid5 c kind rows legs = Inr p"
    using assms by (auto simp: build_fx_payload_def Let_def result_simps split: prod.splits)
  then show ?thesis using fx_posted_Inr by blast
qed

lemma build_fx_card_payload_Inr:
  assumes "build_fx_card_payload uuid5 c db = Inr p"
  shows "tp_transaction_id p = xc_transaction_id c \<and> validate_posted p = Inr ()"
proof -
  obtain kind rows legs where "fx_posted uuid5 c kind rows legs = Inr p"
    using assms by (auto simp: build_fx_card_payload_def Let_def result_simps split: prod.splits)
  then show ?thesis using fx_posted_Inr by blast
qed

lemma build_card_payload_Inr:
  assumes "build_card_payload uuid5 c db = Inr p"
  shows "stream_of_payload p = (''journal_transaction'', cb_transaction_id (card_base c))" "validate_payload p = Inr ()"
  using assms by (auto simp: build_card_payload_def Let_def result_simps split: prod.splits)

lemma replacement_command_fields [simp]:
  "pc_book_id (replacement_command c) = kt_book_id c" "pc_command_id (replacement_command c) = kt_command_id c"
  "pc_transaction_id (replacement_command c) = cn_transaction_id (kt_replacement c)"
  "pc_expected_stream_version (replacement_command c) = cn_expected_stream_version (kt_replacement c)"
  by (simp_all add: replacement_command_def Let_def)

lemma correction_plan_typed:
  assumes "build_correction_plan uuid5 actor c db h = Inr plan"
    "0 \<le> kt_expected_reversal_stream_version c" "0 \<le> cn_expected_stream_version (kt_replacement c)"
  shows "lk_book_id h = kt_book_id c \<and> typed_plan (kt_command_id c) actor plan"
  using assms unfolding build_correction_plan_def Let_def
  apply (elim rbindE)
  subgoal premises prems for u1 u2 u3 source u4 u5 posting payload reversal u6
  proof -
    have posting: "posting = replacement_command c" and ids: "cn_transaction_id (kt_replacement c) \<noteq> kt_reversal_transaction_id c"
      using prems by (auto simp: result_simps)
    have payload: "tp_transaction_id payload = cn_transaction_id (kt_replacement c)" "validate_posted payload = Inr ()"
      using build_posted_payload_Inr[OF prems(10)[unfolded posting]] by simp_all
    note reversal = build_reversal_pending_Inr[OF prems(11)]
    show ?thesis
      using prems(3) prems(13) assms(2,3) reversal payload ids
      by (auto simp: posting result_simps typed_created_plan stream_key_def build_posted_pending_def
          typed_event_def)
  qed
  done

lemma fx_plan_typed:
  assumes "build_fx_plan uuid5 actor c db h = Inr plan" "0 \<le> xc_expected_stream_version c"
  shows "lk_book_id h = xc_book_id c \<and> typed_plan (xc_command_id c) actor plan"
proof -
  obtain payload where payload: "build_fx_payload uuid5 c db = Inr payload" and
    rest: "lk_book_id h = xc_book_id c" "plan = created_plan
       [((''journal_transaction'', xc_transaction_id c), xc_expected_stream_version c)]
       [fx_pending uuid5 actor c (JournalTransactionPosted payload)]
       [(''transaction_id'', juuid (xc_transaction_id c)), (''as_of_book_position'', JInt (lk_last_position h + 1))]"
    using assms(1) by (auto simp: build_fx_plan_def result_simps)
  show ?thesis using build_fx_payload_Inr[OF payload] assms(2) by (simp add: rest typed_simps)
qed

lemma fx_card_plan_typed:
  assumes "build_fx_credit_card_payment_plan uuid5 actor c db h = Inr plan" "0 \<le> xc_expected_stream_version c"
  shows "lk_book_id h = xc_book_id c \<and> typed_plan (xc_command_id c) actor plan"
  using assms unfolding build_fx_credit_card_payment_plan_def Let_def
  apply (elim rbindE)
  subgoal premises prems for u1 payload category u2 asset policy fee line u3 assigned
    using prems(2,12) assms(2) build_fx_card_payload_Inr[OF prems(3)] build_reporting_lines_assigned_Inr[OF prems(11)]
    by (auto simp: result_simps typed_simps)
  done

lemma card_plan_typed:
  assumes "build_card_plan uuid5 actor c db h = Inr plan" "0 \<le> cb_expected_stream_version (card_base c)"
  shows "lk_book_id h = cb_book_id (card_base c) \<and> typed_plan (cb_command_id (card_base c)) actor plan"
proof -
  obtain payload where payload: "build_card_payload uuid5 c db = Inr payload"
    using assms(1) by (auto simp: build_card_plan_def result_simps Let_def)
  show ?thesis using assms build_card_payload_Inr[OF payload]
    by (auto simp: build_card_plan_def Let_def result_simps payload typed_simps)
qed

lemma assign_plan_typed:
  assumes "build_assign_plan uuid5 actor c db h = Inr plan" "0 \<le> gl_expected_revision c"
  shows "lk_book_id h = gl_book_id c \<and> typed_plan (gl_command_id c) actor plan"
  using assms build_reporting_lines_assigned_Inr
  by (fastforce simp: build_assign_plan_def Let_def result_simps typed_simps)

lemma clear_plan_typed:
  assumes "build_clear_plan uuid5 actor c db h = Inr plan" "0 \<le> gc_expected_revision c"
  shows "lk_book_id h = gc_book_id c \<and> typed_plan (gc_command_id c) actor plan"
  using assms by (auto simp: build_clear_plan_def Let_def result_simps typed_simps)

lemma reference_plan_typed:
  assumes "build_reference_plan uuid5 actor c db h = Inr plan" "0 \<le> fx_expected_stream_version c"
  shows "lk_book_id h = fx_book_id c \<and> typed_plan (fx_command_id c) actor plan"
  using assms by (auto simp: build_reference_plan_def Let_def result_simps typed_simps)

lemma acquire_plan_typed:
  assumes "build_acquire_plan uuid5 actor c db h = Inr plan" "0 \<le> qa_expected_stream_version c"
  shows "lk_book_id h = qa_book_id c \<and> typed_plan (qa_command_id c) actor plan"
  using assms by (auto simp: build_acquire_plan_def result_simps typed_simps)

lemma dispose_plan_typed:
  assumes "build_dispose_plan uuid5 actor c db h = Inr plan" "0 \<le> qd_expected_stream_version c"
  shows "lk_book_id h = qd_book_id c \<and> typed_plan (qd_command_id c) actor plan"
  using assms by (auto simp: build_dispose_plan_def Let_def result_simps typed_simps)

lemmas constructor_defs = SimpleCommand_def SimpleTransactionCommand_def RecordAdjustmentCommand_def
  ReverseTransactionCommand_def CorrectTransactionCommand_def CorrectionReplacement_def RecordFxCommand_def
  RecordFxCreditCardPaymentCommand_def fx_command_ok_def CreditCardCommand_def card_base_ok_def
  AssignReportingLinesCommand_def ClearReportingLinesCommand_def CorrectExternalReferenceCommand_def
  AcquireLotCommand_def DisposeLotCommand_def

lemmas as_command_defs = post_command_def simple_as_command_def adjustment_as_command_def reverse_as_command_def
  correct_as_command_def fx_as_command_def fx_card_as_command_def card_as_command_def assign_as_command_def
  clear_as_command_def reference_as_command_def acquire_as_command_def dispose_as_command_def

lemma simple_plan_typed:
  assumes "build_simple_plan uuid5 actor c db h = Inr plan"
  shows "lk_book_id h = sm_book_id (simple_base c) \<and> typed_plan (sm_command_id (simple_base c)) actor plan"
proof -
  obtain j where j: "simple_journal_command uuid5 c db = Inr j" and
    plan: "build_post_transaction_plan uuid5 actor False j db h = Inr plan"
    using assms by (auto simp: build_simple_plan_def result_simps)
  show ?thesis using post_plan_typed [OF plan] simple_journal_command_Inr [OF j] by simp
qed

lemma adjustment_plan_typed:
  assumes "build_adjustment_plan uuid5 actor c db h = Inr plan"
  shows "lk_book_id h = aj_book_id c \<and> typed_plan (aj_command_id c) actor plan"
proof -
  obtain j where j: "adjustment_journal_command uuid5 c db h = Inr j" and
    plan: "build_post_transaction_plan uuid5 actor True j db h = Inr plan"
    using assms by (auto simp: build_adjustment_plan_def result_simps)
  show ?thesis using post_plan_typed [OF plan] adjustment_journal_shape [OF j] by simp
qed

lemmas plan_typed = post_plan_typed simple_plan_typed adjustment_plan_typed reverse_plan_typed correction_plan_typed
  fx_plan_typed fx_card_plan_typed card_plan_typed assign_plan_typed clear_plan_typed reference_plan_typed
  acquire_plan_typed dispose_plan_typed

lemma build_plan_typed:
  assumes "constructed request" "build_plan uuid5 actor request db locked = Inr plan"
  shows "lk_book_id locked = cm_book_id (request_command request) \<and> typed_plan (cm_command_id (request_command request)) actor plan"
  using assms by (cases request) (auto simp: constructor_defs as_command_defs result_simps dest: plan_typed)

text \<open>
  Property C35: the plan of every one of the thirteen modelled commands that passed its constructor fits the
  contracts of the layers below:
  it is for the Book whose head is locked; the event store's structural batch check accepts it, with one
  event per stream and a non-negative expected version for exactly those streams; every event carries the
  command's id and actor, lies in the stream that the projector demands of its class and passes its payload's
  contract; and the response is one that a receipt accepts.
\<close>

theorem plans_well_typed:
  assumes "constructed request" "build_plan uuid5 actor request db locked = Inr plan"
  shows "lk_book_id locked = cm_book_id (request_command request)
    \<and> typed_plan (cm_command_id (request_command request)) actor plan"
  using build_plan_typed [OF assms] .

subsection \<open>A concrete posting\<close>

definition demo_books :: db where
  "demo_books = demo_db\<lparr>assets := [demo_asset], accounts := [demo_account 21 ''expense'', demo_account 22 ''asset'']\<rparr>"

definition demo_leg :: "uuid \<Rightarrow> uuid \<Rightarrow> posting_side \<Rightarrow> post_transaction_posting" where
  "demo_leg i a s = \<lparr>pp_posting_id = i, pp_account_id = a, pp_asset_code = ''CNY'', pp_side = s, pp_amount = ''0.25''\<rparr>"

definition demo_post :: post_transaction_command where
  "demo_post = \<lparr>pc_book_id = 2, pc_command_id = 4, pc_transaction_id = 9, pc_expected_stream_version = 0,
     pc_kind = K_STANDARD, pc_postings = [demo_leg 11 21 DEBIT, demo_leg 12 22 CREDIT],
     pc_effective_at = 0, pc_description_ref = None, pc_external_references = []\<rparr>"

definition demo_name_uuid :: name_uuid where
  "demo_name_uuid _ name = of_nat (length name)"

definition demo_locked :: locked_book_head where
  "demo_locked = \<lparr>lk_book_id = 2, lk_last_position = 0, lk_last_hash = ZERO_HASH, lk_lock_token = 50\<rparr>"

lemma demo_uuid_strs:
  "uuid_str 2 = ''00000000-0000-0000-0000-000000000002''" "uuid_str 9 = ''00000000-0000-0000-0000-000000000009''"
  "uuid_str 11 = ''00000000-0000-0000-0000-00000000000b''" "uuid_str 12 = ''00000000-0000-0000-0000-00000000000c''"
  "uuid_str 21 = ''00000000-0000-0000-0000-000000000015''" "uuid_str 22 = ''00000000-0000-0000-0000-000000000016''"
  by code_simp+

lemma demo_known: "known_accounts demo_books 2 (sorted_ids [21, 22]) = [demo_account 21 ''expense'', demo_account 22 ''asset'']"
  by (simp add: known_accounts_def demo_books_def account_key_def find_by_def List.map_filter_def sorted_ids_def
      demo_uuid_strs code_points_def)

lemma demo_policy: "active_policy demo_books ''CNY'' = Inr (''CNY'', \<lparr>input_scale = 2, ledger_scale = 2\<rparr>)"
  by (simp add: active_policy_def demo_books_def find_by_def demo_asset_def asset_policy_of_def AssetPolicy_def
      validate_scale_def MAX_SCALE_def result_simps)

lemma demo_amount: "parse_units \<lparr>input_scale = 2, ledger_scale = 2\<rparr> ''0.25'' = Inr 25"
  by code_simp

abbreviation demo_draft :: "uuid \<Rightarrow> int \<Rightarrow> uuid \<Rightarrow> posting_side \<Rightarrow> posting_draft" where
  "demo_draft i n a s \<equiv> \<lparr>pd_posting_id = uuid_str i, pd_position = n, pd_account_id = uuid_str a,
     pd_asset_code = ''CNY'', pd_side = s, pd_units = 25\<rparr>"

abbreviation demo_snapshot :: "uuid \<Rightarrow> account_type \<Rightarrow> account_snapshot" where
  "demo_snapshot i t \<equiv> \<lparr>as_account_id = uuid_str i, as_book_id = uuid_str 2, as_asset_code = ''CNY'',
     as_account_type = t, as_account_subtype = None, as_system_role = R_STANDARD, as_status = ''active''\<rparr>"

lemma demo_domain:
  "domain_account (demo_account 21 ''expense'') = Inr (demo_snapshot 21 T_EXPENSE)"
  "domain_account (demo_account 22 ''asset'') = Inr (demo_snapshot 22 T_ASSET)"
  by code_simp+

lemma demo_validated:
  "validate \<lparr>pt_transaction_id = uuid_str 9, pt_book_id = uuid_str 2, pt_kind = K_STANDARD,
     pt_postings = [demo_draft 11 0 21 DEBIT, demo_draft 12 1 22 CREDIT]\<rparr>
     [demo_snapshot 21 T_EXPENSE, demo_snapshot 22 T_ASSET] = Inr ()"
  unfolding demo_uuid_strs by code_simp

abbreviation demo_payload :: journal_transaction_posted where
  "demo_payload \<equiv> \<lparr>tp_transaction_id = 9, tp_kind = K_STANDARD, tp_original_transaction_id = None,
     tp_postings = [demo_fact 11 0 21 DEBIT ''25'', demo_fact 12 1 22 CREDIT ''25''],
     tp_description_ref = None, tp_external_references = []\<rparr>"

lemma demo_contract: "validate_posted demo_payload = Inr ()"
  by code_simp

lemma demo_25: "int_str 25 = ''25''"
  by code_simp

lemma demo_built: "build_posted_payload allow demo_post demo_books = Inr demo_payload"
proof -
  have codes: "sorted_codes [''CNY'', ''CNY''] = [''CNY'']" by code_simp
  have drafts: "posting_drafts_of [(''CNY'', \<lparr>input_scale = 2, ledger_scale = 2\<rparr>)] [demo_leg 11 21 DEBIT, demo_leg 12 22 CREDIT]
      = Inr [demo_draft 11 0 21 DEBIT, demo_draft 12 1 22 CREDIT]"
    by (simp add: posting_drafts_of_def demo_leg_def demo_amount found_def)
  have facts: "posting_fact (demo_draft i n a s) = Inr (demo_fact i n a s ''25'')" for i n a s
    by (simp add: posting_fact_def demo_25)
  have accounts: "known_accounts demo_books (pc_book_id demo_post) (sorted_ids (map pp_account_id (pc_postings demo_post)))
      = [demo_account 21 ''expense'', demo_account 22 ''asset'']"
    by (simp add: demo_post_def demo_leg_def demo_known)
  have policies: "mapE (active_policy demo_books) (sorted_codes (map pp_asset_code (pc_postings demo_post)))
      = Inr [(''CNY'', \<lparr>input_scale = 2, ledger_scale = 2\<rparr>)]"
    by (simp add: demo_post_def demo_leg_def codes demo_policy)
  show ?thesis
    unfolding build_posted_payload_def Let_def accounts policies
    by (simp add: reject_credit_card_accounts_def demand_def demo_domain drafts demo_post_def demo_validated facts
        contract_def demo_contract)
qed

theorem plans_well_typed_witness:
  "\<exists>plan. build_plan demo_name_uuid demo_actor (PostRequest demo_post) demo_books demo_locked = Inr plan
     \<and> typed_plan 4 demo_actor plan \<and> map stream_key (lp_events plan) = [(''journal_transaction'', 9)]"
proof -
  have instant: "instant_literal 0" by code_simp
  have c: "constructed (PostRequest demo_post)"
    by (simp add: demo_post_def result_simps GENERAL_JOURNAL_KINDS_def instant)
  have fields: "pc_book_id demo_post = 2" "pc_transaction_id demo_post = 9" "pc_expected_stream_version demo_post = 0"
    by (simp_all add: demo_post_def)
  let ?plan = "created_plan [((''journal_transaction'', 9), 0)]
     [build_posted_pending demo_name_uuid demo_actor None None demo_post demo_payload]
     [(''transaction_id'', juuid 9), (''as_of_book_position'', JInt 1)]"
  have plan: "build_plan demo_name_uuid demo_actor (PostRequest demo_post) demo_books demo_locked = Inr ?plan"
    by (simp add: build_post_transaction_plan_def demo_built require_valid_def demo_locked_def fields)
  have events: "map stream_key (lp_events ?plan) = [(''journal_transaction'', 9)]"
    by (simp add: created_plan_def build_posted_pending_def stream_key_def fields)
  from plans_well_typed [OF c plan] have typed: "typed_plan 4 demo_actor ?plan" by (simp add: post_command_def demo_post_def)
  show ?thesis by (intro exI [of _ ?plan] conjI plan typed events)
qed

end
