(* ===== verification/Card_Safety.thy ===== *)
theory Card_Safety
  imports Projection_Safety
begin

text \<open>
  Credit cards: the refunds of a charge that have not been reversed never exceed it, and a charge
  that was reversed has none. The bound rests on the triggers of \<open>v2_0010_credit_card_transactions\<close>,
  which see one row at a time; the invariant ties the rows together.
\<close>

section \<open>The invariant\<close>

text \<open>The journal transaction of a card row and the event it came from, as the triggers look for them.\<close>

definition card_recorded :: "db \<Rightarrow> credit_card_record \<Rightarrow> bool" where
  "card_recorded db c \<longleftrightarrow> (\<exists>j\<in>set (journal_transactions db). \<exists>e\<in>set (ledger_events db).
     transaction_key j = card_key c \<and> jt_transaction_kind j = ''credit_card_'' @ ct_intent c
     \<and> event_book_key e = (ct_book_id c, jt_source_event_id j)
     \<and> le_event_type e = ''CreditCardTransactionRecorded'' \<and> payload_intent (le_payload e) = Some (ct_intent c))"

definition charge_covered :: "db \<Rightarrow> credit_card_record \<Rightarrow> bool" where
  "charge_covered db c \<longleftrightarrow> active_refund_units db (ct_book_id c) (ct_transaction_id c)
     \<le> (if reversed_transaction db (ct_book_id c) (ct_transaction_id c) then 0 else ct_units c)"

definition cards_ok :: "db \<Rightarrow> bool" where
  "cards_ok db \<longleftrightarrow> distinct (map card_key (credit_card_transactions db))
     \<and> distinct (map transaction_key (journal_transactions db)) \<and> distinct (map le_event_id (ledger_events db))
     \<and> (\<forall>c\<in>set (credit_card_transactions db). card_recorded db c \<and> 0 < ct_units c
          \<and> (\<forall>t. ct_original_transaction_id c = Some t \<longrightarrow> (ct_book_id c, t) \<in> card_key ` set (credit_card_transactions db))
          \<and> (ct_intent c = ''charge'' \<longrightarrow> charge_covered db c))"

lemma cards_okD:
  assumes "cards_ok db" "c \<in> set (credit_card_transactions db)"
  shows "card_recorded db c" "0 < ct_units c"
    "ct_original_transaction_id c = Some t \<Longrightarrow> (ct_book_id c, t) \<in> card_key ` set (credit_card_transactions db)"
    "ct_intent c = ''charge'' \<Longrightarrow> charge_covered db c"
  using assms unfolding cards_ok_def by blast+

lemma cards_ok_distinct:
  assumes "cards_ok db"
  shows "distinct (map card_key (credit_card_transactions db))" "distinct (map transaction_key (journal_transactions db))"
    "distinct (map le_event_id (ledger_events db))"
  using assms unfolding cards_ok_def by blast+

lemma event_book_keys_distinct: "distinct (map le_event_id es) \<Longrightarrow> distinct (map event_book_key es)"
  by (induction es) (auto simp: event_book_key_def)

lemma card_recorded_mono:
  "card_recorded db c \<Longrightarrow> set (journal_transactions db) \<subseteq> set (journal_transactions db') \<Longrightarrow>
     set (ledger_events db) \<subseteq> set (ledger_events db') \<Longrightarrow> card_recorded db' c"
  unfolding card_recorded_def by blast

lemma covered_cong:
  "credit_card_transactions db' = credit_card_transactions db \<Longrightarrow> transaction_reversals db' = transaction_reversals db \<Longrightarrow>
     charge_covered db' c = charge_covered db c"
  by (simp add: charge_covered_def active_refund_units_def active_refund_def [abs_def] reversed_transaction_def)

lemma cards_ok_extend:
  assumes "cards_ok db" "credit_card_transactions db' = credit_card_transactions db"
    "transaction_reversals db' = transaction_reversals db"
    "set (journal_transactions db) \<subseteq> set (journal_transactions db')" "distinct (map transaction_key (journal_transactions db'))"
    "set (ledger_events db) \<subseteq> set (ledger_events db')" "distinct (map le_event_id (ledger_events db'))"
  shows "cards_ok db'"
  unfolding cards_ok_def assms(2)
  using cards_ok_distinct(1) [OF assms(1)] assms(5,7) cards_okD [OF assms(1)]
    card_recorded_mono [OF _ assms(4,6)] covered_cong [OF assms(2,3)] by simp

section \<open>Statements keep it\<close>

lemma insert_card_admitted:
  assumes "insert_card new db = Inr db'"
  shows "card_projection_bound db new" "v2_validate_credit_card_projection db new = Inr ()"
    "card_key new \<notin> card_key ` set (credit_card_transactions db)" "0 < ct_units new"
    "(ct_intent new = ''refund'') = (ct_original_transaction_id new \<noteq> None)"
    "\<forall>t. ct_original_transaction_id new = Some t \<longrightarrow> (ct_book_id new, t) \<in> card_key ` set (credit_card_transactions db')"
proof -
  from assms have adm: "admit_card db new = Inr ()" and ref: "card_refers db' new = Inr ()"
    by (auto simp: insert_card_def insert_one)
  from adm show v: "v2_validate_credit_card_projection db new = Inr ()"
    and "card_key new \<notin> card_key ` set (credit_card_transactions db)" "0 < ct_units new"
    "(ct_intent new = ''refund'') = (ct_original_transaction_id new \<noteq> None)"
    by (simp_all add: admit_card_def rbind_eq_Inr checks_Inr_iff)
  from v show "card_projection_bound db new" by (simp add: v2_validate_credit_card_projection_def split: if_splits)
  from ref show "\<forall>t. ct_original_transaction_id new = Some t \<longrightarrow> (ct_book_id new, t) \<in> card_key ` set (credit_card_transactions db')"
    by (auto simp: card_refers_def checks_Inr_iff)
qed

lemma bound_recorded:
  assumes "card_projection_bound db new"
  shows "card_recorded db new"
proof -
  let ?tied = "\<lambda>e j. transaction_key j = (le_book_id e, ct_transaction_id new)
    \<and> jt_source_event_id j = le_event_id e \<and> jt_source_position j = le_book_position e
    \<and> jt_transaction_kind j = ''credit_card_'' @ ct_intent new"
  from assms obtain e where e: "e \<in> set (ledger_events db)" "le_book_id e = ct_book_id new"
      "le_event_type e = ''CreditCardTransactionRecorded''"
    and tied: "list_ex (?tied e) (journal_transactions db)"
    and payload: "case le_payload e of CreditCardTransactionRecorded c \<Rightarrow> credit_card_intent_value (cc_intent c) = ct_intent new | _ \<Rightarrow> False"
    unfolding card_projection_bound_def list_ex_iff [of _ "ledger_events db"]
    apply (elim bexE conjE)
    subgoal premises prems for e
      by (rule prems(1) [OF prems(2,3,6,10)]) (use prems(11) in \<open>cases "le_payload e"; simp\<close>)
    done
  from payload obtain c where c: "le_payload e = CreditCardTransactionRecorded c" "credit_card_intent_value (cc_intent c) = ct_intent new"
    by (cases "le_payload e") simp_all
  from tied obtain j where "j \<in> set (journal_transactions db)" "?tied e j" unfolding list_ex_iff ..
  with e c show ?thesis
    unfolding card_recorded_def by (intro bexI [of _ j] bexI [of _ e]) (simp_all add: card_key_def event_book_key_def payload_intent_def)
qed

lemma refund_admitted:
  assumes ok: "cards_ok db" and adm: "v2_validate_credit_card_projection db new = Inr ()"
    and c: "c \<in> set (credit_card_transactions db)" "ct_intent c = ''charge''"
    and new: "ct_intent new = ''refund''" "ct_book_id new = ct_book_id c" "ct_original_transaction_id new = Some (ct_transaction_id c)"
  shows "\<not> reversed_transaction db (ct_book_id c) (ct_transaction_id c)"
    "active_refund_units db (ct_book_id c) (ct_transaction_id c) + ct_units new \<le> ct_units c"
proof -
  let ?match = "\<lambda>c. ct_book_id c = ct_book_id new \<and> ct_original_transaction_id new = Some (ct_transaction_id c) \<and> ct_intent c = ''charge''"
  from adm new obtain d where d: "find ?match (credit_card_transactions db) = Some d"
    and valid: "refund_source_valid db new d"
    and units: "\<not> ct_units d < active_refund_units db (ct_book_id new) (ct_transaction_id d) + ct_units new"
    by (auto simp: v2_validate_credit_card_projection_def split: if_splits option.splits)
  from d have "d \<in> set (credit_card_transactions db)" "card_key d = card_key c"
    using new by (auto simp: find_Some_iff card_key_def)
  with c(1) cards_ok_distinct(1) [OF ok] have "d = c" by (metis distinct_map inj_onD)
  with valid units new show "\<not> reversed_transaction db (ct_book_id c) (ct_transaction_id c)"
    "active_refund_units db (ct_book_id c) (ct_transaction_id c) + ct_units new \<le> ct_units c"
    by (simp_all add: refund_source_valid_def)
qed

lemma insert_card_ok:
  assumes ok: "cards_ok db" and ins: "insert_card new db = Inr db'"
  shows "cards_ok db'"
proof -
  note adm = insert_card_admitted [OF ins]
  have db': "db' = db\<lparr>credit_card_transactions := credit_card_transactions db @ [new]\<rparr>" using ins by (rule insert_card_Inr)
  have rec: "card_recorded db' c = card_recorded db c" for c by (simp add: card_recorded_def db')
  have act: "active_refund db' = active_refund db" by (simp add: fun_eq_iff active_refund_def reversed_transaction_def db')
  have rev: "reversed_transaction db' = reversed_transaction db" by (simp add: fun_eq_iff reversed_transaction_def db')
  have units: "active_refund_units db' b t = active_refund_units db b t + (if active_refund db b t new then ct_units new else 0)" for b t
    by (simp add: active_refund_units_def act) (simp add: db')
  have old: "charge_covered db' c" if c: "c \<in> set (credit_card_transactions db)" "ct_intent c = ''charge''" for c
  proof (cases "active_refund db (ct_book_id c) (ct_transaction_id c) new")
    case True
    then have "ct_intent new = ''refund''" "ct_book_id new = ct_book_id c" "ct_original_transaction_id new = Some (ct_transaction_id c)"
      by (simp_all add: active_refund_def)
    from refund_admitted [OF ok adm(2) c this] show ?thesis by (simp add: charge_covered_def units rev True)
  next
    case False
    with cards_okD(4) [OF ok c] show ?thesis by (simp add: charge_covered_def units rev)
  qed
  have none: "\<not> active_refund db (ct_book_id new) (ct_transaction_id new) r"
    if "r \<in> set (credit_card_transactions db)" for r
  proof
    assume "active_refund db (ct_book_id new) (ct_transaction_id new) r"
    then have "ct_original_transaction_id r = Some (ct_transaction_id new)" "ct_book_id r = ct_book_id new"
      by (simp_all add: active_refund_def)
    with cards_okD(3) [OF ok that] have "card_key new \<in> card_key ` set (credit_card_transactions db)" by (simp add: card_key_def)
    with adm(3) show False ..
  qed
  have "charge_covered db' new" if "ct_intent new = ''charge''"
  proof -
    have "active_refund_units db (ct_book_id new) (ct_transaction_id new) = 0"
      using none by (simp add: active_refund_units_def filter_False)
    moreover have "\<not> active_refund db (ct_book_id new) (ct_transaction_id new) new" using that by (simp add: active_refund_def)
    ultimately show ?thesis using adm(4) by (simp add: charge_covered_def units)
  qed
  then show ?thesis
    using ok adm(3,4) bound_recorded [OF adm(1)] adm(6) old
    unfolding cards_ok_def rec by (auto simp: db')
qed

lemma insert_reversal_ok:
  assumes ok: "cards_ok db" and ins: "insert_reversal rv db = Inr db'"
  shows "cards_ok db'"
proof -
  have db': "db' = db\<lparr>transaction_reversals := transaction_reversals db @ [rv]\<rparr>" using ins by (rule insert_reversal_Inr)
  from ins have adm: "v2_validate_credit_card_reversal db rv = Inr ()" and ref: "reversal_refers db' rv = Inr ()"
    by (auto simp: insert_reversal_def insert_one admit_reversal_def rbind_eq_Inr)
  have rec: "card_recorded db' c = card_recorded db c" for c by (simp add: card_recorded_def db')
  have rev: "reversed_transaction db' b t \<longleftrightarrow> reversed_transaction db b t \<or> reversal_target_key rv = (b, t)" for b t
    by (simp add: reversed_transaction_def db')
  have act: "active_refund db' b t r \<Longrightarrow> active_refund db b t r" for b t r by (simp add: active_refund_def rev)
  have units: "active_refund_units db' b t \<le> active_refund_units db b t" for b t
  proof -
    have "sum_list (map ct_units (filter (active_refund db' b t) cs)) \<le> sum_list (map ct_units (filter (active_refund db b t) cs))"
      if "\<forall>c\<in>set cs. 0 < ct_units c" for cs
      using that act [of b t] by (induction cs) (auto simp: less_imp_le)
    then show ?thesis using cards_okD(2) [OF ok] by (simp add: active_refund_units_def) (simp add: db')
  qed
  have "charge_covered db' c" if c: "c \<in> set (credit_card_transactions db)" "ct_intent c = ''charge''" for c
  proof (cases "reversal_target_key rv = card_key c")
    case False
    with cards_okD(4) [OF ok c] units [of "ct_book_id c" "ct_transaction_id c"] show ?thesis
      by (auto simp: charge_covered_def rev card_key_def split: if_splits)
  next
    case True
    from cards_okD(1) [OF ok c(1)] obtain j e where je: "j \<in> set (journal_transactions db)" "e \<in> set (ledger_events db)"
      "transaction_key j = card_key c" "jt_transaction_kind j = ''credit_card_'' @ ct_intent c"
      "event_book_key e = (ct_book_id c, jt_source_event_id j)" "le_event_type e = ''CreditCardTransactionRecorded''"
      "payload_intent (le_payload e) = Some (ct_intent c)" unfolding card_recorded_def by blast
    have key: "(rv_book_id rv, rv_original_transaction_id rv) = transaction_key j" "jt_book_id j = ct_book_id c"
      using True je(3) by (simp_all add: reversal_target_key_def card_key_def transaction_key_def)
    have j: "find_by transaction_key (rv_book_id rv, rv_original_transaction_id rv) (journal_transactions db) = Some j"
      unfolding key(1) by (rule find_by_distinct [OF cards_ok_distinct(2) [OF ok] je(1)])
    have e: "find_by event_book_key (jt_book_id j, jt_source_event_id j) (ledger_events db) = Some e"
      unfolding key(2) je(5) [symmetric] by (rule find_by_distinct [OF event_book_keys_distinct [OF cards_ok_distinct(3) [OF ok]] je(2)])
    have "(rv_book_id rv, rv_reversal_transaction_id rv) \<in> transaction_key ` set (journal_transactions db)"
      using ref by (force simp: reversal_refers_def checks_Inr_iff transaction_with_source_def transaction_key_def db')
    then obtain r where r: "find_by transaction_key (rv_book_id rv, rv_reversal_transaction_id rv) (journal_transactions db) = Some r"
      by (cases "find_by transaction_key (rv_book_id rv, rv_reversal_transaction_id rv) (journal_transactions db)")
        (simp_all add: find_by_None_iff)
    have "\<not> list_ex (active_refund db (rv_book_id rv) (rv_original_transaction_id rv)) (credit_card_transactions db)"
      using adm je(4,6,7) c(2) by (simp add: v2_validate_credit_card_reversal_def j e r like_credit_card_def checks_Inr_iff)
    then have "active_refund_units db (ct_book_id c) (ct_transaction_id c) = 0"
      using True by (simp add: active_refund_units_def list_ex_iff filter_False reversal_target_key_def card_key_def)
    with units [of "ct_book_id c" "ct_transaction_id c"] True show ?thesis
      by (simp add: charge_covered_def rev card_key_def)
  qed
  then show ?thesis using ok unfolding cards_ok_def rec by (auto simp: db')
qed

lemma insert_transaction_ok:
  assumes "cards_ok db" "insert_transaction t db = Inr db'"
  shows "cards_ok db'"
proof (rule cards_ok_extend [OF assms(1)])
  from assms(2) have "transaction_key t \<notin> transaction_key ` set (journal_transactions db)"
    by (simp add: insert_transaction_def insert_one admit_transaction_def checks_Inr_iff)
  then show "distinct (map transaction_key (journal_transactions db'))"
    using cards_ok_distinct(2) [OF assms(1)] insert_transaction_Inr [OF assms(2)] by simp
qed (use insert_transaction_Inr [OF assms(2)] cards_ok_distinct(3) [OF assms(1)] in auto)

lemma cards_ok_elsewhere:
  "cards_ok db \<Longrightarrow> credit_card_transactions db' = credit_card_transactions db \<Longrightarrow>
     transaction_reversals db' = transaction_reversals db \<Longrightarrow> journal_transactions db' = journal_transactions db \<Longrightarrow>
     ledger_events db' = ledger_events db \<Longrightarrow> cards_ok db'"
  by (rule cards_ok_extend) (auto simp: cards_ok_distinct)

interpretation cards_kept: projection_writes "\<lambda>db db'. cards_ok db \<longrightarrow> cards_ok db'"
proof unfold_locales
  show "upsert_balance b db = Inr db' \<Longrightarrow> cards_ok db \<longrightarrow> cards_ok db'" for b db db'
    using upsert_balance_Inr(1) cards_ok_elsewhere by fastforce
  show "insert_card c db = Inr db' \<Longrightarrow> cards_ok db \<longrightarrow> cards_ok db'" for c db db' using insert_card_ok by blast
  show "insert_reversal r db = Inr db' \<Longrightarrow> cards_ok db \<longrightarrow> cards_ok db'" for r db db' using insert_reversal_ok by blast
  show "insert_transaction t db = Inr db' \<Longrightarrow> cards_ok db \<longrightarrow> cards_ok db'" for t db db' using insert_transaction_ok by blast
qed (auto dest!: statement_shapes simp: delete_current_reporting_lines_def elim: cards_ok_elsewhere)

section \<open>The property\<close>

text \<open>
  Every way the four tables change, from a ledger of which nothing is projected yet: events are
  appended under fresh identifiers, stored events are projected, transactions commit.
\<close>

inductive cards_reachable :: "db \<Rightarrow> bool" where
  empty: "credit_card_transactions db = [] \<Longrightarrow> journal_transactions db = [] \<Longrightarrow> distinct (map le_event_id (ledger_events db)) \<Longrightarrow>
    cards_reachable db"
| elsewhere: "cards_reachable db \<Longrightarrow> credit_card_transactions db' = credit_card_transactions db \<Longrightarrow>
    transaction_reversals db' = transaction_reversals db \<Longrightarrow> journal_transactions db' = journal_transactions db \<Longrightarrow>
    ledger_events db' = ledger_events db \<Longrightarrow> cards_reachable db'"
| append: "cards_reachable db \<Longrightarrow> append_batch sha256 b expected events db = Inr (res, db') \<Longrightarrow> cards_reachable db'"
| project: "cards_reachable db \<Longrightarrow> apply_stored stored db = Inr (r, db') \<Longrightarrow> cards_reachable db'"
| commit: "cards_reachable db \<Longrightarrow> commit db = Inr db' \<Longrightarrow> cards_reachable db'"

lemma advance_keeps_events:
  "foldE (advance_stream_head before b) db terminals = Inr db' \<Longrightarrow> ledger_events db' = ledger_events db"
proof (induction terminals arbitrary: db)
  case (Cons t terminals)
  from Cons.prems obtain db1 where one: "advance_stream_head before b db t = Inr db1"
    and rest: "foldE (advance_stream_head before b) db1 terminals = Inr db'"
    by (auto simp: rbind_eq_Inr)
  have "ledger_events db1 = ledger_events db"
  proof (cases "stream_head_of before b (fst t)")
    case None
    with one have "insert_stream_head (terminal_head b (fst t) (snd t)) db = Inr db1"
      by (simp add: advance_stream_head_def lift_db_def Let_def result_simps split_beta)
    from insert_stream_head_Inr [OF this] show ?thesis by simp
  next
    case (Some old)
    with one have "update_stream_head old (terminal_head b (fst t) (snd t)) db = Inr db1"
      by (simp add: advance_stream_head_def lift_db_def Let_def result_simps split_beta)
    from update_stream_head_Inr [OF this] show ?thesis by simp
  qed
  with Cons.IH [OF rest] show ?case by simp
qed simp

lemma append_event_ids:
  assumes "append_batch sha256 b expected events db = Inr (res, db')" "distinct (map le_event_id (ledger_events db))"
  shows "distinct (map le_event_id (ledger_events db'))"
proof -
  from assms(1) obtain rows db1 db2 ts old new where ins: "insert_events rows db = Inr db1"
    "foldE (advance_stream_head db b) db1 ts = Inr db2" "update_book_event_head old new db2 = Inr db'"
    by (auto simp: append_batch_def Let_def rbind_eq_Inr lift_db_def raise_as_iff split: option.splits)
  from ins(1) have "distinct (map le_event_id (ledger_events db1))"
    unfolding insert_events_def using assms(2) by (rule events_by_id.insert_keys_distinct)
  with advance_keeps_events [OF ins(2)] update_book_event_head_Inr [OF ins(3)] show ?thesis by simp
qed

lemma reachable_cards_ok: "cards_reachable db \<Longrightarrow> cards_ok db"
proof (induction rule: cards_reachable.induct)
  case (empty db)
  then show ?case by (simp add: cards_ok_def)
next
  case (elsewhere db db')
  then show ?case using cards_ok_elsewhere by blast
next
  case (append db sha256 b expected events res db')
  from append.hyps(2) have same: "credit_card_transactions db' = credit_card_transactions db"
    "transaction_reversals db' = transaction_reversals db" "journal_transactions db' = journal_transactions db"
    "set (ledger_events db) \<subseteq> set (ledger_events db')" by (auto elim!: append_batch_Inr)
  note ids = append_event_ids [OF append.hyps(2) cards_ok_distinct(3) [OF append.IH]]
  show ?case
  proof (rule cards_ok_extend [OF append.IH same(1,2) _ _ same(4) ids])
    show "set (journal_transactions db) \<subseteq> set (journal_transactions db')" by (simp only: same(3) subset_refl)
    show "distinct (map transaction_key (journal_transactions db'))"
      unfolding same(3) by (rule cards_ok_distinct(2) [OF append.IH])
  qed
next
  case (project db stored r db')
  from project.hyps(2) show ?case
  proof (cases rule: apply_stored_cases)
    case (applied m)
    have "cards_ok (db\<lparr>applied_events := applied_events db @ [m]\<rparr>)" by (rule cards_ok_elsewhere [OF project.IH]) simp_all
    with cards_kept.apply_payload [OF applied(8)] show ?thesis by blast
  qed (use project.IH in simp_all)
next
  case (commit db db')
  have "db' = db\<lparr>deferred_checks := []\<rparr>" using commit_Inr [OF commit.hyps(2)] ..
  then show ?case by (intro cards_ok_elsewhere [OF commit.IH]) simp_all
qed

abbreviation demo_charge :: credit_card_transaction_recorded where
  "demo_charge \<equiv> \<lparr>cc_intent = CHARGE, cc_transaction_id = 9, cc_card_account_id = 22, cc_counter_account_id = 21,
     cc_original_transaction_id = None,
     cc_postings = [demo_fact 11 0 21 DEBIT ''25'', demo_fact 12 1 22 CREDIT ''25''],
     cc_description_ref = None, cc_external_references = []\<rparr>"

abbreviation demo_charge_event :: ledger_event_record where
  "demo_charge_event \<equiv> demo_ledger_event 31 1 ''journal_transaction'' 9 1 (CreditCardTransactionRecorded demo_charge)"

abbreviation demo_charge_row :: credit_card_record where
  "demo_charge_row \<equiv> \<lparr>ct_book_id = 2, ct_transaction_id = 9, ct_intent = ''charge'', ct_card_account_id = 22,
     ct_counter_account_id = 21, ct_asset_code = ''CNY'', ct_units = 25, ct_original_transaction_id = None,
     ct_source_event_id = 31, ct_source_position = 1\<rparr>"

abbreviation demo_cards :: db where
  "demo_cards \<equiv> demo_db\<lparr>accounts := [demo_account 21 ''expense'',
       (demo_account 22 ''liability'')\<lparr>ac_account_subtype := Some ''credit_card''\<rparr>],
     ledger_events := [demo_charge_event]\<rparr>"

definition demo_charged_legs :: db where
  "demo_charged_legs = demo_cards\<lparr>applied_events := [demo_marker 31],
     journal_transactions := [transaction_record demo_charge_event 9 ''credit_card_charge'' None],
     journal_postings := map (posting_record demo_charge_event 9) (cc_postings demo_charge),
     account_balances := [demo_balance 21 25 1, demo_balance 22 (-25) 1],
     deferred_checks := TransactionBalanceCheck (transaction_record demo_charge_event 9 ''credit_card_charge'' None)
       # map PostingBalanceCheck (map (posting_record demo_charge_event 9) (cc_postings demo_charge))\<rparr>"

definition demo_charged :: db where
  "demo_charged = demo_charged_legs\<lparr>credit_card_transactions := [demo_charge_row]\<rparr>"

lemma demo_charge_valid:
  "validate_stored ''CreditCardTransactionRecorded'' 1 (CreditCardTransactionRecorded demo_charge) = Inr (CreditCardTransactionRecorded demo_charge)"
proof -
  have "validate_card demo_charge = Inr ()"
    by (simp add: validate_card_def expected_card_legs_def validate_ordered_records_def posting_fact_fields_ok_def
        pattern_simps upt_rec)
  then show ?thesis using validate_stored_valid [of "CreditCardTransactionRecorded demo_charge"] by simp
qed

lemma demo_apply_charge:
  "apply_stored demo_charge_event demo_cards = Inr
     (\<lparr>pr_event_id = 31, pr_required = True, pr_applied = True, pr_projection_version = Some 1\<rparr>, demo_charged)"
proof -
  have m: "insert_marker_on_conflict_do_nothing (demo_marker 31) demo_cards
      = Inr (True, demo_cards\<lparr>applied_events := [demo_marker 31]\<rparr>)"
    by (simp add: insert_marker_on_conflict_do_nothing_def v2_validate_sync_projection_marker_def table_checks
        sync_types applied_key_def event_book_key_def)
  have legs: "apply_financial_transaction demo_charge_event 9 ''credit_card_charge'' None (cc_postings demo_charge)
      (demo_cards\<lparr>applied_events := [demo_marker 31]\<rparr>) = Inr demo_charged_legs"
    by (simp add: apply_financial_transaction_def statement_defs record_defs table_checks
        v2_validate_journal_source_projection_def sync_types numeric_digits_def demo_units_25
        demo_charged_legs_def find_by_def Let_def)
  have "v2_validate_credit_card_projection demo_charged_legs demo_charge_row = Inr ()"
    by (simp add: v2_validate_credit_card_projection_def card_projection_bound_def card_leg_bound_def account_with_def
        demo_charged_legs_def record_defs demo_units_25)
  then have "insert_card demo_charge_row demo_charged_legs = Inr demo_charged"
    by (simp add: insert_card_def insert_one admit_card_def add_card_def card_refers_def table_checks numeric_digits_def)
      (simp add: record_defs card_key_def card_source_key_def demo_charged_legs_def demo_charged_def)
  with legs have "apply_credit_card_recorded demo_charge_event demo_charge (demo_cards\<lparr>applied_events := [demo_marker 31]\<rparr>)
      = Inr demo_charged"
    by (simp add: apply_credit_card_recorded_def intent_transaction_kind_def add_external_references_def run_def lift_db_def demo_units_25
        insert_external_references_def insert_rows_def)
  with m show ?thesis by (simp add: apply_stored_def sync_types demo_charge_valid lift_db_def)
qed

text \<open>
  Property C9: refunds stay within their charge. However events are appended and projected, for every
  credit-card charge the refunds against it that have not been reversed add up to at most the
  charge, and once the charge itself is reversed there are none.
\<close>

theorem refunds_within_charge:
  assumes "cards_reachable db" "c \<in> set (credit_card_transactions db)" "ct_intent c = ''charge''"
  shows "sum_list (map ct_units (filter (active_refund db (ct_book_id c) (ct_transaction_id c)) (credit_card_transactions db))) \<le> ct_units c
    \<and> (reversed_transaction db (ct_book_id c) (ct_transaction_id c) \<longrightarrow>
         filter (active_refund db (ct_book_id c) (ct_transaction_id c)) (credit_card_transactions db) = [])"
proof -
  let ?active = "filter (active_refund db (ct_book_id c) (ct_transaction_id c)) (credit_card_transactions db)"
  note ok = reachable_cards_ok [OF assms(1)]
  have cov: "sum_list (map ct_units ?active) \<le> (if reversed_transaction db (ct_book_id c) (ct_transaction_id c) then 0 else ct_units c)"
    using cards_okD(4) [OF ok assms(2,3)] by (simp add: charge_covered_def active_refund_units_def)
  have pos: "\<forall>r\<in>set ?active. 0 < ct_units r" using cards_okD(2) [OF ok] by simp
  have "0 < sum_list (map ct_units rs)" if "\<forall>r\<in>set rs. 0 < ct_units r" "rs \<noteq> []" for rs
    using that
  proof (induction rs)
    case (Cons a rs)
    then show ?case by (cases "rs = []") (auto intro: add_pos_pos)
  qed simp
  from this [OF pos] cov cards_okD(2) [OF ok assms(2)] show ?thesis by (auto split: if_splits)
qed

theorem refunds_within_charge_witness:
  "sum_list (map ct_units (filter (active_refund demo_charged 2 9) (credit_card_transactions demo_charged))) \<le> 25"
proof -
  have "cards_reachable demo_cards" by (rule cards_reachable.empty) simp_all
  from cards_reachable.project [OF this demo_apply_charge] have "cards_reachable demo_charged" .
  moreover have "demo_charge_row \<in> set (credit_card_transactions demo_charged)" by (simp add: demo_charged_def)
  ultimately show ?thesis using refunds_within_charge [of demo_charged demo_charge_row] by simp
qed

end
