(* ===== verification/Command_Effects.thy ===== *)
theory Command_Effects
  imports Command_Plans Card_Safety
begin

text \<open>
  What a financial command leaves in the database: the events of its plan, and on every account exactly
  the amounts of their postings. For a balance adjustment that is the balance asked for, and for a
  reversal the removal of what the reversed transaction put there.
\<close>

section \<open>A batch is projected once\<close>

text \<open>The primary keys of the events and the accounts, and the foreign key of the projection markers.\<close>

definition rows_keyed :: "db \<Rightarrow> bool" where
  "rows_keyed db \<longleftrightarrow> distinct (map le_event_id (ledger_events db)) \<and> distinct (map account_key (accounts db))
     \<and> applied_key ` set (applied_events db) \<subseteq> event_book_key ` set (ledger_events db)"

lemma source_postings:
  "payload_postings p = (case source_transaction p of None \<Rightarrow> [] | Some (t, postings) \<Rightarrow> postings)"
  by (cases p) (simp_all add: source_transaction_def)

lemma fact_amount_append: "fact_amount b k (xs @ ys) = fact_amount b k xs + fact_amount b k ys"
  by (simp add: fact_amount_def total_for_def)

lemma applied_balance:
  assumes "apply_stored e db = Inr (r, db')" "sync_required e" "event_book_key e \<notin> applied_key ` set (applied_events db)"
  shows "balance_of db' k = balance_of db k + fact_amount (le_book_id e) k (payload_postings (le_payload e))"
    and "applied_key ` set (applied_events db') = insert (event_book_key e) (applied_key ` set (applied_events db))"
proof -
  from assms(1) have r: "pr_applied r" "pr_required r"
    by (cases rule: apply_stored_cases; use assms in \<open>simp add: sync_required_def\<close>)+
  show "balance_of db' k = balance_of db k + fact_amount (le_book_id e) k (payload_postings (le_payload e))"
  proof (cases "source_transaction (le_payload e)")
    case None
    then show ?thesis
      using apply_stored_journal [OF assms(1)] r by (simp add: source_postings balance_of_same fact_amount_def)
  next
    case (Some tp)
    then have "records_transaction e (fst tp) (snd tp) db db'"
      using apply_stored_journal [OF assms(1)] r by (simp add: split_beta)
    then have "balance_of db' k = balance_of db k + fact_amount (le_book_id e) k (snd tp)"
      unfolding records_transaction_def by blast
    with Some show ?thesis by (simp add: source_postings split_beta)
  qed
  show "applied_key ` set (applied_events db') = insert (event_book_key e) (applied_key ` set (applied_events db))"
    using apply_stored_frame [OF assms(1)] r by simp
qed

lemma project_all_balance:
  "project_all es db = Inr db' \<Longrightarrow> list_all (\<lambda>e. sync_required e \<and> le_book_id e = b) es \<Longrightarrow>
   distinct (map event_book_key es) \<Longrightarrow>
   set (map event_book_key es) \<inter> applied_key ` set (applied_events db) = {} \<Longrightarrow>
     balance_of db' k = balance_of db k + fact_amount b k (concat (map (payload_postings \<circ> le_payload) es))
     \<and> applied_key ` set (applied_events db') = event_book_key ` set es \<union> applied_key ` set (applied_events db)"
proof (induction es arbitrary: db)
  case Nil
  then show ?case by (simp add: project_all_def fact_amount_def)
next
  case (Cons e es)
  then obtain r d where one: "apply_stored e db = Inr (r, d)" and rest: "project_all es d = Inr db'"
    by (auto simp: project_all_def result_simps)
  from Cons.prems have e: "sync_required e" "le_book_id e = b" "event_book_key e \<notin> applied_key ` set (applied_events db)"
    by auto
  note one = applied_balance [OF one e(1,3)]
  from Cons.prems one(2) have "set (map event_book_key es) \<inter> applied_key ` set (applied_events d) = {}" by auto
  from Cons.IH [OF rest _ _ this] Cons.prems one show ?case by (simp add: fact_amount_append e(2))
qed

lemma reload_new:
  assumes "list_all2 (records_pending b) events new" "distinct (map le_event_id (old @ new))"
    "numbered n (map le_book_position new)" "ledger_events db = old @ new"
  shows "reload_events b (map pe_event_id events) db = new"
proof -
  from assms(1) have "map le_event_id new = map pe_event_id events \<and> (\<forall>e\<in>set new. le_book_id e = b)"
    by (induction rule: list_all2_induct) (simp_all add: records_pending_def)
  then have ids: "map le_event_id new = map pe_event_id events" and book: "\<forall>e\<in>set new. le_book_id e = b" by blast+
  let ?P = "\<lambda>e. le_book_id e = b \<and> le_event_id e \<in> set (map pe_event_id events)"
  have P: "?P = (\<lambda>e. le_book_id e = b \<and> le_event_id e \<in> le_event_id ` set new)"
    unfolding ids [symmetric] by simp
  have "filter ?P old = []"
    unfolding P using assms(2) by (auto simp: filter_empty_conv)
  moreover have "filter ?P new = new" unfolding P by (rule filter_True) (simp add: book)
  moreover have "sorted (map le_book_position new)"
    using assms(3) by (simp add: sorted_iff_nth_mono numbered_nth)
  ultimately show ?thesis unfolding reload_events_def assms(4) filter_append by (simp add: sort_key_id_if_sorted)
qed

lemma append_batch_new:
  assumes app: "append_batch sha256 b expected events db = Inr (res, db')"
  obtains pos new where "list_all2 (records_pending b) events new" "numbered pos (map le_book_position new)"
    "list_all (\<lambda>e. sync_required e \<and> le_book_id e = b) new" "ar_event_ids res = map pe_event_id events"
    "ledger_events db' = ledger_events db @ new" "applied_events db' = applied_events db"
    "account_balances db' = account_balances db" "accounts db' = accounts db"
  using app
proof (rule append_batch_Inr)
  fix head new
  assume rec: "list_all2 (records_pending b) events new" and num: "numbered (hd_last_position head) (map le_book_position new)"
    and all: "list_all (sealed sha256) new" "list_all (\<lambda>e. le_book_id e = b) new" and evs: "ledger_events db' = ledger_events db @ new"
    and res: "res = \<lparr>ar_start = hd_last_position head + 1, ar_stop = hd_last_position head + int (length events) + 1,
       ar_terminal_hash = last_hash (hd_last_hash head) new, ar_event_ids = map pe_event_id events\<rparr>"
    and db': "\<exists>hs. db' = db\<lparr>ledger_events := ledger_events db @ new,
       deferred_checks := deferred_checks db @ map SyncProjectionCheck new, event_stream_heads := hs,
       book_event_heads := replace_by hd_book_id b
         \<lparr>hd_book_id = b, hd_last_position = hd_last_position head + int (length new),
          hd_last_hash = last_hash (hd_last_hash head) new\<rparr> (book_event_heads db)\<rparr>"
  have "list_all (\<lambda>e. sync_required e \<and> le_book_id e = b) new"
    using all sealed_sync_required by (auto simp: list_all_iff)
  moreover have "applied_events db' = applied_events db" "account_balances db' = account_balances db" "accounts db' = accounts db"
    using db' by auto
  ultimately show thesis using rec num evs by (intro that) (simp_all add: res)
qed

lemma append_and_project_balance:
  assumes "append_and_project sha256 locked expected events s = Inr (res, s')" "rows_keyed (se_db s)"
  shows "balance_of (se_db s') k = balance_of (se_db s) k
      + fact_amount (lk_book_id locked) k (concat (map (payload_postings \<circ> pe_payload) events))"
    and "rows_keyed (se_db s')"
proof -
  let ?b = "lk_book_id locked"
  from assms(1) obtain db1 db2 where app: "append_batch sha256 ?b expected events (se_db s) = Inr (res, db1)"
    and pr: "project_all (reload_events ?b (ar_event_ids res) db1) db1 = Inr db2" and s': "se_db s' = db2"
    by (rule append_and_project_Inr) simp
  have ids: "distinct (map le_event_id (ledger_events db1))"
    using append_event_ids [OF app] assms(2) by (simp add: rows_keyed_def)
  from app obtain pos new where
    rec: "list_all2 (records_pending ?b) events new" and num: "numbered pos (map le_book_position new)" and
    all: "list_all (\<lambda>e. sync_required e \<and> le_book_id e = ?b) new" and
    res: "ar_event_ids res = map pe_event_id events" and evs: "ledger_events db1 = ledger_events (se_db s) @ new" and
    same: "applied_events db1 = applied_events (se_db s)" "account_balances db1 = account_balances (se_db s)"
      "accounts db1 = accounts (se_db s)"
    by (rule append_batch_new)
  have re: "reload_events ?b (ar_event_ids res) db1 = new"
    using reload_new [OF rec _ num, of "ledger_events (se_db s)" db1] ids evs by (simp add: res evs)
  have keys: "distinct (map event_book_key (ledger_events (se_db s) @ new))"
    using event_book_keys_distinct [OF ids] by (simp add: evs)
  have fresh: "set (map event_book_key new) \<inter> applied_key ` set (applied_events db1) = {}"
  proof -
    have "applied_key ` set (applied_events db1) \<subseteq> set (map event_book_key (ledger_events (se_db s)))"
      using assms(2) by (simp add: rows_keyed_def same)
    then show ?thesis using keys by fastforce
  qed
  have "balance_of db1 k = balance_of (se_db s) k" for k by (simp add: balance_of_def same)
  moreover have "map (payload_postings \<circ> le_payload) new = map (payload_postings \<circ> pe_payload) events"
    using rec by (induction rule: list_all2_induct) (simp_all add: records_pending_def)
  moreover note all
  moreover have "distinct (map event_book_key new)" using keys by simp
  ultimately have eff: "balance_of db2 k = balance_of (se_db s) k
        + fact_amount ?b k (concat (map (payload_postings \<circ> pe_payload) events))"
      "applied_key ` set (applied_events db2) = event_book_key ` set new \<union> applied_key ` set (applied_events db1)"
    using project_all_balance [OF pr [unfolded re] _ _ fresh, of ?b] by metis+
  then show "balance_of (se_db s') k = balance_of (se_db s) k
      + fact_amount ?b k (concat (map (payload_postings \<circ> pe_payload) events))" by (simp add: s')
  have "ledger_events db2 = ledger_events db1" "accounts db2 = accounts db1" using project_all_frame [OF pr] by simp_all
  then show "rows_keyed (se_db s')"
    using ids eff(2) assms(2) by (auto simp: s' rows_keyed_def evs same)
qed

section \<open>A plan handler reads only\<close>

lemma plan_handler_leaves_ledger:
  assumes "\<And>db h plan. build db h = Inr plan \<Longrightarrow> lp_post_projection_finalizer plan = None"
  shows "leaves_ledger (plan_handler command build) command" "financial_leaves_receipts (plan_handler command build) command"
  using assms by (auto simp: leaves_ledger_def financial_leaves_receipts_def plan_handler_Inr same_ledger_def split: option.split)

lemma request_leaves:
  assumes "constructed request"
  shows "leaves_ledger (plan_handler (request_command request) (build_plan uuid5 actor request)) (request_command request)"
    "financial_leaves_receipts (plan_handler (request_command request) (build_plan uuid5 actor request)) (request_command request)"
  using assms by (auto intro!: plan_handler_leaves_ledger dest: build_plan_typed simp: typed_plan_def)

text \<open>The plan does not depend on the receipt that was reserved for it.\<close>

abbreviation reserved :: "command_receipt_record list \<Rightarrow> deferred_check list \<Rightarrow> db \<Rightarrow> db" where
  "reserved r d db \<equiv> db\<lparr>command_receipts := r, deferred_checks := d\<rparr>"

lemma reads_catalogs [simp]:
  "get_account (reserved r d db) = get_account db" "get_asset (reserved r d db) = get_asset db"
  "get_category_version (reserved r d db) = get_category_version db"
  "known_accounts (reserved r d db) = known_accounts db" "active_policy (reserved r d db) = active_policy db"
  "transaction_of (reserved r d db) = transaction_of db" "transaction_postings (reserved r d db) = transaction_postings db"
  by (intro ext; simp add: get_account_def get_asset_def get_category_version_def known_accounts_def active_policy_def
      transaction_of_def transaction_postings_def)+

lemma reads_journal [simp]:
  "build_posted_payload allow c (reserved r d db) = build_posted_payload allow c db"
  "simple_journal_command uuid5 sc (reserved r d db) = simple_journal_command uuid5 sc db"
  "reference_units ac (reserved r d db) = reference_units ac db"
  "adjustment_account ac (reserved r d db) = adjustment_account ac db"
  by (simp_all add: build_posted_payload_def simple_journal_command_def reference_units_def adjustment_account_def Let_def
      cong: list.case_cong)

lemma reads_adjustment [simp]:
  "current_accounting_units c (reserved r d db) = current_accounting_units c db"
  "adjustment_journal_command uuid5 c (reserved r d db) h = adjustment_journal_command uuid5 c db h"
  by (simp_all add: current_accounting_units_def adjustment_journal_command_def)

lemma reads_reversal [simp]:
  "ensure_transaction_id_available (reserved r d db) b t = ensure_transaction_id_available db b t"
  "source_touches_credit_card_account (reserved r d db) b ps = source_touches_credit_card_account db b ps"
  "closed_credit_card_account_id (reserved r d db) b ps = closed_credit_card_account_id db b ps"
  "has_active_credit_card_refunds (reserved r d db) b t = has_active_credit_card_refunds db b t"
  "transaction_touches_credit_card_account (reserved r d db) b t = transaction_touches_credit_card_account db b t"
  by (simp_all add: ensure_transaction_id_available_def stream_head_of_def source_touches_credit_card_account_def
      closed_credit_card_account_id_def has_active_credit_card_refunds_def transaction_touches_credit_card_account_def)

lemma reads_source [simp]:
  "reversible_postings (reserved r d db) b t p = reversible_postings db b t p"
  "load_reversal_source (reserved r d db) b t t' = load_reversal_source db b t t'"
  by (cases p; simp add: reversible_postings_def load_reversal_source_def)
    (simp add: load_reversal_source_def reversible_postings_def cong: event_payload.case_cong)

lemma reads_reporting [simp]:
  "load_reporting_target (reserved r d db) b t = load_reporting_target db b t"
  "validate_line_category c (reserved r d db) = validate_line_category c db"
  by (simp_all add: load_reporting_target_def fun_eq_iff validate_line_category_def split: reporting_dimension.split option.split)

lemma reads_lines [simp]: "validate_lines c (reserved r d db) t = validate_lines c db t"
  by (simp add: validate_lines_def)

lemma reads_cards [simp]:
  "load_refund_source (reserved r d db) cb t = load_refund_source db cb t"
  "validate_refund_capacity (reserved r d db) b t u = validate_refund_capacity db b t u"
  "counter_account (reserved r d db) c = counter_account db c"
  "build_card_payload uuid5 c (reserved r d db) = build_card_payload uuid5 c db"
  by (simp_all add: load_refund_source_def validate_refund_capacity_def card_row_def active_refunds_def counter_account_def
      build_card_payload_def cong: option.case_cong credit_card_command.case_cong)

lemma reads_fx [simp]:
  "build_fx_payload uuid5 c (reserved r d db) = build_fx_payload uuid5 c db"
  "build_fx_card_payload uuid5 xc (reserved r d db) = build_fx_card_payload uuid5 xc db"
  by (simp_all add: build_fx_payload_def build_fx_card_payload_def fee_accounts_def cong: list.case_cong)

lemma reads_lots [simp]:
  "load_linked_transaction (reserved r d db) b t = load_linked_transaction db b t"
  "validate_assets (reserved r d db) i j = validate_assets db i j"
  "load_investment_events (reserved r d db) b = load_investment_events db b"
  by (simp_all add: load_linked_transaction_def validate_assets_def load_investment_events_def)

lemma build_plan_reserved: "build_plan uuid5 actor request (reserved r d db) h = build_plan uuid5 actor request db h"
  by (cases request; simp)
    (simp_all add: build_post_transaction_plan_def build_simple_plan_def build_adjustment_plan_def build_reverse_plan_def
      build_correction_plan_def build_fx_plan_def build_fx_credit_card_payment_plan_def build_card_plan_def
      build_assign_plan_def build_clear_plan_def build_reference_plan_def build_acquire_plan_def build_dispose_plan_def)

section \<open>The effect of a request\<close>

lemma reserve_reserved:
  assumes "reserve_command sha256 authorize actor kh command s = Inr (hr, s1)"
  obtains r d where "se_db s1 = reserved r d (se_db s)"
proof -
  from assms obtain db1 where r: "reserve_or_lock (receipt_scope_of actor kh command) (fst hr) (cm_command_id command) (se_db s)
      = Inr (snd hr, db1)" and s1: "s1 = s\<lparr>se_db := db1\<rparr>" by (rule reserve_command_Inr)
  from r show thesis
  proof (cases rule: reserve_or_lock_Inr)
    case created
    with that s1 show thesis by simp
  next
    case (found p)
    with that [of "deferred_checks (se_db s)" "command_receipts (se_db s)"] s1 show thesis by simp
  qed
qed

text \<open>What one run of a request did to the database, when it was not a replay.\<close>

definition request_effect ::
    "name_uuid \<Rightarrow> command_actor \<Rightarrow> request \<Rightarrow> command_result \<Rightarrow> db \<Rightarrow> db \<Rightarrow> bool" where
  "request_effect uuid5 actor request result db db' \<longleftrightarrow>
     (\<exists>plan locked. build_plan uuid5 actor request db locked = Inr plan
        \<and> lk_book_id locked = cm_book_id (request_command request)
        \<and> lk_last_position locked = int (length (book_log db (lk_book_id locked)))
        \<and> re_body result = lp_body plan
        \<and> (\<forall>b. book_log db' b = book_log db b @ (if b = lk_book_id locked then lp_events plan else []))
        \<and> (\<forall>k. balance_of db' k = balance_of db k
              + fact_amount (lk_book_id locked) k (concat (map (payload_postings \<circ> pe_payload) (lp_events plan)))))"

lemma execute_request_once:
  assumes run: "execute_financial_once sha256 authorize (plan_handler command build) actor kh command now token s = Inr (out, s')"
    and new: "\<not> co_replayed out" and final: "\<And>db h plan. build db h = Inr plan \<Longrightarrow> lp_post_projection_finalizer plan = None"
    and reach: "ledger_reachable sha256 (se_db s)" and keyed: "rows_keyed (se_db s)"
    and reads: "\<And>r d db h. build (reserved r d db) h = build db h"
  obtains plan locked where "build (se_db s) locked = Inr plan" "lk_book_id locked = cm_book_id command"
    "lk_last_position locked = int (length (book_log (se_db s) (lk_book_id locked)))"
    "re_body (co_result out) = lp_body plan"
    "\<forall>b. book_log (se_db s') b = book_log (se_db s) b @ (if b = lk_book_id locked then lp_events plan else [])"
    "\<forall>k. balance_of (se_db s') k = balance_of (se_db s) k
       + fact_amount (lk_book_id locked) k (concat (map (payload_postings \<circ> pe_payload) (lp_events plan)))"
    "rows_keyed (se_db s')"
  using run
proof (cases rule: execute_financial_once_Inr)
  case (work hr s1 locked s2 plan s3 appended s4 s5 p db6)
  from work(1) obtain r d where s1: "se_db s1 = reserved r d (se_db s)" by (rule reserve_reserved)
  note lock = lock_keeps [OF work(3)]
  from work(4) have build: "build (se_db s2) locked = Inr plan" and s3: "s3 = s2" by (simp_all add: plan_handler_Inr)
  have db3: "se_db s3 = reserved r d (se_db s)" using s1 lock s3 by simp
  have plan: "build (se_db s) locked = Inr plan" using build s1 lock by (simp add: reads)
  have s5: "s5 = s4" using work(7) final [OF build] by (simp add: run_finalizer_def)
  have keyed3: "rows_keyed (se_db s3)" using keyed by (simp add: rows_keyed_def db3)
  note eff = append_and_project_balance [OF work(6) keyed3]
  have db': "se_db s' = db6" using work(11) by simp
  note s6 = complete_keeps [OF work(10)]
  have ap: "applied_events db6 = applied_events (se_db s5)" "accounts db6 = accounts (se_db s5)"
    using work(10) by (auto elim!: complete_Inr)
  from work(6) obtain db1 db2 where app: "append_batch sha256 (lk_book_id locked) (lp_expected_stream_versions plan)
      (lp_events plan) (se_db s3) = Inr (appended, db1)"
    and pr: "project_all (reload_events (lk_book_id locked) (ar_event_ids appended) db1) db1 = Inr db2" and s4: "se_db s4 = db2"
    by (rule append_and_project_Inr) simp
  have "book_log (se_db s4) b = book_log db1 b" for b
    using project_all_frame [OF pr] by (simp add: s4 book_log_def book_events_def)
  moreover have "book_log (se_db s3) b = book_log (se_db s) b" for b by (simp add: db3 book_log_def book_events_def)
  ultimately have log: "book_log (se_db s') b = book_log (se_db s) b @ (if b = lk_book_id locked then lp_events plan else [])" for b
    using append_batch_log [OF app] same_ledger_log [OF s6(1)] by (simp add: s5 db')
  have bal: "balance_of (se_db s') k = balance_of (se_db s) k
      + fact_amount (lk_book_id locked) k (concat (map (payload_postings \<circ> pe_payload) (lp_events plan)))" for k
    using eff(1) balance_of_same [OF s6(2)] by (simp add: s5 db' db3 balance_of_def)
  from work(3) obtain head where head: "find_by hd_book_id (cm_book_id command) (book_event_heads (se_db s1)) = Some head"
    and pos: "lk_last_position locked = hd_last_position head"
    by (auto simp: execute_under_book_lock_def split: option.splits if_splits)
  have "lk_last_position locked = int (length (book_log (se_db s) (lk_book_id locked)))"
    using reachable_head(1) [OF reach, of "cm_book_id command" head] head pos lock by (simp add: s1 book_log_def)
  moreover have "rows_keyed (se_db s')"
    using eff(2) s6(1) ap by (simp add: s5 db' rows_keyed_def same_ledger_def)
  moreover have "re_body (co_result out) = lp_body plan" using work(9) by (simp add: plan_result_def)
  ultimately show thesis using that plan lock log bal by blast
qed (use new in simp_all)

lemma balance_of_commit: "commit db = Inr db' \<Longrightarrow> balance_of db' k = balance_of db k"
  by (auto dest!: commit_Inr simp: balance_of_def)

lemma run_request_effect:
  assumes run: "run_request sha256 uuid5 request raw_key actor n attempts db = (Inr out, db')" "\<not> co_replayed out"
    and ok: "constructed request" and reach: "ledger_reachable sha256 db" "rows_keyed db"
    and alone: "\<And>i. at_others (attempts i) = (\<lambda>d. d)" "\<And>i e. at_fault (attempts i) \<noteq> Some (Unacknowledged e)"
  shows "request_effect uuid5 actor request (co_result out) db db' \<and> rows_keyed db'"
proof -
  let ?command = "request_command request" and ?build = "build_plan uuid5 actor request"
  from financial_committed [OF run(1) [unfolded run_request_def] alone] obtain i s where
    body: "execute_financial_once sha256 authorize_journal_write (plan_handler ?command ?build) actor
      (sha256 (utf8 (code_points raw_key))) ?command (at_clock (attempts i)) (at_lock_token (attempts i)) (open_session i db)
      = Inr (out, s)" and com: "commit (se_db s) = Inr db'"
    by blast
  have final: "lp_post_projection_finalizer plan = None" if "?build d h = Inr plan" for d h plan
    using build_plan_typed [OF ok that] by (simp add: typed_plan_def)
  have db: "se_db (open_session i db) = db" by (simp add: open_session_def)
  from body run(2) final obtain plan locked where plan: "?build db locked = Inr plan"
      "lk_book_id locked = cm_book_id ?command" "lk_last_position locked = int (length (book_log db (lk_book_id locked)))"
      "re_body (co_result out) = lp_body plan"
    and log: "\<forall>b. book_log (se_db s) b = book_log db b @ (if b = lk_book_id locked then lp_events plan else [])"
    and bal: "\<forall>k. balance_of (se_db s) k = balance_of db k
       + fact_amount (lk_book_id locked) k (concat (map (payload_postings \<circ> pe_payload) (lp_events plan)))"
    and keyed: "rows_keyed (se_db s)"
    by (rule execute_request_once) (use reach build_plan_reserved in \<open>simp_all add: db\<close>)
  have "\<forall>b. book_log db' b = book_log db b @ (if b = lk_book_id locked then lp_events plan else [])"
    using log by (simp add: same_ledger_log [OF commit_keeps [OF com]])
  moreover have "\<forall>k. balance_of db' k = balance_of db k
       + fact_amount (lk_book_id locked) k (concat (map (payload_postings \<circ> pe_payload) (lp_events plan)))"
    using bal unfolding balance_of_commit [OF com] .
  moreover have "rows_keyed db'" using keyed commit_Inr [OF com] by (simp add: rows_keyed_def)
  ultimately show ?thesis using plan unfolding request_effect_def by blast
qed

section \<open>The facts of a posted payload\<close>

definition fact_of_posting :: "db \<Rightarrow> post_transaction_posting \<Rightarrow> journal_posting_fact \<Rightarrow> bool" where
  "fact_of_posting db posting f \<longleftrightarrow> jp_account_id f = pp_account_id posting \<and> jp_asset_code f = pp_asset_code posting
     \<and> jp_side f = pp_side posting
     \<and> (\<exists>policy units. active_policy db (pp_asset_code posting) = Inr (pp_asset_code posting, policy)
          \<and> parse_units policy (pp_amount posting) = Inr units \<and> units_value (jp_units f) = units)"

lemma parse_units_positive: "parse_units policy raw = Inr u \<Longrightarrow> 0 < u"
  by (auto simp: parse_units_def parse_online_def parse_Inr_iff units_ok_def result_simps)

lemma active_policies:
  "list_all2 (\<lambda>code pol. active_policy db code = Inr pol) codes pols \<Longrightarrow> map_of pols code = Some policy \<Longrightarrow>
     active_policy db code = Inr (code, policy)"
proof (induction rule: list_all2_induct)
  case (Cons c cs pol pols)
  then have "fst pol = c" by (auto simp: active_policy_def result_simps split: option.splits if_splits)
  with Cons show ?case by (cases pol) (auto split: if_splits)
qed simp

lemma posting_fact_Inr:
  "posting_fact d = Inr f \<Longrightarrow> UUID (pd_account_id d) = Inr (jp_account_id f) \<and> jp_asset_code f = pd_asset_code d
     \<and> jp_side f = pd_side d \<and> jp_units f = int_str (pd_units d)"
  by (auto simp: posting_fact_def result_simps)

lemma build_posted_payload_facts:
  assumes "build_posted_payload allow c db = Inr p"
  shows "list_all2 (fact_of_posting db) (pc_postings c) (tp_postings p)"
proof -
  from assms obtain pols drafts where
    pols: "list_all2 (\<lambda>code pol. active_policy db code = Inr pol) (sorted_codes (map pp_asset_code (pc_postings c))) pols" and
    drafts: "posting_drafts_of pols (pc_postings c) = Inr drafts" and
    facts: "list_all2 (\<lambda>d f. posting_fact d = Inr f) drafts (tp_postings p)"
    by (auto simp: build_posted_payload_def Let_def result_simps)
  from drafts have d: "list_all2 (\<lambda>(n, posting) d. pd_account_id d = uuid_str (pp_account_id posting)
      \<and> pd_asset_code d = pp_asset_code posting \<and> pd_side d = pp_side posting
      \<and> (\<exists>policy. map_of pols (pp_asset_code posting) = Some policy \<and> parse_units policy (pp_amount posting) = Inr (pd_units d)))
      (enumerate 0 (pc_postings c)) drafts"
    by (auto simp: posting_drafts_of_def result_simps elim!: list_all2_mono)
  show ?thesis
    unfolding list_all2_conv_all_nth
  proof (intro conjI allI impI)
    show len: "length (pc_postings c) = length (tp_postings p)"
      using list_all2_lengthD [OF d] list_all2_lengthD [OF facts] by simp
    fix i assume i: "i < length (pc_postings c)"
    let ?d = "drafts ! i" and ?f = "tp_postings p ! i" and ?p = "pc_postings c ! i"
    have ld: "length drafts = length (pc_postings c)" using list_all2_lengthD [OF d] by simp
    have D: "pd_account_id ?d = uuid_str (pp_account_id ?p)" "pd_asset_code ?d = pp_asset_code ?p" "pd_side ?d = pp_side ?p"
      "\<exists>policy. map_of pols (pp_asset_code ?p) = Some policy \<and> parse_units policy (pp_amount ?p) = Inr (pd_units ?d)"
      using list_all2_nthD [OF d, of i] i by (simp_all add: nth_enumerate_eq)
    have F: "posting_fact ?d = Inr ?f" using list_all2_nthD [OF facts, of i] i ld by simp
    from D(4) obtain policy where pol: "map_of pols (pp_asset_code ?p) = Some policy"
      "parse_units policy (pp_amount ?p) = Inr (pd_units ?d)" by blast
    from parse_units_positive [OF pol(2)] have u: "units_value (int_str (pd_units ?d)) = pd_units ?d"
      by (simp add: int_str_def)
    from posting_fact_Inr [OF F] D(1-3) have f: "jp_account_id ?f = pp_account_id ?p" "jp_asset_code ?f = pp_asset_code ?p" "jp_side ?f = pp_side ?p"
      "jp_units ?f = int_str (pd_units ?d)"
      by simp_all
    show "fact_of_posting db ?p ?f"
      using f u active_policies [OF pols pol(1)] pol(2) by (auto simp: fact_of_posting_def)
  qed
qed

lemma decode_literal:
  assumes "scaled_units_ok m"
  shows "literal_units (decode m) (nat (su_scale m)) = nat (su_units m)"
proof -
  from assms obtain w f where wf: "list_all is_digit w" "w \<noteq> []" "list_all is_digit f"
    "length f \<le> nat (su_scale m)"
    "decode m = (if f = [] then w else w @ CHR ''.'' # f)"
    "str_nat (w @ ljust0 (nat (su_scale m)) f) = nat (su_units m)"
    by (rule decode_shape)
  from wf(1-5) have "partition_dot (decode m) = (w, f)" by simp
  then show ?thesis
    using wf(4,6) by (simp add: literal_units_def str_nat_append str_nat_ljust0 length_ljust0)
qed

lemma parse_units_decode:
  assumes "ScaledUnits u s = Inr m" "parse_units policy (decode m) = Inr v" "ledger_scale policy = s"
  shows "v = u"
proof -
  from assms(1) have m: "scaled_units_ok m" "su_units m = u" "su_scale m = s" "0 < u"
    by (auto simp: ScaledUnits_iff scaled_units_ok_def units_ok_def)
  from assms(2,3) have "v = int (literal_units (decode m) (nat s))"
    by (auto simp: parse_units_def parse_online_def parse_Inr_iff result_simps)
  with decode_literal [OF m(1)] m show ?thesis by simp
qed

section \<open>Adjusting a balance\<close>

text \<open>A balance as the owner of the account counts it, as ledger units: a liability counts the other way.\<close>

definition natural_units :: "account_record \<Rightarrow> int \<Rightarrow> int" where
  "natural_units account units = (if is_asset_account account then units else - units)"

lemma current_accounting_balance:
  "current_accounting_units c db = Inr u \<Longrightarrow> balance_of db (aj_book_id c, aj_account_id c, aj_asset_code c) = u"
  by (auto simp: current_accounting_units_def balance_of_def Let_def split: option.splits if_splits)

lemma adjustment_account_other:
  assumes "adjustment_account c db = Inr other" "get_account db (aj_book_id c) (aj_account_id c) = Inr account"
    "reconcilable c account = Inr ()" "distinct (map account_key (accounts db))"
  shows "ac_account_id other \<noteq> aj_account_id c"
proof
  assume same: "ac_account_id other = aj_account_id c"
  from assms(1) obtain a where a: "filter (\<lambda>a. ac_book_id a = aj_book_id c \<and> ac_asset_code a = aj_asset_code c
      \<and> ac_account_type a = account_type_value T_SYSTEM \<and> ac_account_subtype a = Some ''system_adjustment''
      \<and> ac_status a = ''active'') (accounts db) = [a]"
    and other: "get_account db (aj_book_id c) (ac_account_id a) = Inr other"
    by (auto simp: adjustment_account_def split: list.splits)
  from a have "a \<in> set (filter (\<lambda>a. ac_book_id a = aj_book_id c \<and> ac_asset_code a = aj_asset_code c
      \<and> ac_account_type a = account_type_value T_SYSTEM \<and> ac_account_subtype a = Some ''system_adjustment''
      \<and> ac_status a = ''active'') (accounts db))" by simp
  then have a: "a \<in> set (accounts db)" "account_key a = (aj_book_id c, ac_account_id a)" "ac_account_type a = account_type_value T_SYSTEM"
    by (auto simp: account_key_def)
  from find_by_distinct [OF assms(4) a(1)] a(2) other have "other = a"
    by (simp add: get_account_def found_def)
  moreover from assms(2) other same have "other = account"
    using calculation by simp
  ultimately show False using assms(3) a(3)
    by (simp add: reconcilable_def is_asset_account_def result_simps)
qed

lemma adjustment_plan_effect:
  assumes "build_adjustment_plan uuid5 actor c db h = Inr plan" "distinct (map account_key (accounts db))"
  obtains account asset policy expected actual where
    "get_account db (aj_book_id c) (aj_account_id c) = Inr account" "get_asset db (aj_asset_code c) = Inr asset"
    "asset_policy_of asset = Inr policy" "parse_non_negative_balance (aj_expected_balance c) policy = Inr expected"
    "parse_non_negative_balance (aj_actual_balance c) policy = Inr actual"
    "balance_of db (aj_book_id c, aj_account_id c, aj_asset_code c) = natural_units account expected"
    "fact_amount (aj_book_id c) (aj_book_id c, aj_account_id c, aj_asset_code c)
       (concat (map (payload_postings \<circ> pe_payload) (lp_events plan))) = natural_units account (actual - expected)"
proof -
  from assms(1) obtain j where j: "adjustment_journal_command uuid5 c db h = Inr j"
    and plan: "build_post_transaction_plan uuid5 actor True j db h = Inr plan"
    by (auto simp: build_adjustment_plan_def result_simps)
  from plan obtain payload where payload: "build_posted_payload True j db = Inr payload"
    and moved: "concat (map (payload_postings \<circ> pe_payload) (lp_events plan)) = tp_postings payload"
    by (auto simp: build_post_transaction_plan_def result_simps created_plan_def build_posted_pending_def)
  from j show thesis
  proof (rule adjustment_journal_command_Inr)
    fix account asset policy expected actual current scaled ids and other :: account_record
    let ?account = "aj_account_id c" and ?other = "ac_account_id other"
    assume a: "get_account db (aj_book_id c) ?account = Inr account" "reconcilable c account = Inr ()"
        "get_asset db (aj_asset_code c) = Inr asset" "asset_policy_of asset = Inr policy"
      and active: "sa_status asset = ''active''"
      and e: "parse_non_negative_balance (aj_expected_balance c) policy = Inr expected"
        "parse_non_negative_balance (aj_actual_balance c) policy = Inr actual"
        "current_accounting_units c db = Inr current"
        "expected = (if is_asset_account account then current else - current)"
      and o: "adjustment_account c db = Inr other" "ScaledUnits \<bar>actual - expected\<bar> (sa_ledger_scale asset) = Inr scaled"
        "ids = (if (0 < actual - expected) = is_asset_account account then (?account, ?other) else (?other, ?account))"
      and jj: "j = \<lparr>pc_book_id = aj_book_id c, pc_command_id = aj_command_id c, pc_transaction_id = aj_transaction_id c,
        pc_expected_stream_version = aj_expected_stream_version c, pc_kind = K_ADJUSTMENT,
        pc_postings = [adjustment_posting uuid5 c (decode scaled) ''debit'' (fst ids) DEBIT,
          adjustment_posting uuid5 c (decode scaled) ''credit'' (snd ids) CREDIT],
        pc_effective_at = aj_effective_at c, pc_description_ref = None, pc_external_references = []\<rparr>"
    note other = adjustment_account_other [OF o(1) a(1,2) assms(2)]
    have pol: "active_policy db (aj_asset_code c) = Inr (aj_asset_code c, policy)"
      using a(3,4) active by (simp add: active_policy_def get_asset_def found_iff)
    have scale: "ledger_scale policy = sa_ledger_scale asset"
      using a(4) by (auto simp: asset_policy_of_def AssetPolicy_def result_simps split: if_splits)
    have units: "v = \<bar>actual - expected\<bar>" if "parse_units policy (decode scaled) = Inr v" for v
      using parse_units_decode [OF o(2) that scale] .
    from build_posted_payload_facts [OF payload] obtain f g where
      fs: "tp_postings payload = [f, g]"
      and f: "fact_of_posting db (adjustment_posting uuid5 c (decode scaled) ''debit'' (fst ids) DEBIT) f"
      and g: "fact_of_posting db (adjustment_posting uuid5 c (decode scaled) ''credit'' (snd ids) CREDIT) g"
      by (auto simp: jj list_all2_Cons1)
    have F: "jp_account_id f = fst ids" "jp_asset_code f = aj_asset_code c" "fact_signed f = \<bar>actual - expected\<bar>"
      using f pol units by (auto simp: fact_of_posting_def adjustment_posting_def fact_signed_def)
    have G: "jp_account_id g = snd ids" "jp_asset_code g = aj_asset_code c" "fact_signed g = - \<bar>actual - expected\<bar>"
      using g pol units by (auto simp: fact_of_posting_def adjustment_posting_def fact_signed_def)
    have "fact_amount (aj_book_id c) (aj_book_id c, ?account, aj_asset_code c) (tp_postings payload)
        = natural_units account (actual - expected)"
      using o(3) other by (simp add: fs fact_amount_def F G natural_units_def split: if_splits)
    moreover have "balance_of db (aj_book_id c, ?account, aj_asset_code c) = natural_units account expected"
      using current_accounting_balance [OF e(3)] e(4) by (simp add: natural_units_def)
    ultimately show thesis using that a e(1,2) by (simp add: moved)
  qed
qed

section \<open>Taking back a transaction\<close>

lemma reversible_postings_Inr:
  "reversible_postings db b t payload = Inr ps \<Longrightarrow> source_transaction payload = Some (t, ps)"
  by (cases payload) (auto simp: reversible_postings_def source_transaction_def result_simps)

lemma load_reversal_source_Inr:
  assumes "load_reversal_source db b t t' = Inr source"
  shows "transaction_of db b t = Some (so_transaction source)"
    and "find_by event_book_key (b, jt_source_event_id (so_transaction source)) (ledger_events db) = Some (so_event source)"
    and "source_transaction (le_payload (so_event source)) = Some (t, so_postings source)"
    and "find_by reversal_target_key (b, t) (transaction_reversals db) = None"
    and "t' \<noteq> t" "transaction_of db b t' = None"
proof -
  have stored: "p = payload" if "validate_stored ty v p = Inr payload" for ty v p payload
    using that by (auto simp: validate_stored_def split: if_splits sum.splits)
  from assms show "transaction_of db b t = Some (so_transaction source)"
    "find_by event_book_key (b, jt_source_event_id (so_transaction source)) (ledger_events db) = Some (so_event source)"
    "source_transaction (le_payload (so_event source)) = Some (t, so_postings source)"
    "find_by reversal_target_key (b, t) (transaction_reversals db) = None"
    "t' \<noteq> t" "transaction_of db b t' = None"
    by (auto simp: load_reversal_source_def ensure_transaction_id_available_def result_simps
        dest!: stored reversible_postings_Inr)
qed

lemma inverse_posting_of: "inverse_of p (inverse_posting uuid5 t p)"
  by (simp add: inverse_of_def inverse_posting_def opposite_side_def)

lemma inverse_postings_amount: "fact_amount b k (map (inverse_posting uuid5 t) ps) = - fact_amount b k ps"
  by (rule fact_amount_inverse) (simp add: list_all2_map2 inverse_posting_of list_all2_refl)

lemma reverse_plan_event:
  assumes "build_reverse_plan uuid5 actor c db h = Inr plan"
  obtains source where "load_reversal_source db (rt_book_id c) (rt_reverses_transaction_id c)
      (rt_reversal_transaction_id c) = Inr source"
    "\<exists>pending. lp_events plan = [pending] \<and> pe_payload pending = JournalTransactionReversed
      (reversal_payload_of uuid5 (rt_reversal_transaction_id c) (rt_reason_code c) (rt_description_ref c) source)"
  using assms
  by (auto simp: build_reverse_plan_def build_reversal_pending_def created_plan_def Let_def result_simps)

lemma reverse_plan_effect:
  assumes "build_reverse_plan uuid5 actor c db h = Inr plan"
  obtains source where "load_reversal_source db (rt_book_id c) (rt_reverses_transaction_id c)
      (rt_reversal_transaction_id c) = Inr source"
    "concat (map (payload_postings \<circ> pe_payload) (lp_events plan))
       = map (inverse_posting uuid5 (rt_reversal_transaction_id c)) (so_postings source)"
proof -
  from assms obtain source where "load_reversal_source db (rt_book_id c) (rt_reverses_transaction_id c)
      (rt_reversal_transaction_id c) = Inr source" and
    "\<exists>pending. lp_events plan = [pending] \<and> pe_payload pending = JournalTransactionReversed
      (reversal_payload_of uuid5 (rt_reversal_transaction_id c) (rt_reason_code c) (rt_description_ref c) source)"
    by (rule reverse_plan_event)
  with that show thesis by (auto simp: reversal_payload_of_def)
qed

section \<open>Properties\<close>

text \<open>
  Property C7: a financial request that is executed has exactly the effect of its plan. When a call of
  any of the thirteen modelled commands (the entry gateway, repairs and the import are not among them) returns an outcome that is not a replay, its handler built a plan on
  the database as it was, for the Book's head as it was; the Book's log grew by the events of that plan and no other
  log changed; every account of every Book moved by the signed sum of the postings in those events; and the body of the result is
  the plan's.
\<close>

theorem request_takes_effect:
  assumes "run_request sha256 uuid5 request raw_key actor n attempts db = (Inr out, db')" "\<not> co_replayed out"
    and "constructed request" "ledger_reachable sha256 db" "rows_keyed db"
    and "\<And>i. at_others (attempts i) = (\<lambda>d. d)" "\<And>i e. at_fault (attempts i) \<noteq> Some (Unacknowledged e)"
  shows "\<exists>plan locked. build_plan uuid5 actor request db locked = Inr plan
        \<and> lk_book_id locked = cm_book_id (request_command request)
        \<and> lk_last_position locked = int (length (book_log db (lk_book_id locked)))
        \<and> re_body (co_result out) = lp_body plan
        \<and> (\<forall>b. book_log db' b = book_log db b @ (if b = lk_book_id locked then lp_events plan else []))
        \<and> (\<forall>k. balance_of db' k = balance_of db k
              + fact_amount (lk_book_id locked) k (concat (map (payload_postings \<circ> pe_payload) (lp_events plan))))"
  using run_request_effect [OF assms] unfolding request_effect_def by (rule conjunct1)

text \<open>
  Property C6: a balance adjustment brings the account to the balance asked for. When the command is
  executed, the account held the expected balance before, and holds the actual balance after it, counted the
  way its owner counts it (the balance of a credit card is what is owed), to the last ledger unit of the asset.
\<close>

theorem adjustment_reaches_balance:
  assumes "run_request sha256 uuid5 (AdjustmentRequest c) raw_key actor n attempts db = (Inr out, db')" "\<not> co_replayed out"
    and "constructed (AdjustmentRequest c)" "ledger_reachable sha256 db" "rows_keyed db"
    and "\<And>i. at_others (attempts i) = (\<lambda>d. d)" "\<And>i e. at_fault (attempts i) \<noteq> Some (Unacknowledged e)"
  shows "\<exists>account asset policy expected actual.
      get_account db (aj_book_id c) (aj_account_id c) = Inr account
      \<and> get_asset db (aj_asset_code c) = Inr asset \<and> asset_policy_of asset = Inr policy
      \<and> parse_non_negative_balance (aj_expected_balance c) policy = Inr expected
      \<and> parse_non_negative_balance (aj_actual_balance c) policy = Inr actual
      \<and> balance_of db (aj_book_id c, aj_account_id c, aj_asset_code c) = natural_units account expected
      \<and> balance_of db' (aj_book_id c, aj_account_id c, aj_asset_code c) = natural_units account actual"
proof -
  from run_request_effect [OF assms] obtain plan locked where
    plan: "build_adjustment_plan uuid5 actor c db locked = Inr plan" and b: "lk_book_id locked = aj_book_id c" and
    bal: "\<forall>k. balance_of db' k = balance_of db k
        + fact_amount (lk_book_id locked) k (concat (map (payload_postings \<circ> pe_payload) (lp_events plan)))"
    unfolding request_effect_def by (auto simp: adjustment_as_command_def)
  have "distinct (map account_key (accounts db))" using assms(5) by (simp add: rows_keyed_def)
  from adjustment_plan_effect [OF plan this] obtain account asset policy expected actual where
    "get_account db (aj_book_id c) (aj_account_id c) = Inr account" "get_asset db (aj_asset_code c) = Inr asset"
    "asset_policy_of asset = Inr policy" "parse_non_negative_balance (aj_expected_balance c) policy = Inr expected"
    "parse_non_negative_balance (aj_actual_balance c) policy = Inr actual"
    and before: "balance_of db (aj_book_id c, aj_account_id c, aj_asset_code c) = natural_units account expected"
    and moved: "fact_amount (aj_book_id c) (aj_book_id c, aj_account_id c, aj_asset_code c)
       (concat (map (payload_postings \<circ> pe_payload) (lp_events plan))) = natural_units account (actual - expected)"
    by blast
  moreover have "balance_of db' (aj_book_id c, aj_account_id c, aj_asset_code c) = natural_units account actual"
    using bal [rule_format, of "(aj_book_id c, aj_account_id c, aj_asset_code c)"] before moved
    by (simp add: b natural_units_def split: if_splits)
  ultimately show ?thesis by blast
qed

text \<open>
  Executed, a reversal moves every account back by the signed sum of the postings that the transaction's own
  event carries.
\<close>

lemma reversal_takes_back:
  assumes "run_request sha256 uuid5 (ReverseRequest c) raw_key actor n attempts db = (Inr out, db')" "\<not> co_replayed out"
    and "constructed (ReverseRequest c)" "ledger_reachable sha256 db" "rows_keyed db"
    and "\<And>i. at_others (attempts i) = (\<lambda>d. d)" "\<And>i e. at_fault (attempts i) \<noteq> Some (Unacknowledged e)"
  shows "\<exists>transaction event postings.
      transaction_of db (rt_book_id c) (rt_reverses_transaction_id c) = Some transaction
      \<and> find_by event_book_key (rt_book_id c, jt_source_event_id transaction) (ledger_events db) = Some event
      \<and> source_transaction (le_payload event) = Some (rt_reverses_transaction_id c, postings)
      \<and> find_by reversal_target_key (rt_book_id c, rt_reverses_transaction_id c) (transaction_reversals db) = None
      \<and> (\<forall>k. balance_of db' k = balance_of db k - fact_amount (rt_book_id c) k postings)"
proof -
  from run_request_effect [OF assms] obtain plan locked where
    plan: "build_reverse_plan uuid5 actor c db locked = Inr plan" and b: "lk_book_id locked = rt_book_id c" and
    bal: "\<forall>k. balance_of db' k = balance_of db k
        + fact_amount (lk_book_id locked) k (concat (map (payload_postings \<circ> pe_payload) (lp_events plan)))"
    unfolding request_effect_def by (auto simp: reverse_as_command_def)
  from plan obtain source where source: "load_reversal_source db (rt_book_id c) (rt_reverses_transaction_id c)
      (rt_reversal_transaction_id c) = Inr source"
    and moved: "concat (map (payload_postings \<circ> pe_payload) (lp_events plan))
       = map (inverse_posting uuid5 (rt_reversal_transaction_id c)) (so_postings source)" by (rule reverse_plan_effect)
  have "\<forall>k. balance_of db' k = balance_of db k - fact_amount (rt_book_id c) k (so_postings source)"
    using bal unfolding moved b inverse_postings_amount by simp
  with load_reversal_source_Inr [OF source] show ?thesis by blast
qed

text \<open>
  Property C11: the plan of a reversal is the exact inverse of what is stored. The transaction is on
  the journal and was not reversed before, the new identifier is not taken, and the one event of the plan names the
  source event, its hash and the transaction; posting by posting it turns the side and keeps account, asset and units,
  so that every account goes back by what the source put on it; and the comparison with the source that the projector makes
  (\<open>validate_exact_inverse\<close>) accepts it exactly when uuid5 gave no posting an identifier the source uses. The other checks of the
  projection, such as the range of a balance, may still refuse it.
\<close>

theorem reversal_plan_exact:
  assumes "build_reverse_plan uuid5 actor c db h = Inr plan"
  shows "\<exists>transaction event postings pending p.
      transaction_of db (rt_book_id c) (rt_reverses_transaction_id c) = Some transaction
      \<and> find_by event_book_key (rt_book_id c, jt_source_event_id transaction) (ledger_events db) = Some event
      \<and> source_transaction (le_payload event) = Some (rt_reverses_transaction_id c, postings)
      \<and> find_by reversal_target_key (rt_book_id c, rt_reverses_transaction_id c) (transaction_reversals db) = None
      \<and> transaction_of db (rt_book_id c) (rt_reversal_transaction_id c) = None
      \<and> lp_events plan = [pending] \<and> pe_payload pending = JournalTransactionReversed p
      \<and> tr_original_event_id p = le_event_id event \<and> tr_original_event_hash p = bytes_hex (le_event_hash event)
      \<and> list_all2 inverse_of postings (tr_inverse_postings p)
      \<and> (\<forall>k. fact_amount (rt_book_id c) k (tr_inverse_postings p) = - fact_amount (rt_book_id c) k postings)
      \<and> (validate_exact_inverse postings (tr_inverse_postings p) = Inr ()
            \<longleftrightarrow> set (map jp_posting_id postings) \<inter> set (map jp_posting_id (tr_inverse_postings p)) = {})"
proof -
  from assms obtain source where source: "load_reversal_source db (rt_book_id c) (rt_reverses_transaction_id c)
      (rt_reversal_transaction_id c) = Inr source" and
    pending: "\<exists>pending. lp_events plan = [pending] \<and> pe_payload pending = JournalTransactionReversed
      (reversal_payload_of uuid5 (rt_reversal_transaction_id c) (rt_reason_code c) (rt_description_ref c) source)"
    by (rule reverse_plan_event)
  let ?p = "reversal_payload_of uuid5 (rt_reversal_transaction_id c) (rt_reason_code c) (rt_description_ref c) source"
  let ?ps = "so_postings source"
  have inverse: "list_all2 inverse_of ?ps (tr_inverse_postings ?p)"
    by (simp add: reversal_payload_of_def list_all2_map2 inverse_posting_of list_all2_refl)
  have amounts: "\<forall>k. fact_amount (rt_book_id c) k (tr_inverse_postings ?p) = - fact_amount (rt_book_id c) k ?ps"
    using fact_amount_inverse [OF inverse] by blast
  have ids: "tr_original_event_id ?p = le_event_id (so_event source)"
    "tr_original_event_hash ?p = bytes_hex (le_event_hash (so_event source))"
    by (simp_all add: reversal_payload_of_def)
  have check: "validate_exact_inverse ?ps (tr_inverse_postings ?p) = Inr ()
      \<longleftrightarrow> set (map jp_posting_id ?ps) \<inter> set (map jp_posting_id (tr_inverse_postings ?p)) = {}"
    by (simp only: validate_exact_inverse_Inr inverse simp_thms)
  from pending obtain event where "lp_events plan = [event]" "pe_payload event = JournalTransactionReversed ?p" by blast
  with load_reversal_source_Inr [OF source] ids inverse amounts check show ?thesis
    by (intro exI [of _ "so_transaction source"] exI [of _ "so_event source"] exI [of _ ?ps] exI [of _ event] exI [of _ ?p]) simp
qed

text \<open>
  The handler and the database count the same refunds. The sum that a refund
  command compares with the charge is the sum that the trigger of the credit-card projection compares with it; so
  the trigger never refuses, for its amount, a refund that the handler let through, and the handler refuses none that the
  trigger would take.
\<close>

theorem refund_checks_agree:
  assumes "card_row db b t = Some original"
  shows "active_refunds db b t = active_refund_units db b t
    \<and> (validate_refund_capacity db b t units = Inr () \<longleftrightarrow> active_refund_units db b t + units \<le> ct_units original)"
proof -
  have "active_refunds db b t = active_refund_units db b t"
    unfolding active_refunds_def active_refund_units_def
    by (rule arg_cong [where f = "\<lambda>xs. sum_list (map ct_units xs)"], rule filter_cong)
      (auto simp: active_refund_def reversed_transaction_def reversal_target_key_def list_ex_iff)
  with assms show ?thesis by (auto simp: validate_refund_capacity_def result_simps)
qed

end
