(* ===== verification/Adjustment_Example.thy ===== *)
theory Adjustment_Example
  imports Command_Effects Ledger_Verifier
begin

text \<open>
  One adjustment from the request to the commit, evaluated: the balance of an account without postings is
  found to be a quarter of a yuan.
\<close>

definition demo_adjustment :: record_adjustment_command where
  "demo_adjustment = \<lparr>aj_book_id = 2, aj_command_id = 40, aj_transaction_id = 9, aj_expected_stream_version = 0,
     aj_account_id = 21, aj_asset_code = ''CNY'', aj_expected_balance = ''0'', aj_actual_balance = ''0.25'', aj_effective_at = 0\<rparr>"

text \<open>Names by length: the event is 31, the debit posting 11 and the credit posting 12.\<close>

definition demo_names :: name_uuid where
  "demo_names _ name = (if length name = 42 then 11 else if length name = 43 then 12 else 31)"

lemma demo_adjustment_constructed: "RecordAdjustmentCommand demo_adjustment = Inr demo_adjustment"
proof -
  have "instant_literal 0" "AMOUNT_PATTERN ''0''" "AMOUNT_PATTERN ''0.25''" "asset_code_literal ''CNY''" by code_simp+
  then show ?thesis by (simp add: RecordAdjustmentCommand_def demo_adjustment_def require_valid_def)
qed

definition demo_adjustment_post :: post_transaction_command where
  "demo_adjustment_post = \<lparr>pc_book_id = 2, pc_command_id = 40, pc_transaction_id = 9, pc_expected_stream_version = 0,
     pc_kind = K_ADJUSTMENT, pc_postings = [demo_leg 11 21 DEBIT, demo_leg 12 22 CREDIT], pc_effective_at = 0,
     pc_description_ref = None, pc_external_references = []\<rparr>"

lemma demo_adjustment_reads:
  "get_account first_db 2 21 = Inr (demo_account 21 ''asset'')" "get_account first_db 2 22 = Inr demo_system_account"
  "get_asset first_db ''CNY'' = Inr demo_asset"
  "asset_policy_of demo_asset = Inr \<lparr>input_scale = 2, ledger_scale = 2\<rparr>"
  "active_policy first_db ''CNY'' = Inr (''CNY'', \<lparr>input_scale = 2, ledger_scale = 2\<rparr>)"
  "adjustment_account demo_adjustment first_db = Inr demo_system_account"
  "current_accounting_units demo_adjustment first_db = Inr 0"
  "reconcilable demo_adjustment (demo_account 21 ''asset'') = Inr ()"
  by (simp_all add: get_account_def get_asset_def found_def account_key_def find_by_def first_db_def demo_asset_def
      asset_policy_of_def AssetPolicy_def validate_scale_def MAX_SCALE_def result_simps active_policy_def
      adjustment_account_def demo_adjustment_def current_accounting_units_def reference_units_def reconcilable_def
      is_asset_account_def)

lemma demo_adjustment_balances:
  "parse_non_negative_balance ''0'' \<lparr>input_scale = 2, ledger_scale = 2\<rparr> = Inr 0"
  "parse_non_negative_balance ''0.25'' \<lparr>input_scale = 2, ledger_scale = 2\<rparr> = Inr 25"
  "ScaledUnits 25 2 = Inr \<lparr>su_units = 25, su_scale = 2\<rparr>" "decode \<lparr>su_units = 25, su_scale = 2\<rparr> = ''0.25''"
  "asset_code_literal ''CNY''" "AMOUNT_PATTERN ''0.25''" "instant_literal 0"
  by code_simp+

lemma length_uuid_str: "length (uuid_str u) = 36"
  by (simp add: uuid_str_def Let_def)

lemma demo_adjustment_names:
  "adjustment_posting_id demo_names 40 ''debit'' = 11" "adjustment_posting_id demo_names 40 ''credit'' = 12"
  by (simp_all add: adjustment_posting_id_def demo_names_def length_uuid_str)

lemma demo_adjustment_journal:
  "adjustment_journal_command demo_names demo_adjustment first_db (first_head 50) = Inr demo_adjustment_post"
proof -
  have fields: "aj_book_id demo_adjustment = 2" "aj_account_id demo_adjustment = 21" "aj_asset_code demo_adjustment = ''CNY''"
    "aj_expected_balance demo_adjustment = ''0''" "aj_actual_balance demo_adjustment = ''0.25''" "aj_command_id demo_adjustment = 40"
    "aj_transaction_id demo_adjustment = 9" "aj_expected_stream_version demo_adjustment = 0" "aj_effective_at demo_adjustment = 0"
    by (simp_all add: demo_adjustment_def)
  have asset: "sa_status demo_asset = ''active''" "sa_ledger_scale demo_asset = 2" by (simp_all add: demo_asset_def)
  have asset_account: "is_asset_account (demo_account 21 ''asset'')" by (simp add: is_asset_account_def)
  show ?thesis
    unfolding adjustment_journal_command_def fields demo_adjustment_reads asset
    by (simp add: require_valid_def demand_def demo_adjustment_reads demo_adjustment_balances demo_adjustment_names asset asset_account
        PostTransactionPosting_def PostTransactionCommand_def GENERAL_JOURNAL_KINDS_def demo_adjustment_post_def demo_leg_def Let_def)
qed

lemma demo_adjustment_payload:
  "build_posted_payload True demo_adjustment_post first_db = Inr first_posted"
proof -
  have codes: "sorted_codes [''CNY'', ''CNY''] = [''CNY'']" by code_simp
  have known: "known_accounts first_db 2 (sorted_ids [21, 22]) = [demo_account 21 ''asset'', demo_system_account]"
    by (simp add: known_accounts_def first_db_def account_key_def find_by_def List.map_filter_def sorted_ids_def
        demo_uuid_strs code_points_def)
  have drafts: "posting_drafts_of [(''CNY'', \<lparr>input_scale = 2, ledger_scale = 2\<rparr>)] [demo_leg 11 21 DEBIT, demo_leg 12 22 CREDIT]
      = Inr [demo_draft 11 0 21 DEBIT, demo_draft 12 1 22 CREDIT]"
    by (simp add: posting_drafts_of_def demo_leg_def demo_amount found_def)
  let ?system = "\<lparr>as_account_id = uuid_str 22, as_book_id = uuid_str 2, as_asset_code = ''CNY'', as_account_type = T_SYSTEM,
     as_account_subtype = Some ''system_adjustment'', as_system_role = R_BALANCE_ADJUSTMENT, as_status = ''active''\<rparr>"
  have domain: "domain_account (demo_account 21 ''asset'') = Inr (demo_snapshot 21 T_ASSET)"
    "domain_account demo_system_account = Inr ?system" by code_simp+
  have facts: "posting_fact (demo_draft i n a s) = Inr (demo_fact i n a s ''25'')" for i n a s
    by (simp add: posting_fact_def demo_25)
  have valid: "validate \<lparr>pt_transaction_id = uuid_str 9, pt_book_id = uuid_str 2, pt_kind = K_ADJUSTMENT,
     pt_postings = [demo_draft 11 0 21 DEBIT, demo_draft 12 1 22 CREDIT]\<rparr> [demo_snapshot 21 T_ASSET, ?system] = Inr ()"
    unfolding demo_uuid_strs by code_simp
  have contract: "validate_posted first_posted = Inr ()" by code_simp
  have accounts: "known_accounts first_db (pc_book_id demo_adjustment_post)
      (sorted_ids (map pp_account_id (pc_postings demo_adjustment_post))) = [demo_account 21 ''asset'', demo_system_account]"
    by (simp add: demo_adjustment_post_def demo_leg_def known)
  have policies: "mapE (active_policy first_db) (sorted_codes (map pp_asset_code (pc_postings demo_adjustment_post)))
      = Inr [(''CNY'', \<lparr>input_scale = 2, ledger_scale = 2\<rparr>)]"
    by (simp add: demo_adjustment_post_def demo_leg_def codes demo_adjustment_reads)
  show ?thesis
    unfolding build_posted_payload_def Let_def accounts policies
    by (simp add: domain drafts demo_adjustment_post_def valid facts contract_def contract)
qed

definition demo_adjustment_plan :: ledger_write_plan where
  "demo_adjustment_plan = created_plan [((''journal_transaction'', 9), 0)] [first_pending]
     [(''transaction_id'', juuid 9), (''as_of_book_position'', JInt 1)]"

lemma demo_adjustment_build:
  "build_plan demo_names demo_actor (AdjustmentRequest demo_adjustment) first_db (first_head 50) = Inr demo_adjustment_plan"
proof -
  have fields: "pc_book_id demo_adjustment_post = 2" "pc_transaction_id demo_adjustment_post = 9"
    "pc_expected_stream_version demo_adjustment_post = 0" "pc_command_id demo_adjustment_post = 40"
    "pc_effective_at demo_adjustment_post = 0" by (simp_all add: demo_adjustment_post_def)
  have name: "demo_names (event_namespace demo_names ''journal.post'') (uuid_str 40) = 31"
    by (simp add: demo_names_def length_uuid_str)
  show ?thesis
    by (simp add: build_adjustment_plan_def demo_adjustment_journal build_post_transaction_plan_def demo_adjustment_payload
        require_valid_def fields demo_adjustment_plan_def build_posted_pending_def name demo_actor_def)
qed

section \<open>The run\<close>

abbreviation demo_adjust :: command where
  "demo_adjust \<equiv> adjustment_as_command demo_adjustment"

lemma demo_adjust_fields: "cm_book_id demo_adjust = 2" "cm_command_id demo_adjust = 40"
  "cm_operation demo_adjust = ''journal.adjustment.record''"
  by (simp_all add: adjustment_as_command_def demo_adjustment_def)

lemma demo_adjust_authorized:
  "authorize_journal_write first_db demo_actor 2 = Inr (demo_scope [''ledger:write''])"
  "AuthorizationScope (demo_scope [''ledger:write'']) = Inr (demo_scope [''ledger:write''])"
  by (simp_all add: authorize_journal_write_def get_membership_def found_def demand_def find_by_def first_db_def demo_member_def
      demo_actor_def AuthorizationScope_def demo_scope_def require_valid_def subject_ok_def)

lemma demo_adjust_hash: "hash_command_request demo_sha demo_adjust (demo_scope [''ledger:write'']) = Inr demo_key"
proof -
  have scopes: "sorted_scopes [''ledger:write''] = [code_points ''ledger:write'']" by (simp add: sorted_scopes_def)
  have "prove_json_value (canonical_value (demo_scope [''ledger:write''])) = Inr ()"
    unfolding canonical_value_def
    by (intro prove_jobj) (auto simp: jstr_def juuid_def validate_key demo_scope_def scopes)
  moreover have "prove_json_value (adjustment_payload demo_adjustment) = Inr ()"
    unfolding adjustment_payload_def jinstant_def
    by (intro prove_jobj) (auto simp: jstr_def juuid_def validate_key demo_adjustment_def CANONICAL_INTEGER_ABS_LIMIT_def split: sum.split)
  ultimately have "prove_json_value (frozen_request demo_adjust (demo_scope [''ledger:write''])) = Inr ()"
    unfolding frozen_request_def
    by (intro prove_jobj) (auto simp: jstr_def juuid_def validate_key adjustment_as_command_def)
  moreover have "cm_payload demo_adjust = adjustment_payload demo_adjustment" by (simp add: adjustment_as_command_def)
  ultimately show ?thesis
    by (simp add: hash_command_request_def canonical_json_bytes_def demo_adjust_fields operation_ok_def require_valid_def
        demo_scope_def adjustment_payload_def jobj_def)
qed

abbreviation demo_adjust_scope :: receipt_scope where
  "demo_adjust_scope \<equiv> receipt_scope_of demo_actor demo_key demo_adjust"

definition adjust_reserved :: db where
  "adjust_reserved = first_db\<lparr>command_receipts := [new_receipt demo_adjust_scope demo_key 40],
     deferred_checks := [ReceiptCheck (new_receipt demo_adjust_scope demo_key 40)]\<rparr>"

definition adjust_result :: command_result where
  "adjust_result = plan_result demo_adjustment_plan (Some (1, 1))"

definition adjust_done :: command_receipt_record where
  "adjust_done = completed_receipt 7 adjust_result (new_receipt demo_adjust_scope demo_key 40)"

definition adjust_completed :: db where
  "adjust_completed = (first_projected adjust_reserved)\<lparr>command_receipts := [adjust_done],
     deferred_checks := deferred_checks (first_projected adjust_reserved) @ [ReceiptCheck adjust_done]\<rparr>"

definition adjust_final :: db where
  "adjust_final = adjust_completed\<lparr>deferred_checks := []\<rparr>"

lemmas receipt_simps = receipt_types_ok_def receipt_row_ok_def receipt_lifecycle_shape_def
  v2_guard_command_receipt_lifecycle_def receipt_refers_def table_checks new_receipt_def receipt_scope_of_def demo_actor_def
  demo_adjust_fields lock_receipt_def find_by_def receipt_key_def scope_key_def first_db_def

lemma adjust_reserve: "reserve_command demo_sha authorize_journal_write demo_actor demo_key demo_adjust (open_session i first_db)
  = Inr ((demo_key, \<lparr>rn_created = True, rn_receipt = snapshot (new_receipt demo_adjust_scope demo_key 40)\<rparr>),
     open_session i adjust_reserved)"
proof -
  have "reserve_or_lock demo_adjust_scope demo_key 40 first_db
      = Inr (\<lparr>rn_created = True, rn_receipt = snapshot (new_receipt demo_adjust_scope demo_key 40)\<rparr>, adjust_reserved)"
    by (simp add: reserve_or_lock_def lift_db_def insert_receipt_on_conflict_do_nothing_def receipt_simps adjust_reserved_def
        snapshot_def)
  moreover have "az_actor_subject_id (demo_scope [''ledger:write'']) = ca_subject_id demo_actor"
    by (simp add: demo_scope_def demo_actor_def)
  ultimately show ?thesis
    by (simp add: reserve_command_def demo_adjust_authorized demo_adjust_hash require_valid_def on_db_def open_session_def
        demo_adjust_fields)
qed

lemma adjust_result_ok: "CommandResult (plan_result demo_adjustment_plan positions) = Inr (plan_result demo_adjustment_plan positions)"
  if "positions = None \<or> positions = Some (1, 1)" for positions
proof -
  have "prove_json_value (lp_body demo_adjustment_plan) = Inr ()"
    unfolding demo_adjustment_plan_def created_plan_def ledger_write_plan.simps
    by (intro prove_jobj) (auto simp: juuid_def jstr_def validate_key CANONICAL_INTEGER_ABS_LIMIT_def)
  then show ?thesis using that
    by (auto simp: CommandResult_def plan_result_def demo_adjustment_plan_def created_plan_def require_valid_def is_container_def
        canonical_json_bytes_def jobj_def)
qed

lemma adjust_complete: "complete 7 demo_adjust_scope adjust_result (first_projected adjust_reserved)
  = Inr (snapshot adjust_done, adjust_completed)"
  by (simp add: complete_def lift_db_def update_receipt_def receipt_simps adjust_reserved_def first_projected_def
      first_appended_def adjust_done_def adjust_completed_def completed_receipt_def adjust_result_def plan_result_def
      demo_adjustment_plan_def created_plan_def replace_by_def event_position_key_def jobj_def)
    (simp add: first_event_def)

lemma adjust_run: "execute_financial_once demo_sha authorize_journal_write
    (plan_handler demo_adjust (build_plan demo_names demo_actor (AdjustmentRequest demo_adjustment))) demo_actor demo_key
    demo_adjust 7 50 (open_session i first_db)
  = Inr (\<lparr>co_result = adjust_result, co_replayed = False\<rparr>, (open_session i first_db)\<lparr>se_db := adjust_completed\<rparr>)"
proof -
  let ?s = "(open_session i adjust_reserved)\<lparr>se_capabilities := [(2, 50, i)]\<rparr>"
  have lock: "execute_under_book_lock 50 2 (open_session i adjust_reserved) = Inr (first_head 50, ?s)"
    by (simp add: execute_under_book_lock_def find_by_def adjust_reserved_def first_db_def open_session_def)
  have "build_plan demo_names demo_actor (AdjustmentRequest demo_adjustment) adjust_reserved (first_head 50)
      = Inr demo_adjustment_plan"
    unfolding adjust_reserved_def build_plan_reserved by (rule demo_adjustment_build)
  then have handler: "plan_handler demo_adjust (build_plan demo_names demo_actor (AdjustmentRequest demo_adjustment)) demo_adjust
      ?s (first_head 50) = Inr (demo_adjustment_plan, ?s)"
    by (simp add: plan_handler_def require_valid_def open_session_def)
  have fields: "lp_events demo_adjustment_plan = [first_pending]"
    "lp_expected_stream_versions demo_adjustment_plan = [((''journal_transaction'', 9), 0)]"
    "lp_post_projection_finalizer demo_adjustment_plan = None" "ca_subject_id demo_actor = ''a''"
    by (simp_all add: demo_adjustment_plan_def created_plan_def demo_actor_def)
  have plan: "LedgerWritePlan demo_adjustment_plan = Inr demo_adjustment_plan"
    using adjust_result_ok [of None] by (simp add: LedgerWritePlan_def require_valid_def fields)
  have append: "append_and_project demo_sha (first_head 50) [((''journal_transaction'', 9), 0)] [first_pending] ?s
      = Inr (first_range, (open_session i adjust_reserved)\<lparr>se_db := first_projected adjust_reserved\<rparr>)"
    using first_append_and_project [of ?s i 50] by (simp add: open_session_def adjust_reserved_def first_db_def)
  have res: "to_result demo_adjustment_plan first_range = Inr adjust_result"
    using adjust_result_ok [of "Some (1, 1)"] by (simp add: to_result_def adjust_result_def)
  show ?thesis
    by (simp add: execute_financial_once_def adjust_reserve lock handler plan fields append res on_db_def
        require_valid_def adjust_complete demo_adjust_fields del: build_plan.simps) (simp add: open_session_def)
qed

lemma adjust_commit: "commit adjust_completed = Inr adjust_final"
proof -
  have receipts: "v2_reject_processing_receipt adjust_completed r = Inr ()" for r
    by (simp add: v2_reject_processing_receipt_def table_checks adjust_completed_def adjust_done_def completed_receipt_def
        new_receipt_def adjust_result_def plan_result_def demo_adjustment_plan_def created_plan_def first_projected_def
        first_appended_def demo_first_event receipt_scope_of_def demo_adjust_fields adjust_reserved_def)
  have balance: "v2_validate_journal_balance adjust_completed 2 9 = Inr ()"
    by (simp add: v2_validate_journal_balance_def table_checks adjust_completed_def first_projected_def record_defs
        transaction_postings_def posting_signed_def Let_def demo_units_25 demo_first_event)
  have sync: "v2_require_sync_projection adjust_completed first_event = Inr ()"
    by (simp add: v2_require_sync_projection_def table_checks sync_types adjust_completed_def first_projected_def
        applied_key_def event_book_key_def demo_first_event)
  have defs: "deferred_checks adjust_completed = ReceiptCheck (new_receipt demo_adjust_scope demo_key 40)
     # SyncProjectionCheck first_event # TransactionBalanceCheck (transaction_record first_event 9 ''adjustment'' None)
     # map PostingBalanceCheck (map (posting_record first_event 9) (tp_postings first_posted)) @ [ReceiptCheck adjust_done]"
    by (simp add: adjust_completed_def first_projected_def adjust_reserved_def)
  show ?thesis
    unfolding commit_def defs
    by (simp add: run_deferred_def receipts balance sync adjust_final_def)
      (simp add: record_defs demo_first_event balance)
qed

lemma adjust_execute: "run_request demo_sha demo_names (AdjustmentRequest demo_adjustment) ''k'' demo_actor 3
    (\<lambda>_. demo_attempt None) first_db = (Inr \<lparr>co_result = adjust_result, co_replayed = False\<rparr>, adjust_final)"
proof -
  have "unit_of_work i None (execute_financial_once demo_sha authorize_journal_write
      (plan_handler demo_adjust (build_plan demo_names demo_actor (AdjustmentRequest demo_adjustment))) demo_actor demo_key
      demo_adjust 7 50) first_db = (Inr \<lparr>co_result = adjust_result, co_replayed = False\<rparr>, adjust_final)" for i
    unfolding unit_of_work_def adjust_run by (simp add: adjust_commit)
  moreover have "operation_ok (cm_operation demo_adjust)" by (simp add: operation_ok_def demo_adjust_fields)
  ultimately show ?thesis
    using demo_call_ok(1)
    by (simp add: run_request_def execute_financial_def run_command_ok retry.simps [of _ 3] attempt_once_def demo_attempt_def
        del: build_plan.simps)
qed

section \<open>Witnesses\<close>

lemma first_rows_keyed: "rows_keyed first_db"
  by (simp add: rows_keyed_def first_db_def account_key_def)

lemma demo_alone_attempts:
  "at_others (demo_attempt None) = (\<lambda>d. d)" "at_fault (demo_attempt None) \<noteq> Some (Unacknowledged e)"
  by (simp_all add: demo_attempt_def)

theorem request_takes_effect_witness:
  "\<exists>plan locked. build_plan demo_names demo_actor (AdjustmentRequest demo_adjustment) first_db locked = Inr plan
     \<and> lk_book_id locked = 2 \<and> book_log adjust_final 2 = book_log first_db 2 @ lp_events plan"
proof -
  have c: "constructed (AdjustmentRequest demo_adjustment)" using demo_adjustment_constructed by simp
  have b: "cm_book_id (request_command (AdjustmentRequest demo_adjustment)) = 2"
    by (simp add: adjustment_as_command_def demo_adjustment_def)
  from request_takes_effect [OF adjust_execute _ c first_reachable(1) first_rows_keyed demo_alone_attempts]
  obtain plan locked where plan: "build_plan demo_names demo_actor (AdjustmentRequest demo_adjustment) first_db locked = Inr plan"
    "lk_book_id locked = 2"
    and log: "\<forall>b. book_log adjust_final b = book_log first_db b @ (if b = lk_book_id locked then lp_events plan else [])"
    unfolding b by (auto simp del: build_plan.simps)
  have "book_log adjust_final 2 = book_log first_db 2 @ lp_events plan" using log [rule_format, of 2] plan(2) by simp
  with plan show ?thesis by blast
qed

theorem adjustment_reaches_balance_witness:
  "balance_of first_db (2, 21, ''CNY'') = 0 \<and> balance_of adjust_final (2, 21, ''CNY'') = 25"
proof -
  have c: "constructed (AdjustmentRequest demo_adjustment)" using demo_adjustment_constructed by simp
  have fields: "aj_book_id demo_adjustment = 2" "aj_account_id demo_adjustment = 21" "aj_asset_code demo_adjustment = ''CNY''"
    "aj_expected_balance demo_adjustment = ''0''" "aj_actual_balance demo_adjustment = ''0.25''" by (simp_all add: demo_adjustment_def)
  from adjustment_reaches_balance [OF adjust_execute _ c first_reachable(1) first_rows_keyed demo_alone_attempts]
  show ?thesis unfolding fields
    by (auto simp: demo_adjustment_reads demo_adjustment_balances(1,2) natural_units_def is_asset_account_def)
qed

text \<open>The adjustment taken back: the posting identifiers 11 and 12 become 13 and 14, the event is 41.\<close>

definition demo_reverse :: reverse_transaction_command where
  "demo_reverse = \<lparr>rt_book_id = 2, rt_command_id = 41, rt_reversal_transaction_id = 10, rt_reverses_transaction_id = 9,
     rt_expected_stream_version = 0, rt_reason_code = DUPLICATE, rt_effective_at = 0, rt_description_ref = None\<rparr>"

definition reverse_names :: name_uuid where
  "reverse_names _ name = (if last name = CHR ''b'' then 13 else if last name = CHR ''c'' then 14 else 41)"

definition demo_inverse :: "uuid \<Rightarrow> int \<Rightarrow> uuid \<Rightarrow> posting_side \<Rightarrow> journal_posting_fact" where
  "demo_inverse i n a side = demo_fact i n a side ''25''"

lemma demo_reverse_fields:
  "rt_book_id demo_reverse = 2" "rt_reverses_transaction_id demo_reverse = 9" "rt_reversal_transaction_id demo_reverse = 10"
  by (simp_all add: demo_reverse_def)

lemma demo_reverse_source: "load_reversal_source adjust_final 2 9 10
  = Inr \<lparr>so_transaction = transaction_record first_event 9 ''adjustment'' None, so_event = first_event,
      so_postings = tp_postings first_posted\<rparr>"
proof -
  have tables: "journal_transactions adjust_final = [transaction_record first_event 9 ''adjustment'' None]"
    "ledger_events adjust_final = [first_event]" "transaction_reversals adjust_final = []"
    by (simp_all add: adjust_final_def adjust_completed_def first_projected_def first_appended_def adjust_reserved_def first_db_def)
  have event: "event_book_key first_event = (2, 31)" "le_event_type first_event = ''JournalTransactionPosted''"
    "le_event_schema_version first_event = 1" "le_payload first_event = JournalTransactionPosted first_posted"
    by (simp_all add: first_event_def event_book_key_def)
  have row: "jt_book_id (transaction_record first_event 9 ''adjustment'' None) = 2"
    "jt_transaction_id (transaction_record first_event 9 ''adjustment'' None) = 9"
    "jt_source_event_id (transaction_record first_event 9 ''adjustment'' None) = 31"
    by (simp_all add: transaction_record_def first_event_def)
  have none: "stream_head_of adjust_final 2 (''journal_transaction'', 10) = None"
    by (simp add: stream_head_of_def adjust_final_def adjust_completed_def first_projected_def first_appended_def find_by_def
        terminal_head_def event_stream_key_def stream_head_key_def)
  have id: "tp_transaction_id first_posted = 9" by simp
  show ?thesis
    by (simp add: load_reversal_source_def ensure_transaction_id_available_def demand_def found_def transaction_of_def tables
        none find_by_def reversal_target_key_def transaction_key_def row event first_valid reversible_postings_def id)
qed

lemma demo_reverse_plan:
  "\<exists>plan. build_reverse_plan reverse_names demo_actor demo_reverse adjust_final (first_head 50) = Inr plan"
proof -
  have cards: "\<not> source_touches_credit_card_account adjust_final 2 ps" for ps
    by (simp add: source_touches_credit_card_account_def adjust_final_def adjust_completed_def first_projected_def
        first_appended_def adjust_reserved_def first_db_def)
  have hash: "bytes_hex (replicate 32 1) = concat (replicate 32 ''01'')" "CanonicalEventHash (concat (replicate 32 ''01''))"
    by code_simp+
  have str: "last (uuid_str 11) = CHR ''b''" "last (uuid_str 12) = CHR ''c''" "uuid_str 11 \<noteq> []" "uuid_str 12 \<noteq> []" by code_simp+
  let ?p = "reversal_payload_of reverse_names 10 DUPLICATE None \<lparr>so_transaction = transaction_record first_event 9 ''adjustment'' None,
      so_event = first_event, so_postings = tp_postings first_posted\<rparr>"
  have inv: "tr_inverse_postings ?p = [demo_fact 13 0 21 CREDIT ''25'', demo_fact 14 1 22 DEBIT ''25'']"
    by (simp add: reversal_payload_of_def inverse_posting_def reverse_names_def str opposite_side_def)
  have other: "tr_reversal_transaction_id ?p = 10" "tr_reverses_transaction_id ?p = 9"
     "tr_original_event_hash ?p = bytes_hex (replicate 32 1)"
    by (simp_all add: reversal_payload_of_def transaction_record_def first_event_def)
  have "validate_reversed ?p = Inr ()"
    unfolding validate_reversed_def inv other hash(1)
    by (simp add: hash(2) validate_ordered_records_def posting_fact_fields_ok_def pattern_simps upt_rec)
  then have "contract (JournalTransactionReversed ?p) = Inr (JournalTransactionReversed ?p)" by (simp add: contract_def)
  then show ?thesis
    by (simp add: build_reverse_plan_def demo_reverse_fields require_valid_def demo_reverse_source cards demand_def
        build_reversal_pending_def Let_def demo_reverse_def)
qed

theorem reversal_plan_exact_witness:
  "\<exists>event postings. find_by event_book_key (2, 31) (ledger_events adjust_final) = Some event
     \<and> source_transaction (le_payload event) = Some (9, postings)"
proof -
  from demo_reverse_plan obtain plan where
    "build_reverse_plan reverse_names demo_actor demo_reverse adjust_final (first_head 50) = Inr plan" ..
  from reversal_plan_exact [OF this, unfolded demo_reverse_fields] obtain transaction event postings where
    "transaction_of adjust_final 2 9 = Some transaction"
    "find_by event_book_key (2, jt_source_event_id transaction) (ledger_events adjust_final) = Some event"
    "source_transaction (le_payload event) = Some (9, postings)" by blast
  moreover have "journal_transactions adjust_final = [transaction_record first_event 9 ''adjustment'' None]"
    by (simp add: adjust_final_def adjust_completed_def first_projected_def)
  ultimately show ?thesis
    by (auto simp: transaction_of_def find_by_def transaction_key_def transaction_record_def first_event_def split: if_splits)
qed

theorem refund_checks_agree_witness:
  "active_refunds demo_charged 2 9 = active_refund_units demo_charged 2 9 \<and> validate_refund_capacity demo_charged 2 9 25 = Inr ()"
proof -
  have "card_row demo_charged 2 9 = Some demo_charge_row" by (simp add: card_row_def find_by_def card_key_def demo_charged_def)
  from refund_checks_agree [OF this, of 25] show ?thesis by (simp add: active_refund_units_def demo_charged_def active_refund_def)
qed

text \<open>The verifier on the database after the adjustment.\<close>

lemma adjust_final_tables:
  "ledger_events adjust_final = [first_event]" "deferred_checks adjust_final = []"
  "journal_transactions adjust_final = [transaction_record first_event 9 ''adjustment'' None]"
  "journal_postings adjust_final = map (posting_record first_event 9) (tp_postings first_posted)"
  "account_balances adjust_final = [demo_balance 21 25 1, demo_balance 22 (-25) 1]"
  by (simp_all add: adjust_final_def adjust_completed_def first_projected_def first_appended_def adjust_reserved_def first_db_def)

lemma adjust_final_written: "ledger_reachable demo_sha adjust_final" "projected adjust_final"
proof -
  have same: "same_ledger first_db adjust_reserved" "same_journal first_db adjust_reserved"
    by (simp_all add: same_ledger_def same_journal_def adjust_reserved_def first_db_def)
  have "append_batch demo_sha 2 [((''journal_transaction'', 9), 0)] [first_pending] adjust_reserved =
     Inr (\<lparr>ar_start = 1, ar_stop = 2, ar_terminal_hash = replicate 32 1, ar_event_ids = [31]\<rparr>, first_appended adjust_reserved)"
    by (rule first_append) (simp_all add: adjust_reserved_def first_db_def)
  with first_reachable(1) same(1) have "ledger_reachable demo_sha (first_appended adjust_reserved)"
    by (blast intro: ledger_reachable.intros)
  then show "ledger_reachable demo_sha adjust_final"
    by (rule ledger_reachable.elsewhere) (simp add: same_ledger_def adjust_final_def adjust_completed_def first_projected_def)
  have "same_journal adjust_reserved (first_appended adjust_reserved)" by (auto simp: same_journal_def first_appended_def)
  with first_reachable(2) same(2) have "projected (first_appended adjust_reserved)" by (blast intro: projected.intros)
  moreover have "apply_stored first_event (first_appended adjust_reserved) = Inr
     (\<lparr>pr_event_id = 31, pr_required = True, pr_applied = True, pr_projection_version = Some 1\<rparr>, first_projected adjust_reserved)"
    by (rule first_apply) (simp_all add: adjust_reserved_def first_db_def)
  ultimately have "projected (first_projected adjust_reserved)" by (rule projected.project)
  moreover have "same_journal (first_projected adjust_reserved) adjust_completed" by (auto simp: same_journal_def adjust_completed_def)
  ultimately have "projected adjust_completed" by (rule projected.elsewhere)
  then show "projected adjust_final" using adjust_commit by (rule projected.commit)
qed

lemma adjust_final_fits: "row_numbers_fit adjust_final"
  "\<forall>e\<in>set (ledger_events adjust_final). validate_payload (le_payload e) = Inr ()"
proof -
  show "row_numbers_fit adjust_final"
    by (simp add: row_numbers_fit_def adjust_final_tables transaction_record_def posting_record_def first_event_def
        CANONICAL_INTEGER_ABS_LIMIT_def)
  have "validate_posted first_posted = Inr ()" by code_simp
  then show "\<forall>e\<in>set (ledger_events adjust_final). validate_payload (le_payload e) = Inr ()"
    by (simp add: adjust_final_tables) (simp add: first_event_def)
qed

theorem written_ledger_passes_witness:
  "\<exists>report. verify_v2_ledger demo_sha (\<lambda>_. ''t'') code_points 0 adjust_final = Inr report \<and> vr_status report = ''PASS''"
  using written_ledger_passes [OF adjust_final_written adjust_final_tables(2) adjust_final_fits(2,1)] by blast

text \<open>With one open projection failure the same database does not pass.\<close>

theorem verifier_decides_witness:
  "\<exists>report. verify_v2_ledger demo_sha (\<lambda>_. ''t'') code_points 1 adjust_final = Inr report \<and> vr_status report \<noteq> ''PASS''"
proof -
  from verifier_returns [OF adjust_final_fits(1)] obtain report where
    report: "verify_v2_ledger demo_sha (\<lambda>_. ''t'') code_points 1 adjust_final = Inr report" by blast
  have "distinct (map balance_key (account_balances adjust_final))" by (simp add: adjust_final_tables balance_key_def)
  from verifier_decides [OF report this] report show ?thesis by auto
qed

end
