(* ===== verification/Summary_Example.thy ===== *)
theory Summary_Example
  imports Summary_Tracking Adjustment_Example
begin

text \<open>
  The worker on the ledger of the adjustment: one run projects its only event and activates generation 1. The witnesses of
  the properties of the monthly summary.
\<close>

definition shown_generation :: "string \<Rightarrow> int \<Rightarrow> projection_generation_record" where
  "shown_generation state position = \<lparr>gn_book_id = 2, gn_generation = 1, gn_state = state, gn_rebuild_from_position = 1,
     gn_last_book_position = position, gn_target_book_position = 1\<rparr>"

definition shown_checkpoint :: projection_checkpoint_record where
  "shown_checkpoint = \<lparr>kp_book_id = 2, kp_last_book_position = 1, kp_active_generation = 1\<rparr>"

definition shown :: projections_db where
  "shown = no_projections\<lparr>projection_checkpoints := [shown_checkpoint], projection_generations := [shown_generation ''active'' 1]\<rparr>"

lemma adjust_final_settled: "settled demo_sha adjust_final"
proof -
  have "journal_written (first_appended adjust_reserved)"
    by (rule journal_written.start) (simp_all add: first_appended_def adjust_reserved_def first_db_def)
  moreover have "first_event \<in> set (ledger_events (first_appended adjust_reserved))" by (simp add: first_appended_def)
  moreover have "apply_stored first_event (first_appended adjust_reserved) = Inr
     (\<lparr>pr_event_id = 31, pr_required = True, pr_applied = True, pr_projection_version = Some 1\<rparr>, first_projected adjust_reserved)"
    by (rule first_apply) (simp_all add: adjust_reserved_def first_db_def)
  ultimately have "journal_written (first_projected adjust_reserved)" by (rule journal_written.project)
  then have "journal_written adjust_final"
    by (rule journal_written.elsewhere) (simp_all add: adjust_final_def adjust_completed_def)
  moreover have "applied_events adjust_final = [demo_marker 31]"
    by (simp add: adjust_final_def adjust_completed_def first_projected_def)
  ultimately show ?thesis
    using adjust_final_written(1)
    by (simp add: settled_def adjust_final_tables event_book_key_def applied_key_def first_event_def)
qed

lemma epoch_date: "utc_date 0 = Inr (1970, 1, 1)"
  by code_simp

lemma adjust_final_reads:
  "find_by hd_book_id 2 (book_event_heads adjust_final) = Some \<lparr>hd_book_id = 2, hd_last_position = 1, hd_last_hash = replicate 32 1\<rparr>"
  "bk_book_id ` set (books adjust_final) = {2}" "event_at adjust_final 2 1" "book_events adjust_final 2 = [first_event]"
  by (simp_all add: adjust_final_def adjust_completed_def first_projected_def first_appended_def adjust_reserved_def first_db_def
      find_by_def event_at_def book_events_def first_event_def)

lemma first_event_fields: "le_book_id first_event = 2" "le_book_position first_event = 1" "le_event_id first_event = 31"
  "le_effective_at first_event = 0" "le_payload first_event = JournalTransactionPosted first_posted"
  "validate_stored (le_event_type first_event) (le_event_schema_version first_event) (JournalTransactionPosted first_posted)
     = Inr (JournalTransactionPosted first_posted)"
  by (simp_all add: first_event_def) (simp add: first_valid)

lemma shown_replay: "cold_replay_monthly_summary adjust_final 2 (Some 1) = Inr []"
proof -
  have "replay_records adjust_final 2 (Some 1) = [first_event]"
    by (simp add: replay_records_take [OF settled_in_order [OF adjust_final_settled]] adjust_final_reads)
  then show ?thesis
    by (simp add: cold_replay_monthly_summary_def replay_event_def first_event_fields epoch_date values_by_period_def
        replay_totals_def empty_replay_def)
qed

lemma shown_lock: "lock_projection_state adjust_final 2 1 no_projections = Inr
   (\<lparr>sp_checkpoint = None, sp_generation = shown_generation ''building'' 0, sp_is_new = True\<rparr>,
    no_projections\<lparr>projection_generations := [shown_generation ''building'' 0], active_checks := [2]\<rparr>)"
  by (simp add: lock_projection_state_def no_projections_def find_by_def next_generation_def building_generation_def
      insert_generation_def v2_validate_projection_generation_update_def generation_row_ok_def result_simps bigint_def
      adjust_final_reads lift_pdb_def shown_generation_def Let_def)

lemma shown_months: "affected_periods adjust_final first_event = Inr [(1970, 1, 1)]" "next_month (1970, 1, 1) = Inr (1970, 2, 1)"
  by (simp_all add: affected_periods_def first_event_fields reporting_target_def epoch_date month_start_def next_month_def)

abbreviation shown_state :: locked_projection_state where
  "shown_state \<equiv> \<lparr>sp_checkpoint = None, sp_generation = shown_generation ''building'' 0, sp_is_new = True\<rparr>"

abbreviation shown_building :: "projection_dirty_period_record list \<Rightarrow> projections_db" where
  "shown_building dirty \<equiv> no_projections\<lparr>projection_generations := [shown_generation ''building'' 0],
     projection_dirty_periods := dirty, active_checks := [2]\<rparr>"

abbreviation shown_month :: projection_dirty_period_record where
  "shown_month \<equiv> \<lparr>dp_book_id = 2, dp_generation = 1, dp_period_start = (1970, 1, 1), dp_period_end = (1970, 2, 1),
     dp_source_event_id = 31, dp_source_book_position = 1\<rparr>"

lemma shown_mark: "mark_dirty_periods adjust_final shown_state [first_event] (shown_building [])
  = Inr ([(1970, 1, 1)], shown_building [shown_month])"
proof -
  have "latest_by_period adjust_final [first_event] = Inr [((1970, 1, 1), first_event)]"
    by (simp add: latest_by_period_def shown_months note_latest_def)
  moreover have "upsert_dirty_period adjust_final shown_month (shown_building []) = Inr (shown_building [shown_month])"
    by (simp add: upsert_dirty_period_def v2_validate_dirty_period_source_def result_simps adjust_final_tables first_event_fields
        find_by_def generation_key_def shown_generation_def no_projections_def)
  ultimately show ?thesis
    by (simp add: mark_dirty_periods_def mark_dirty_period_def shown_months first_event_fields lift_pdb_def shown_generation_def)
qed

lemma shown_replace: "replace_periods adjust_final 2 1 [(1970, 1, 1)] 1 (shown_building [shown_month]) = Inr (shown_building [shown_month])"
  by (simp add: replace_periods_def shown_replay replace_period_def period_values_def insert_summaries_def delete_summaries_def
      lift_pdb_def no_projections_def)

lemma shown_activate: "activate_or_advance adjust_final shown_state 1 (shown_building [shown_month])
  = Inr (shown\<lparr>projection_dirty_periods := [shown_month], active_checks := [2, 2, 2, 2]\<rparr>)"
  by (simp add: activate_or_advance_def shown_generation_def update_generation_def v2_validate_projection_generation_update_def
      generation_transition_def generation_row_ok_def result_simps bigint_def adjust_final_reads lift_pdb_def no_projections_def
      replace_by_def generation_key_def insert_checkpoint_def checkpoint_row_ok_def shown_def shown_checkpoint_def)

lemma shown_commit: "commit_projections adjust_final (shown\<lparr>active_checks := [2, 2, 2, 2]\<rparr>) = Inr shown"
  by (simp add: commit_projections_def fk_active_generation_def v2_validate_active_projection_generation_def find_by_def
      active_generations_def shown_def shown_checkpoint_def shown_generation_def no_projections_def result_simps
      generation_key_def adjust_final_reads)

lemma shown_run: "run_once 500 60 adjust_final 2 no_projections = Inr
   (\<lparr>rp_processed_events = 1, rp_last_book_position = 1, rp_paused = False\<rparr>, shown)"
proof -
  have read: "read_after adjust_final 2 0 500 = Inr [first_event]"
    by (simp add: read_after_def adjust_final_tables first_event_fields)
  have start: "no_projections\<lparr>projection_generations := [shown_generation ''building'' 0], active_checks := [2]\<rparr> = shown_building []"
    by (simp add: no_projections_def)
  have generation: "gn_generation (shown_generation x n) = 1" "gn_book_id (shown_generation x n) = 2" for x n
    by (simp_all add: shown_generation_def)
  have none: "checkpoint_position no_projections 2 = 0" "\<not> paused_failure no_projections 2"
    by (simp_all add: checkpoint_position_def paused_failure_def find_by_def no_projections_def)
  have "project_batch 60 adjust_final 2 0 [first_event] no_projections = Inr
     (\<lparr>rp_processed_events = 1, rp_last_book_position = 1, rp_paused = False\<rparr>, shown\<lparr>active_checks := [2, 2, 2, 2]\<rparr>)"
    by (simp add: project_batch_def Let_def first_event_fields shown_lock start is_registered_event_def shown_mark shown_replace
        shown_activate generation clear_dirty_periods_def)
      (simp add: shown_def no_projections_def)
  then show ?thesis
    by (simp add: run_once_def adjust_final_reads Let_def read shown_commit lift_pdb_def none)
qed

lemma shown_reachable: "summaries_reachable demo_sha adjust_final no_projections" "summaries_reachable demo_sha adjust_final shown"
  using summaries_reachable.start [OF adjust_final_settled] summaries_reachable.worker [OF _ shown_run] by simp_all

theorem summaries_are_replays_witness:
  "\<exists>replay. cold_replay_monthly_summary adjust_final 2 (Some 1) = Inr replay
     \<and> (\<forall>period. mset (read_monthly_summary code_points 2 period shown) = mset (period_values replay period))"
proof -
  have "find_by kp_book_id 2 (projection_checkpoints shown) = Some shown_checkpoint"
    by (simp add: shown_def shown_checkpoint_def find_by_def)
  from summaries_are_replays [OF shown_reachable(2) this] show ?thesis by (simp add: shown_checkpoint_def)
qed

theorem checkpoint_is_exact_witness:
  "worker_runs 500 adjust_final 2 no_projections [60] = (shown, 1, 1) \<and> checkpoint_position shown 2 = 1"
proof -
  have w: "worker_runs 500 adjust_final 2 no_projections [60] = (shown, 1, 1)" by (simp add: shown_run)
  from checkpoint_is_exact [OF shown_reachable(1) w] w show ?thesis
    by (simp add: adjust_final_reads checkpoint_position_def find_by_def no_projections_def)
qed

text \<open>The same journal with its event effective in the last month of the calendar.\<close>

definition last_month_db :: db where
  "last_month_db = adjust_final\<lparr>ledger_events := [first_event\<lparr>le_effective_at := 253402214400000000\<rparr>]\<rparr>"

lemma last_month_date: "utc_date 253402214400000000 = Inr (9999, 12, 31)"
  by (simp add: utc_date_def Let_def instant_ordinal_def MICROSECONDS_PER_DAY_def EPOCH_ORDINAL_def MAX_ORDINAL_def
      ord2ymd_def month_of_def common_days_before_month.simps)

theorem december_9999_stops_worker_witness:
  "\<nexists>res pdb. run_once 500 60 last_month_db 2 no_projections = Inr (res, pdb) \<and> \<not> rp_paused res"
proof -
  let ?event = "first_event\<lparr>le_effective_at := 253402214400000000\<rparr>"
  have "checkpoint_position no_projections 2 = 0" by (simp add: checkpoint_position_def find_by_def no_projections_def)
  then have read: "read_after last_month_db 2 (checkpoint_position no_projections 2) 500 = Inr [?event]"
    by (simp add: read_after_def last_month_db_def first_event_fields)
  have "reporting_target (le_payload ?event) = None" by (simp add: first_event_fields reporting_target_def)
  note stops = december_9999_stops_worker [OF read _ this, of 31]
  show ?thesis
  proof (intro notI, elim exE conjE)
    fix res pdb assume "run_once 500 60 last_month_db 2 no_projections = Inr (res, pdb)" "\<not> rp_paused res"
    with stops [of 60 res pdb] last_month_date show False by simp
  qed
qed

end
