(* ===== verification/Spec2Isabelle.thy ===== *)
theory Spec2Isabelle
  imports Summary_Example
begin

text \<open>
  A verification of the core of track-anywhere: the accounting ledger under src/backend/app/track\_anywhere.

  \<^bold>\<open>The program.\<close> A user's Book is an append-only log of financial events. A command (application/journal,
  application/credit\_cards, application/investments) is checked, reads the catalog and the journal, and builds a plan: the events to
  append and the streams it expects. The command bus (application/command\_bus.py) runs it once: it authorizes, reserves a receipt under
  the idempotency key (infrastructure/db/command\_receipts.py), locks the Book, lets the handler plan, appends the events to the log
  (infrastructure/db/event\_store.py: positions without gaps, a SHA-256 hash chain, optimistic stream versions) and projects each event in
  the same transaction to the journal tables (infrastructure/projections/synchronous*). PostgreSQL constraints and triggers
  (alembic/versions) guard every row; deferred ones run at commit. A transaction that fails is rolled back and retried within a bound. A
  second, asynchronous projector keeps a monthly summary of categories (infrastructure/projections), and a verifier
  (verification.py) audits a whole database.

  \<^bold>\<open>The theories.\<close>
  \<^item> Ledger\_Prelude: results, folds over results, counters, the collections of rewrite rules.
  \<^item> Money (domain/money): scaled units, the parser and the renderer of amounts. Utc\_Time and Canonical\_JSON
    (serialization/canonical\_json.py): calendar, timestamps, canonical bytes. Event\_Hash: the envelope and the hash of an event.
  \<^item> Journal\_Model, Journal\_Validator (domain/journal): transactions, catalogs, the validator and its exceptions.
    Event\_Contracts (domain/*/events.py, domain/privacy.py, serialization/event\_registry.py): the eight event classes and the stored-event registry.
    Lot\_Allocation (domain/investments/allocation.py): lots, reducer, planner.
  \<^item> Relational, Ledger\_Db, Event\_Tables, Projection\_Tables: rows, statements, and the tables with their constraints and triggers
    (infrastructure/db/models, alembic v2\_0003, v2\_0004, v2\_0006, v2\_0010).
  \<^item> Event\_Store (application/event\_batch.py, infrastructure/db/event\_store.py), Projector, Journal\_Projection, Projection\_Safety,
    Card\_Safety (synchronous.py and synchronous\_appliers).
  \<^item> Idempotency, Command\_Receipts, Ledger\_Committer, Command\_Bus, Command\_Safety (application/idempotency.py, command\_receipts.py,
    ledger\_committer.py, command\_bus.py, unit\_of\_work.py).
  \<^item> Catalog\_Reads, Journal\_Commands, Reversal\_Commands, Reporting\_Commands, Fx\_Commands, Card\_Commands, Lot\_Commands: the thirteen
    financial commands, each with constructor, canonical payload, handler and entry point. Command\_Plans and Command\_Effects put them
    together: \<open>request\<close> is any of the commands, \<open>run_request\<close> its execution; Adjustment\_Example runs one from request to commit.
  \<^item> Ledger\_Verifier (verification.py).
  \<^item> Monthly\_Summary, Async\_Tables, Projection\_Worker, Summary\_Replay, Summary\_Tracking, Summary\_Example: the asynchronous projector
    (infrastructure/projections, alembic v2\_0005 and v2\_0007).

  \<^bold>\<open>How the code is rendered.\<close> A dataclass is a record, an enum or union a datatype, and its constructor a function of the
  same name that returns the error or the value; the checks of the runtime types are the types of HOL. A raise is \<open>Inl\<close> of an error that
  keeps the class of the exception and the arguments the code branches on, not the wording. Python integers are \<open>int\<close>, the columns' ranges
  are checked where a row is admitted. Strings are lists of characters; an aware datetime is an instant, in microseconds. UUIDs are
  128-bit words. Bytes are 8-bit words.
  A database is a record of tables, a table the list of its rows; a statement checks widths, triggers, check and unique constraints row by row
  and the foreign keys at its end, and one flush is one statement per table in the order the code touches them. A stored payload
  is the value of its contract class, so that parsing a stored payload is validation; JSONB equality is equality of values. Row and
  advisory locks make the transactions of a Book serial, so a transaction is a function of the database it finds (the worker and the
  rebuilder lock the same rows, though their advisory keys differ). \<open>global_sequence\<close>, \<open>recorded_at\<close>, \<open>created_at\<close> and other
  columns the database fills in are left out, with the triggers' comparisons of them.
  Arguments stand for what the code calls and does not define: \<open>sha256\<close>, \<open>uuid5\<close> (\<open>name_uuid\<close>), fresh tokens and identifiers, the clock,
  \<open>isoformat\<close>, the collation of the database, and the faults of an attempt (it aborts, or it commits and the reply is lost; other
  clients may commit before it). Nothing is assumed of SHA-256: what rests on it says "or here are two preimages with one hash".

  \<^bold>\<open>What the lemmas show.\<close> The lemmas named after an operation with the suffix Inr say what its success means, branch by branch. On them
  rest the invariants by rule induction: \<open>ledger_reachable\<close> for the log and the heads, \<open>projected\<close> for the journal, \<open>summaries_reachable\<close>
  for the summaries. The locales are the contracts between parts. \<open>checked_loop\<close> (Ledger\_Prelude): a step that keeps an invariant, for
  a loop that stops at the first error; interpreted by the append loop of the event store, the lot disposal and the lot reducer.
  \<open>keyed_table\<close> (Relational): a table promises unique keys and that inserting appends; interpreted by the four keys of the event table
  and by the summaries. \<open>projection_writes\<close> (Projection\_Safety): what every statement of the appliers respects holds of a whole
  application; interpreted for the frame, the growth of the reversals and of the journal, and the card tables. \<open>receipt_store\<close>
  (Command\_Receipts): what reserving and completing promise of a receipt; interpreted by the receipt repository.
  \<open>receipted_command\<close> (Command\_Safety): what the bus needs of the body of a command; interpreted by the plain and the financial body.
  The texts before the theorems state the properties.

  \<^bold>\<open>Bounds.\<close> The retry loop of the bus runs on the number of attempts left, at most ten as the code requires; every other loop is
  structural. There is no fuel.

  \<^bold>\<open>Not modelled, and why.\<close> Three more financial handlers run through the same bus: the gateway for everyday entries
  (application/entries), which compiles a form into the events of the modelled commands, the repairs of misclassified expenses
  (application/repairs) and the import of frozen history (application/imports). "Every command" means the thirteen modelled ones.
  The HTTP and MCP adapters, sessions, OAuth and device login, rate limits and the queries (transport, SQL
  reads and framework code); the CLI, the offline queue and the frontend (other programs); the tools of the import; protected content and cryptography (a vault of ciphertexts the ledger only refers to); the administration of catalogs and of
  payment instruments, the outbox, metrics. Of verification.py the read-back facts of one Book, of
  event\_registry.py the schema generation and the upcasters. Upgrades and access control of the migrations.
\<close>

end
